(* ===== verification/Kernel_Prelude.thy ===== *)
theory Kernel_Prelude
  imports Main "HOL-Library.Word"
begin

unbundle bit_operations_syntax

text \<open>
  The vocabulary shared by every component of the kernel model: machine integers at their C
  widths, the outcome of a C call (it returns, the kernel panics, or it never returns), the calls
  a component makes on the console, first-fit search in a fixed table of slots, and the facts on
  words, lists and options that the component proofs use.

  Conventions of the translation:
  \<^item> unsigned C integers and pointers are words of their width, so that \<open>+\<close> wraps as in C; the
    null pointer is the word 0;
  \<^item> signed C integers are \<^typ>\<open>int\<close>, since their overflow is undefined in C;
  \<^item> a NUL-terminated character array is the \<^typ>\<open>string\<close> before its NUL, a \<open>const char *\<close>
    argument that may be null is a \<^typ>\<open>string option\<close>;
  \<^item> \<open>panic\<close> never returns, so a call that panics has no result state.
\<close>

section \<open>Machine integers\<close>

type_synonym u8 = "8 word"
type_synonym u16 = "16 word"
type_synonym u32 = "32 word"
type_synonym u64 = "64 word"
type_synonym addr = "64 word"
type_synonym ram = "64 word \<Rightarrow> 8 word"

section \<open>Outcomes of calls\<close>

datatype 'a outcome = Ret 'a | Panic string | Diverge

definition bind_outcome :: "'a outcome \<Rightarrow> ('a \<Rightarrow> 'b outcome) \<Rightarrow> 'b outcome" where
  "bind_outcome r f = (case r of Ret x \<Rightarrow> f x | Panic m \<Rightarrow> Panic m | Diverge \<Rightarrow> Diverge)"

lemma bind_outcome_simps [simp]:
  "bind_outcome (Ret x) f = f x"
  "bind_outcome (Panic m) f = Panic m"
  "bind_outcome Diverge f = Diverge"
  by (simp_all add: bind_outcome_def)

lemma bind_outcome_Ret_iff:
  "bind_outcome r f = Ret y \<longleftrightarrow> (\<exists>x. r = Ret x \<and> f x = Ret y)"
  by (cases r) auto

lemma bind_outcome_assoc:
  "bind_outcome (bind_outcome r f) g = bind_outcome r (\<lambda>x. bind_outcome (f x) g)"
  by (cases r) auto

definition of_option :: "'a option \<Rightarrow> 'a outcome" where
  "of_option x = (case x of None \<Rightarrow> Diverge | Some y \<Rightarrow> Ret y)"

lemma of_option_simps [simp]:
  "of_option None = Diverge"
  "of_option (Some y) = Ret y"
  by (simp_all add: of_option_def)

lemma of_option_Ret_iff [simp]: "of_option x = Ret y \<longleftrightarrow> x = Some y"
  by (cases x) auto

section \<open>Calls on the console\<close>

text \<open>
  A component that reports on the console does so through four calls. They are recorded in order
  as values, with their arguments at the width the callee takes them.
\<close>

datatype con_call = Con_puts string | Con_putc char | Con_udec u32 | Con_uhex u64

section \<open>First-fit search in a table of slots\<close>

text \<open>The loops \<^verbatim>\<open>for (i = 0; i < N; ++i) if (P(t[i])) return i;\<close> of the kernel's fixed tables.\<close>

fun find_slot :: "('a \<Rightarrow> bool) \<Rightarrow> 'a list \<Rightarrow> nat option" where
  "find_slot P [] = None"
| "find_slot P (x # xs) = (if P x then Some 0 else map_option Suc (find_slot P xs))"

lemma find_slot_SomeD:
  "find_slot P xs = Some i \<Longrightarrow> i < length xs \<and> P (xs ! i) \<and> (\<forall>j<i. \<not> P (xs ! j))"
proof (induction xs arbitrary: i)
  case (Cons x xs)
  then show ?case
    by (cases i) (auto simp: less_Suc_eq_0_disj split: if_splits)
qed simp

lemma find_slot_None_iff: "find_slot P xs = None \<longleftrightarrow> (\<forall>x\<in>set xs. \<not> P x)"
  by (induction xs) auto

lemma find_slot_None_nth: "find_slot P xs = None \<longleftrightarrow> (\<forall>i<length xs. \<not> P (xs ! i))"
  by (simp add: find_slot_None_iff all_set_conv_all_nth)

lemma find_slot_Some_iff:
  "find_slot P xs = Some i \<longleftrightarrow> i < length xs \<and> P (xs ! i) \<and> (\<forall>j<i. \<not> P (xs ! j))"
proof
  assume r: "i < length xs \<and> P (xs ! i) \<and> (\<forall>j<i. \<not> P (xs ! j))"
  then have "find_slot P xs \<noteq> None"
    by (auto simp: find_slot_None_nth)
  then obtain k where k: "find_slot P xs = Some k" by auto
  from find_slot_SomeD [OF k] r have "k = i"
    by (metis nat_neq_iff)
  with k show "find_slot P xs = Some i" by simp
qed (rule find_slot_SomeD)

lemma find_slot_replicate [simp]:
  "find_slot P (replicate n x) = (if P x \<and> 0 < n then Some 0 else None)"
  by (induction n) auto

section \<open>Words\<close>

named_theorems word_nat \<open>reading word arithmetic as arithmetic on natural numbers\<close>

lemmas word_nat_basic [word_nat] = word_le_nat_alt word_less_nat_alt unat_plus_if' unat_sub_if'

lemma unat_lt_2p64 [simp]: "unat (x :: 64 word) < 18446744073709551616"
  using unsigned_less [of x] by simp

lemma unat_lt_2p32 [simp]: "unat (x :: 32 word) < 4294967296"
  using unsigned_less [of x] by simp

lemma unat_lt_2p16 [simp]: "unat (x :: 16 word) < 65536"
  using unsigned_less [of x] by simp

lemma unat_lt_2p8 [simp]: "unat (x :: 8 word) < 256"
  using unsigned_less [of x] by simp

text \<open>Widening keeps the value.\<close>

lemma unat_ucast_up:
  assumes "LENGTH('a) \<le> LENGTH('b)"
  shows "unat (ucast (x :: 'a :: len word) :: 'b :: len word) = unat x"
proof -
  have "unat x < 2 ^ LENGTH('a)" by (rule unsigned_less)
  also have "\<dots> \<le> 2 ^ LENGTH('b)" using assms by simp
  finally show ?thesis by (simp add: unsigned_ucast_eq take_bit_nat_eq_self)
qed

lemma unat_ucast_widen [simp]:
  "unat (ucast (x :: u8) :: u16) = unat x" "unat (ucast (x :: u8) :: u32) = unat x" "unat (ucast (x :: u8) :: u64) = unat x"
  "unat (ucast (y :: u16) :: u32) = unat y" "unat (ucast (y :: u16) :: u64) = unat y" "unat (ucast (z :: u32) :: u64) = unat z"
  by (simp_all add: unat_ucast_up)

lemma unat_add64:
  "unat a + unat b < 18446744073709551616 \<Longrightarrow> unat (a + b :: 64 word) = unat a + unat b"
  by (simp add: unat_plus_if')

lemma unat_diff64: "unat b \<le> unat a \<Longrightarrow> unat (a - b :: 64 word) = unat a - unat b"
  by (simp add: unat_sub word_le_nat_alt)

lemma unat_of_nat64: "n < 18446744073709551616 \<Longrightarrow> unat (of_nat n :: 64 word) = n"
  by (simp add: unat_of_nat take_bit_nat_eq_self_iff)

lemma sint_small64:
  assumes "unat (n :: 64 word) < 9223372036854775808"
  shows "sint n = uint n"
proof -
  have e: "uint n = int (unat n)" by simp
  have "int (unat n) < 9223372036854775808" using assms by linarith
  then have lt: "uint n < 2 ^ 63" unfolding e by simp
  have "(- (2 ^ 63) :: int) \<le> 0" by simp
  also have "0 \<le> uint n" by simp
  finally have "signed_take_bit 63 (uint n) = uint n" using lt by (rule signed_take_bit_int_eq_self)
  then show ?thesis by (simp add: sint_uint)
qed

subsection \<open>Rounding up to a power of two\<close>

lemma unat_and_not_mask:
  "unat (x AND NOT (mask n) :: 'a::len word) = unat x - unat x mod 2 ^ n"
proof -
  have "take_bit n x + (x AND NOT (mask n)) = x"
    by (metis (no_types, lifting) bit.conj_disj_distrib bit.de_Morgan_conj bit.de_Morgan_disj
        disjunctive_add_eq_or take_bit_eq_mask word_and_not word_ao_absorbs(2) word_not_not)
  then have "x AND NOT (mask n) = x - take_bit n x"
    by (metis add_diff_cancel_left')
  moreover have "take_bit n x \<le> x"
    by (simp add: take_bit_eq_mask word_and_le2)
  moreover have "unat (take_bit n x) = unat x mod 2 ^ n"
    by (metis take_bit_eq_mod unsigned_take_bit_eq)
  ultimately show ?thesis
    by (simp only: unat_sub)
qed

end
