(* ===== verification/Memutils.thy ===== *)
theory Memutils
  imports Kernel_Prelude "HOL-Library.Sublist"
begin

unbundle bit_operations_syntax

text \<open>
  The freestanding memory and string routines of \<^verbatim>\<open>kernel/memutils.c\<close>, on a byte-addressed
  memory. A loop over a fixed count is a fold over its indices; a loop that runs until it meets a
  NUL is a \<^theory_text>\<open>partial_function\<close>, whose value \<^term>\<open>None\<close> stands for not returning. The
  lemmas give the copy and fill routines their effect on every byte, and tie the string routines
  to the strings that memory holds.
\<close>

section \<open>The routines\<close>

definition memcpy :: "addr \<Rightarrow> addr \<Rightarrow> u64 \<Rightarrow> ram \<Rightarrow> ram" where
  "memcpy dst src n m =
     fold (\<lambda>i m. m(dst + of_nat i := m (src + of_nat i))) [0..<unat n] m"

definition memset :: "addr \<Rightarrow> int \<Rightarrow> u64 \<Rightarrow> ram \<Rightarrow> ram" where
  "memset dst val n m = fold (\<lambda>i m. m(dst + of_nat i := of_int val)) [0..<unat n] m"

definition memmove :: "addr \<Rightarrow> addr \<Rightarrow> u64 \<Rightarrow> ram \<Rightarrow> ram" where
  "memmove dst src n m =
     (if dst < src then
        fold (\<lambda>i m. m(dst + of_nat i := m (src + of_nat i))) [0..<unat n] m
      else if src < dst then
        fold (\<lambda>i m. m(dst + of_nat i := m (src + of_nat i))) (rev [0..<unat n]) m
      else m)"

fun memcmp_loop :: "ram \<Rightarrow> addr \<Rightarrow> addr \<Rightarrow> nat list \<Rightarrow> int" where
  "memcmp_loop m a b [] = 0"
| "memcmp_loop m a b (i # is) =
     (if m (a + of_nat i) \<noteq> m (b + of_nat i)
      then uint (m (a + of_nat i)) - uint (m (b + of_nat i))
      else memcmp_loop m a b is)"

definition memcmp :: "ram \<Rightarrow> addr \<Rightarrow> addr \<Rightarrow> u64 \<Rightarrow> int" where
  "memcmp m s1 s2 n = memcmp_loop m s1 s2 [0..<unat n]"

fun strncmp_loop :: "ram \<Rightarrow> addr \<Rightarrow> addr \<Rightarrow> nat list \<Rightarrow> int" where
  "strncmp_loop m s1 s2 [] = 0"
| "strncmp_loop m s1 s2 (i # is) =
     (let c1 = m (s1 + of_nat i); c2 = m (s2 + of_nat i) in
      if c1 \<noteq> c2 then uint c1 - uint c2
      else if c1 = 0 then 0
      else strncmp_loop m s1 s2 is)"

definition strncmp :: "ram \<Rightarrow> addr \<Rightarrow> addr \<Rightarrow> u64 \<Rightarrow> int" where
  "strncmp m s1 s2 n = strncmp_loop m s1 s2 [0..<unat n]"

partial_function (option) strcmp :: "ram \<Rightarrow> addr \<Rightarrow> addr \<Rightarrow> int option" where
  "strcmp m s1 s2 =
     (if m s1 \<noteq> 0 \<and> m s1 = m s2 then strcmp m (s1 + 1) (s2 + 1)
      else Some (uint (m s1) - uint (m s2)))"

partial_function (option) strlen_loop :: "ram \<Rightarrow> addr \<Rightarrow> u64 \<Rightarrow> u64 option" where
  "strlen_loop m s len = (if m (s + len) \<noteq> 0 then strlen_loop m s (len + 1) else Some len)"

definition strlen :: "ram \<Rightarrow> addr \<Rightarrow> u64 option" where
  "strlen m s = strlen_loop m s 0"

partial_function (option) strchr :: "ram \<Rightarrow> addr \<Rightarrow> int \<Rightarrow> addr option" where
  "strchr m s c =
     (if m s \<noteq> 0 then if m s = of_int c then Some s else strchr m (s + 1) c
      else Some 0)"

text \<open>The inner loop of \<open>strstr\<close> returns the position in the needle where it stops.\<close>

partial_function (option) strstr_match :: "ram \<Rightarrow> addr \<Rightarrow> addr \<Rightarrow> addr option" where
  "strstr_match m h n =
     (if m h \<noteq> 0 \<and> m n \<noteq> 0 \<and> m h = m n then strstr_match m (h + 1) (n + 1) else Some n)"

partial_function (option) strstr_loop :: "ram \<Rightarrow> addr \<Rightarrow> addr \<Rightarrow> addr option" where
  "strstr_loop m haystack needle =
     (if m haystack = 0 then Some 0
      else Option.bind (strstr_match m haystack needle)
        (\<lambda>n. if m n = 0 then Some haystack else strstr_loop m (haystack + 1) needle))"

definition strstr :: "ram \<Rightarrow> addr \<Rightarrow> addr \<Rightarrow> addr option" where
  "strstr m haystack needle =
     (if m needle = 0 then Some haystack else strstr_loop m haystack needle)"

text \<open>The two routines compiled code may call: a failed assertion stops in a loop, and the checked copy copies.\<close>

definition assert_fail :: "addr \<Rightarrow> addr \<Rightarrow> u32 \<Rightarrow> addr \<Rightarrow> ram \<Rightarrow> ram outcome" where
  "assert_fail expr file line func m = Diverge"

definition memcpy_chk :: "addr \<Rightarrow> addr \<Rightarrow> u64 \<Rightarrow> u64 \<Rightarrow> ram \<Rightarrow> ram" where
  "memcpy_chk dst src n destlen m = memcpy dst src n m"

section \<open>Regions of memory\<close>

text \<open>
  The addresses \<^verbatim>\<open>p, p+1, ..., p+n-1\<close>, wrapping at the top of the address space as pointer
  arithmetic does.
\<close>

definition region :: "addr \<Rightarrow> u64 \<Rightarrow> addr set" where
  "region p n = {a. a - p < n}"

lemma in_region_iff: "a \<in> region p n \<longleftrightarrow> (\<exists>i<unat n. a = p + of_nat i)"
proof
  assume "a \<in> region p n"
  then have "unat (a - p) < unat n" by (simp add: region_def word_less_nat_alt)
  moreover have "a = p + of_nat (unat (a - p))" by simp
  ultimately show "\<exists>i<unat n. a = p + of_nat i" by blast
next
  assume "\<exists>i<unat n. a = p + of_nat i"
  then obtain i where i: "i < unat n" "a = p + of_nat i" by blast
  then have "i < 18446744073709551616" using unat_lt_2p64 [of n] by linarith
  with i show "a \<in> region p n"
    by (simp add: region_def word_less_nat_alt unat_of_nat64)
qed

lemma region_memI [intro]: "i < unat n \<Longrightarrow> p + of_nat i \<in> region p n"
  by (auto simp: in_region_iff)

lemma region_0 [simp]: "region p 0 = {}"
  by (simp add: region_def)

lemma of_nat_eq64: "i < 18446744073709551616 \<Longrightarrow> j < 18446744073709551616 \<Longrightarrow>
    (of_nat i :: 64 word) = of_nat j \<longleftrightarrow> i = j"
  by (metis unat_of_nat64)

lemma fold_upd_upt:
  assumes "N \<le> 18446744073709551616"
    and "\<And>i m m'. i < N \<Longrightarrow> (\<And>a. (\<forall>j<i. a \<noteq> dst + of_nat j) \<Longrightarrow> m a = m' a) \<Longrightarrow> g i m = g i m'"
  shows "fold (\<lambda>i m. m((dst :: addr) + of_nat i := g i m)) [0..<N] m a =
      (if (\<exists>i<N. a = dst + of_nat i) then g (unat (a - dst)) m else m a)"
proof -
  have "k \<le> N \<Longrightarrow> fold (\<lambda>i m. m(dst + of_nat i := g i m)) [0..<k] m a =
      (if (\<exists>i<k. a = dst + of_nat i) then g (unat (a - dst)) m else m a)" for k a
  proof (induction k arbitrary: a)
    case (Suc k)
    define f where "f = fold (\<lambda>i m. m(dst + of_nat i := g i m)) [0..<k] m"
    have IH: "f a = (if (\<exists>i<k. a = dst + of_nat i) then g (unat (a - dst)) m else m a)" for a
      unfolding f_def by (rule Suc.IH) (use Suc.prems in simp)
    have gk: "g k f = g k m"
    proof (rule assms(2))
      show "k < N" using Suc by simp
      fix a assume "\<forall>j<k. a \<noteq> dst + of_nat j"
      then have "\<not> (\<exists>i<k. a = dst + of_nat i)" by blast
      then show "f a = m a" by (subst IH) (rule if_not_P)
    qed
    have step: "fold (\<lambda>i m. m(dst + of_nat i := g i m)) [0..<Suc k] m = f(dst + of_nat k := g k m)"
      unfolding f_def [symmetric] gk [symmetric] by (simp add: f_def)
    have k: "k < 18446744073709551616" using Suc.prems assms(1) by linarith
    show ?case
    proof (cases "a = dst + of_nat k")
      case True
      with k have "unat (a - dst) = k" by (simp add: unat_of_nat64)
      with True show ?thesis unfolding step by auto
    next
      case False
      then have "(\<exists>i<Suc k. a = dst + of_nat i) \<longleftrightarrow> (\<exists>i<k. a = dst + of_nat i)"
        by (auto simp: less_Suc_eq)
      with False show ?thesis unfolding step by (simp add: IH)
    qed
  qed simp
  from this [of N a] show ?thesis by simp
qed

lemma fold_upd_rev_upt:
  assumes "N \<le> 18446744073709551616"
    and "\<And>i m m'. i < N \<Longrightarrow> (\<And>a. (\<forall>j<N. i < j \<longrightarrow> a \<noteq> dst + of_nat j) \<Longrightarrow> m a = m' a) \<Longrightarrow>
      g i m = g i m'"
  shows "fold (\<lambda>i m. m((dst :: addr) + of_nat i := g i m)) (rev [0..<N]) m a =
      (if (\<exists>i<N. a = dst + of_nat i) then g (unat (a - dst)) m else m a)"
proof -
  have "k \<le> N \<Longrightarrow> fold (\<lambda>i m. m(dst + of_nat i := g i m)) (rev [0..<k]) m a =
      (if (\<exists>i<k. a = dst + of_nat i) then g (unat (a - dst)) m else m a)" for k m a
  proof (induction k arbitrary: m)
    case (Suc k)
    define m1 where "m1 = m(dst + of_nat k := g k m)"
    have k: "k < 18446744073709551616" using Suc.prems assms(1) by linarith
    have step: "fold (\<lambda>i m. m(dst + of_nat i := g i m)) (rev [0..<Suc k]) m =
        fold (\<lambda>i m. m(dst + of_nat i := g i m)) (rev [0..<k]) m1"
      by (simp add: m1_def)
    have IH: "fold (\<lambda>i m. m(dst + of_nat i := g i m)) (rev [0..<k]) m1 a =
        (if (\<exists>i<k. a = dst + of_nat i) then g (unat (a - dst)) m1 else m1 a)"
      by (rule Suc.IH) (use Suc.prems in simp)
    have g1: "g i m1 = g i m" if "i < k" for i
      by (rule assms(2)) (use that Suc.prems in \<open>auto simp: m1_def\<close>)
    show ?case
    proof (cases "\<exists>i<k. a = dst + of_nat i")
      case True
      then have "unat (a - dst) < k"
        using k by (auto simp: unat_of_nat64)
      then have "g (unat (a - dst)) m1 = g (unat (a - dst)) m" by (rule g1)
      moreover have "\<exists>i<Suc k. a = dst + of_nat i" using True by (auto intro: less_SucI)
      ultimately show ?thesis unfolding step IH using True by simp
    next
      case False
      then have "(\<exists>i<Suc k. a = dst + of_nat i) \<longleftrightarrow> a = dst + of_nat k"
        by (auto simp: less_Suc_eq)
      with False show ?thesis unfolding step IH by (auto simp: m1_def unat_of_nat64 k)
    qed
  qed simp
  from this [of N m a] show ?thesis by simp
qed

lemma fold_upd_other:
  "(\<And>i. i \<in> set is \<Longrightarrow> a \<noteq> dst + of_nat i) \<Longrightarrow>
   fold (\<lambda>i m. m((dst :: addr) + of_nat i := g i m)) is m a = m a"
  by (induction "is" arbitrary: m) auto

section \<open>Copying and filling\<close>

theorem memcpy_apply:
  assumes "region dst n \<inter> region src n = {}"
  shows "memcpy dst src n m a = (if a \<in> region dst n then m (src + (a - dst)) else m a)"
proof -
  have "fold (\<lambda>i m. m(dst + of_nat i := m (src + of_nat i))) [0..<unat n] m a =
      (if (\<exists>i<unat n. a = dst + of_nat i) then m (src + of_nat (unat (a - dst))) else m a)"
  proof (rule fold_upd_upt [where g = "\<lambda>i m. m (src + of_nat i)"])
    show "unat n \<le> 18446744073709551616" using unat_lt_2p64 [of n] by linarith
    fix i and m m' :: ram
    assume i: "i < unat n" and eq: "\<And>a. (\<forall>j<i. a \<noteq> dst + of_nat j) \<Longrightarrow> m a = m' a"
    then have "src + of_nat i \<notin> region dst n" using assms by blast
    then show "m (src + of_nat i) = m' (src + of_nat i)"
      using i by (intro eq) (auto simp: in_region_iff)
  qed
  moreover have "of_nat (unat (a - dst)) = a - dst" by simp
  ultimately show ?thesis by (simp only: memcpy_def in_region_iff)
qed

theorem memset_apply:
  "memset dst val n m a = (if a \<in> region dst n then of_int val else m a)"
proof -
  have "fold (\<lambda>i m. m(dst + of_nat i := of_int val)) [0..<unat n] m a =
      (if (\<exists>i<unat n. a = dst + of_nat i) then of_int val else m a)"
  proof (rule fold_upd_upt [where g = "\<lambda>i m. of_int val"])
    show "unat n \<le> 18446744073709551616" using unat_lt_2p64 [of n] by linarith
  qed simp
  then show ?thesis by (simp only: memset_def in_region_iff)
qed

lemma memcpy_outside: "a \<notin> region dst n \<Longrightarrow> memcpy dst src n m a = m a"
  unfolding memcpy_def by (rule fold_upd_other) (auto simp: in_region_iff)

text \<open>
  \<open>memmove\<close> copies even when the two ranges overlap: a copy towards lower addresses goes up, and a copy
  towards higher addresses goes down, so that no source byte is overwritten before it was read.
\<close>

lemma copy_addr_neq:
  fixes dst src :: addr and n :: u64
  assumes "unat dst + unat n \<le> 18446744073709551616" and "unat src + unat n \<le> 18446744073709551616"
    and "i < unat n" and "j < unat n" and "unat src + i \<noteq> unat dst + j"
  shows "src + of_nat i \<noteq> dst + of_nat j"
proof
  have ij: "i < 18446744073709551616" "j < 18446744073709551616" using assms(3,4) unat_lt_2p64 [of n] by linarith+
  assume "src + of_nat i = dst + of_nat j"
  then have "unat (src + of_nat i) = unat (dst + of_nat j)" by simp
  with ij assms show False by (simp add: unat_add64 unat_of_nat64)
qed

lemma copy_up:
  fixes dst src :: addr and n :: u64 and m :: ram
  assumes b: "unat dst + unat n \<le> 18446744073709551616" "unat src + unat n \<le> 18446744073709551616" and lt: "dst < src"
  shows "fold (\<lambda>i m. m(dst + of_nat i := m (src + of_nat i))) [0..<unat n] m a =
    (if (\<exists>i<unat n. a = dst + of_nat i) then m (src + of_nat (unat (a - dst))) else m a)"
proof (rule fold_upd_upt [where g = "\<lambda>i m. m (src + of_nat i)"])
  show "unat n \<le> 18446744073709551616" using unat_lt_2p64 [of n] by linarith
  fix i and m m' :: ram
  assume i: "i < unat n" and eq: "\<And>a. (\<forall>j<i. a \<noteq> dst + of_nat j) \<Longrightarrow> m a = m' a"
  have "src + of_nat i \<noteq> dst + of_nat j" if "j < i" for j
    using that i lt by (intro copy_addr_neq [OF b]) (simp_all add: word_less_nat_alt)
  then show "m (src + of_nat i) = m' (src + of_nat i)" by (intro eq) blast
qed

lemma copy_down:
  fixes dst src :: addr and n :: u64 and m :: ram
  assumes b: "unat dst + unat n \<le> 18446744073709551616" "unat src + unat n \<le> 18446744073709551616" and lt: "src < dst"
  shows "fold (\<lambda>i m. m(dst + of_nat i := m (src + of_nat i))) (rev [0..<unat n]) m a =
    (if (\<exists>i<unat n. a = dst + of_nat i) then m (src + of_nat (unat (a - dst))) else m a)"
proof (rule fold_upd_rev_upt [where g = "\<lambda>i m. m (src + of_nat i)"])
  show "unat n \<le> 18446744073709551616" using unat_lt_2p64 [of n] by linarith
  fix i and m m' :: ram
  assume i: "i < unat n" and eq: "\<And>a. (\<forall>j<unat n. i < j \<longrightarrow> a \<noteq> dst + of_nat j) \<Longrightarrow> m a = m' a"
  have "src + of_nat i \<noteq> dst + of_nat j" if "i < j" "j < unat n" for j
    using that i lt by (intro copy_addr_neq [OF b]) (simp_all add: word_less_nat_alt)
  then show "m (src + of_nat i) = m' (src + of_nat i)" by (intro eq) blast
qed

lemma memmove_apply:
  assumes b: "unat dst + unat n \<le> 18446744073709551616" "unat src + unat n \<le> 18446744073709551616"
  shows "memmove dst src n m a = (if a \<in> region dst n then m (src + (a - dst)) else m a)"
proof -
  have "memmove dst src n m a = (if (\<exists>i<unat n. a = dst + of_nat i) then m (src + of_nat (unat (a - dst))) else m a)"
  proof (cases dst src rule: linorder_cases)
    case less
    then show ?thesis using copy_up [OF b less] by (simp only: memmove_def if_P)
  next
    case equal
    then show ?thesis by (auto simp: memmove_def)
  next
    case greater
    then have "\<not> dst < src" by simp
    then show ?thesis using copy_down [OF b greater] greater by (simp only: memmove_def if_P if_False)
  qed
  moreover have "of_nat (unat (a - dst)) = a - dst" by simp
  ultimately show ?thesis by (simp only: in_region_iff)
qed

section \<open>Strings in memory\<close>

text \<open>\<open>cstr_at m p s\<close>: memory holds the string \<open>s\<close>, NUL-terminated, from address \<open>p\<close>.\<close>

fun cstr_at :: "ram \<Rightarrow> addr \<Rightarrow> string \<Rightarrow> bool" where
  "cstr_at m p [] \<longleftrightarrow> m p = 0"
| "cstr_at m p (c # cs) \<longleftrightarrow> m p = of_char c \<and> (of_char c :: 8 word) \<noteq> 0 \<and> cstr_at m (p + 1) cs"

lemma of_char8_eq_iff [simp]: "(of_char c :: 8 word) = of_char d \<longleftrightarrow> c = d"
proof -
  have "unat (of_char c :: 8 word) = of_char c" for c
  proof -
    have "(of_char c :: 8 word) = of_nat (of_char c)" by (simp only: of_nat_of_char)
    moreover have "(of_char c :: nat) < 256" by (rule nat_of_char_less_256)
    ultimately show ?thesis by (simp add: unat_of_nat take_bit_nat_eq_self_iff)
  qed
  then show ?thesis by (metis of_char_eq_iff)
qed

theorem strlen_loop_cstr:
  "cstr_at m (s + len) str \<Longrightarrow> strlen_loop m s len = Some (len + of_nat (length str))"
proof (induction str arbitrary: len)
  case Nil
  then show ?case by (subst strlen_loop.simps) simp
next
  case (Cons c str)
  then have "strlen_loop m s (len + 1) = Some (len + 1 + of_nat (length str))"
    by (intro Cons.IH) (simp add: algebra_simps)
  moreover have "m (s + len) \<noteq> 0" using Cons.prems by simp
  ultimately show ?case by (subst strlen_loop.simps) (simp add: add.assoc)
qed

theorem strcmp_cstr:
  "cstr_at m p s \<Longrightarrow> cstr_at m q t \<Longrightarrow> \<exists>r. strcmp m p q = Some r \<and> (r = 0 \<longleftrightarrow> s = t)"
proof (induction s arbitrary: p q t)
  case Nil
  then show ?case by (subst strcmp.simps) (cases t; auto simp: unsigned_eq_0_iff)
next
  case (Cons c s)
  show ?case
  proof (cases t)
    case Nil
    with Cons.prems show ?thesis by (subst strcmp.simps) (auto simp: unsigned_eq_0_iff)
  next
    case (Cons d t')
    show ?thesis
    proof (cases "c = d")
      case True
      with Cons.prems \<open>t = d # t'\<close> have "\<exists>r. strcmp m (p + 1) (q + 1) = Some r \<and> (r = 0 \<longleftrightarrow> s = t')"
        by (intro Cons.IH) auto
      with True Cons.prems \<open>t = d # t'\<close> show ?thesis by (subst strcmp.simps) auto
    next
      case False
      with Cons.prems \<open>t = d # t'\<close> show ?thesis
        by (subst strcmp.simps) (auto dest: unsigned_word_eqI)
    qed
  qed
qed

lemma strstr_match_cstr:
  "cstr_at m h s \<Longrightarrow> cstr_at m n t \<Longrightarrow>
   \<exists>r. strstr_match m h n = Some r \<and> (m r = 0 \<longleftrightarrow> prefix t s)"
proof (induction s arbitrary: h n t)
  case Nil
  then show ?case by (subst strstr_match.simps) (cases t; auto)
next
  case (Cons c s)
  show ?case
  proof (cases "\<exists>t'. t = c # t'")
    case True
    then obtain t' where t: "t = c # t'" by blast
    with Cons.prems have "\<exists>r. strstr_match m (h + 1) (n + 1) = Some r \<and> (m r = 0 \<longleftrightarrow> prefix t' s)"
      by (intro Cons.IH) auto
    with t Cons.prems show ?thesis by (subst strstr_match.simps) auto
  next
    case False
    with Cons.prems show ?thesis by (subst strstr_match.simps) (cases t; auto)
  qed
qed

text \<open>The offset of the first occurrence of a string in another.\<close>

fun first_occ :: "string \<Rightarrow> string \<Rightarrow> nat option" where
  "first_occ t [] = (if t = [] then Some 0 else None)"
| "first_occ t (c # cs) =
     (if prefix t (c # cs) then Some 0 else map_option Suc (first_occ t cs))"

lemma first_occ_None_iff: "first_occ t s = None \<longleftrightarrow> \<not> sublist t s"
  by (induction s) (auto simp: sublist_Cons_right)

lemma strstr_loop_cstr:
  assumes "t \<noteq> []" and "cstr_at m n t"
  shows "cstr_at m h s \<Longrightarrow>
    strstr_loop m h n = Some (case first_occ t s of None \<Rightarrow> 0 | Some i \<Rightarrow> h + of_nat i)"
proof (induction s arbitrary: h)
  case Nil
  with assms(1) show ?case by (subst strstr_loop.simps) simp
next
  case (Cons c s)
  from strstr_match_cstr [OF Cons.prems assms(2)] obtain r where
    r: "strstr_match m h n = Some r" "m r = 0 \<longleftrightarrow> prefix t (c # s)" by blast
  have nz: "m h \<noteq> 0" using Cons.prems by simp
  show ?case
  proof (cases "prefix t (c # s)")
    case True
    with r nz show ?thesis by (subst strstr_loop.simps) simp
  next
    case False
    have "strstr_loop m (h + 1) n =
        Some (case first_occ t s of None \<Rightarrow> 0 | Some i \<Rightarrow> h + 1 + of_nat i)"
      by (rule Cons.IH) (use Cons.prems in simp)
    with False r nz show ?thesis
      by (subst strstr_loop.simps) (auto simp: add.assoc split: option.splits)
  qed
qed

text \<open>C11: \<open>strstr\<close> on two C strings returns, and returns the first occurrence of the second in the first,
  or null when there is none.\<close>

theorem strstr_cstr:
  assumes "cstr_at m h s" and "cstr_at m n t"
  shows "strstr m h n = Some (case first_occ t s of None \<Rightarrow> 0 | Some i \<Rightarrow> h + of_nat i)"
proof (cases t)
  case Nil
  with assms show ?thesis by (cases s) (simp_all add: strstr_def)
next
  case (Cons c t')
  with assms have "m n \<noteq> 0" by simp
  with assms Cons show ?thesis by (simp add: strstr_def strstr_loop_cstr)
qed

theorem strstr_cstr_witness:
  "strstr ((\<lambda>_. 0)(1 := of_char (CHR ''a''), 2 := of_char (CHR ''b''), 9 := of_char (CHR ''b''))) 1 9 = Some 2"
proof -
  let ?m = "(\<lambda>_. 0)(1 := of_char (CHR ''a''), 2 := of_char (CHR ''b''), 9 := of_char (CHR ''b'')) :: ram"
  have "cstr_at ?m 1 ''ab''" "cstr_at ?m 9 ''b''" by simp_all
  from strstr_cstr [OF this] show ?thesis by simp
qed

end
