(* ===== verification/Mem.thy ===== *)
theory Mem
  imports Memutils
begin

unbundle bit_operations_syntax

text \<open>
  The kernel allocator of \<^verbatim>\<open>kernel/mem.c\<close>: a bump allocator over a growable heap with a fixed
  swap area behind it, a best-fit free list threaded through the block headers, per-application
  bookkeeping, and the counted locks on video memory.

  The static variables of the file are the fields of \<open>mem_state\<close>. Block headers live in the
  store \<open>hdrs\<close>, indexed by address, and user bytes in \<open>mem_ram\<close>; the free list is the chain of
  \<open>nxt\<close> pointers in \<open>hdrs\<close>, so its walks are \<^theory_text>\<open>partial_function\<close>s that do not return on a
  cyclic chain. The layout is that of the x86-64 build, where \<^verbatim>\<open>sizeof(mem_block_t)\<close> is 40.
\<close>

section \<open>State\<close>

record mem_block =
  total_size :: u64
  user_size :: u64
  guard :: u32
  nxt :: addr
  from_swap :: bool

record app_block =
  ab_addr :: addr
  ab_size :: u64

record app_mem =
  app_id :: int
  priority :: u8
  base :: addr
  used :: u32
  blocks :: "app_block list"
  block_count :: int

record vram_lock =
  owner :: "string option"
  locks :: u32

record mem_state =
  apps :: "app_mem list"
  heap_start :: addr
  heap_ptr :: addr
  heap_committed_end :: addr
  heap_max_end :: addr
  heap_used_bytes :: u64
  heap_grow_count :: u64
  heap_alloc_fail_count :: u64
  next_id :: int
  swap_space :: addr
  swap_ptr :: addr
  free_list :: addr
  hdrs :: "addr \<Rightarrow> mem_block"
  vram_base :: addr
  vram_size :: u64
  vram_locks :: "vram_lock list"
  mem_ram :: ram
  debug_mode :: bool
  kout :: "con_call list"

definition MAX_APPS :: nat where "MAX_APPS = 16"
definition MEM_GUARD_ACTIVE :: u32 where "MEM_GUARD_ACTIVE = 0xC0DEFACE"
definition MEM_GUARD_FREED :: u32 where "MEM_GUARD_FREED = 0xDEADFA11"
definition SIZEOF_MEM_BLOCK :: u64 where "SIZEOF_MEM_BLOCK = 40"
definition SIZEOF_SWAP_SPACE :: u64 where "SIZEOF_SWAP_SPACE = 65536"
definition EXOCORE_KERNEL_HEAP_MAX_SIZE :: u64 where
  "EXOCORE_KERNEL_HEAP_MAX_SIZE = 8 * 1024 * 1024"
definition VGA_VRAM_SIZE :: u64 where "VGA_VRAM_SIZE = 80 * 25 * 2"

definition swap_end :: "mem_state \<Rightarrow> addr" where
  "swap_end s = swap_space s + SIZEOF_SWAP_SPACE"

text \<open>Every report on the console, in order.\<close>

definition con :: "con_call list \<Rightarrow> mem_state \<Rightarrow> mem_state" where
  "con cs s = s\<lparr>kout := kout s @ cs\<rparr>"

abbreviation newline :: con_call where "newline \<equiv> Con_putc (CHR 0x0A)"

section \<open>Blocks\<close>

definition ptr_in_region :: "addr \<Rightarrow> addr \<Rightarrow> addr \<Rightarrow> bool" where
  "ptr_in_region ptr start end \<longleftrightarrow> start \<le> ptr \<and> ptr < end"

definition ensure_block_integrity :: "addr \<Rightarrow> mem_state \<Rightarrow> unit outcome" where
  "ensure_block_integrity blk s =
     (if blk = 0 then Panic ''mem: null block''
      else if guard (hdrs s blk) \<noteq> MEM_GUARD_ACTIVE
      then Panic ''mem: use-after-free or corrupt block''
      else Ret ())"

text \<open>
  A \<^verbatim>\<open>mem_block_t **\<close> is a place that holds a block pointer: the list head or the link of a block.
\<close>

datatype link = Head | Next_of addr

definition get_link :: "link \<Rightarrow> mem_state \<Rightarrow> addr" where
  "get_link l s = (case l of Head \<Rightarrow> free_list s | Next_of b \<Rightarrow> nxt (hdrs s b))"

definition set_link :: "link \<Rightarrow> addr \<Rightarrow> mem_state \<Rightarrow> mem_state" where
  "set_link l p s =
     (case l of
        Head \<Rightarrow> s\<lparr>free_list := p\<rparr>
      | Next_of b \<Rightarrow> s\<lparr>hdrs := (hdrs s)(b := (hdrs s b)\<lparr>nxt := p\<rparr>)\<rparr>)"

definition upd_hdr :: "addr \<Rightarrow> (mem_block \<Rightarrow> mem_block) \<Rightarrow> mem_state \<Rightarrow> mem_state" where
  "upd_hdr b f s = s\<lparr>hdrs := (hdrs s)(b := f (hdrs s b))\<rparr>"

definition split_block :: "addr \<Rightarrow> u64 \<Rightarrow> link \<Rightarrow> mem_state \<Rightarrow> mem_state" where
  "split_block blk total_needed prev s =
     (let available = total_size (hdrs s blk);
          s = (if total_needed + SIZEOF_MEM_BLOCK + 8 \<le> available then
                 let remainder = blk + total_needed;
                     s = upd_hdr remainder (\<lambda>_.
                           \<lparr>total_size = available - total_needed,
                            user_size = available - total_needed - SIZEOF_MEM_BLOCK,
                            guard = MEM_GUARD_FREED,
                            nxt = nxt (hdrs s blk),
                            from_swap = from_swap (hdrs s blk)\<rparr>) s;
                     s = upd_hdr blk (\<lambda>h. h\<lparr>total_size := total_needed,
                            user_size := total_needed - SIZEOF_MEM_BLOCK, nxt := 0\<rparr>) s
                 in set_link prev remainder s
               else set_link prev (nxt (hdrs s blk)) s)
      in upd_hdr blk (\<lambda>h. h\<lparr>guard := MEM_GUARD_ACTIVE, nxt := 0\<rparr>) s)"

definition same_backing_region :: "mem_block \<Rightarrow> mem_block \<Rightarrow> bool" where
  "same_backing_region a b \<longleftrightarrow> from_swap a = from_swap b"

definition blocks_adjacent :: "(addr \<Rightarrow> mem_block) \<Rightarrow> addr \<Rightarrow> addr \<Rightarrow> bool" where
  "blocks_adjacent h left right \<longleftrightarrow> left + total_size (h left) = right"

text \<open>\<open>merge h a b\<close>: block \<open>a\<close> takes over the bytes of \<open>b\<close>, which is left with size 0.\<close>

definition merge :: "(addr \<Rightarrow> mem_block) \<Rightarrow> addr \<Rightarrow> addr \<Rightarrow> addr \<Rightarrow> mem_block" where
  "merge h a b =
     (let t = total_size (h a) + total_size (h b);
          h = h(a := (h a)\<lparr>total_size := t, user_size := t - SIZEOF_MEM_BLOCK\<rparr>)
      in h(b := (h b)\<lparr>total_size := 0\<rparr>))"

partial_function (option) coalesce_loop ::
  "addr \<Rightarrow> addr \<Rightarrow> addr \<Rightarrow> (addr \<Rightarrow> mem_block) \<Rightarrow> (addr \<Rightarrow> mem_block) option" where
  "coalesce_loop fl blk it h =
     (if it = 0 then Some h
      else if it \<noteq> blk \<and> same_backing_region (h it) (h blk) \<and> blocks_adjacent h it blk
      then coalesce_loop fl it fl (merge h it blk)
      else if it \<noteq> blk \<and> same_backing_region (h it) (h blk) \<and> blocks_adjacent h blk it
      then coalesce_loop fl blk fl (merge h blk it)
      else coalesce_loop fl blk (nxt (h it)) h)"

definition coalesce_block :: "addr \<Rightarrow> mem_state \<Rightarrow> mem_state option" where
  "coalesce_block blk s =
     map_option (\<lambda>h. s\<lparr>hdrs := h\<rparr>) (coalesce_loop (free_list s) blk (free_list s) (hdrs s))"

partial_function (option) compact_loop :: "link \<Rightarrow> mem_state \<Rightarrow> mem_state option" where
  "compact_loop link s =
     (if get_link link s = 0 then Some s
      else if total_size (hdrs s (get_link link s)) = 0
      then compact_loop link (set_link link (nxt (hdrs s (get_link link s))) s)
      else compact_loop (Next_of (get_link link s)) s)"

definition compact_free_list :: "mem_state \<Rightarrow> mem_state option" where
  "compact_free_list s = compact_loop Head s"

partial_function (option) acquire_loop ::
  "(addr \<Rightarrow> mem_block) \<Rightarrow> u64 \<Rightarrow> link \<Rightarrow> addr \<Rightarrow> link \<Rightarrow> addr \<Rightarrow> (link \<times> addr) option" where
  "acquire_loop h tot prev blk best_prev best_blk =
     (if blk = 0 then Some (best_prev, best_blk)
      else if tot \<le> total_size (h blk) \<and>
              (best_blk = 0 \<or> total_size (h blk) < total_size (h best_blk))
      then if total_size (h blk) = tot then Some (prev, blk)
           else acquire_loop h tot (Next_of blk) (nxt (h blk)) prev blk
      else acquire_loop h tot (Next_of blk) (nxt (h blk)) best_prev best_blk)"

definition acquire_from_free_list :: "u64 \<Rightarrow> mem_state \<Rightarrow> (addr \<times> mem_state) option" where
  "acquire_from_free_list tot s =
     map_option (\<lambda>(best_prev, best_blk).
         if best_blk \<noteq> 0 then (best_blk, split_block best_blk tot best_prev s) else (0, s))
       (acquire_loop (hdrs s) tot Head (free_list s) Head 0)"

text \<open>\<open>fresh_block\<close> returns the block (or null) and the new cursor.\<close>

definition fresh_block :: "addr \<Rightarrow> addr \<Rightarrow> u64 \<Rightarrow> mem_state \<Rightarrow> addr \<times> addr \<times> mem_state" where
  "fresh_block cursor limit tot s =
     (if limit < cursor + tot then (0, cursor, s)
      else (cursor, cursor + tot,
            upd_hdr cursor (\<lambda>_.
              \<lparr>total_size = tot, user_size = tot - SIZEOF_MEM_BLOCK,
               guard = MEM_GUARD_ACTIVE, nxt = 0, from_swap = (limit = swap_end s)\<rparr>) s))"

section \<open>The allocator\<close>

definition mem_vram_init :: "mem_state \<Rightarrow> mem_state" where
  "mem_vram_init s =
     s\<lparr>vram_base := 0xB8000, vram_size := VGA_VRAM_SIZE,
       vram_locks := replicate 4 \<lparr>owner = None, locks = 0\<rparr>\<rparr>"

definition empty_app_block :: app_block where
  "empty_app_block = \<lparr>ab_addr = 0, ab_size = 0\<rparr>"

definition empty_app :: app_mem where
  "empty_app = \<lparr>app_id = 0, priority = 0, base = 0, used = 0,
     blocks = replicate 16 empty_app_block, block_count = 0\<rparr>"

definition mem_init :: "addr \<Rightarrow> u64 \<Rightarrow> mem_state \<Rightarrow> mem_state" where
  "mem_init heap_start_addr heap_size s =
     (let s = con [Con_puts ''mem_init heap_start=0x'', Con_uhex heap_start_addr,
                   Con_puts '' size='', Con_udec (ucast heap_size), newline] s;
          s = s\<lparr>heap_start := heap_start_addr, heap_ptr := heap_start_addr,
                heap_committed_end := heap_start_addr + heap_size,
                heap_max_end := heap_start_addr + EXOCORE_KERNEL_HEAP_MAX_SIZE\<rparr>;
          s = (if heap_max_end s < heap_committed_end s
               then s\<lparr>heap_max_end := heap_committed_end s\<rparr> else s);
          s = s\<lparr>heap_used_bytes := 0, heap_grow_count := 0, heap_alloc_fail_count := 0,
                swap_ptr := swap_space s, free_list := 0\<rparr>;
          s = mem_vram_init s
      in s\<lparr>apps := replicate MAX_APPS empty_app\<rparr>)"

definition align8 :: "u64 \<Rightarrow> u64" where
  "align8 n = (n + 7) AND NOT 7"

definition grow_heap :: "u64 \<Rightarrow> mem_state \<Rightarrow> mem_state" where
  "grow_heap tot s =
     (if heap_committed_end s < heap_ptr s + tot then
        let old = heap_committed_end s - heap_start s;
            need = (heap_ptr s + tot) - heap_committed_end s;
            grow = (need + 4095) AND NOT 4095
        in if heap_committed_end s + grow \<le> heap_max_end s then
             let s = s\<lparr>heap_committed_end := heap_committed_end s + grow,
                       heap_grow_count := heap_grow_count s + 1\<rparr>
             in con [Con_puts ''mem: grew heap from '', Con_udec (ucast old), Con_puts '' to '',
                     Con_udec (ucast (heap_committed_end s - heap_start s)),
                     Con_puts '' bytes\<newline>''] s
           else s
      else s)"

definition fresh_heap_block :: "u64 \<Rightarrow> mem_state \<Rightarrow> addr \<times> mem_state" where
  "fresh_heap_block tot s =
     (let (blk, cursor, s) = fresh_block (heap_ptr s) (heap_committed_end s) tot s
      in (blk, s\<lparr>heap_ptr := cursor\<rparr>))"

definition fresh_swap_block :: "u64 \<Rightarrow> mem_state \<Rightarrow> addr \<times> mem_state" where
  "fresh_swap_block tot s =
     (let (blk, cursor, s) = fresh_block (swap_ptr s) (swap_end s) tot s
      in (blk, s\<lparr>swap_ptr := cursor\<rparr>))"

definition mem_alloc :: "u64 \<Rightarrow> mem_state \<Rightarrow> (addr \<times> mem_state) outcome" where
  "mem_alloc sz s =
     (let sz = align8 sz;
          tot = align8 (SIZEOF_MEM_BLOCK + sz);
          s = con [Con_puts ''mem_alloc size='', Con_udec (ucast sz),
                   Con_puts '' heap_ptr=0x'', Con_uhex (heap_ptr s), newline] s
      in bind_outcome (of_option (acquire_from_free_list tot s)) (\<lambda>(blk, s).
           let (blk, s) = (if blk = 0 then fresh_heap_block tot (grow_heap tot s) else (blk, s));
               (blk, s) = (if blk = 0 then fresh_swap_block tot s else (blk, s))
           in if blk = 0
              then Ret (0, s\<lparr>heap_alloc_fail_count := heap_alloc_fail_count s + 1\<rparr>)
              else let s = con [Con_puts (if from_swap (hdrs s blk) then '' swap alloc addr=0x''
                                          else '' alloc addr=0x''),
                                Con_uhex (blk + SIZEOF_MEM_BLOCK), newline] s;
                       s = s\<lparr>heap_used_bytes := heap_used_bytes s + user_size (hdrs s blk)\<rparr>
                   in Ret (blk + SIZEOF_MEM_BLOCK, s)))"

definition mem_alloc_or_panic :: "u64 \<Rightarrow> mem_state \<Rightarrow> (addr \<times> mem_state) outcome" where
  "mem_alloc_or_panic sz s =
     bind_outcome (mem_alloc sz s) (\<lambda>(ptr, s).
       if ptr = 0 then Panic ''mem: out of memory'' else Ret (ptr, s))"

text \<open>
  In debug mode a freed block is overwritten with \<^verbatim>\<open>0xDEADBEEFDEADBEEF\<close> in 64-bit units and with
  \<^verbatim>\<open>0xEF\<close> in the bytes after the last whole unit.
\<close>

definition poison_byte :: "nat \<Rightarrow> u8" where
  "poison_byte i = [0xEF, 0xBE, 0xAD, 0xDE] ! (i mod 4)"

definition poison :: "addr \<Rightarrow> u64 \<Rightarrow> ram \<Rightarrow> ram" where
  "poison p n m =
     (let off = unat n div 8 * 8;
          m = fold (\<lambda>i m. m(p + of_nat i := poison_byte i)) [0..<off] m
      in fold (\<lambda>i m. m(p + of_nat i := 0xEF)) [off..<unat n] m)"

definition mem_free :: "addr \<Rightarrow> u64 \<Rightarrow> mem_state \<Rightarrow> mem_state outcome" where
  "mem_free p sz s =
     (if p = 0 then Ret s
      else let blk = p - SIZEOF_MEM_BLOCK in
        if \<not> ptr_in_region blk (heap_start s) (heap_max_end s) \<and>
           \<not> ptr_in_region blk (swap_space s) (swap_end s)
        then Panic ''mem: free outside managed region''
        else bind_outcome (ensure_block_integrity blk s) (\<lambda>_.
          if sz \<noteq> 0 \<and> user_size (hdrs s blk) < sz
          then Panic ''mem: free size larger than allocation''
          else
            let s = (if debug_mode s
                     then s\<lparr>mem_ram := poison p (user_size (hdrs s blk)) (mem_ram s)\<rparr> else s);
                s = (if user_size (hdrs s blk) \<le> heap_used_bytes s
                     then s\<lparr>heap_used_bytes := heap_used_bytes s - user_size (hdrs s blk)\<rparr>
                     else s);
                s = upd_hdr blk (\<lambda>h. h\<lparr>guard := MEM_GUARD_FREED, nxt := free_list s\<rparr>) s;
                s = s\<lparr>free_list := blk\<rparr>
            in of_option (Option.bind (coalesce_block blk s) compact_free_list)))"

section \<open>Applications\<close>

definition mem_register_app :: "u8 \<Rightarrow> mem_state \<Rightarrow> int \<times> mem_state" where
  "mem_register_app prio s =
     (case find_slot (\<lambda>a. app_id a = 0) (apps s) of
        None \<Rightarrow> (- 1, s)
      | Some i \<Rightarrow>
          let aid = next_id s;
              s = s\<lparr>next_id := next_id s + 1,
                    apps := (apps s)[i := empty_app\<lparr>app_id := aid, priority := prio\<rparr>]\<rparr>;
              s = con [Con_puts ''mem_register_app id='', Con_udec (word_of_int aid), newline] s
          in (aid, s))"

definition mem_alloc_app :: "int \<Rightarrow> u64 \<Rightarrow> mem_state \<Rightarrow> (addr \<times> mem_state) outcome" where
  "mem_alloc_app aid sz s =
     (let sz = align8 sz;
          s = con [Con_puts ''mem_alloc_app id='', Con_udec (word_of_int aid),
                   Con_puts '' size='', Con_udec (ucast sz), newline] s
      in bind_outcome (mem_alloc sz s) (\<lambda>(a, s).
           if a = 0 then Ret (0, s)
           else case find_slot (\<lambda>x. app_id x = aid) (apps s) of
                  Some i \<Rightarrow>
                    let x = apps s ! i;
                        x = (if base x = 0 then x\<lparr>base := a\<rparr> else x);
                        x = x\<lparr>used := used x + ucast sz\<rparr>;
                        s = s\<lparr>apps := (apps s)[i := x]\<rparr>;
                        s = con [Con_puts '' app alloc addr=0x'', Con_uhex a, newline] s
                    in Ret (a, s)
                | None \<Rightarrow> bind_outcome (mem_free a sz s) (\<lambda>s. Ret (0, s))))"

definition mem_app_used :: "int \<Rightarrow> mem_state \<Rightarrow> u64" where
  "mem_app_used aid s =
     (case find_slot (\<lambda>x. app_id x = aid) (apps s) of
        Some i \<Rightarrow> ucast (used (apps s ! i))
      | None \<Rightarrow> 0)"

partial_function (option) free_bytes_loop ::
  "(addr \<Rightarrow> mem_block) \<Rightarrow> addr \<Rightarrow> u64 \<Rightarrow> u64 option" where
  "free_bytes_loop h blk n =
     (if blk = 0 then Some n else free_bytes_loop h (nxt (h blk)) (n + total_size (h blk)))"

definition mem_heap_free :: "mem_state \<Rightarrow> u64 option" where
  "mem_heap_free s =
     free_bytes_loop (hdrs s) (free_list s)
       ((heap_committed_end s - heap_ptr s) + (SIZEOF_SWAP_SPACE - (swap_ptr s - swap_space s)))"

record mem_info =
  info_heap_used :: u64
  info_heap_free :: u64
  info_heap_committed :: u64
  info_heap_max :: u64
  info_grow_count :: u64
  info_alloc_fail_count :: u64

definition mem_get_info :: "mem_state \<Rightarrow> mem_info option" where
  "mem_get_info s =
     map_option (\<lambda>free.
       \<lparr>info_heap_used = heap_used_bytes s,
        info_heap_free = free,
        info_heap_committed = heap_committed_end s - heap_start s,
        info_heap_max = heap_max_end s - heap_start s,
        info_grow_count = heap_grow_count s,
        info_alloc_fail_count = heap_alloc_fail_count s\<rparr>) (mem_heap_free s)"

definition mem_save_app :: "int \<Rightarrow> addr \<Rightarrow> u64 \<Rightarrow> mem_state \<Rightarrow> (int \<times> mem_state) outcome" where
  "mem_save_app aid data sz s =
     (case find_slot (\<lambda>x. app_id x = aid) (apps s) of
        None \<Rightarrow> Ret (- 1, s)
      | Some i \<Rightarrow>
          if 16 \<le> block_count (apps s ! i) then Ret (- 1, s)
          else bind_outcome (mem_alloc_app aid sz s) (\<lambda>(dst, s).
            if dst = 0 then Ret (- 1, s)
            else
              let s = s\<lparr>mem_ram := memcpy dst data sz (mem_ram s)\<rparr>;
                  x = apps s ! i;
                  idx = block_count x;
                  x = x\<lparr>blocks := (blocks x)[nat idx := \<lparr>ab_addr = dst, ab_size = sz\<rparr>],
                        block_count := block_count x + 1\<rparr>;
                  s = s\<lparr>apps := (apps s)[i := x]\<rparr>;
                  s = con [Con_puts ''mem_save_app id='', Con_udec (word_of_int aid),
                           Con_puts '' handle='', Con_udec (word_of_int idx),
                           Con_puts '' size='', Con_udec (ucast sz), newline] s
              in Ret (idx, s)))"

text \<open>\<open>mem_retrieve_app\<close> returns the block and, when it exists, the size it stores through its pointer.\<close>

definition mem_retrieve_app ::
  "int \<Rightarrow> int \<Rightarrow> mem_state \<Rightarrow> (addr \<times> u64 option) \<times> mem_state" where
  "mem_retrieve_app aid handle s =
     (case find_slot (\<lambda>x. app_id x = aid) (apps s) of
        None \<Rightarrow> ((0, None), s)
      | Some i \<Rightarrow>
          if handle < 0 \<or> block_count (apps s ! i) \<le> handle then ((0, None), s)
          else let b = blocks (apps s ! i) ! nat handle
               in ((ab_addr b, Some (ab_size b)),
                   con [Con_puts ''mem_retrieve_app id='', Con_udec (word_of_int aid),
                        Con_puts '' handle='', Con_udec (word_of_int handle), newline] s))"

section \<open>Video memory\<close>

definition mem_vram_base :: "mem_state \<Rightarrow> addr" where
  "mem_vram_base s = vram_base s"

definition mem_vram_size :: "mem_state \<Rightarrow> u64" where
  "mem_vram_size s = vram_size s"

text \<open>
  Owners are compared by pointer or by \<open>strcmp\<close>; as equal pointers name equal strings, both come
  down to equality of the strings.
\<close>

definition find_vram_slot :: "string \<Rightarrow> mem_state \<Rightarrow> nat option" where
  "find_vram_slot tag s = find_slot (\<lambda>l. owner l = Some tag) (vram_locks s)"

definition vram_tag :: "string option \<Rightarrow> string" where
  "vram_tag own = (case own of None \<Rightarrow> ''unknown'' | Some t \<Rightarrow> t)"

definition mem_vram_lock :: "string option \<Rightarrow> mem_state \<Rightarrow> (addr \<times> mem_state) outcome" where
  "mem_vram_lock own s =
     (let tag = vram_tag own in
      case find_vram_slot tag s of
        Some i \<Rightarrow>
          let l = vram_locks s ! i
          in Ret (vram_base s, s\<lparr>vram_locks := (vram_locks s)[i := l\<lparr>locks := locks l + 1\<rparr>]\<rparr>)
      | None \<Rightarrow>
          case find_slot (\<lambda>l. owner l = None \<or> locks l = 0) (vram_locks s) of
            Some i \<Rightarrow>
              Ret (vram_base s, s\<lparr>vram_locks := (vram_locks s)[i := \<lparr>owner = Some tag, locks = 1\<rparr>]\<rparr>)
          | None \<Rightarrow> Panic ''mem: no VRAM locks available'')"

definition mem_vram_unlock :: "string option \<Rightarrow> mem_state \<Rightarrow> mem_state outcome" where
  "mem_vram_unlock own s =
     (case find_vram_slot (vram_tag own) s of
        None \<Rightarrow> Panic ''mem: unlocking unowned VRAM''
      | Some i \<Rightarrow>
          let l = vram_locks s ! i in
          if locks l = 0 then Panic ''mem: VRAM lock underflow''
          else let l = l\<lparr>locks := locks l - 1\<rparr>;
                   l = (if locks l = 0 then l\<lparr>owner := None\<rparr> else l)
               in Ret (s\<lparr>vram_locks := (vram_locks s)[i := l]\<rparr>))"

definition mem_vram_window ::
  "string option \<Rightarrow> u64 \<Rightarrow> u64 \<Rightarrow> mem_state \<Rightarrow> (addr \<times> mem_state) outcome" where
  "mem_vram_window own offset len s =
     (if vram_size s < offset + len then Panic ''mem: VRAM window exceeds bounds''
      else bind_outcome (mem_vram_lock own s) (\<lambda>(_, s). Ret (vram_base s + offset, s)))"

end
