(* ===== verification/Mem_List.thy ===== *)
theory Mem_List
  imports Mem
begin

text \<open>
  The free list of the allocator as a list of block addresses: \<open>flist h p xs\<close> says that the
  \<open>nxt\<close> pointers of the header store lead from \<open>p\<close> through exactly \<open>xs\<close> to the null pointer. The
  pointer walks of \<^verbatim>\<open>mem.c\<close> are shown to return and to compute their list counterparts: best fit
  for \<open>acquire_loop\<close>, a filter for \<open>compact_loop\<close>, a sum for \<open>free_bytes_loop\<close>.
\<close>

section \<open>Chains of headers\<close>

fun flist :: "(addr \<Rightarrow> mem_block) \<Rightarrow> addr \<Rightarrow> addr list \<Rightarrow> bool" where
  "flist h p [] \<longleftrightarrow> p = 0"
| "flist h p (x # xs) \<longleftrightarrow> p = x \<and> x \<noteq> 0 \<and> flist h (nxt (h x)) xs"

text \<open>The place whose pointer is the next one after a prefix of the list.\<close>

definition link_of :: "addr list \<Rightarrow> link" where
  "link_of us = (if us = [] then Head else Next_of (last us))"

lemma link_of_simps [simp]:
  "link_of [] = Head"
  "link_of (us @ [x]) = Next_of x"
  by (simp_all add: link_of_def)

lemma flist_cong:
  "(\<And>x. x \<in> set xs \<Longrightarrow> nxt (h' x) = nxt (h x)) \<Longrightarrow> flist h' p xs \<longleftrightarrow> flist h p xs"
  by (induction xs arbitrary: p) auto

lemma flist_upd [simp]: "b \<notin> set xs \<Longrightarrow> flist (h(b := v)) p xs \<longleftrightarrow> flist h p xs"
  by (rule flist_cong) auto

lemma flist_nonzero: "flist h p xs \<Longrightarrow> 0 \<notin> set xs"
  by (induction xs arbitrary: p) auto

lemma flist_0 [simp]: "flist h 0 xs \<longleftrightarrow> xs = []"
  by (cases xs) auto

text \<open>The pointer stored after a prefix leads to the rest of the list.\<close>

lemma flist_append_link:
  "flist (hdrs s) (free_list s) (us @ ys) \<Longrightarrow> flist (hdrs s) (get_link (link_of us) s) ys"
proof -
  have "flist h p (us @ ys) \<Longrightarrow>
      flist h (if us = [] then p else nxt (h (last us))) ys" for h p
    by (induction us arbitrary: p) (auto split: if_splits)
  from this [of "hdrs s" "free_list s"] show
    "flist (hdrs s) (free_list s) (us @ ys) \<Longrightarrow> flist (hdrs s) (get_link (link_of us) s) ys"
    by (auto simp: get_link_def link_of_def split: if_splits)
qed

lemma flist_redirect:
  "flist h p (us @ ys) \<Longrightarrow> us \<noteq> [] \<Longrightarrow> distinct us \<Longrightarrow> set us \<inter> set ws = {} \<Longrightarrow> flist h q ws \<Longrightarrow>
   flist (h(last us := (h (last us))\<lparr>nxt := q\<rparr>)) p (us @ ws)"
proof (induction us arbitrary: p)
  case (Cons u us)
  show ?case
  proof (cases "us = []")
    case True
    let ?h = "h(u := (h u)\<lparr>nxt := q\<rparr>)"
    have "flist ?h q ws" using Cons.prems by simp
    moreover have "nxt (?h u) = q" by simp
    ultimately show ?thesis using True Cons.prems by (simp del: fun_upd_apply)
  next
    case False
    have "flist (h(last us := (h (last us))\<lparr>nxt := q\<rparr>)) (nxt (h u)) (us @ ws)"
      by (rule Cons.IH) (use Cons.prems False in auto)
    moreover from False Cons.prems have "u \<noteq> last us" by auto
    ultimately show ?thesis using False Cons.prems by (simp del: fun_upd_apply add: fun_upd_other)
  qed
qed simp

lemma flist_set_link:
  assumes "flist (hdrs s) (free_list s) (us @ ys)" and "distinct us"
    and "set us \<inter> set ws = {}" and "flist (hdrs s) q ws"
  shows "flist (hdrs (set_link (link_of us) q s)) (free_list (set_link (link_of us) q s)) (us @ ws)"
proof (cases "us = []")
  case True
  with assms show ?thesis by (simp add: set_link_def)
next
  case False
  with assms show ?thesis by (simp add: set_link_def link_of_def flist_redirect)
qed

lemma flist_cut:
  "flist h p (us @ b # vs) \<Longrightarrow> (\<And>x. x \<in> set us \<Longrightarrow> h' x = h x) \<Longrightarrow> nxt (h' b) = 0 \<Longrightarrow>
   flist h' p (us @ [b])"
  by (induction us arbitrary: p) auto

section \<open>Best fit\<close>

text \<open>\<open>best_in h tot xs l b\<close>: \<open>b\<close>, linked from \<open>l\<close>, is the first smallest block of \<open>xs\<close> of size at least
  \<open>tot\<close>, or null when there is none.\<close>

definition best_in :: "(addr \<Rightarrow> mem_block) \<Rightarrow> u64 \<Rightarrow> addr list \<Rightarrow> link \<Rightarrow> addr \<Rightarrow> bool" where
  "best_in h tot xs l b \<longleftrightarrow>
     (if b = 0 then \<forall>x\<in>set xs. total_size (h x) < tot
      else \<exists>us vs. xs = us @ b # vs \<and> l = link_of us \<and> tot \<le> total_size (h b) \<and>
        (\<forall>x\<in>set us. tot \<le> total_size (h x) \<longrightarrow> total_size (h b) < total_size (h x)) \<and>
        (\<forall>x\<in>set vs. tot \<le> total_size (h x) \<longrightarrow> total_size (h b) \<le> total_size (h x)))"

lemma best_in_skip:
  assumes "best_in h tot us l b" and "x \<noteq> 0"
    and "\<not> (tot \<le> total_size (h x) \<and> (b = 0 \<or> total_size (h x) < total_size (h b)))"
  shows "best_in h tot (us @ [x]) l b"
proof (cases "b = 0")
  case True
  with assms show ?thesis by (auto simp: best_in_def not_le)
next
  case False
  with assms(1) obtain vs ws where v: "us = vs @ b # ws" "l = link_of vs" "tot \<le> total_size (h b)"
    "\<forall>x\<in>set vs. tot \<le> total_size (h x) \<longrightarrow> total_size (h b) < total_size (h x)"
    "\<forall>x\<in>set ws. tot \<le> total_size (h x) \<longrightarrow> total_size (h b) \<le> total_size (h x)"
    by (auto simp: best_in_def)
  then have "us @ [x] = vs @ b # (ws @ [x])" by simp
  moreover have "\<forall>y\<in>set (ws @ [x]). tot \<le> total_size (h y) \<longrightarrow> total_size (h b) \<le> total_size (h y)"
    using v(5) assms(3) False by (auto simp: not_less)
  ultimately have "\<exists>us' vs'. us @ [x] = us' @ b # vs' \<and> l = link_of us' \<and> tot \<le> total_size (h b) \<and>
      (\<forall>x\<in>set us'. tot \<le> total_size (h x) \<longrightarrow> total_size (h b) < total_size (h x)) \<and>
      (\<forall>x\<in>set vs'. tot \<le> total_size (h x) \<longrightarrow> total_size (h b) \<le> total_size (h x))"
    using v by (intro exI [of _ vs] exI [of _ "ws @ [x]"]) auto
  with False show ?thesis by (simp add: best_in_def)
qed

lemma best_in_better:
  assumes "best_in h tot us l b" and "x \<noteq> 0" and "tot \<le> total_size (h x)"
    and "b = 0 \<or> total_size (h x) < total_size (h b)"
    and "\<forall>y\<in>set ys. tot \<le> total_size (h y) \<longrightarrow> total_size (h x) \<le> total_size (h y)"
  shows "best_in h tot (us @ x # ys) (link_of us) x"
proof -
  have "total_size (h x) < total_size (h y)" if "y \<in> set us" "tot \<le> total_size (h y)" for y
  proof (cases "b = 0")
    case True
    with assms(1) that show ?thesis by (auto simp: best_in_def)
  next
    case False
    with assms(1) that have "total_size (h b) \<le> total_size (h y)"
      by (auto simp: best_in_def) (use less_imp_le in blast)
    with False assms(4) show ?thesis by auto
  qed
  with assms(2,3,5) show ?thesis by (auto simp: best_in_def)
qed

lemma acquire_loop_best:
  "flist h p ys \<Longrightarrow> best_in h tot us l b \<Longrightarrow>
   \<exists>l' b'. acquire_loop h tot (link_of us) p l b = Some (l', b') \<and> best_in h tot (us @ ys) l' b'"
proof (induction ys arbitrary: p us l b)
  case Nil
  then show ?case by (subst acquire_loop.simps) simp
next
  case (Cons x ys)
  then have x: "p = x" "x \<noteq> 0" and rest: "flist h (nxt (h x)) ys" by auto
  have snoc: "link_of (us @ [x]) = Next_of x" by simp
  show ?case
  proof (cases "tot \<le> total_size (h x) \<and> (b = 0 \<or> total_size (h x) < total_size (h b))")
    case True
    show ?thesis
    proof (cases "total_size (h x) = tot")
      case eq: True
      have "best_in h tot (us @ x # ys) (link_of us) x"
        by (rule best_in_better) (use Cons.prems True x eq in auto)
      with True x eq show ?thesis by (subst acquire_loop.simps) simp
    next
      case False
      have "best_in h tot (us @ [x]) (link_of us) x"
        using best_in_better [of h tot us l b x "[]"] Cons.prems True x by simp
      from Cons.IH [OF rest this] show ?thesis
        using True False x by (subst acquire_loop.simps) simp
    qed
  next
    case False
    have "best_in h tot (us @ [x]) l b"
      by (rule best_in_skip) (use Cons.prems False x in auto)
    from Cons.IH [OF rest this] show ?thesis
      using False x by (subst acquire_loop.simps) auto
  qed
qed

section \<open>Compaction\<close>

text \<open>Two states that differ in the free list and its links only.\<close>

definition same_but_links :: "mem_state \<Rightarrow> mem_state \<Rightarrow> bool" where
  "same_but_links s s' \<longleftrightarrow>
     (\<exists>p h. s' = s\<lparr>free_list := p, hdrs := h\<rparr> \<and> (\<forall>b. \<exists>q. h b = (hdrs s b)\<lparr>nxt := q\<rparr>))"

lemma same_but_links_refl [simp]: "same_but_links s s"
proof -
  have "s = s\<lparr>free_list := free_list s, hdrs := hdrs s\<rparr>" by simp
  moreover have "\<forall>b. \<exists>q. hdrs s b = (hdrs s b)\<lparr>nxt := q\<rparr>"
    by (metis mem_block.surjective mem_block.update_convs(4))
  ultimately show ?thesis unfolding same_but_links_def by blast
qed

lemma same_but_links_set_link:
  assumes "same_but_links s t"
  shows "same_but_links s (set_link l q t)"
proof -
  from assms obtain p h where t: "t = s\<lparr>free_list := p, hdrs := h\<rparr>"
    and h: "\<forall>b. \<exists>q. h b = (hdrs s b)\<lparr>nxt := q\<rparr>"
    by (auto simp: same_but_links_def)
  show ?thesis
  proof (cases l)
    case Head
    then have "set_link l q t = s\<lparr>free_list := q, hdrs := h\<rparr>" by (simp add: set_link_def t)
    with h show ?thesis unfolding same_but_links_def by blast
  next
    case (Next_of b)
    let ?h = "h(b := (h b)\<lparr>nxt := q\<rparr>)"
    have "set_link l q t = s\<lparr>free_list := p, hdrs := ?h\<rparr>" by (simp add: Next_of set_link_def t)
    moreover have "\<forall>c. \<exists>r. ?h c = (hdrs s c)\<lparr>nxt := r\<rparr>"
    proof
      fix c
      from h obtain r where "h c = (hdrs s c)\<lparr>nxt := r\<rparr>" by blast
      then show "\<exists>r. ?h c = (hdrs s c)\<lparr>nxt := r\<rparr>" by auto
    qed
    ultimately show ?thesis unfolding same_but_links_def by blast
  qed
qed

lemma same_but_links_sizes:
  assumes "same_but_links s t"
  shows "total_size (hdrs t b) = total_size (hdrs s b)" "user_size (hdrs t b) = user_size (hdrs s b)"
    "guard (hdrs t b) = guard (hdrs s b)" "from_swap (hdrs t b) = from_swap (hdrs s b)"
proof -
  from assms obtain q where "hdrs t b = (hdrs s b)\<lparr>nxt := q\<rparr>" by (fastforce simp: same_but_links_def)
  then show "total_size (hdrs t b) = total_size (hdrs s b)" "user_size (hdrs t b) = user_size (hdrs s b)"
    "guard (hdrs t b) = guard (hdrs s b)" "from_swap (hdrs t b) = from_swap (hdrs s b)"
    by simp_all
qed

lemma compact_loop_filter:
  assumes "same_but_links s0 s"
    and "flist (hdrs s) (free_list s) (us @ ys)" and "distinct (us @ ys)"
  shows "\<exists>s'. compact_loop (link_of us) s = Some s' \<and> same_but_links s0 s' \<and>
    flist (hdrs s') (free_list s') (us @ filter (\<lambda>x. total_size (hdrs s0 x) \<noteq> 0) ys)"
  using assms
proof (induction ys arbitrary: s us)
  case Nil
  then have "get_link (link_of us) s = 0" using flist_append_link [of s us "[]"] by simp
  with Nil show ?case by (subst compact_loop.simps) auto
next
  case (Cons x ys)
  have x: "get_link (link_of us) s = x" "x \<noteq> 0" and rest: "flist (hdrs s) (nxt (hdrs s x)) ys"
    using flist_append_link [OF Cons.prems(2)] by auto
  show ?case
  proof (cases "total_size (hdrs s x) = 0")
    case True
    let ?s = "set_link (link_of us) (nxt (hdrs s x)) s"
    have "\<exists>s'. compact_loop (link_of us) ?s = Some s' \<and> same_but_links s0 s' \<and>
        flist (hdrs s') (free_list s') (us @ filter (\<lambda>x. total_size (hdrs s0 x) \<noteq> 0) ys)"
    proof (rule Cons.IH)
      show "same_but_links s0 ?s" using Cons.prems(1) by (rule same_but_links_set_link)
      show "flist (hdrs ?s) (free_list ?s) (us @ ys)"
        by (rule flist_set_link [OF Cons.prems(2)]) (use Cons.prems(3) rest in auto)
      show "distinct (us @ ys)" using Cons.prems(3) by auto
    qed
    moreover have "total_size (hdrs s0 x) = 0"
      using True same_but_links_sizes(1) [OF Cons.prems(1)] by simp
    ultimately show ?thesis using True x by (subst compact_loop.simps) simp
  next
    case False
    have "\<exists>s'. compact_loop (link_of (us @ [x])) s = Some s' \<and> same_but_links s0 s' \<and>
        flist (hdrs s') (free_list s') ((us @ [x]) @ filter (\<lambda>x. total_size (hdrs s0 x) \<noteq> 0) ys)"
      by (rule Cons.IH) (use Cons.prems in auto)
    moreover have "total_size (hdrs s0 x) \<noteq> 0"
      using False same_but_links_sizes(1) [OF Cons.prems(1)] by simp
    ultimately show ?thesis using False x by (subst compact_loop.simps) simp
  qed
qed

lemma compact_free_list_filter:
  assumes "flist (hdrs s) (free_list s) xs" and "distinct xs"
  shows "\<exists>s'. compact_free_list s = Some s' \<and> same_but_links s s' \<and>
    flist (hdrs s') (free_list s') (filter (\<lambda>x. total_size (hdrs s x) \<noteq> 0) xs)"
  using compact_loop_filter [of s s "[]" xs] assms by (simp add: compact_free_list_def)

section \<open>Counting the free bytes\<close>

lemma free_bytes_loop_sum:
  "flist h p xs \<Longrightarrow> free_bytes_loop h p n = Some (n + (\<Sum>x\<leftarrow>xs. total_size (h x)))"
proof (induction xs arbitrary: p n)
  case Nil
  then show ?case by (subst free_bytes_loop.simps) simp
next
  case (Cons x xs)
  then show ?case by (subst free_bytes_loop.simps) (simp add: add.assoc)
qed

end
