(* ===== verification/Mem_Tiling.thy ===== *)
theory Mem_Tiling
  imports Mem_List
begin

text \<open>
  The two arenas of the allocator (heap and swap space) as regions tiled by blocks. \<open>tiled h B R\<close>
  says that the blocks \<open>B\<close> have well-formed headers in \<open>h\<close>, do not overlap and cover exactly the
  byte range \<open>R False\<close> of the heap and \<open>R True\<close> of the swap space. Splitting, merging and appending
  a block keep the tiling; the coalescing loop of \<^verbatim>\<open>coalesce_block\<close> ends on every free list and
  leaves no two adjacent free blocks.
\<close>

section \<open>Tilings\<close>

definition ival :: "(addr \<Rightarrow> mem_block) \<Rightarrow> addr \<Rightarrow> nat set" where
  "ival h b = {unat b..<unat b + unat (total_size (h b))}"

definition hdr_ok :: "addr \<Rightarrow> mem_block \<Rightarrow> bool" where
  "hdr_ok b m \<longleftrightarrow> b \<noteq> 0 \<and> 40 \<le> unat (total_size m) \<and> 8 dvd unat (total_size m) \<and>
     unat (user_size m) = unat (total_size m) - 40 \<and> unat b + unat (total_size m) < 2 ^ 64"

definition tiled :: "(addr \<Rightarrow> mem_block) \<Rightarrow> addr set \<Rightarrow> (bool \<Rightarrow> nat set) \<Rightarrow> bool" where
  "tiled h B R \<longleftrightarrow> finite B \<and> (\<forall>b\<in>B. hdr_ok b (h b)) \<and>
     (\<forall>a\<in>B. \<forall>b\<in>B. a \<noteq> b \<longrightarrow> ival h a \<inter> ival h b = {}) \<and>
     (\<forall>sw. (\<Union>b\<in>{b\<in>B. from_swap (h b) = sw}. ival h b) = R sw)"

lemma tiledD:
  assumes "tiled h B R"
  shows "finite B" "b \<in> B \<Longrightarrow> hdr_ok b (h b)"
    "a \<in> B \<Longrightarrow> b \<in> B \<Longrightarrow> a \<noteq> b \<Longrightarrow> ival h a \<inter> ival h b = {}"
    "R sw = (\<Union>b\<in>{b\<in>B. from_swap (h b) = sw}. ival h b)"
  using assms by (auto simp: tiled_def)

lemma hdr_okD:
  assumes "hdr_ok b m"
  shows "b \<noteq> 0" "40 \<le> unat (total_size m)" "8 dvd unat (total_size m)"
    "unat (user_size m) = unat (total_size m) - 40" "unat b + unat (total_size m) < 2 ^ 64"
    "total_size m \<noteq> 0" "unat (b + total_size m) = unat b + unat (total_size m)"
    "unat (b + 40) = unat b + 40"
  using assms by (auto simp: hdr_ok_def unat_add64)

lemma start_in_ival: "hdr_ok b (h b) \<Longrightarrow> unat b \<in> ival h b"
  by (auto simp: hdr_ok_def ival_def)

lemma ival_cong: "total_size (h' b) = total_size (h b) \<Longrightarrow> ival h' b = ival h b"
  by (simp add: ival_def)

lemma hdr_ok_cong:
  "total_size a = total_size b \<Longrightarrow> user_size a = user_size b \<Longrightarrow> hdr_ok p a = hdr_ok p b"
  by (simp add: hdr_ok_def)

text \<open>Only sizes and backing regions matter for a tiling.\<close>

lemma tiled_cong:
  assumes "\<And>b. b \<in> B \<Longrightarrow> total_size (h' b) = total_size (h b)"
    and "\<And>b. b \<in> B \<Longrightarrow> user_size (h' b) = user_size (h b)"
    and "\<And>b. b \<in> B \<Longrightarrow> from_swap (h' b) = from_swap (h b)"
  shows "tiled h' B R \<longleftrightarrow> tiled h B R"
proof -
  have i: "ival h' b = ival h b" "hdr_ok b (h' b) = hdr_ok b (h b)" if "b \<in> B" for b
    using assms that by (simp_all add: ival_def hdr_ok_def)
  have u: "(\<Union>b\<in>{b\<in>B. from_swap (h' b) = sw}. ival h' b) =
      (\<Union>b\<in>{b\<in>B. from_swap (h b) = sw}. ival h b)" for sw
    by (rule SUP_cong) (use i assms(3) in auto)
  have "(\<forall>b\<in>B. hdr_ok b (h' b)) = (\<forall>b\<in>B. hdr_ok b (h b))"
    by (rule ball_cong) (use i in auto)
  moreover have "(\<forall>a\<in>B. \<forall>b\<in>B. a \<noteq> b \<longrightarrow> ival h' a \<inter> ival h' b = {}) =
      (\<forall>a\<in>B. \<forall>b\<in>B. a \<noteq> b \<longrightarrow> ival h a \<inter> ival h b = {})"
    by (intro ball_cong) (use i in auto)
  ultimately show ?thesis by (simp only: tiled_def u)
qed

text \<open>A block whose end lies in the covered range ends where the next block starts.\<close>

lemma tiled_next_block:
  assumes t: "tiled h B R" and a: "a \<in> B" and e: "unat a + unat (total_size (h a)) \<in> R sw"
    and x: "unat x = unat a + unat (total_size (h a))"
  shows "x \<in> B"
proof -
  from e obtain c where c: "c \<in> B" "unat a + unat (total_size (h a)) \<in> ival h c"
    using tiledD(4) [OF t, of sw] by auto
  have ok: "hdr_ok a (h a)" "hdr_ok c (h c)" using tiledD(2) [OF t] a c(1) by auto
  have ne: "c \<noteq> a" using c(2) by (auto simp: ival_def)
  have "unat c \<ge> unat x"
  proof (rule ccontr)
    assume "\<not> unat x \<le> unat c"
    then have "unat x - 1 \<in> ival h a \<inter> ival h c"
      using c(2) ok(1) x by (auto simp: ival_def hdr_ok_def)
    then show False using tiledD(3) [OF t a c(1)] ne by blast
  qed
  with c(2) x have "unat x = unat c" by (auto simp: ival_def)
  then have "x = c" by (rule unsigned_word_eqI)
  with c(1) show ?thesis by simp
qed

section \<open>Merging, splitting and appending\<close>

definition joined :: "(addr \<Rightarrow> mem_block) \<Rightarrow> addr \<Rightarrow> addr \<Rightarrow> bool" where
  "joined h a b \<longleftrightarrow> same_backing_region (h a) (h b) \<and> blocks_adjacent h a b"

lemma merge_other [simp]: "c \<noteq> a \<Longrightarrow> c \<noteq> b \<Longrightarrow> merge h a b c = h c"
  by (simp add: merge_def Let_def)

lemma merge_fields [simp]:
  "nxt (merge h a b c) = nxt (h c)" "guard (merge h a b c) = guard (h c)"
  "from_swap (merge h a b c) = from_swap (h c)"
  by (simp_all add: merge_def Let_def)

lemma merge_sizes:
  "total_size (merge h a b b) = 0"
  "a \<noteq> b \<Longrightarrow> total_size (merge h a b a) = total_size (h a) + total_size (h b)"
  "a \<noteq> b \<Longrightarrow> user_size (merge h a b a) = total_size (h a) + total_size (h b) - 40"
  by (simp_all add: merge_def Let_def SIZEOF_MEM_BLOCK_def)

lemma merge_ival:
  assumes t: "tiled h B R" and ab: "a \<in> B" "b \<in> B" "a \<noteq> b" and j: "blocks_adjacent h a b"
  shows "ival (merge h a b) a = ival h a \<union> ival h b" "hdr_ok a (merge h a b a)"
proof -
  have ok: "hdr_ok a (h a)" "hdr_ok b (h b)" using tiledD(2) [OF t] ab by auto
  have b: "unat b = unat a + unat (total_size (h a))"
    using j hdr_okD(7) [OF ok(1)] by (simp add: blocks_adjacent_def)
  have s: "unat (total_size (h a) + total_size (h b)) = unat (total_size (h a)) + unat (total_size (h b))"
    using b hdr_okD(5) [OF ok(2)] by (intro unat_add64) simp
  have "unat (total_size (h a) + total_size (h b) - 40) =
      unat (total_size (h a)) + unat (total_size (h b)) - 40"
    using s hdr_okD(2) [OF ok(1)] unat_diff64 [of 40 "total_size (h a) + total_size (h b)"] by simp
  then show "hdr_ok a (merge h a b a)"
    using hdr_okD(1-5) [OF ok(1)] hdr_okD(3,5) [OF ok(2)] b s ab(3)
    by (simp add: hdr_ok_def merge_sizes)
  show "ival (merge h a b) a = ival h a \<union> ival h b"
    using b s ab(3) by (auto simp: ival_def merge_sizes)
qed

lemma tiled_merge:
  assumes t: "tiled h B R" and ab: "a \<in> B" "b \<in> B" "a \<noteq> b" and j: "joined h a b"
  shows "tiled (merge h a b) (B - {b}) R"
proof -
  let ?h = "merge h a b"
  have adj: "blocks_adjacent h a b" and sw: "from_swap (h a) = from_swap (h b)"
    using j by (auto simp: joined_def same_backing_region_def)
  note mi = merge_ival [OF t ab adj]
  have other: "ival ?h c = ival h c" if "c \<noteq> a" "c \<noteq> b" for c using that by (simp add: ival_def)
  have rel: "\<exists>e\<in>{c} \<union> (if c = a then {b} else {}). n \<in> ival h e" if "c \<noteq> b" "n \<in> ival ?h c" for c n
    using that mi(1) other [of c] by (cases "c = a") auto
  have dis: "ival ?h c \<inter> ival ?h d = {}" if cd: "c \<in> B - {b}" "d \<in> B - {b}" "c \<noteq> d" for c d
  proof (rule ccontr)
    assume "ival ?h c \<inter> ival ?h d \<noteq> {}"
    then obtain n where n: "n \<in> ival ?h c" "n \<in> ival ?h d" by blast
    obtain e f where ef: "n \<in> ival h e" "n \<in> ival h f" "e = c \<or> c = a \<and> e = b" "f = d \<or> d = a \<and> f = b"
      using rel [of c n] rel [of d n] n cd by (auto split: if_splits)
    then have "e \<noteq> f" "e \<in> B" "f \<in> B" using cd ab by auto
    with tiledD(3) [OF t, of e f] ef(1,2) show False by blast
  qed
  have cov: "(\<Union>c\<in>{c\<in>B - {b}. from_swap (?h c) = sw}. ival ?h c) = R sw" for sw
  proof -
    have "(\<Union>c\<in>{c\<in>B - {b}. from_swap (?h c) = sw}. ival ?h c) =
        (\<Union>c\<in>{c\<in>B. from_swap (h c) = sw}. ival h c)" (is "?L = ?R")
    proof
      show "?L \<subseteq> ?R"
      proof
        fix n assume "n \<in> ?L"
        then obtain c where c: "c \<in> B" "c \<noteq> b" "from_swap (h c) = sw" "n \<in> ival ?h c" by auto
        show "n \<in> ?R"
        proof (cases "c = a")
          case True
          then have "n \<in> ival h a \<or> n \<in> ival h b" using c(4) mi(1) by auto
          then show ?thesis using ab sw c(3) True by auto
        qed (use c other in auto)
      qed
      show "?R \<subseteq> ?L"
      proof
        fix n assume "n \<in> ?R"
        then obtain c where c: "c \<in> B" "from_swap (h c) = sw" "n \<in> ival h c" by auto
        show "n \<in> ?L"
        proof (cases "c = a \<or> c = b")
          case True
          then have "n \<in> ival ?h a" "from_swap (h a) = sw" using c mi(1) sw by auto
          then show ?thesis using ab by auto
        qed (use c other in auto)
      qed
    qed
    also have "\<dots> = R sw" using tiledD(4) [OF t] by simp
    finally show ?thesis .
  qed
  have "hdr_ok c (?h c)" if "c \<in> B - {b}" for c
    using that mi(2) tiledD(2) [OF t, of c] by (cases "c = a") auto
  with dis cov tiledD(1) [OF t] show ?thesis by (auto simp: tiled_def)
qed

lemma tiled_same_end:
  assumes t: "tiled h B R" and ac: "a \<in> B" "c \<in> B"
    and e: "a + total_size (h a) = c + total_size (h c)"
  shows "a = c"
proof (rule ccontr)
  assume ne: "a \<noteq> c"
  have ok: "hdr_ok a (h a)" "hdr_ok c (h c)" using tiledD(2) [OF t] ac by auto
  have "unat a + unat (total_size (h a)) = unat c + unat (total_size (h c))"
    using e hdr_okD(7) [OF ok(1)] hdr_okD(7) [OF ok(2)] by metis
  then have "unat a + unat (total_size (h a)) - 1 \<in> ival h a \<inter> ival h c"
    using hdr_okD(2) [OF ok(1)] hdr_okD(2) [OF ok(2)] by (auto simp: ival_def)
  with tiledD(3) [OF t ac ne] show False by blast
qed

text \<open>Replacing one block by blocks that cover the same bytes of the same region.\<close>

lemma tiled_replace:
  assumes t: "tiled h B R" and b: "b \<in> B" "b \<in> C" "finite C"
    and new: "C \<inter> B \<subseteq> {b}"
    and ok: "\<And>c. c \<in> C \<Longrightarrow> hdr_ok c (h' c) \<and> from_swap (h' c) = from_swap (h b)"
    and dis: "\<And>c d. c \<in> C \<Longrightarrow> d \<in> C \<Longrightarrow> c \<noteq> d \<Longrightarrow> ival h' c \<inter> ival h' d = {}"
    and cover: "(\<Union>c\<in>C. ival h' c) = ival h b"
    and same: "\<And>c. c \<in> B \<Longrightarrow> c \<noteq> b \<Longrightarrow> h' c = h c"
  shows "tiled h' (B \<union> C) R"
proof -
  have old: "ival h' c = ival h c" if "c \<in> B" "c \<noteq> b" for c using same [OF that] by (simp add: ival_def)
  have sep: "ival h' c \<inter> ival h' d = {}" if "c \<in> C" "d \<in> B" "d \<noteq> b" for c d
    using that cover tiledD(3) [OF t b(1) that(2)] old [OF that(2,3)] by blast
  have cov: "(\<Union>c\<in>{c \<in> B \<union> C. from_swap (h' c) = sw}. ival h' c) =
      (\<Union>c\<in>{c \<in> B. from_swap (h c) = sw}. ival h c)" (is "?L = ?R") for sw
  proof
    show "?L \<subseteq> ?R"
    proof
      fix n assume "n \<in> ?L"
      then obtain c where c: "c \<in> B \<union> C" "from_swap (h' c) = sw" "n \<in> ival h' c" by auto
      show "n \<in> ?R"
      proof (cases "c \<in> C")
        case True
        then have "n \<in> ival h b" "from_swap (h b) = sw" using c cover ok by auto
        with b(1) show ?thesis by auto
      next
        case False
        then have "c \<in> B" "c \<noteq> b" using c(1) b by auto
        with c same old show ?thesis by auto
      qed
    qed
    show "?R \<subseteq> ?L"
    proof
      fix n assume "n \<in> ?R"
      then obtain c where c: "c \<in> B" "from_swap (h c) = sw" "n \<in> ival h c" by auto
      show "n \<in> ?L"
      proof (cases "c = b")
        case True
        with c(3) cover obtain d where "d \<in> C" "n \<in> ival h' d" by auto
        with True c(2) ok show ?thesis by auto
      next
        case False
        with c same old show ?thesis by auto
      qed
    qed
  qed
  have okc: "hdr_ok c (h' c)" if "c \<in> B \<union> C" for c
  proof (cases "c \<in> C")
    case False
    then have "c \<in> B" "c \<noteq> b" using that b(2) by auto
    then show ?thesis using same [of c] tiledD(2) [OF t, of c] by simp
  qed (use ok in simp)
  have disc: "ival h' c \<inter> ival h' d = {}" if cd: "c \<in> B \<union> C" "d \<in> B \<union> C" "c \<noteq> d" for c d
  proof -
    consider "c \<in> C" "d \<in> C" | "c \<in> C" "d \<in> B - C" | "c \<in> B - C" "d \<in> C" | "c \<in> B - C" "d \<in> B - C"
      using cd by blast
    then show ?thesis
    proof cases
      case 1 with dis cd(3) show ?thesis by blast
    next
      case 2 with sep [of c d] b(2) show ?thesis by blast
    next
      case 3 with sep [of d c] b(2) show ?thesis by blast
    next
      case 4
      then have "c \<noteq> b" "d \<noteq> b" using b(2) by auto
      with 4 tiledD(3) [OF t, of c d] old cd(3) show ?thesis by auto
    qed
  qed
  have "finite (B \<union> C)" using tiledD(1) [OF t] b(3) by simp
  moreover have "\<forall>c\<in>B \<union> C. \<forall>d\<in>B \<union> C. c \<noteq> d \<longrightarrow> ival h' c \<inter> ival h' d = {}" using disc by blast
  moreover have "\<forall>c\<in>B \<union> C. hdr_ok c (h' c)" using okc by blast
  moreover have "\<forall>sw. (\<Union>c\<in>{c \<in> B \<union> C. from_swap (h' c) = sw}. ival h' c) = R sw"
    by (simp only: cov tiledD(4) [OF t, symmetric]) simp
  ultimately show ?thesis unfolding tiled_def by (intro conjI)
qed

lemma tiled_start:
  assumes t: "tiled h B R" and b: "b \<in> B"
  shows "unat b \<in> R (from_swap (h b))"
  using start_in_ival [of b h] tiledD(2) [OF t b] tiledD(4) [OF t, of "from_swap (h b)"] b by auto

text \<open>Appending a block outside the covered range.\<close>

lemma tiled_append:
  assumes t: "tiled h B R" and ok: "hdr_ok b (h' b)" and fresh: "ival h' b \<inter> R sw = {}" "ival h' b \<inter> R (\<not> sw) = {}"
    and sw: "from_swap (h' b) = sw" and same: "\<And>c. c \<in> B \<Longrightarrow> h' c = h c"
  shows "tiled h' (insert b B) (R(sw := R sw \<union> ival h' b))" "b \<notin> B"
proof -
  have inR: "ival h c \<subseteq> R (from_swap (h c))" if "c \<in> B" for c
    using that tiledD(4) [OF t, of "from_swap (h c)"] by auto
  have apart: "ival h' b \<inter> ival h c = {}" if "c \<in> B" for c
    using inR [OF that] fresh by (cases "from_swap (h c) = sw") auto
  have old: "ival h' c = ival h c" if "c \<in> B" for c using same [OF that] by (simp add: ival_def)
  show nb: "b \<notin> B"
    using apart [of b] old [of b] start_in_ival [of b h', OF ok] by blast
  have cov: "(\<Union>c\<in>{c \<in> insert b B. from_swap (h' c) = x}. ival h' c) = (R(sw := R sw \<union> ival h' b)) x" for x
  proof -
    have "(\<Union>c\<in>{c \<in> B. from_swap (h' c) = x}. ival h' c) = R x"
      unfolding tiledD(4) [OF t, of x] by (rule SUP_cong) (use same old in auto)
    moreover have "{c \<in> insert b B. from_swap (h' c) = x} =
        (if x = sw then insert b {c \<in> B. from_swap (h' c) = x} else {c \<in> B. from_swap (h' c) = x})"
      using sw by auto
    ultimately show ?thesis by auto
  qed
  have okc: "hdr_ok c (h' c)" if "c \<in> insert b B" for c
    using that ok same tiledD(2) [OF t, of c] by auto
  have disc: "ival h' c \<inter> ival h' d = {}" if "c \<in> insert b B" "d \<in> insert b B" "c \<noteq> d" for c d
    using that apart [of c] apart [of d] old [of c] old [of d] tiledD(3) [OF t, of c d] by blast
  have "finite (insert b B)" using tiledD(1) [OF t] by simp
  then show "tiled h' (insert b B) (R(sw := R sw \<union> ival h' b))"
    unfolding tiled_def by (intro conjI ballI allI impI okc disc cov)
qed

text \<open>The blocks add up to the covered range.\<close>

lemma tiled_sum:
  assumes t: "tiled h B R"
  shows "(\<Sum>b\<in>B. unat (total_size (h b))) = card (R False) + card (R True)"
proof -
  have part: "(\<Sum>b\<in>{b\<in>B. from_swap (h b) = sw}. unat (total_size (h b))) = card (R sw)" for sw
  proof -
    have "card (\<Union>b\<in>{b\<in>B. from_swap (h b) = sw}. ival h b) =
        (\<Sum>b\<in>{b\<in>B. from_swap (h b) = sw}. card (ival h b))"
      by (rule card_UN_disjoint) (use tiledD(1,3) [OF t] in \<open>auto simp: ival_def\<close>)
    then show ?thesis using tiledD(4) [OF t, of sw] by (simp add: ival_def)
  qed
  have "(\<Sum>b\<in>B. unat (total_size (h b))) =
      (\<Sum>b\<in>{b\<in>B. from_swap (h b) = False} \<union> {b\<in>B. from_swap (h b) = True}. unat (total_size (h b)))"
    by (rule sum.cong) auto
  also have "\<dots> = card (R False) + card (R True)"
    unfolding part [symmetric] using tiledD(1) [OF t] by (subst sum.union_disjoint) auto
  finally show ?thesis .
qed

section \<open>Coalescing\<close>

text \<open>
  The state of the loop of \<^verbatim>\<open>coalesce_block\<close>: \<open>blk\<close> is the block being grown, \<open>xs\<close> the whole free
  list, in which the blocks that were merged away have size 0 and are no longer blocks of the tiling.
  No two free blocks other than \<open>blk\<close> are adjacent.
\<close>

definition coal :: "(addr \<Rightarrow> mem_block) \<Rightarrow> addr \<Rightarrow> addr set \<Rightarrow> addr list \<Rightarrow> (bool \<Rightarrow> nat set) \<Rightarrow> bool" where
  "coal h blk B xs R \<longleftrightarrow> tiled h B R \<and> blk \<in> set xs \<and> blk \<in> B \<and>
     (\<forall>x\<in>set xs. (total_size (h x) \<noteq> 0 \<longleftrightarrow> x \<in> B) \<and> unat x \<in> R (from_swap (h x))) \<and>
     (\<forall>x\<in>set xs \<inter> B. \<forall>y\<in>set xs \<inter> B. x \<noteq> blk \<longrightarrow> y \<noteq> blk \<longrightarrow> \<not> joined h x y)"

definition sized_only :: "(addr \<Rightarrow> mem_block) \<Rightarrow> (addr \<Rightarrow> mem_block) \<Rightarrow> addr list \<Rightarrow> bool" where
  "sized_only h h' xs \<longleftrightarrow>
     (\<forall>b. nxt (h' b) = nxt (h b) \<and> guard (h' b) = guard (h b) \<and> from_swap (h' b) = from_swap (h b) \<and>
          (b \<notin> set xs \<longrightarrow> h' b = h b))"

lemma sized_only_refl [simp]: "sized_only h h xs"
  by (simp add: sized_only_def)

lemma sized_only_trans: "sized_only h h' xs \<Longrightarrow> sized_only h' h'' xs \<Longrightarrow> sized_only h h'' xs"
  by (simp add: sized_only_def)

lemma sized_only_flist: "sized_only h h' ys \<Longrightarrow> flist h' p xs \<longleftrightarrow> flist h p xs"
  by (rule flist_cong) (simp add: sized_only_def)

lemma joined_irrefl: "hdr_ok b (h b) \<Longrightarrow> \<not> joined h b b"
  by (simp add: joined_def blocks_adjacent_def hdr_okD)

text \<open>A neighbour found in the free list is a block of the tiling, never one merged away before.\<close>

lemma coal_neighbour:
  assumes c: "coal h blk B xs R" and x: "x \<in> set xs" "x \<noteq> blk"
    and j: "joined h x blk \<or> joined h blk x"
  shows "x \<in> B"
proof (rule ccontr)
  assume dead: "x \<notin> B"
  have t: "tiled h B R" "blk \<in> B" and z: "total_size (h x) = 0" "unat x \<in> R (from_swap (h x))"
    using c x dead by (auto simp: coal_def)
  from j z x have "blk + total_size (h blk) = x" by (auto simp: joined_def blocks_adjacent_def)
  then have "unat x = unat blk + unat (total_size (h blk))"
    using hdr_okD(7) [OF tiledD(2) [OF t]] by simp
  with tiled_next_block [OF t, of "from_swap (h x)" x] z dead show False by simp
qed

lemma coal_merge:
  assumes c: "coal h blk B xs R" and ab: "a \<in> set xs" "b \<in> set xs" "a \<in> B" "b \<in> B" "a \<noteq> b"
    and blk: "blk = a \<or> blk = b" and j: "joined h a b"
  shows "coal (merge h a b) a (B - {b}) xs R" "sized_only h (merge h a b) xs"
proof -
  have t: "tiled h B R" using c by (simp add: coal_def)
  have t': "tiled (merge h a b) (B - {b}) R" by (rule tiled_merge [OF t ab(3-5) j])
  have live: "(total_size (merge h a b x) \<noteq> 0 \<longleftrightarrow> x \<in> B - {b}) \<and>
      unat x \<in> R (from_swap (merge h a b x))" if "x \<in> set xs" for x
  proof (cases "x = a \<or> x = b")
    case True
    have "total_size (merge h a b a) \<noteq> 0" using hdr_okD(6) [OF tiledD(2) [OF t', of a]] ab by simp
    with True that c ab show ?thesis by (auto simp: merge_sizes coal_def)
  next
    case False
    with that c show ?thesis by (simp add: coal_def)
  qed
  have "\<not> joined (merge h a b) x y"
    if "x \<in> set xs \<inter> (B - {b})" "y \<in> set xs \<inter> (B - {b})" "x \<noteq> a" "y \<noteq> a" for x y
  proof -
    have "\<not> joined h x y" using that c blk by (auto simp: coal_def)
    moreover have "merge h a b x = h x" "merge h a b y = h y" using that by auto
    ultimately show ?thesis by (simp add: joined_def blocks_adjacent_def)
  qed
  with t' live ab show "coal (merge h a b) a (B - {b}) xs R" unfolding coal_def by blast
  have "merge h a b c = h c" if "c \<notin> set xs" for c by (rule merge_other) (use that ab in auto)
  then show "sized_only h (merge h a b) xs" by (simp add: sized_only_def)
qed

definition coalesced ::
  "(addr \<Rightarrow> mem_block) \<Rightarrow> (addr \<Rightarrow> mem_block) \<Rightarrow> addr set \<Rightarrow> addr set \<Rightarrow> addr list \<Rightarrow> (bool \<Rightarrow> nat set) \<Rightarrow> bool"
where
  "coalesced h h' B B' xs R \<longleftrightarrow> tiled h' B' R \<and> sized_only h h' xs \<and> B' \<subseteq> B \<and> B - set xs \<subseteq> B' \<and>
     (\<forall>x\<in>set xs. total_size (h' x) \<noteq> 0 \<longleftrightarrow> x \<in> B') \<and>
     (\<forall>x\<in>set xs \<inter> B'. \<forall>y\<in>set xs \<inter> B'. \<not> joined h' x y)"

lemma coalesced_merge:
  assumes "coalesced (merge h a b) h' (B - {b}) B' xs R" and "sized_only h (merge h a b) xs"
    and "b \<in> set xs"
  shows "coalesced h h' B B' xs R"
  using assms sized_only_trans [of h "merge h a b" xs h'] by (auto simp: coalesced_def)

lemma coalesce_loop_ends:
  assumes "coal h blk B xs R" and "flist h fl xs" and "xs = us @ ys" and "flist h it ys"
    and "\<forall>x\<in>set us \<inter> B. x \<noteq> blk \<longrightarrow> \<not> joined h x blk \<and> \<not> joined h blk x"
  shows "\<exists>h' B'. coalesce_loop fl blk it h = Some h' \<and> coalesced h h' B B' xs R"
  using assms
proof (induction "card B" arbitrary: h blk B us ys it rule: less_induct)
  case outer: less
  from outer.prems show ?case
  proof (induction ys arbitrary: us it)
    case Nil
    have t: "tiled h B R" using Nil.prems(1) by (simp add: coal_def)
    have "\<not> joined h x y" if "x \<in> set xs \<inter> B" "y \<in> set xs \<inter> B" for x y
      using that Nil.prems(1,3,5) joined_irrefl [of blk h] tiledD(2) [OF t, of blk]
      by (cases "x = blk"; cases "y = blk") (auto simp: coal_def)
    then have "coalesced h h B B xs R" using Nil.prems(1) by (auto simp: coalesced_def coal_def)
    with Nil.prems(4) show ?case by (subst coalesce_loop.simps) auto
  next
    case (Cons x ys)
    have x: "it = x" "x \<noteq> 0" "flist h (nxt (h x)) ys" using Cons.prems(4) by auto
    have xin: "x \<in> set xs" using Cons.prems(3) by simp
    have blk: "blk \<in> set xs" "blk \<in> B" and fin: "finite B"
      using Cons.prems(1) by (auto simp: coal_def tiled_def)
    have step: "\<exists>h' B'. coalesce_loop fl a fl (merge h a b) = Some h' \<and> coalesced h h' B B' xs R"
      if ab: "a \<in> set xs" "b \<in> set xs" "a \<in> B" "b \<in> B" "a \<noteq> b" "blk = a \<or> blk = b" "joined h a b" for a b
    proof -
      note m = coal_merge [OF Cons.prems(1) ab]
      have "card (B - {b}) < card B" using fin ab(4) by (rule card_Diff1_less)
      from outer.hyps [OF this m(1) _ _ _, of "[]" xs fl] Cons.prems(2) sized_only_flist [OF m(2)]
      obtain h' B' where "coalesce_loop fl a fl (merge h a b) = Some h'"
        "coalesced (merge h a b) h' (B - {b}) B' xs R" by auto
      with coalesced_merge [OF _ m(2) ab(2)] show ?thesis by blast
    qed
    show ?case
    proof (cases "x \<noteq> blk \<and> (joined h x blk \<or> joined h blk x)")
      case True
      have xB: "x \<in> B" using coal_neighbour [OF Cons.prems(1) xin] True by blast
      show ?thesis
      proof (cases "joined h x blk")
        case j: True
        with step [of x blk] xin blk xB True x show ?thesis
          by (subst coalesce_loop.simps) (simp add: joined_def)
      next
        case False
        with step [of blk x] xin blk xB True x show ?thesis
          by (subst coalesce_loop.simps) (auto simp: joined_def same_backing_region_def)
      qed
    next
      case False
      have "\<exists>h' B'. coalesce_loop fl blk (nxt (h x)) h = Some h' \<and> coalesced h h' B B' xs R"
        by (rule Cons.IH [of "us @ [x]"]) (use Cons.prems x False in auto)
      with False x show ?thesis
        by (subst coalesce_loop.simps) (auto simp: joined_def same_backing_region_def)
    qed
  qed
qed

end
