(* ===== verification/Mem_Inv.thy ===== *)
theory Mem_Inv
  imports Mem_Tiling
begin

text \<open>
  The invariant of the allocator and the abstract view of it: a finite map from live pointers to the
  number of usable bytes. \<open>mem_init\<close> establishes the invariant, \<open>mem_alloc\<close> and \<open>mem_free\<close> keep it and
  refine insertion into and deletion from the map.
\<close>

section \<open>Rounding\<close>

lemma unat_align8:
  assumes "unat n + 7 < 2 ^ 64"
  shows "unat (align8 n) = (unat n + 7) - (unat n + 7) mod 8"
proof -
  have "unat (n + 7) = unat n + 7" using assms by (simp add: unat_add64)
  moreover have "(7::u64) = mask 3" by (simp add: mask_eq_exp_minus_1)
  ultimately show ?thesis unfolding align8_def by (simp only: unat_and_not_mask) simp
qed

lemma align8_bounds:
  assumes "unat n + 7 < 2 ^ 64"
  shows "unat n \<le> unat (align8 n)" "unat (align8 n) \<le> unat n + 7" "8 dvd unat (align8 n)"
  using unat_align8 [OF assms] by (auto simp: minus_mod_eq_mult_div)

text \<open>The size of the block that serves a request.\<close>

definition block_total :: "u64 \<Rightarrow> u64" where
  "block_total sz = align8 (SIZEOF_MEM_BLOCK + align8 sz)"

lemma block_total_bounds:
  assumes "unat sz \<le> 2 ^ 62"
  shows "40 + unat sz \<le> unat (block_total sz)" "unat (block_total sz) \<le> unat sz + 54"
    "8 dvd unat (block_total sz)"
proof -
  have a: "unat sz \<le> unat (align8 sz)" "unat (align8 sz) \<le> unat sz + 7"
    using align8_bounds [of sz] assms by simp_all
  then have "unat (SIZEOF_MEM_BLOCK + align8 sz) = 40 + unat (align8 sz)"
    using assms by (simp add: SIZEOF_MEM_BLOCK_def unat_add64)
  with a assms align8_bounds [of "SIZEOF_MEM_BLOCK + align8 sz"]
  show "40 + unat sz \<le> unat (block_total sz)" "unat (block_total sz) \<le> unat sz + 54"
    "8 dvd unat (block_total sz)"
    by (simp_all add: block_total_def)
qed

section \<open>The invariant\<close>

definition regions :: "mem_state \<Rightarrow> bool \<Rightarrow> nat set" where
  "regions s sw = (if sw then {unat (swap_space s)..<unat (swap_ptr s)}
                   else {unat (heap_start s)..<unat (heap_ptr s)})"

text \<open>The swap space is part of the kernel image, the heap follows it in the lower half.\<close>

definition layout_ok :: "mem_state \<Rightarrow> bool" where
  "layout_ok s \<longleftrightarrow> swap_space s \<noteq> 0 \<and> unat (swap_space s) \<le> unat (swap_ptr s) \<and>
     unat (swap_ptr s) \<le> unat (swap_space s) + 65536 \<and>
     unat (swap_space s) + 65536 \<le> unat (heap_start s) \<and>
     unat (heap_start s) \<le> unat (heap_ptr s) \<and> unat (heap_ptr s) \<le> unat (heap_committed_end s) \<and>
     unat (heap_start s) < unat (heap_committed_end s) \<and>
     unat (heap_committed_end s) \<le> unat (heap_max_end s) \<and> unat (heap_max_end s) < 2 ^ 63"

definition heap_ok :: "mem_state \<Rightarrow> addr set \<Rightarrow> addr list \<Rightarrow> bool" where
  "heap_ok s B F \<longleftrightarrow> layout_ok s \<and> tiled (hdrs s) B (regions s) \<and>
     flist (hdrs s) (free_list s) F \<and> distinct F \<and> set F \<subseteq> B \<and>
     (\<forall>b\<in>B. guard (hdrs s b) = (if b \<in> set F then MEM_GUARD_FREED else MEM_GUARD_ACTIVE)) \<and>
     (\<forall>x\<in>set F. \<forall>y\<in>set F. \<not> joined (hdrs s) x y)"

definition mem_inv :: "mem_state \<Rightarrow> addr set \<Rightarrow> addr list \<Rightarrow> bool" where
  "mem_inv s B F \<longleftrightarrow> heap_ok s B F \<and>
     unat (heap_used_bytes s) = (\<Sum>b\<in>B - set F. unat (user_size (hdrs s b)))"

lemma heap_okD:
  assumes "heap_ok s B F"
  shows "layout_ok s" "tiled (hdrs s) B (regions s)" "flist (hdrs s) (free_list s) F" "distinct F"
    "set F \<subseteq> B" "b \<in> B \<Longrightarrow> guard (hdrs s b) = (if b \<in> set F then MEM_GUARD_FREED else MEM_GUARD_ACTIVE)"
    "x \<in> set F \<Longrightarrow> y \<in> set F \<Longrightarrow> \<not> joined (hdrs s) x y"
  using assms by (auto simp: heap_ok_def)

lemma heap_okI:
  assumes "layout_ok s" "tiled (hdrs s) B (regions s)" "flist (hdrs s) (free_list s) F" "distinct F"
    "set F \<subseteq> B"
    "\<And>b. b \<in> B \<Longrightarrow> guard (hdrs s b) = (if b \<in> set F then MEM_GUARD_FREED else MEM_GUARD_ACTIVE)"
    "\<And>x y. x \<in> set F \<Longrightarrow> y \<in> set F \<Longrightarrow> \<not> joined (hdrs s) x y"
  shows "heap_ok s B F"
  using assms by (simp add: heap_ok_def)

lemma layout_okD:
  assumes "layout_ok s"
  shows "swap_space s \<noteq> 0" "unat (swap_space s) \<le> unat (swap_ptr s)"
    "unat (swap_ptr s) \<le> unat (swap_space s) + 65536"
    "unat (swap_space s) + 65536 \<le> unat (heap_start s)"
    "unat (heap_start s) \<le> unat (heap_ptr s)" "unat (heap_ptr s) \<le> unat (heap_committed_end s)"
    "unat (heap_start s) < unat (heap_committed_end s)"
    "unat (heap_committed_end s) \<le> unat (heap_max_end s)" "unat (heap_max_end s) < 2 ^ 63"
    "unat (swap_end s) = unat (swap_space s) + 65536"
proof -
  show l: "swap_space s \<noteq> 0" "unat (swap_space s) \<le> unat (swap_ptr s)"
    "unat (swap_ptr s) \<le> unat (swap_space s) + 65536"
    "unat (swap_space s) + 65536 \<le> unat (heap_start s)"
    "unat (heap_start s) \<le> unat (heap_ptr s)" "unat (heap_ptr s) \<le> unat (heap_committed_end s)"
    "unat (heap_start s) < unat (heap_committed_end s)"
    "unat (heap_committed_end s) \<le> unat (heap_max_end s)" "unat (heap_max_end s) < 2 ^ 63"
    using assms by (simp_all add: layout_ok_def)
  show "unat (swap_end s) = unat (swap_space s) + 65536"
    using l by (simp add: swap_end_def SIZEOF_SWAP_SPACE_def unat_add64)
qed

lemma heap_ok_used [simp]: "heap_ok (s\<lparr>heap_used_bytes := n\<rparr>) B F \<longleftrightarrow> heap_ok s B F"
proof -
  have "regions (s\<lparr>heap_used_bytes := n\<rparr>) = regions s" by (simp add: regions_def fun_eq_iff)
  then show ?thesis by (simp add: heap_ok_def layout_ok_def)
qed

text \<open>The invariant does not depend on the console, the counters, the RAM or the applications.\<close>

definition same_heap :: "mem_state \<Rightarrow> mem_state \<Rightarrow> bool" where
  "same_heap s t \<longleftrightarrow> heap_start t = heap_start s \<and> heap_ptr t = heap_ptr s \<and>
     heap_committed_end t = heap_committed_end s \<and> heap_max_end t = heap_max_end s \<and>
     heap_used_bytes t = heap_used_bytes s \<and> swap_space t = swap_space s \<and>
     swap_ptr t = swap_ptr s \<and> free_list t = free_list s \<and> hdrs t = hdrs s"

lemma same_heap_inv: "same_heap s t \<Longrightarrow> mem_inv t B F \<longleftrightarrow> mem_inv s B F"
proof -
  assume *: "same_heap s t"
  then have "regions t = regions s" by (auto simp: same_heap_def regions_def fun_eq_iff)
  moreover from * have "layout_ok t = layout_ok s" by (simp add: same_heap_def layout_ok_def)
  ultimately show ?thesis using * by (simp add: same_heap_def mem_inv_def heap_ok_def)
qed

lemma con_fields [simp]:
  "heap_start (con cs s) = heap_start s" "heap_ptr (con cs s) = heap_ptr s"
  "heap_committed_end (con cs s) = heap_committed_end s" "heap_max_end (con cs s) = heap_max_end s"
  "heap_used_bytes (con cs s) = heap_used_bytes s" "swap_space (con cs s) = swap_space s"
  "swap_ptr (con cs s) = swap_ptr s" "free_list (con cs s) = free_list s" "hdrs (con cs s) = hdrs s"
  "mem_ram (con cs s) = mem_ram s" "apps (con cs s) = apps s" "next_id (con cs s) = next_id s"
  "vram_base (con cs s) = vram_base s" "vram_size (con cs s) = vram_size s"
  "vram_locks (con cs s) = vram_locks s" "swap_end (con cs s) = swap_end s"
  "debug_mode (con cs s) = debug_mode s"
  by (simp_all add: con_def swap_end_def)

lemma mem_inv_con [simp]: "mem_inv (con cs s) B F \<longleftrightarrow> mem_inv s B F"
  by (rule same_heap_inv) (simp add: same_heap_def)

section \<open>Live pointers\<close>

definition live_map :: "(addr \<Rightarrow> mem_block) \<Rightarrow> addr set \<Rightarrow> addr \<Rightarrow> u64 option" where
  "live_map h A p = (if p - SIZEOF_MEM_BLOCK \<in> A then Some (user_size (h (p - SIZEOF_MEM_BLOCK))) else None)"

definition mem_rep :: "mem_state \<Rightarrow> (addr \<rightharpoonup> u64) \<Rightarrow> bool" where
  "mem_rep s L \<longleftrightarrow> (\<exists>B F. mem_inv s B F \<and> L = live_map (hdrs s) (B - set F))"

lemma live_map_insert:
  assumes "\<And>c. c \<in> A \<Longrightarrow> user_size (h' c) = user_size (h c)"
  shows "live_map h' (insert b A) = (live_map h A)(b + SIZEOF_MEM_BLOCK \<mapsto> user_size (h' b))"
  using assms by (auto simp: live_map_def fun_eq_iff)

lemma live_map_remove:
  assumes "\<And>c. c \<in> A \<Longrightarrow> c \<noteq> b \<Longrightarrow> user_size (h' c) = user_size (h c)"
  shows "live_map h' (A - {b}) = (live_map h A)(b + SIZEOF_MEM_BLOCK := None)"
  using assms by (auto simp: live_map_def fun_eq_iff)

lemma live_map_cong:
  assumes "\<And>c. c \<in> A \<Longrightarrow> user_size (h' c) = user_size (h c)"
  shows "live_map h' A = live_map h A"
  using assms by (auto simp: live_map_def fun_eq_iff)

text \<open>The bytes of two live pointers never overlap, and no live pointer is null.\<close>

lemma live_region:
  assumes "hdr_ok b (h b)" and "x \<in> region (b + SIZEOF_MEM_BLOCK) (user_size (h b))"
  shows "unat x \<in> ival h b"
proof -
  let ?d = "x - (b + 40)"
  have d: "unat ?d < unat (user_size (h b))"
    using assms(2) by (simp add: region_def SIZEOF_MEM_BLOCK_def word_less_nat_alt)
  have "unat ((b + 40) + ?d) = unat (b + 40) + unat ?d"
    by (rule unat_add64) (use hdr_okD(2,4,5,8) [OF assms(1)] d in simp)
  then have "unat x = unat b + 40 + unat ?d" using hdr_okD(8) [OF assms(1)] by simp
  then show ?thesis using hdr_okD(2,4) [OF assms(1)] d by (simp add: ival_def)
qed

lemma tiled_live_disjoint:
  assumes t: "tiled h B R" and ab: "a \<in> B" "b \<in> B" "a \<noteq> b"
  shows "region (a + SIZEOF_MEM_BLOCK) (user_size (h a)) \<inter> region (b + SIZEOF_MEM_BLOCK) (user_size (h b)) = {}"
proof (rule ccontr)
  assume "\<not> ?thesis"
  then obtain x where "x \<in> region (a + SIZEOF_MEM_BLOCK) (user_size (h a))"
    "x \<in> region (b + SIZEOF_MEM_BLOCK) (user_size (h b))" by blast
  then have "unat x \<in> ival h a" "unat x \<in> ival h b"
    using live_region tiledD(2) [OF t] ab by blast+
  with tiledD(3) [OF t ab] show False by blast
qed

section \<open>Initialisation\<close>

lemma mem_init_inv:
  assumes "swap_space s \<noteq> 0" and "unat (swap_space s) + 65536 \<le> unat hs" and "0 < unat n"
    and "unat hs + unat n < 2 ^ 63" and "unat hs + 8 * 1024 * 1024 < 2 ^ 63"
  shows "mem_inv (mem_init hs n s) {} []"
proof -
  let ?s = "mem_init hs n s"
  have c: "unat (hs + n) = unat hs + unat n" "unat (hs + 8388608) = unat hs + 8388608"
    using assms(4,5) by (simp_all add: unat_add64)
  have f: "heap_start ?s = hs" "heap_ptr ?s = hs" "heap_committed_end ?s = hs + n"
    "heap_max_end ?s = (if hs + 8388608 < hs + n then hs + n else hs + 8388608)"
    "swap_space ?s = swap_space s" "swap_ptr ?s = swap_space s" "free_list ?s = 0"
    "heap_used_bytes ?s = 0"
    by (simp_all add: mem_init_def Let_def mem_vram_init_def EXOCORE_KERNEL_HEAP_MAX_SIZE_def)
  have "layout_ok ?s" using assms c by (simp add: layout_ok_def f word_less_nat_alt)
  moreover have "tiled (hdrs ?s) {} (regions ?s)" by (simp add: tiled_def regions_def f)
  ultimately show ?thesis by (simp add: mem_inv_def heap_ok_def f)
qed

section \<open>Taking a block from the free list\<close>

lemma split_block_whole:
  "\<not> tot + SIZEOF_MEM_BLOCK + 8 \<le> total_size (hdrs s b) \<Longrightarrow>
   split_block b tot l s = upd_hdr b (\<lambda>m. m\<lparr>guard := MEM_GUARD_ACTIVE, nxt := 0\<rparr>)
     (set_link l (nxt (hdrs s b)) s)"
  by (simp add: split_block_def)

lemma upd_hdr_fields [simp]:
  "heap_start (upd_hdr b f s) = heap_start s" "heap_ptr (upd_hdr b f s) = heap_ptr s"
  "heap_committed_end (upd_hdr b f s) = heap_committed_end s"
  "heap_max_end (upd_hdr b f s) = heap_max_end s"
  "heap_used_bytes (upd_hdr b f s) = heap_used_bytes s" "swap_space (upd_hdr b f s) = swap_space s"
  "swap_ptr (upd_hdr b f s) = swap_ptr s" "free_list (upd_hdr b f s) = free_list s"
  "mem_ram (upd_hdr b f s) = mem_ram s" "swap_end (upd_hdr b f s) = swap_end s"
  "hdrs (upd_hdr b f s) = (hdrs s)(b := f (hdrs s b))"
  by (simp_all add: upd_hdr_def swap_end_def)

lemma set_link_fields [simp]:
  "heap_start (set_link l q s) = heap_start s" "heap_ptr (set_link l q s) = heap_ptr s"
  "heap_committed_end (set_link l q s) = heap_committed_end s"
  "heap_max_end (set_link l q s) = heap_max_end s"
  "heap_used_bytes (set_link l q s) = heap_used_bytes s" "swap_space (set_link l q s) = swap_space s"
  "swap_ptr (set_link l q s) = swap_ptr s" "mem_ram (set_link l q s) = mem_ram s"
  "total_size (hdrs (set_link l q s) c) = total_size (hdrs s c)"
  "user_size (hdrs (set_link l q s) c) = user_size (hdrs s c)"
  "guard (hdrs (set_link l q s) c) = guard (hdrs s c)"
  "from_swap (hdrs (set_link l q s) c) = from_swap (hdrs s c)"
  by (simp_all add: set_link_def split: link.split)

lemma regions_cong:
  "swap_space t = swap_space s \<Longrightarrow> swap_ptr t = swap_ptr s \<Longrightarrow> heap_start t = heap_start s \<Longrightarrow>
   heap_ptr t = heap_ptr s \<Longrightarrow> regions t = regions s"
  by (auto simp: regions_def fun_eq_iff)

lemma layout_ok_cong:
  "swap_space t = swap_space s \<Longrightarrow> swap_ptr t = swap_ptr s \<Longrightarrow> heap_start t = heap_start s \<Longrightarrow>
   heap_ptr t = heap_ptr s \<Longrightarrow> heap_committed_end t = heap_committed_end s \<Longrightarrow>
   heap_max_end t = heap_max_end s \<Longrightarrow> layout_ok t = layout_ok s"
  by (simp add: layout_ok_def)

lemma joined_cong:
  "total_size (h' a) = total_size (h a) \<Longrightarrow> from_swap (h' a) = from_swap (h a) \<Longrightarrow>
   from_swap (h' b) = from_swap (h b) \<Longrightarrow> joined h' a b = joined h a b"
  by (simp add: joined_def same_backing_region_def blocks_adjacent_def)

lemma flist_take:
  fixes s :: mem_state
  assumes "flist (hdrs s) (free_list s) (us @ b # vs)" and "distinct (us @ b # vs)"
  shows "flist (hdrs s) (nxt (hdrs s b)) vs" "b \<noteq> 0"
  using flist_append_link [OF assms(1)] by auto

lemma take_whole:
  assumes ok: "heap_ok s B (us @ b # vs)"
    and t: "t = upd_hdr b (\<lambda>m. m\<lparr>guard := MEM_GUARD_ACTIVE, nxt := 0\<rparr>)
              (set_link (link_of us) (nxt (hdrs s b)) s)"
  shows "heap_ok t B (us @ vs)"
    "total_size (hdrs t c) = total_size (hdrs s c)" "user_size (hdrs t c) = user_size (hdrs s c)"
    "from_swap (hdrs t c) = from_swap (hdrs s c)"
proof -
  let ?s = "set_link (link_of us) (nxt (hdrs s b)) s"
  note D = heap_okD [OF ok]
  show sz: "total_size (hdrs t c) = total_size (hdrs s c)" "user_size (hdrs t c) = user_size (hdrs s c)"
    "from_swap (hdrs t c) = from_swap (hdrs s c)" for c
    by (simp_all add: t)
  have fl: "flist (hdrs ?s) (free_list ?s) (us @ vs)"
    by (rule flist_set_link [OF D(3)]) (use D(4) flist_take [OF D(3,4)] in auto)
  show "heap_ok t B (us @ vs)"
  proof (rule heap_okI)
    show "layout_ok t" using D(1) by (subst layout_ok_cong [of t s]) (simp_all add: t)
    have "regions t = regions s" by (rule regions_cong) (simp_all add: t)
    with D(2) show "tiled (hdrs t) B (regions t)" using tiled_cong [of B "hdrs t" "hdrs s"] sz by simp
    have "flist ((hdrs ?s)(b := m)) (free_list ?s) (us @ vs)" for m using fl D(4) by simp
    then show "flist (hdrs t) (free_list t) (us @ vs)" unfolding t upd_hdr_fields .
    show "guard (hdrs t c) = (if c \<in> set (us @ vs) then MEM_GUARD_FREED else MEM_GUARD_ACTIVE)"
      if "c \<in> B" for c
      using D(6) [OF that] D(4) by (auto simp: t)
    show "\<not> joined (hdrs t) x y" if "x \<in> set (us @ vs)" "y \<in> set (us @ vs)" for x y
      using D(7) [of x y] that joined_cong [of "hdrs t" x "hdrs s" y] sz by auto
  qed (use D(4,5) in auto)
qed

lemma split_hdrs:
  assumes "unat tot + 48 \<le> unat (total_size (hdrs s b))" and "40 \<le> unat tot"
    and "b + tot \<noteq> b"
  shows "split_block b tot l s =
      upd_hdr b (\<lambda>m. m\<lparr>guard := MEM_GUARD_ACTIVE, nxt := 0\<rparr>) (set_link l (b + tot)
        (s\<lparr>hdrs := (hdrs s)
            (b + tot := \<lparr>total_size = total_size (hdrs s b) - tot,
               user_size = total_size (hdrs s b) - tot - SIZEOF_MEM_BLOCK, guard = MEM_GUARD_FREED,
               nxt = nxt (hdrs s b), from_swap = from_swap (hdrs s b)\<rparr>,
             b := (hdrs s b)\<lparr>total_size := tot, user_size := tot - SIZEOF_MEM_BLOCK, nxt := 0\<rparr>)\<rparr>))"
proof -
  have "unat (tot + SIZEOF_MEM_BLOCK + 8) = unat tot + 48"
  proof -
    have "unat tot + 48 < 18446744073709551616"
      using assms(1) unat_lt_2p64 [of "total_size (hdrs s b)"] by linarith
    then have "unat (tot + 48) = unat tot + 48" by (simp add: unat_add64)
    then show ?thesis by (simp add: SIZEOF_MEM_BLOCK_def add.assoc)
  qed
  with assms(1) have "tot + SIZEOF_MEM_BLOCK + 8 \<le> total_size (hdrs s b)"
    by (simp add: word_le_nat_alt)
  with assms(3) show ?thesis
    by (simp add: split_block_def upd_hdr_def Let_def)
qed

text \<open>What a split leaves: the head of the block, its tail, and every other header but for its link.\<close>

definition split_shape :: "addr \<Rightarrow> u64 \<Rightarrow> (addr \<Rightarrow> mem_block) \<Rightarrow> (addr \<Rightarrow> mem_block) \<Rightarrow> bool" where
  "split_shape b tot h h' \<longleftrightarrow>
     total_size (h' b) = tot \<and> user_size (h' b) = tot - 40 \<and> from_swap (h' b) = from_swap (h b) \<and>
     guard (h' b) = MEM_GUARD_ACTIVE \<and> total_size (h' (b + tot)) = total_size (h b) - tot \<and>
     user_size (h' (b + tot)) = total_size (h b) - tot - 40 \<and>
     from_swap (h' (b + tot)) = from_swap (h b) \<and> guard (h' (b + tot)) = MEM_GUARD_FREED \<and>
     (\<forall>c. c \<noteq> b \<longrightarrow> c \<noteq> b + tot \<longrightarrow>
        total_size (h' c) = total_size (h c) \<and> user_size (h' c) = user_size (h c) \<and>
        from_swap (h' c) = from_swap (h c) \<and> guard (h' c) = guard (h c))"

lemma split_shape_other:
  assumes "split_shape b tot h h'" and "c \<noteq> b" "c \<noteq> b + tot"
  shows "total_size (h' c) = total_size (h c)" "user_size (h' c) = user_size (h c)"
    "from_swap (h' c) = from_swap (h c)" "guard (h' c) = guard (h c)"
  using assms by (simp_all add: split_shape_def)

lemma split_block_shape:
  assumes tot: "unat tot + 48 \<le> unat (total_size (hdrs s b))" "40 \<le> unat tot" "b + tot \<noteq> b"
    and fl: "flist (hdrs s) (free_list s) (us @ b # vs)" "distinct (us @ b # vs)"
    and r: "b + tot \<notin> set (us @ b # vs)" "b + tot \<noteq> 0" and t: "t = split_block b tot (link_of us) s"
  shows "split_shape b tot (hdrs s) (hdrs t)" "flist (hdrs t) (free_list t) (us @ (b + tot) # vs)"
    "regions t = regions s" "layout_ok t = layout_ok s" "heap_used_bytes t = heap_used_bytes s"
    "mem_ram t = mem_ram s"
proof -
  define m1 where "m1 = \<lparr>total_size = total_size (hdrs s b) - tot,
      user_size = total_size (hdrs s b) - tot - SIZEOF_MEM_BLOCK, guard = MEM_GUARD_FREED,
      nxt = nxt (hdrs s b), from_swap = from_swap (hdrs s b)\<rparr>"
  define m2 where "m2 = (hdrs s b)\<lparr>total_size := tot, user_size := tot - SIZEOF_MEM_BLOCK, nxt := 0\<rparr>"
  define s1 where "s1 = s\<lparr>hdrs := (hdrs s)(b + tot := m1, b := m2)\<rparr>"
  define s2 where "s2 = set_link (link_of us) (b + tot) s1"
  have t': "t = upd_hdr b (\<lambda>m. m\<lparr>guard := MEM_GUARD_ACTIVE, nxt := 0\<rparr>) s2"
    unfolding t s2_def s1_def m1_def m2_def by (rule split_hdrs [OF tot])
  show "split_shape b tot (hdrs s) (hdrs t)"
    using tot(3) by (simp add: split_shape_def t' s2_def s1_def m1_def m2_def SIZEOF_MEM_BLOCK_def)
  have f: "swap_space t = swap_space s" "swap_ptr t = swap_ptr s" "heap_start t = heap_start s"
    "heap_ptr t = heap_ptr s" "heap_committed_end t = heap_committed_end s"
    "heap_max_end t = heap_max_end s"
    by (simp_all add: t' s2_def s1_def)
  then show "regions t = regions s" "layout_ok t = layout_ok s"
    by (simp_all add: regions_def fun_eq_iff layout_ok_def)
  show "heap_used_bytes t = heap_used_bytes s" "mem_ram t = mem_ram s" by (simp_all add: t' s2_def s1_def)
  have h1: "\<And>x. x \<in> set us \<or> x \<in> set vs \<Longrightarrow> hdrs s1 x = hdrs s x" "nxt (hdrs s1 (b + tot)) = nxt (hdrs s b)"
    using r fl(2) tot(3) by (auto simp: s1_def m1_def)
  have "flist (hdrs s1) p us' = flist (hdrs s) p us'" if "set us' \<subseteq> set us \<union> set vs" for p us'
    by (rule flist_cong) (use h1(1) that in auto)
  note c = this
  have vs: "flist (hdrs s1) (nxt (hdrs s b)) vs" using flist_take [OF fl] c [of vs] by simp
  have r': "flist (hdrs s1) (b + tot) ((b + tot) # vs)" using vs h1(2) r(2) by simp
  have cut: "flist (hdrs s1) (free_list s1) (us @ [b])"
    using flist_cut [OF fl(1), of "hdrs s1"] h1(1) by (simp add: s1_def m2_def)
  have "flist (hdrs s2) (free_list s2) (us @ (b + tot) # vs)"
    unfolding s2_def by (rule flist_set_link [OF cut _ _ r']) (use fl(2) r(1) in auto)
  then have "flist ((hdrs s2)(b := m)) (free_list s2) (us @ (b + tot) # vs)" for m
    using fl(2) tot(3) by (subst flist_upd) auto
  then show "flist (hdrs t) (free_list t) (us @ (b + tot) # vs)" unfolding t' upd_hdr_fields .
qed

lemma split_tiled:
  assumes t: "tiled h B R" and b: "b \<in> B" and sh: "split_shape b tot h h'"
    and tot: "unat tot + 48 \<le> unat (total_size (h b))" "40 \<le> unat tot" "8 dvd unat tot"
    and r: "b + tot \<notin> B"
  shows "tiled h' (insert (b + tot) B) R"
proof -
  let ?r = "b + tot" and ?av = "total_size (h b)"
  have bok: "hdr_ok b (h b)" using tiledD(2) [OF t b] .
  have ur: "unat ?r = unat b + unat tot" using tot hdr_okD(5) [OF bok] by (intro unat_add64) simp
  have rb: "?r \<noteq> b" using ur tot(2) by auto
  have av: "unat (?av - tot) = unat ?av - unat tot" using tot by (intro unat_diff64) simp
  have us40: "unat (?av - tot - 40) = unat ?av - unat tot - 40" "unat (tot - 40) = unat tot - 40"
    using tot av unat_diff64 [of 40 "?av - tot"] unat_diff64 [of 40 tot] by simp_all
  define h1 where "h1 = (\<lambda>c. if c = b \<or> c = ?r then h' c else h c)"
  have h1: "h1 b = h' b" "h1 ?r = h' ?r" "\<And>c. c \<noteq> b \<Longrightarrow> c \<noteq> ?r \<Longrightarrow> h1 c = h c"
    by (simp_all add: h1_def)
  have iv: "ival h1 b = {unat b..<unat b + unat tot}"
    "ival h1 ?r = {unat b + unat tot..<unat b + unat ?av}" "ival h b = {unat b..<unat b + unat ?av}"
    using h1 sh ur av tot by (simp_all add: ival_def split_shape_def)
  have "8 dvd unat ?av - unat tot" using tot(3) hdr_okD(3) [OF bok] by simp
  moreover have "?r \<noteq> 0" using ur tot(2) by (metis add_is_0 not_numeral_le_zero unat_0)
  ultimately have ok: "hdr_ok ?r (h1 ?r)" "hdr_ok b (h1 b)"
    using sh h1 ur av tot us40 hdr_okD(1,2,5) [OF bok] by (auto simp: hdr_ok_def split_shape_def)
  have "tiled h1 (B \<union> {b, ?r}) R"
  proof (rule tiled_replace [OF t b])
    show "hdr_ok c (h1 c) \<and> from_swap (h1 c) = from_swap (h b)" if "c \<in> {b, ?r}" for c
      using that ok h1 sh by (auto simp: split_shape_def)
    show "ival h1 c \<inter> ival h1 d = {}" if "c \<in> {b, ?r}" "d \<in> {b, ?r}" "c \<noteq> d" for c d
      using that iv by auto
    show "\<Union> (ival h1 ` {b, ?r}) = ival h b" using iv tot by auto
    show "h1 c = h c" if "c \<in> B" "c \<noteq> b" for c using that h1(3) r by metis
  qed (use r in auto)
  moreover have "B \<union> {b, ?r} = insert ?r B" using b by auto
  ultimately show ?thesis
    using tiled_cong [of "insert ?r B" h' h1 R] sh by (simp add: h1_def split_shape_def)
qed

lemma tail_fresh:
  assumes t: "tiled h B R" and b: "b \<in> B" and tot: "unat tot < unat (total_size (h b))" "0 < unat tot"
  shows "b + tot \<notin> B" "unat (b + tot) = unat b + unat tot"
proof -
  have ok: "hdr_ok b (h b)" using tiledD(2) [OF t b] .
  show r: "unat (b + tot) = unat b + unat tot" using tot hdr_okD(5) [OF ok] by (intro unat_add64) simp
  show "b + tot \<notin> B"
  proof
    assume in_B: "b + tot \<in> B"
    have "unat (b + tot) \<in> ival h (b + tot) \<inter> ival h b"
      using r tot hdr_okD(2) [OF tiledD(2) [OF t in_B]] by (auto simp: ival_def)
    moreover have "b + tot \<noteq> b" using r tot by auto
    ultimately show False using tiledD(3) [OF t in_B b] by blast
  qed
qed

lemma take_split:
  assumes ok: "heap_ok s B (us @ b # vs)" and tot: "unat tot + 48 \<le> unat (total_size (hdrs s b))"
    "40 \<le> unat tot" "8 dvd unat tot" and t: "t = split_block b tot (link_of us) s"
  shows "heap_ok t (insert (b + tot) B) (us @ (b + tot) # vs)" "b + tot \<notin> B"
    "split_shape b tot (hdrs s) (hdrs t)" "heap_used_bytes t = heap_used_bytes s" "mem_ram t = mem_ram s"
proof -
  let ?r = "b + tot"
  note D = heap_okD [OF ok]
  have b: "b \<in> B" using D(5) by auto
  have r: "?r \<notin> B" "unat ?r = unat b + unat tot" using tail_fresh [OF D(2) b, of tot] tot by auto
  have ne: "?r \<noteq> b" "?r \<noteq> 0" "?r \<notin> set (us @ b # vs)"
    using r tot(2) D(5) b unat_0 [where 'a = 64] by (auto simp flip: unat_eq_0)
  note sp = split_block_shape [OF tot(1,2) ne(1) D(3,4) ne(3,2) t]
  show "?r \<notin> B" "split_shape b tot (hdrs s) (hdrs t)" "heap_used_bytes t = heap_used_bytes s"
    "mem_ram t = mem_ram s"
    using r sp by blast+
  have tl: "tiled (hdrs t) (insert ?r B) (regions t)"
    using split_tiled [OF D(2) b sp(1) tot r(1)] sp(3) by simp
  show "heap_ok t (insert ?r B) (us @ ?r # vs)"
  proof (rule heap_okI [OF _ tl sp(2)])
    show "guard (hdrs t c) = (if c \<in> set (us @ ?r # vs) then MEM_GUARD_FREED else MEM_GUARD_ACTIVE)"
      if "c \<in> insert ?r B" for c
      using D(6) [of c] that D(4) sp(1) r(1) ne by (cases "c = b"; cases "c = ?r") (auto simp: split_shape_def)
    show "\<not> joined (hdrs t) x y" if xy: "x \<in> set (us @ ?r # vs)" "y \<in> set (us @ ?r # vs)" for x y
    proof
      assume j: "joined (hdrs t) x y"
      have xB: "x \<in> insert ?r B" "x \<noteq> b" "y \<noteq> b" "y \<in> insert ?r B" using xy D(4,5) ne by auto
      have "y \<noteq> ?r"
      proof
        assume "y = ?r"
        with j sp(1) have "x + total_size (hdrs t x) = b + total_size (hdrs t b)"
          by (simp add: joined_def blocks_adjacent_def split_shape_def)
        with tiled_same_end [OF tl xB(1)] b xB(2) show False by blast
      qed
      with xy have y: "y \<in> set (us @ b # vs)" by auto
      show False
      proof (cases "x = ?r")
        case True
        with j sp(1) split_shape_other(3) [OF sp(1) xB(3) \<open>y \<noteq> ?r\<close>] have "joined (hdrs s) b y"
          by (simp add: joined_def blocks_adjacent_def same_backing_region_def split_shape_def)
        with D(7) [of b y] y show False by simp
      next
        case False
        with j sp(1) xB(2,3) \<open>y \<noteq> ?r\<close> have "joined (hdrs s) x y"
          by (simp add: joined_def blocks_adjacent_def same_backing_region_def split_shape_def)
        with D(7) [of x y] y xy False show False by auto
      qed
    qed
  qed (use D sp(4) r ne in auto)
qed

section \<open>Handing out a block\<close>

text \<open>
  \<open>granted s t b tot B F\<close>: from \<open>s\<close> to \<open>t\<close> the block \<open>b\<close> of at least \<open>tot\<close> bytes became active, every
  other active block and the RAM are as before, and the bytes in use are not yet counted.
\<close>

definition granted ::
  "mem_state \<Rightarrow> mem_state \<Rightarrow> addr \<Rightarrow> u64 \<Rightarrow> addr set \<Rightarrow> addr list \<Rightarrow> addr set \<Rightarrow> addr list \<Rightarrow> bool" where
  "granted s t b tot B F B' F' \<longleftrightarrow> heap_ok t B' F' \<and> b \<in> B' \<and> b \<notin> B - set F \<and>
     B' - set F' = insert b (B - set F) \<and> tot \<le> total_size (hdrs t b) \<and>
     (\<forall>c\<in>B - set F. user_size (hdrs t c) = user_size (hdrs s c)) \<and>
     heap_used_bytes t = heap_used_bytes s \<and> mem_ram t = mem_ram s"

lemma card_regions:
  assumes "layout_ok s"
  shows "card (regions s False) = unat (heap_ptr s) - unat (heap_start s)"
    "card (regions s True) = unat (swap_ptr s) - unat (swap_space s)"
  by (simp_all add: regions_def)

lemma active_bytes_bound:
  assumes "heap_ok s B F" and "A \<subseteq> B"
  shows "(\<Sum>b\<in>A. unat (user_size (hdrs s b))) < 2 ^ 64"
proof -
  note D = heap_okD [OF assms(1)]
  have "(\<Sum>b\<in>A. unat (user_size (hdrs s b))) \<le> (\<Sum>b\<in>B. unat (user_size (hdrs s b)))"
    using tiledD(1) [OF D(2)] assms(2) by (intro sum_mono2) auto
  also have "\<dots> \<le> (\<Sum>b\<in>B. unat (total_size (hdrs s b)))"
    using hdr_okD(4) [OF tiledD(2) [OF D(2)]] by (intro sum_mono) simp
  also have "\<dots> = (unat (heap_ptr s) - unat (heap_start s)) + (unat (swap_ptr s) - unat (swap_space s))"
    using tiled_sum [OF D(2)] card_regions [OF D(1)] by simp
  also have "\<dots> < 2 ^ 64" using layout_okD [OF D(1)] by simp
  finally show ?thesis .
qed

lemma granted_account:
  assumes inv: "mem_inv s B F" and g: "granted s t b tot B F B' F'"
    and u: "u = t\<lparr>heap_used_bytes := heap_used_bytes t + user_size (hdrs t b)\<rparr>"
  shows "mem_inv u B' F'"
    "live_map (hdrs u) (B' - set F') =
      (live_map (hdrs s) (B - set F))(b + SIZEOF_MEM_BLOCK \<mapsto> user_size (hdrs t b))"
proof -
  have ok: "heap_ok t B' F'" and A: "B' - set F' = insert b (B - set F)" "b \<notin> B - set F"
    and same: "\<forall>c\<in>B - set F. user_size (hdrs t c) = user_size (hdrs s c)"
    and used: "heap_used_bytes t = heap_used_bytes s"
    using g by (auto simp: granted_def)
  have fin: "finite (B - set F)" using inv by (auto simp: mem_inv_def heap_ok_def tiled_def)
  have sum: "(\<Sum>c\<in>B' - set F'. unat (user_size (hdrs t c))) =
      unat (user_size (hdrs t b)) + unat (heap_used_bytes s)"
    using A fin same inv by (simp add: mem_inv_def)
  then have "unat (heap_used_bytes t + user_size (hdrs t b)) = (\<Sum>c\<in>B' - set F'. unat (user_size (hdrs t c)))"
    using active_bytes_bound [OF ok, of "B' - set F'"] used by (simp add: unat_add64)
  moreover have "heap_ok u B' F'"
    using ok unfolding u by simp
  ultimately show "mem_inv u B' F'" by (simp add: mem_inv_def u)
  show "live_map (hdrs u) (B' - set F') =
      (live_map (hdrs s) (B - set F))(b + SIZEOF_MEM_BLOCK \<mapsto> user_size (hdrs t b))"
    unfolding A(1) using live_map_insert [of "B - set F" "hdrs t" "hdrs s" b] same by (simp add: u)
qed

lemma acquire_granted:
  assumes inv: "heap_ok s B F" and tot: "40 \<le> unat tot" "8 dvd unat tot" "unat tot < 2 ^ 63"
  shows "(\<exists>b t B' F'. acquire_from_free_list tot s = Some (b, t) \<and> b \<in> set F \<and> b \<noteq> 0 \<and>
      (\<forall>x\<in>set F. tot \<le> total_size (hdrs s x) \<longrightarrow> total_size (hdrs s b) \<le> total_size (hdrs s x)) \<and>
      granted s t b tot B F B' F') \<or>
    acquire_from_free_list tot s = Some (0, s) \<and> (\<forall>x\<in>set F. total_size (hdrs s x) < tot)"
proof -
  note D = heap_okD [OF inv]
  have "best_in (hdrs s) tot [] Head 0" by (simp add: best_in_def)
  from acquire_loop_best [OF D(3) this] obtain l b where
    acq: "acquire_loop (hdrs s) tot Head (free_list s) Head 0 = Some (l, b)"
    and best: "best_in (hdrs s) tot F l b" by auto
  show ?thesis
  proof (cases "b = 0")
    case True
    with acq best show ?thesis by (simp add: acquire_from_free_list_def best_in_def)
  next
    case False
    with best obtain us vs where F: "F = us @ b # vs" and l: "l = link_of us"
      and fit: "tot \<le> total_size (hdrs s b)"
      and first: "\<forall>x\<in>set us. tot \<le> total_size (hdrs s x) \<longrightarrow> total_size (hdrs s b) < total_size (hdrs s x)"
      and rest: "\<forall>x\<in>set vs. tot \<le> total_size (hdrs s x) \<longrightarrow> total_size (hdrs s b) \<le> total_size (hdrs s x)"
      by (auto simp: best_in_def)
    let ?t = "split_block b tot (link_of us) s"
    have bF: "b \<in> set F" "b \<in> B" using F D(5) by auto
    have bf: "b \<notin> set (us @ vs)" using F D(4) by auto
    have "\<exists>B' F'. granted s ?t b tot B F B' F'"
    proof (cases "unat tot + 48 \<le> unat (total_size (hdrs s b))")
      case True
      note ts = take_split [OF inv [unfolded F] True tot(1,2) refl]
      have "granted s ?t b tot B F (insert (b + tot) B) (us @ (b + tot) # vs)"
        unfolding granted_def
      proof (intro conjI ballI)
        show "heap_ok ?t (insert (b + tot) B) (us @ (b + tot) # vs)" by (rule ts(1))
        show "insert (b + tot) B - set (us @ (b + tot) # vs) = insert b (B - set F)"
          using ts(2) bF bf F by auto
        show "tot \<le> total_size (hdrs ?t b)" using ts(3) by (simp add: split_shape_def)
        show "user_size (hdrs ?t c) = user_size (hdrs s c)" if "c \<in> B - set F" for c
          by (rule split_shape_other(2) [OF ts(3)]) (use that ts(2) bF in auto)
      qed (use ts bF in auto)
      then show ?thesis by blast
    next
      case False
      have "unat (tot + SIZEOF_MEM_BLOCK + 8) = unat tot + 48"
        using unat_add64 [of tot 48] tot(3) by (simp add: SIZEOF_MEM_BLOCK_def add.assoc)
      then have whole: "?t = upd_hdr b (\<lambda>m. m\<lparr>guard := MEM_GUARD_ACTIVE, nxt := 0\<rparr>)
          (set_link (link_of us) (nxt (hdrs s b)) s)"
        using False by (intro split_block_whole) (simp add: word_le_nat_alt)
      note tw = take_whole [OF inv [unfolded F] whole]
      have "granted s ?t b tot B F B (us @ vs)"
        unfolding granted_def
      proof (intro conjI ballI)
        show "heap_ok ?t B (us @ vs)" by (rule tw(1))
        show "B - set (us @ vs) = insert b (B - set F)" using bF bf F by auto
        show "heap_used_bytes ?t = heap_used_bytes s" "mem_ram ?t = mem_ram s" by (simp_all add: whole)
      qed (use tw(2-4) bF fit in auto)
      then show ?thesis by blast
    qed
    moreover have "\<forall>x\<in>set F. tot \<le> total_size (hdrs s x) \<longrightarrow> total_size (hdrs s b) \<le> total_size (hdrs s x)"
      using first rest F by (auto intro: less_imp_le)
    moreover have "acquire_from_free_list tot s = Some (b, ?t)"
      using acq False l by (simp add: acquire_from_free_list_def)
    ultimately show ?thesis using bF(1) False by blast
  qed
qed

end
