(* ===== verification/Mem_Alloc.thy ===== *)
theory Mem_Alloc
  imports Mem_Inv
begin

text \<open>
  Allocation: fresh blocks from the heap and the swap space, growing the heap, and \<open>mem_alloc\<close> as an
  insertion into the map of live pointers.
\<close>

section \<open>Fresh blocks\<close>

lemma append_granted:
  assumes ok: "heap_ok s B F" and lay: "layout_ok t" and h: "hdrs t = (hdrs s)(c := m)"
    and m: "hdr_ok c m" "guard m = MEM_GUARD_ACTIVE" "tot \<le> total_size m" and fl: "free_list t = free_list s"
    and R: "regions t = (regions s)(from_swap m := regions s (from_swap m) \<union> ival (hdrs t) c)"
    and new: "\<And>sw. ival (hdrs t) c \<inter> regions s sw = {}"
    and rest: "heap_used_bytes t = heap_used_bytes s" "mem_ram t = mem_ram s"
  shows "granted s t c tot B F (insert c B) F"
proof -
  note D = heap_okD [OF ok]
  have tc: "hdrs t c = m" using h by simp
  have c: "c \<notin> B"
    using tiled_start [OF D(2), of c] start_in_ival [of c "hdrs t"] m(1) tc new by auto
  then have same: "hdrs t x = hdrs s x" if "x \<in> B" for x using that h by auto
  have tl: "tiled (hdrs t) (insert c B) (regions t)"
    unfolding R by (rule tiled_append(1) [OF D(2)]) (use m new tc same in auto)
  have "flist (hdrs t) (free_list t) F" unfolding h fl using D(3,5) c by (subst flist_upd) auto
  then have "heap_ok t (insert c B) F"
  proof (rule heap_okI [OF lay tl])
    show "\<not> joined (hdrs t) x y" if "x \<in> set F" "y \<in> set F" for x y
    proof -
      have "joined (hdrs t) x y = joined (hdrs s) x y"
        by (rule joined_cong) (use that D(5) same in auto)
      with D(7) that show ?thesis by blast
    qed
    show "guard (hdrs t b) = (if b \<in> set F then MEM_GUARD_FREED else MEM_GUARD_ACTIVE)"
      if "b \<in> insert c B" for b
      using that D(5) D(6) [of b] tc m(2) same c by auto
  qed (use D in auto)
  with c D(5) m(3) tc same rest show ?thesis by (auto simp: granted_def)
qed

definition fresh_hdr :: "u64 \<Rightarrow> bool \<Rightarrow> mem_block" where
  "fresh_hdr tot sw = \<lparr>total_size = tot, user_size = tot - SIZEOF_MEM_BLOCK, guard = MEM_GUARD_ACTIVE,
     nxt = 0, from_swap = sw\<rparr>"

lemma fresh_hdr_ok:
  assumes "c \<noteq> 0" and "40 \<le> unat tot" "8 dvd unat tot" "unat c + unat tot < 2 ^ 64"
  shows "hdr_ok c (fresh_hdr tot sw)"
  using assms unat_diff64 [of 40 tot] by (simp add: hdr_ok_def fresh_hdr_def SIZEOF_MEM_BLOCK_def)

lemma fresh_heap_block_granted:
  assumes ok: "heap_ok s B F" and tot: "40 \<le> unat tot" "8 dvd unat tot" "unat tot < 2 ^ 63"
    and room: "unat (heap_ptr s) + unat tot \<le> unat (heap_committed_end s)"
  shows "\<exists>t. fresh_heap_block tot s = (heap_ptr s, t) \<and>
    granted s t (heap_ptr s) tot B F (insert (heap_ptr s) B) F"
proof -
  note D = heap_okD [OF ok] and L = layout_okD [OF heap_okD(1) [OF ok]]
  let ?c = "heap_ptr s"
  define t where "t = (upd_hdr ?c (\<lambda>_. fresh_hdr tot False) s)\<lparr>heap_ptr := ?c + tot\<rparr>"
  have e: "unat (?c + tot) = unat ?c + unat tot" using room L by (intro unat_add64) simp
  have "heap_committed_end s \<noteq> swap_end s" using L by auto
  then have run: "fresh_heap_block tot s = (?c, t)"
    using e room by (simp add: fresh_heap_block_def fresh_block_def t_def fresh_hdr_def word_less_nat_alt)
  have iv: "ival (hdrs t) ?c = {unat ?c..<unat ?c + unat tot}"
    by (simp add: ival_def t_def fresh_hdr_def)
  have "granted s t ?c tot B F (insert ?c B) F"
  proof (rule append_granted [OF ok, where m = "fresh_hdr tot False"])
    show "layout_ok t" using L e room by (simp add: layout_ok_def t_def)
    show "hdr_ok ?c (fresh_hdr tot False)"
      by (rule fresh_hdr_ok) (use tot L room in \<open>auto simp: unat_eq_0\<close>)
    show "regions t = (regions s)(from_swap (fresh_hdr tot False) :=
        regions s (from_swap (fresh_hdr tot False)) \<union> ival (hdrs t) ?c)"
      unfolding iv using L e by (auto simp: fun_eq_iff regions_def fresh_hdr_def t_def)
    show "ival (hdrs t) ?c \<inter> regions s sw = {}" for sw
      unfolding iv using L by (auto simp: regions_def)
  qed (simp_all add: t_def fresh_hdr_def)
  with run show ?thesis by blast
qed

lemma fresh_swap_block_granted:
  assumes ok: "heap_ok s B F" and tot: "40 \<le> unat tot" "8 dvd unat tot" "unat tot < 2 ^ 63"
    and room: "unat (swap_ptr s) + unat tot \<le> unat (swap_end s)"
  shows "\<exists>t. fresh_swap_block tot s = (swap_ptr s, t) \<and>
    granted s t (swap_ptr s) tot B F (insert (swap_ptr s) B) F"
proof -
  note D = heap_okD [OF ok] and L = layout_okD [OF heap_okD(1) [OF ok]]
  let ?c = "swap_ptr s"
  define t where "t = (upd_hdr ?c (\<lambda>_. fresh_hdr tot True) s)\<lparr>swap_ptr := ?c + tot\<rparr>"
  have e: "unat (?c + tot) = unat ?c + unat tot" using room L by (intro unat_add64) simp
  have run: "fresh_swap_block tot s = (?c, t)"
    using e room by (simp add: fresh_swap_block_def fresh_block_def t_def fresh_hdr_def word_less_nat_alt)
  have iv: "ival (hdrs t) ?c = {unat ?c..<unat ?c + unat tot}"
    by (simp add: ival_def t_def fresh_hdr_def)
  have "granted s t ?c tot B F (insert ?c B) F"
  proof (rule append_granted [OF ok, where m = "fresh_hdr tot True"])
    show "layout_ok t" using L e room by (simp add: layout_ok_def t_def)
    show "hdr_ok ?c (fresh_hdr tot True)"
      by (rule fresh_hdr_ok) (use tot L room in \<open>auto simp: unat_eq_0\<close>)
    show "regions t = (regions s)(from_swap (fresh_hdr tot True) :=
        regions s (from_swap (fresh_hdr tot True)) \<union> ival (hdrs t) ?c)"
      unfolding iv using L e by (auto simp: fun_eq_iff regions_def fresh_hdr_def t_def)
    show "ival (hdrs t) ?c \<inter> regions s sw = {}" for sw
      unfolding iv using L room by (auto simp: regions_def)
  qed (simp_all add: t_def fresh_hdr_def)
  with run show ?thesis by blast
qed

lemma fresh_block_full:
  assumes "unat cur + unat tot < 2 ^ 64" and "unat limit < unat cur + unat tot"
  shows "fresh_block cur limit tot s = (0, cur, s)"
  using assms unat_add64 [of cur tot] by (simp add: fresh_block_def word_less_nat_alt)

section \<open>Growing the heap\<close>

lemma unat_round_page:
  assumes "unat (n::u64) + 4095 < 2 ^ 64"
  shows "unat n \<le> unat ((n + 4095) AND NOT 4095)" "unat ((n + 4095) AND NOT 4095) \<le> unat n + 4095"
proof -
  have "unat (n + 4095) = unat n + 4095" using assms by (simp add: unat_add64)
  moreover have "(4095::u64) = mask 12" by (simp add: mask_eq_exp_minus_1)
  ultimately have "unat ((n + 4095) AND NOT 4095) = (unat n + 4095) - (unat n + 4095) mod 4096"
    by (simp only: unat_and_not_mask) simp
  moreover have "(unat n + 4095) mod 4096 \<le> 4095" by (simp flip: less_Suc_eq_le)
  ultimately show "unat n \<le> unat ((n + 4095) AND NOT 4095)" "unat ((n + 4095) AND NOT 4095) \<le> unat n + 4095"
    by linarith+
qed

lemma grow_heap_ok:
  assumes ok: "heap_ok s B F" and tot: "unat tot < 2 ^ 62 + 64"
  shows "heap_ok (grow_heap tot s) B F"
    "unat (heap_ptr s) + unat tot \<le> unat (heap_committed_end (grow_heap tot s)) \<or>
     unat (heap_max_end s) < unat (heap_ptr s) + unat tot + 4095"
proof -
  let ?t = "grow_heap tot s"
  note D = heap_okD [OF ok] and L = layout_okD [OF heap_okD(1) [OF ok]]
  have e: "unat (heap_ptr s + tot) = unat (heap_ptr s) + unat tot"
    using L tot by (intro unat_add64) simp
  have "layout_ok ?t \<and> (unat (heap_ptr s) + unat tot \<le> unat (heap_committed_end ?t) \<or>
      unat (heap_max_end s) < unat (heap_ptr s) + unat tot + 4095)"
  proof (cases "heap_committed_end s < heap_ptr s + tot")
    case False
    then show ?thesis using D(1) e by (simp add: grow_heap_def word_less_nat_alt)
  next
    case True
    let ?need = "heap_ptr s + tot - heap_committed_end s"
    let ?grow = "(?need + 4095) AND NOT 4095"
    have need: "unat ?need = unat (heap_ptr s) + unat tot - unat (heap_committed_end s)"
      using True e unat_diff64 [of "heap_committed_end s" "heap_ptr s + tot"] by (simp add: word_less_nat_alt)
    then have grow: "unat ?need \<le> unat ?grow" "unat ?grow \<le> unat ?need + 4095"
      using unat_round_page [of ?need] L tot by simp_all
    then have ce: "unat (heap_committed_end s + ?grow) = unat (heap_committed_end s) + unat ?grow"
      using need L tot by (intro unat_add64) simp
    show ?thesis
    proof (cases "heap_committed_end s + ?grow \<le> heap_max_end s")
      case le: True
      have "unat (heap_committed_end s) + unat ?grow \<le> unat (heap_max_end s)"
        using le ce by (simp add: word_le_nat_alt)
      moreover have "heap_committed_end ?t = heap_committed_end s + ?grow" "heap_start ?t = heap_start s"
        "heap_ptr ?t = heap_ptr s" "heap_max_end ?t = heap_max_end s" "swap_space ?t = swap_space s"
        "swap_ptr ?t = swap_ptr s"
        using True le by (simp_all add: grow_heap_def Let_def)
      moreover have "unat (heap_ptr s) + unat tot \<le> unat (heap_committed_end s) + unat ?grow"
        using grow(1) unfolding need by linarith
      ultimately show ?thesis using L ce by (simp add: layout_ok_def)
    next
      case False
      then have "?t = s" using True by (simp add: grow_heap_def Let_def)
      moreover have "unat (heap_max_end s) < unat (heap_committed_end s) + unat ?grow"
        using False ce by (simp add: word_le_nat_alt)
      ultimately show ?thesis using D(1) grow(2) need True e by (simp add: word_less_nat_alt)
    qed
  qed
  note grown = this
  then show "unat (heap_ptr s) + unat tot \<le> unat (heap_committed_end ?t) \<or>
     unat (heap_max_end s) < unat (heap_ptr s) + unat tot + 4095" by blast
  have "regions ?t = regions s" by (rule regions_cong) (simp_all add: grow_heap_def Let_def)
  moreover have "hdrs ?t = hdrs s" "free_list ?t = free_list s" by (simp_all add: grow_heap_def Let_def)
  ultimately show "heap_ok ?t B F" using ok grown by (simp add: heap_ok_def)
qed

lemma grow_heap_fields [simp]:
  "hdrs (grow_heap tot s) = hdrs s" "free_list (grow_heap tot s) = free_list s"
  "heap_ptr (grow_heap tot s) = heap_ptr s" "swap_ptr (grow_heap tot s) = swap_ptr s"
  "swap_space (grow_heap tot s) = swap_space s" "swap_end (grow_heap tot s) = swap_end s"
  "heap_used_bytes (grow_heap tot s) = heap_used_bytes s" "mem_ram (grow_heap tot s) = mem_ram s"
  "heap_start (grow_heap tot s) = heap_start s" "heap_max_end (grow_heap tot s) = heap_max_end s"
  by (simp_all add: grow_heap_def Let_def swap_end_def)

section \<open>\<^verbatim>\<open>mem_alloc\<close>\<close>

text \<open>The two ways in which an allocation ends.\<close>

definition alloc_ok :: "u64 \<Rightarrow> mem_state \<Rightarrow> addr set \<Rightarrow> addr list \<Rightarrow> addr \<times> mem_state \<Rightarrow> bool" where
  "alloc_ok sz s B F = (\<lambda>(p, u). \<exists>b B' F'. p = b + SIZEOF_MEM_BLOCK \<and> mem_inv u B' F' \<and> b \<in> B' \<and>
     b \<notin> B - set F \<and> B' - set F' = insert b (B - set F) \<and> sz \<le> user_size (hdrs u b) \<and>
     live_map (hdrs u) (B' - set F') =
       (live_map (hdrs s) (B - set F))(p \<mapsto> user_size (hdrs u b)) \<and> mem_ram u = mem_ram s)"

definition alloc_fail :: "u64 \<Rightarrow> mem_state \<Rightarrow> addr set \<Rightarrow> addr list \<Rightarrow> addr \<times> mem_state \<Rightarrow> bool" where
  "alloc_fail sz s B F = (\<lambda>(p, u). p = 0 \<and> mem_inv u B F \<and> hdrs u = hdrs s \<and> mem_ram u = mem_ram s \<and>
     (\<forall>x\<in>set F. total_size (hdrs s x) < block_total sz) \<and>
     unat (heap_max_end s) < unat (heap_ptr s) + unat (block_total sz) + 4095 \<and>
     unat (swap_end s) < unat (swap_ptr s) + unat (block_total sz))"

text \<open>The end of \<open>mem_alloc\<close> for a block that was found: the report and the count of bytes in use.\<close>

definition finish_alloc :: "addr \<Rightarrow> mem_state \<Rightarrow> addr \<times> mem_state" where
  "finish_alloc blk s =
     (let s = con [Con_puts (if from_swap (hdrs s blk) then '' swap alloc addr=0x''
                             else '' alloc addr=0x''),
                   Con_uhex (blk + SIZEOF_MEM_BLOCK), newline] s
      in (blk + SIZEOF_MEM_BLOCK,
          s\<lparr>heap_used_bytes := heap_used_bytes s + user_size (hdrs s blk)\<rparr>))"

lemma finish_alloc_ok:
  assumes inv: "mem_inv s B F" and g: "granted s t b (block_total sz) B F B' F'" and sz: "unat sz \<le> 2 ^ 62"
  shows "alloc_ok sz s B F (finish_alloc b t)"
proof -
  define t' where "t' = con [Con_puts (if from_swap (hdrs t b) then '' swap alloc addr=0x''
      else '' alloc addr=0x''), Con_uhex (b + SIZEOF_MEM_BLOCK), newline] t"
  define u where "u = t'\<lparr>heap_used_bytes := heap_used_bytes t' + user_size (hdrs t' b)\<rparr>"
  have f: "finish_alloc b t = (b + SIZEOF_MEM_BLOCK, u)"
    by (simp add: finish_alloc_def Let_def u_def t'_def)
  have t': "hdrs t' = hdrs t" "heap_used_bytes t' = heap_used_bytes t" "mem_ram t' = mem_ram t"
    by (simp_all add: t'_def)
  have "heap_ok t' B' F' = heap_ok t B' F'"
  proof -
    have "regions t' = regions t" by (rule regions_cong) (simp_all add: t'_def)
    moreover have "layout_ok t' = layout_ok t" by (rule layout_ok_cong) (simp_all add: t'_def)
    ultimately show ?thesis by (simp add: heap_ok_def t'_def)
  qed
  then have g': "granted s t' b (block_total sz) B F B' F'" using g by (simp add: granted_def t')
  note a = granted_account [OF inv g' u_def]
  have "tiled (hdrs t) B' (regions t)" "b \<in> B'" using g by (auto simp: granted_def heap_ok_def)
  then have bok: "hdr_ok b (hdrs t b)" by (rule tiledD(2))
  have "unat sz \<le> unat (user_size (hdrs t b))"
    using g hdr_okD(4) [OF bok] block_total_bounds(1) [OF sz] by (auto simp: granted_def word_le_nat_alt)
  moreover have "b \<in> B'" "b \<notin> B - set F" "B' - set F' = insert b (B - set F)" "mem_ram u = mem_ram s"
    using g' by (auto simp: granted_def u_def)
  moreover have hu: "hdrs u = hdrs t" by (simp add: u_def t')
  ultimately show ?thesis
    unfolding alloc_ok_def f prod.case hu
    by (intro exI [of _ b] exI [of _ B'] exI [of _ F'] conjI)
       (use a in \<open>simp_all add: word_le_nat_alt t' hu\<close>)
qed

text \<open>A fresh block from the heap or else from the swap space.\<close>

definition fresh_any :: "u64 \<Rightarrow> mem_state \<Rightarrow> addr \<times> mem_state" where
  "fresh_any tot s =
     (let (blk, s) = fresh_heap_block tot s in if blk = 0 then fresh_swap_block tot s else (blk, s))"

lemma fresh_any_cases:
  assumes ok: "heap_ok s B F" and tot: "40 \<le> unat tot" "8 dvd unat tot" "unat tot < 2 ^ 63"
  shows "(\<exists>b t B' F'. fresh_any tot s = (b, t) \<and> b \<noteq> 0 \<and> granted s t b tot B F B' F') \<or>
    fresh_any tot s = (0, s) \<and> unat (heap_committed_end s) < unat (heap_ptr s) + unat tot \<and>
    unat (swap_end s) < unat (swap_ptr s) + unat tot"
proof (cases "unat (heap_ptr s) + unat tot \<le> unat (heap_committed_end s)")
  case True
  note L = layout_okD [OF heap_okD(1) [OF ok]]
  then have "heap_ptr s \<noteq> 0" by (auto simp: unat_eq_0)
  with fresh_heap_block_granted [OF ok tot True] show ?thesis by (auto simp: fresh_any_def)
next
  case False
  note L = layout_okD [OF heap_okD(1) [OF ok]]
  have full: "fresh_heap_block tot s = (0, s)"
    using fresh_block_full [of "heap_ptr s" tot "heap_committed_end s" s] False L tot
    by (simp add: fresh_heap_block_def)
  show ?thesis
  proof (cases "unat (swap_ptr s) + unat tot \<le> unat (swap_end s)")
    case True
    have "swap_ptr s \<noteq> 0" using L by (auto simp: unat_eq_0)
    with fresh_swap_block_granted [OF ok tot True] full show ?thesis by (auto simp: fresh_any_def)
  next
    case sfull: False
    have "fresh_swap_block tot s = (0, s)"
      using fresh_block_full [of "swap_ptr s" tot "swap_end s" s] sfull L tot
      by (simp add: fresh_swap_block_def)
    with full False sfull show ?thesis by (simp add: fresh_any_def)
  qed
qed

lemma mem_alloc_unfold:
  "mem_alloc sz s =
     (let s = con [Con_puts ''mem_alloc size='', Con_udec (ucast (align8 sz)),
                   Con_puts '' heap_ptr=0x'', Con_uhex (heap_ptr s), newline] s;
          tot = block_total sz
      in bind_outcome (of_option (acquire_from_free_list tot s)) (\<lambda>(blk, s).
           let (blk, s) = (if blk = 0 then fresh_any tot (grow_heap tot s) else (blk, s))
           in if blk = 0
              then Ret (0, s\<lparr>heap_alloc_fail_count := heap_alloc_fail_count s + 1\<rparr>)
              else Ret (finish_alloc blk s)))"
  unfolding mem_alloc_def finish_alloc_def block_total_def fresh_any_def Let_def
  by (rule arg_cong2 [of _ _ _ _ bind_outcome])
     (auto simp: fun_eq_iff SIZEOF_MEM_BLOCK_def split: prod.splits)

lemma granted_finish:
  assumes g: "granted s1 t b (block_total sz) B F B' F'" and sz: "unat sz \<le> 2 ^ 62"
    and s1: "mem_inv s1 B F" "hdrs s1 = hdrs s" "mem_ram s1 = mem_ram s"
  shows "alloc_ok sz s B F (finish_alloc b t) \<and> fst (finish_alloc b t) \<noteq> 0"
proof -
  have "alloc_ok sz s1 B F (finish_alloc b t)" by (rule finish_alloc_ok [OF s1(1) g sz])
  moreover have "tiled (hdrs t) B' (regions t)" "b \<in> B'" using g by (auto simp: granted_def heap_ok_def)
  then have "unat (b + 40) = unat b + 40" by (rule hdr_okD(8) [OF tiledD(2)])
  then have "fst (finish_alloc b t) \<noteq> 0"
    by (auto simp: finish_alloc_def Let_def SIZEOF_MEM_BLOCK_def)
  ultimately show ?thesis using s1(2,3) by (simp add: alloc_ok_def split_beta)
qed

lemma mem_alloc_cases:
  assumes inv: "mem_inv s B F" and sz: "unat sz \<le> 2 ^ 62"
  shows "\<exists>r. mem_alloc sz s = Ret r \<and> (alloc_ok sz s B F r \<and> fst r \<noteq> 0 \<or> alloc_fail sz s B F r)"
proof -
  let ?tot = "block_total sz"
  define s0 where "s0 = con [Con_puts ''mem_alloc size='', Con_udec (ucast (align8 sz)),
                   Con_puts '' heap_ptr=0x'', Con_uhex (heap_ptr s), newline] s"
  have tot: "40 \<le> unat ?tot" "8 dvd unat ?tot" "unat ?tot < 2 ^ 63" "unat ?tot < 2 ^ 62 + 64"
    using block_total_bounds [OF sz] sz by auto
  have inv0: "mem_inv s0 B F" using inv by (simp add: s0_def)
  then have ok0: "heap_ok s0 B F" by (simp add: mem_inv_def)
  have h0: "hdrs s0 = hdrs s" "mem_ram s0 = mem_ram s" by (simp_all add: s0_def)
  consider (free) b t B' F' where "acquire_from_free_list ?tot s0 = Some (b, t)" "b \<noteq> 0"
      "granted s0 t b ?tot B F B' F'"
    | (none) "acquire_from_free_list ?tot s0 = Some (0, s0)" "\<forall>x\<in>set F. total_size (hdrs s0 x) < ?tot"
    using acquire_granted [OF ok0 tot(1,2,3)] by blast
  then show ?thesis
  proof cases
    case free
    have "mem_alloc sz s = Ret (finish_alloc b t)"
      unfolding mem_alloc_unfold Let_def s0_def [symmetric] using free by simp
    with granted_finish [OF free(3) sz inv0 h0] show ?thesis by blast
  next
    case none
    define s1 where "s1 = grow_heap ?tot s0"
    note gr = grow_heap_ok [OF ok0 tot(4), folded s1_def]
    have h1: "hdrs s1 = hdrs s" "mem_ram s1 = mem_ram s" by (simp_all add: s1_def h0)
    have inv1: "mem_inv s1 B F" using gr(1) inv0 by (simp add: mem_inv_def s1_def)
    have run: "mem_alloc sz s = (let (blk, s) = fresh_any ?tot s1 in if blk = 0
        then Ret (0, s\<lparr>heap_alloc_fail_count := heap_alloc_fail_count s + 1\<rparr>) else Ret (finish_alloc blk s))"
      unfolding mem_alloc_unfold Let_def s0_def [symmetric] using none(1) by (simp flip: s1_def)
    consider (got) b t B' F' where "fresh_any ?tot s1 = (b, t)" "b \<noteq> 0" "granted s1 t b ?tot B F B' F'"
      | (full) "fresh_any ?tot s1 = (0, s1)"
          "unat (heap_committed_end s1) < unat (heap_ptr s1) + unat ?tot"
          "unat (swap_end s1) < unat (swap_ptr s1) + unat ?tot"
      using fresh_any_cases [OF gr(1) tot(1,2,3)] by blast
    then show ?thesis
    proof cases
      case got
      with granted_finish [OF got(3) sz inv1 h1] run show ?thesis by auto
    next
      case full
      have "mem_inv (s1\<lparr>heap_alloc_fail_count := n\<rparr>) B F" for n
        using same_heap_inv [of s1 "s1\<lparr>heap_alloc_fail_count := n\<rparr>" B F] inv1 by (simp add: same_heap_def)
      with run full none(2) gr(2) h0 h1 show ?thesis
        by (auto simp: alloc_fail_def s1_def s0_def)
    qed
  qed
qed

end
