(* ===== verification/Mem_Free.thy ===== *)
theory Mem_Free
  imports Mem_Alloc
begin

text \<open>
  Release: \<open>mem_free\<close> of a live pointer returns, deletes the pointer from the map of live pointers,
  merges the block with its free neighbours and keeps the invariant; every other pointer it can tell
  from a live one ends in a panic.
\<close>

section \<open>From the freed block to the compacted list\<close>

text \<open>The state after \<^verbatim>\<open>mem_free\<close> pushed the block and before it coalesces.\<close>

definition pushed :: "addr \<Rightarrow> mem_state \<Rightarrow> mem_state" where
  "pushed b s = (upd_hdr b (\<lambda>m. m\<lparr>guard := MEM_GUARD_FREED, nxt := free_list s\<rparr>) s)\<lparr>free_list := b\<rparr>"

lemma pushed_sizes:
  "total_size (hdrs (pushed b s) c) = total_size (hdrs s c)"
  "user_size (hdrs (pushed b s) c) = user_size (hdrs s c)"
  "from_swap (hdrs (pushed b s) c) = from_swap (hdrs s c)"
  by (simp_all add: pushed_def)

lemma pushed_coal:
  assumes ok: "heap_ok s B F" and b: "b \<in> B" "b \<notin> set F"
  shows "coal (hdrs (pushed b s)) b B (b # F) (regions s)"
    "flist (hdrs (pushed b s)) b (b # F)" "distinct (b # F)"
proof -
  note D = heap_okD [OF ok]
  have tl: "tiled (hdrs (pushed b s)) B (regions s)"
    using tiled_cong [of B "hdrs (pushed b s)" "hdrs s"] D(2) by (simp add: pushed_sizes)
  have "total_size (hdrs (pushed b s) x) \<noteq> 0 \<and> unat x \<in> regions s (from_swap (hdrs (pushed b s) x))"
    if "x \<in> B" for x
    using hdr_okD(6) [OF tiledD(2) [OF tl that]] tiled_start [OF tl that] by simp
  moreover have "\<not> joined (hdrs (pushed b s)) x y" if "x \<in> set F" "y \<in> set F" for x y
    using D(7) [OF that] joined_cong [of "hdrs (pushed b s)" x "hdrs s" y] by (simp add: pushed_sizes)
  ultimately show "coal (hdrs (pushed b s)) b B (b # F) (regions s)"
    using tl b D(5) by (auto simp: coal_def)
  have "flist ((hdrs s)(b := m)) (free_list s) F" for m using D(3) b by simp
  moreover have "b \<noteq> 0" using hdr_okD(1) [OF tiledD(2) [OF D(2) b(1)]] .
  ultimately show "flist (hdrs (pushed b s)) b (b # F)" by (simp add: pushed_def del: fun_upd_apply)
     (simp add: fun_upd_same)
  show "distinct (b # F)" using D(4) b by simp
qed

lemma coalesce_compact:
  assumes ok: "heap_ok s B F" and b: "b \<in> B" "b \<notin> set F"
  shows "\<exists>u B' F'. Option.bind (coalesce_block b (pushed b s)) compact_free_list = Some u \<and>
    heap_ok u B' F' \<and> B' - set F' = B - set F - {b} \<and> B' \<subseteq> B \<and>
    (\<forall>c\<in>B' - set F'. user_size (hdrs u c) = user_size (hdrs s c)) \<and>
    heap_used_bytes u = heap_used_bytes s \<and> mem_ram u = mem_ram s \<and>
    guard (hdrs u b) = MEM_GUARD_FREED \<and> heap_start u = heap_start s \<and>
    heap_max_end u = heap_max_end s \<and> swap_space u = swap_space s"
proof -
  let ?p = "pushed b s" and ?xs = "b # F"
  note D = heap_okD [OF ok] and P = pushed_coal [OF ok b]
  have fl: "free_list ?p = b" by (simp add: pushed_def)
  from coalesce_loop_ends [OF P(1,2), of "[]" ?xs b] P(2) obtain h' B' where
    run: "coalesce_loop b b b (hdrs ?p) = Some h'" and
    C: "coalesced (hdrs ?p) h' B B' ?xs (regions s)" by auto
  define t where "t = ?p\<lparr>hdrs := h'\<rparr>"
  have ct: "coalesce_block b ?p = Some t" by (simp add: coalesce_block_def fl run t_def)
  have so: "sized_only (hdrs ?p) h' ?xs" and B': "B' \<subseteq> B" "B - set ?xs \<subseteq> B'"
    and tl: "tiled h' B' (regions s)"
    and live: "\<And>x. x \<in> set ?xs \<Longrightarrow> total_size (h' x) \<noteq> 0 \<longleftrightarrow> x \<in> B'"
    and nj: "\<And>x y. x \<in> set ?xs \<inter> B' \<Longrightarrow> y \<in> set ?xs \<inter> B' \<Longrightarrow> \<not> joined h' x y"
    using C by (auto simp: coalesced_def)
  have "flist (hdrs t) (free_list t) ?xs"
    using P(2) sized_only_flist [OF so] by (simp add: t_def fl del: flist.simps)
  from compact_free_list_filter [OF this P(3)] obtain u where
    cu: "compact_free_list t = Some u" and sl: "same_but_links t u" and
    fu: "flist (hdrs u) (free_list u) (filter (\<lambda>x. total_size (hdrs t x) \<noteq> 0) ?xs)" by blast
  let ?F' = "filter (\<lambda>x. total_size (hdrs t x) \<noteq> 0) ?xs"
  note L = same_but_links_sizes [OF sl]
  have F': "set ?F' = set ?xs \<inter> B'" using live by (auto simp: t_def)
  have fields: "swap_space u = swap_space s" "swap_ptr u = swap_ptr s" "heap_start u = heap_start s"
    "heap_ptr u = heap_ptr s" "heap_committed_end u = heap_committed_end s" "heap_max_end u = heap_max_end s"
    "heap_used_bytes u = heap_used_bytes s" "mem_ram u = mem_ram s"
    using sl by (auto simp: same_but_links_def t_def pushed_def)
  have act: "B' - set ?F' = B - set F - {b}" using F' B' by auto
  have hc: "hdrs t c = hdrs s c" if "c \<in> B - set F - {b}" for c
    using so that by (auto simp: t_def sized_only_def pushed_def)
  have "heap_ok u B' ?F'"
  proof (rule heap_okI)
    show "layout_ok u" using D(1) layout_ok_cong [of u s] fields by simp
    show "tiled (hdrs u) B' (regions u)"
      using tl tiled_cong [of B' "hdrs u" h'] L regions_cong [of u s] fields by (simp add: t_def)
    show "guard (hdrs u c) = (if c \<in> set ?F' then MEM_GUARD_FREED else MEM_GUARD_ACTIVE)" if "c \<in> B'" for c
    proof -
      have "guard (hdrs u c) = guard (hdrs ?p c)" using L(3) so by (simp add: t_def sized_only_def)
      then show ?thesis using D(6) [of c] that B' F' b by (auto simp: pushed_def)
    qed
    show "\<not> joined (hdrs u) x y" if "x \<in> set ?F'" "y \<in> set ?F'" for x y
      using nj [of x y] that F' joined_cong [of "hdrs u" x h' y] L by (simp add: t_def)
  qed (use fu P(3) F' in auto)
  moreover have "\<forall>c\<in>B' - set ?F'. user_size (hdrs u c) = user_size (hdrs s c)"
    using act hc L(2) by simp
  moreover have "guard (hdrs u b) = MEM_GUARD_FREED"
    using L(3) so by (simp add: t_def sized_only_def pushed_def)
  ultimately show ?thesis using ct cu act B'(1) fields
    by (intro exI [of _ u] exI [of _ B'] exI [of _ ?F'] conjI) simp_all
qed

section \<open>\<^verbatim>\<open>mem_free\<close>\<close>

lemma poison_outside: "x \<notin> region p n \<Longrightarrow> poison p n m x = m x"
proof -
  assume x: "x \<notin> region p n"
  have "fold (\<lambda>i m. m(p + of_nat i := poison_byte i)) [0..<unat n div 8 * 8] m x = m x"
    by (rule fold_upd_other) (use x in \<open>auto simp: in_region_iff\<close>)
  moreover have "fold (\<lambda>i m. m(p + of_nat i := 0xEF)) [unat n div 8 * 8..<unat n] m' x = m' x" for m' :: ram
    by (rule fold_upd_other) (use x in \<open>auto simp: in_region_iff\<close>)
  ultimately show ?thesis by (simp add: poison_def Let_def)
qed

lemma block_in_arena:
  assumes ok: "heap_ok s B F" and b: "b \<in> B"
  shows "ptr_in_region b (heap_start s) (heap_max_end s) \<or> ptr_in_region b (swap_space s) (swap_end s)"
proof -
  note D = heap_okD [OF ok] and L = layout_okD [OF heap_okD(1) [OF ok]]
  have "unat b \<in> regions s (from_swap (hdrs s b))" by (rule tiled_start [OF D(2) b])
  with L show ?thesis
    by (cases "from_swap (hdrs s b)") (auto simp: regions_def ptr_in_region_def word_le_nat_alt word_less_nat_alt)
qed

text \<open>The first half of \<open>mem_free\<close>: poison the bytes in debug mode and count them as unused.\<close>

definition retire :: "addr \<Rightarrow> mem_state \<Rightarrow> mem_state" where
  "retire b s =
     (let s = (if debug_mode s
               then s\<lparr>mem_ram := poison (b + SIZEOF_MEM_BLOCK) (user_size (hdrs s b)) (mem_ram s)\<rparr> else s)
      in if user_size (hdrs s b) \<le> heap_used_bytes s
         then s\<lparr>heap_used_bytes := heap_used_bytes s - user_size (hdrs s b)\<rparr> else s)"

lemma retire_heap_ok: "heap_ok (retire b s) B F \<longleftrightarrow> heap_ok s B F"
proof -
  have "regions (retire b s) = regions s" by (rule regions_cong) (simp_all add: retire_def)
  moreover have "layout_ok (retire b s) = layout_ok s" by (rule layout_ok_cong) (simp_all add: retire_def)
  ultimately show ?thesis by (simp add: heap_ok_def) (simp add: retire_def)
qed

lemma retire_fields [simp]:
  "hdrs (retire b s) = hdrs s" "free_list (retire b s) = free_list s" "heap_start (retire b s) = heap_start s"
  "heap_max_end (retire b s) = heap_max_end s" "swap_space (retire b s) = swap_space s"
  by (simp_all add: retire_def Let_def)

lemma mem_free_unfold:
  assumes "b + SIZEOF_MEM_BLOCK \<noteq> 0"
    and "ptr_in_region b (heap_start s) (heap_max_end s) \<or> ptr_in_region b (swap_space s) (swap_end s)"
    and "b \<noteq> 0" and "guard (hdrs s b) = MEM_GUARD_ACTIVE" and "sz \<le> user_size (hdrs s b)"
  shows "mem_free (b + SIZEOF_MEM_BLOCK) sz s =
    of_option (Option.bind (coalesce_block b (pushed b (retire b s))) compact_free_list)"
  using assms
  by (auto simp: mem_free_def ensure_block_integrity_def retire_def pushed_def Let_def not_less)

lemma mem_free_ok:
  assumes inv: "mem_inv s B F" and b: "b \<in> B - set F" and sz: "sz \<le> user_size (hdrs s b)"
  shows "\<exists>u B' F'. mem_free (b + SIZEOF_MEM_BLOCK) sz s = Ret u \<and> mem_inv u B' F' \<and>
    live_map (hdrs u) (B' - set F') = (live_map (hdrs s) (B - set F))(b + SIZEOF_MEM_BLOCK := None) \<and>
    (\<forall>x. x \<notin> region (b + SIZEOF_MEM_BLOCK) (user_size (hdrs s b)) \<longrightarrow> mem_ram u x = mem_ram s x) \<and>
    guard (hdrs u b) = MEM_GUARD_FREED \<and> heap_start u = heap_start s \<and>
    heap_max_end u = heap_max_end s \<and> swap_space u = swap_space s"
proof -
  have ok: "heap_ok s B F" using inv by (simp add: mem_inv_def)
  note D = heap_okD [OF ok]
  have bB: "b \<in> B" "b \<notin> set F" using b by auto
  have bok: "hdr_ok b (hdrs s b)" by (rule tiledD(2) [OF D(2) bB(1)])
  have fin: "finite (B - set F)" using tiledD(1) [OF D(2)] by simp
  have p0: "b + SIZEOF_MEM_BLOCK \<noteq> 0"
    using hdr_okD(8) [OF bok] by (auto simp: SIZEOF_MEM_BLOCK_def)
  have sum: "unat (heap_used_bytes s) = unat (user_size (hdrs s b)) +
      (\<Sum>c\<in>B - set F - {b}. unat (user_size (hdrs s c)))"
    using inv sum.remove [OF fin b] by (simp add: mem_inv_def)
  have used: "unat (heap_used_bytes (retire b s)) = (\<Sum>c\<in>B - set F - {b}. unat (user_size (hdrs s c)))"
    using sum unat_diff64 [of "user_size (hdrs s b)" "heap_used_bytes s"]
    by (simp add: retire_def Let_def word_le_nat_alt)
  from coalesce_compact [of "retire b s" B F b] bB ok obtain u B' F' where
    u: "Option.bind (coalesce_block b (pushed b (retire b s))) compact_free_list = Some u"
      "heap_ok u B' F'" "B' - set F' = B - set F - {b}"
      "\<forall>c\<in>B' - set F'. user_size (hdrs u c) = user_size (hdrs s c)"
      "heap_used_bytes u = heap_used_bytes (retire b s)" "mem_ram u = mem_ram (retire b s)"
      "guard (hdrs u b) = MEM_GUARD_FREED" "heap_start u = heap_start s" "heap_max_end u = heap_max_end s"
      "swap_space u = swap_space s"
    by (auto simp: retire_heap_ok)
  have "mem_free (b + SIZEOF_MEM_BLOCK) sz s = Ret u"
    using mem_free_unfold [OF p0 block_in_arena [OF ok bB(1)] hdr_okD(1) [OF bok] _ sz] D(6) [OF bB(1)] bB u(1)
    by simp
  moreover have "mem_inv u B' F'" using u used by (simp add: mem_inv_def)
  moreover have "live_map (hdrs u) (B' - set F') = (live_map (hdrs s) (B - set F))(b + SIZEOF_MEM_BLOCK := None)"
    unfolding u(3) by (rule live_map_remove) (use u(3,4) in auto)
  moreover have "mem_ram (retire b s) x = mem_ram s x"
    if "x \<notin> region (b + SIZEOF_MEM_BLOCK) (user_size (hdrs s b))" for x
    using poison_outside [OF that] by (simp add: retire_def Let_def)
  ultimately show ?thesis using u(6-)
    by (intro exI [of _ u] exI [of _ B'] exI [of _ F'] conjI) simp_all
qed

end
