(* ===== verification/Allocator.thy ===== *)
theory Allocator
  imports Memutils
begin

text \<open>
  The contract on which the clients of the kernel heap rely (memory contexts, the file tree, the
  process table): the allocator keeps a finite map from live pointers to usable byte counts. An
  allocation adds a pointer whose bytes no other live pointer has, or returns null and leaves the map;
  a release removes a pointer and touches no byte outside it; writes to RAM do not disturb it.
\<close>

locale allocator =
  fixes alloc :: "u64 \<Rightarrow> 's \<Rightarrow> (addr \<times> 's) outcome"
    and release :: "addr \<Rightarrow> u64 \<Rightarrow> 's \<Rightarrow> 's outcome"
    and rep :: "'s \<Rightarrow> (addr \<rightharpoonup> u64) \<Rightarrow> bool"
    and ram_of :: "'s \<Rightarrow> ram"
    and set_ram :: "ram \<Rightarrow> 's \<Rightarrow> 's"
  assumes alloc_law: "rep s L \<Longrightarrow> unat n \<le> 2 ^ 62 \<Longrightarrow>
      \<exists>p s'. alloc n s = Ret (p, s') \<and> ram_of s' = ram_of s \<and>
        (if p = 0 then rep s' L else \<exists>k. n \<le> k \<and> L p = None \<and> rep s' (L(p \<mapsto> k)))"
    and release_null: "release 0 n s = Ret s"
    and release_law: "rep s L \<Longrightarrow> L p = Some k \<Longrightarrow> n \<le> k \<Longrightarrow>
      \<exists>s'. release p n s = Ret s' \<and> rep s' (L(p := None)) \<and> (\<forall>x. x \<notin> region p k \<longrightarrow> ram_of s' x = ram_of s x)"
    and live_disjoint: "rep s L \<Longrightarrow> L p = Some k \<Longrightarrow> L q = Some j \<Longrightarrow> p \<noteq> q \<Longrightarrow> region p k \<inter> region q j = {}"
    and live_nonnull: "rep s L \<Longrightarrow> L 0 = None"
    and live_nowrap: "rep s L \<Longrightarrow> L p = Some k \<Longrightarrow> unat p + unat k < 2 ^ 64"
    and live_total: "rep s L \<Longrightarrow> finite (dom L) \<and> (\<Sum>p\<in>dom L. unat (the (L p))) < 2 ^ 63"
    and rep_set_ram: "rep (set_ram m s) L = rep s L"
    and ram_of_set_ram: "ram_of (set_ram m s) = m"
begin

text \<open>A pointer just returned is live, and the bytes of the pointers that were live stay apart from it.\<close>

lemma alloc_fresh_region:
  assumes "rep s L" and "unat n \<le> 2 ^ 62" and "alloc n s = Ret (p, s')" and "p \<noteq> 0" and "L q = Some j"
  shows "region p n \<inter> region q j = {}"
proof -
  from alloc_law [OF assms(1,2)] assms(3,4) obtain k where k: "n \<le> k" "L p = None" "rep s' (L(p \<mapsto> k))"
    by auto
  with assms(5) have "p \<noteq> q" by auto
  with live_disjoint [OF k(3), of p k q j] assms(5) have "region p k \<inter> region q j = {}" by auto
  moreover have "region p n \<subseteq> region p k" using k(1) by (auto simp: region_def)
  ultimately show ?thesis by blast
qed

text \<open>Allocating and releasing at once leaves the live pointers as they were.\<close>

lemma alloc_release:
  assumes "rep s L" and "unat n \<le> 2 ^ 62" and "alloc n s = Ret (p, s')" and "p \<noteq> 0"
  shows "\<exists>s''. release p n s' = Ret s'' \<and> rep s'' L"
proof -
  from alloc_law [OF assms(1,2)] assms(3,4) obtain k where k: "n \<le> k" "L p = None" "rep s' (L(p \<mapsto> k))"
    by auto
  from release_law [OF k(3), of p k n] k(1) obtain s'' where
    "release p n s' = Ret s''" "rep s'' ((L(p \<mapsto> k))(p := None))" by auto
  moreover have "(L(p \<mapsto> k))(p := None) = L" using k(2) by auto
  ultimately show ?thesis by auto
qed

end

end
