(* ===== verification/Mem_Spec.thy ===== *)
theory Mem_Spec
  imports Mem_Free Allocator
begin

text \<open>
  The kernel heap is an allocator in the sense of the contract: the interpretation discharges its
  laws for \<open>mem_alloc\<close> and \<open>mem_free\<close>. The properties of the component follow.
\<close>

section \<open>The interpretation\<close>

lemma live_map_SomeD:
  assumes "live_map h A p = Some k"
  obtains b where "b \<in> A" "p = b + SIZEOF_MEM_BLOCK" "k = user_size (h b)"
proof -
  from assms have "p - SIZEOF_MEM_BLOCK \<in> A" "k = user_size (h (p - SIZEOF_MEM_BLOCK))"
    by (auto simp: live_map_def split: if_splits)
  moreover have "p = p - SIZEOF_MEM_BLOCK + SIZEOF_MEM_BLOCK" by simp
  ultimately show ?thesis using that by blast
qed

lemma mem_rep_block:
  assumes "mem_inv s B F" and "b \<in> B"
  shows "hdr_ok b (hdrs s b)" "tiled (hdrs s) B (regions s)"
  using assms tiledD(2) by (auto simp: mem_inv_def heap_ok_def)

lemma mem_alloc_rep:
  assumes rep: "mem_rep s L" and n: "unat n \<le> 2 ^ 62"
  shows "\<exists>p s'. mem_alloc n s = Ret (p, s') \<and> mem_ram s' = mem_ram s \<and>
    (if p = 0 then mem_rep s' L else \<exists>k. n \<le> k \<and> L p = None \<and> mem_rep s' (L(p \<mapsto> k)))"
proof -
  from rep obtain B F where inv: "mem_inv s B F" and L: "L = live_map (hdrs s) (B - set F)"
    by (auto simp: mem_rep_def)
  from mem_alloc_cases [OF inv n] obtain p u where run: "mem_alloc n s = Ret (p, u)"
    and res: "alloc_ok n s B F (p, u) \<and> p \<noteq> 0 \<or> alloc_fail n s B F (p, u)" by auto
  from res show ?thesis
  proof
    assume a: "alloc_ok n s B F (p, u) \<and> p \<noteq> 0"
    then obtain b B' F' where b: "p = b + SIZEOF_MEM_BLOCK" "mem_inv u B' F'" "b \<notin> B - set F"
      "n \<le> user_size (hdrs u b)" "mem_ram u = mem_ram s"
      "live_map (hdrs u) (B' - set F') = L(p \<mapsto> user_size (hdrs u b))"
      by (auto simp: alloc_ok_def L)
    have "L p = None" using b(1,3) by (simp add: L live_map_def)
    moreover have "mem_rep u (L(p \<mapsto> user_size (hdrs u b)))" unfolding mem_rep_def using b(2) b(6) [symmetric] by blast
    ultimately show ?thesis using run a b(4,5) by auto
  next
    assume "alloc_fail n s B F (p, u)"
    then show ?thesis using run L by (auto simp: alloc_fail_def mem_rep_def)
  qed
qed

lemma mem_free_rep:
  assumes rep: "mem_rep s L" and p: "L p = Some k" and n: "n \<le> k"
  shows "\<exists>s'. mem_free p n s = Ret s' \<and> mem_rep s' (L(p := None)) \<and>
    (\<forall>x. x \<notin> region p k \<longrightarrow> mem_ram s' x = mem_ram s x)"
proof -
  from rep obtain B F where inv: "mem_inv s B F" and L: "L = live_map (hdrs s) (B - set F)"
    by (auto simp: mem_rep_def)
  from p [unfolded L] obtain b where b: "b \<in> B - set F" "p = b + SIZEOF_MEM_BLOCK" "k = user_size (hdrs s b)"
    by (rule live_map_SomeD)
  from mem_free_ok [OF inv b(1), of n] n b obtain u B' F' where
    "mem_free p n s = Ret u" "mem_inv u B' F'" "live_map (hdrs u) (B' - set F') = L(p := None)"
    "\<forall>x. x \<notin> region p k \<longrightarrow> mem_ram u x = mem_ram s x"
    by (auto simp: L)
  then show ?thesis unfolding mem_rep_def by metis
qed

lemma mem_live_disjoint:
  assumes rep: "mem_rep s L" and "L p = Some k" and "L q = Some j" and "p \<noteq> q"
  shows "region p k \<inter> region q j = {}"
proof -
  from rep obtain B F where inv: "mem_inv s B F" and L: "L = live_map (hdrs s) (B - set F)"
    by (auto simp: mem_rep_def)
  from assms(2) [unfolded L] obtain a where a: "a \<in> B - set F" "p = a + SIZEOF_MEM_BLOCK" "k = user_size (hdrs s a)"
    by (rule live_map_SomeD)
  from assms(3) [unfolded L] obtain b where b: "b \<in> B - set F" "q = b + SIZEOF_MEM_BLOCK" "j = user_size (hdrs s b)"
    by (rule live_map_SomeD)
  show ?thesis
    unfolding a(2,3) b(2,3)
    by (rule tiled_live_disjoint) (use mem_rep_block [OF inv] a b assms(4) in auto)
qed

lemma mem_live_bounds:
  assumes rep: "mem_rep s L" and p: "L p = Some k"
  shows "unat p + unat k < 2 ^ 64" "p \<noteq> 0"
proof -
  from rep obtain B F where inv: "mem_inv s B F" and L: "L = live_map (hdrs s) (B - set F)"
    by (auto simp: mem_rep_def)
  from p [unfolded L] obtain b where b: "b \<in> B - set F" "p = b + SIZEOF_MEM_BLOCK" "k = user_size (hdrs s b)"
    by (rule live_map_SomeD)
  have "hdr_ok b (hdrs s b)" using mem_rep_block [OF inv] b by auto
  from hdr_okD [OF this] b show "unat p + unat k < 2 ^ 64" "p \<noteq> 0"
    by (auto simp: SIZEOF_MEM_BLOCK_def)
qed

lemma mem_rep_set_ram: "mem_rep (s\<lparr>mem_ram := m\<rparr>) L = mem_rep s L"
proof -
  have "mem_inv (s\<lparr>mem_ram := m\<rparr>) B F = mem_inv s B F" for B F
    by (rule same_heap_inv) (simp add: same_heap_def)
  then show ?thesis by (simp add: mem_rep_def)
qed

lemma mem_live_total:
  assumes rep: "mem_rep s L"
  shows "finite (dom L) \<and> (\<Sum>p\<in>dom L. unat (the (L p))) < 2 ^ 63"
proof -
  from rep obtain B F where inv: "mem_inv s B F" and L: "L = live_map (hdrs s) (B - set F)"
    by (auto simp: mem_rep_def)
  then have ok: "heap_ok s B F" by (simp add: mem_inv_def)
  note D = heap_okD [OF ok] and Y = layout_okD [OF heap_okD(1) [OF ok]]
  let ?A = "B - set F" and ?up = "\<lambda>b. b + SIZEOF_MEM_BLOCK"
  have fin: "finite ?A" using tiledD(1) [OF D(2)] by simp
  have dom: "dom L = ?up ` ?A"
  proof
    show "dom L \<subseteq> ?up ` ?A"
    proof
      fix p assume "p \<in> dom L"
      then obtain k where "L p = Some k" by auto
      from this [unfolded L] obtain b where "b \<in> ?A" "p = b + SIZEOF_MEM_BLOCK" by (rule live_map_SomeD)
      then show "p \<in> ?up ` ?A" by simp
    qed
    show "?up ` ?A \<subseteq> dom L" by (auto simp: L live_map_def)
  qed
  have "(\<Sum>p\<in>dom L. unat (the (L p))) = (\<Sum>b\<in>?A. unat (user_size (hdrs s b)))"
    unfolding dom by (subst sum.reindex) (auto simp: inj_on_def L live_map_def)
  also have "\<dots> \<le> (\<Sum>b\<in>B. unat (total_size (hdrs s b)))"
    using tiledD(1) [OF D(2)] hdr_okD(4) [OF tiledD(2) [OF D(2)]]
    by (intro order_trans [OF sum_mono sum_mono2]) auto
  also have "\<dots> = (unat (heap_ptr s) - unat (heap_start s)) + (unat (swap_ptr s) - unat (swap_space s))"
    using tiled_sum [OF D(2)] card_regions [OF D(1)] by simp
  also have "\<dots> < 2 ^ 63" using Y by simp
  finally show ?thesis using fin dom by simp
qed

interpretation kheap: allocator mem_alloc mem_free mem_rep mem_ram "\<lambda>m s. s\<lparr>mem_ram := m\<rparr>"
proof unfold_locales
  show "L 0 = None" if "mem_rep s L" for s L
    using mem_live_bounds(2) [OF that] by (cases "L 0") auto
qed (fact mem_alloc_rep mem_free_rep mem_live_disjoint mem_live_bounds(1) mem_live_total mem_rep_set_ram
     | simp add: mem_free_def)+

end
