(* ===== verification/Mem_Props.thy ===== *)
theory Mem_Props
  imports Mem_Spec
begin

text \<open>
  The properties of the kernel heap, its application table and the video memory locks, each with a
  run of the model on a concrete state where its hypotheses hold.
\<close>

section \<open>A concrete machine\<close>

text \<open>The kernel image with its swap space at 1 MiB, before \<open>mem_init\<close> ran.\<close>

definition boot_mem :: mem_state where
  "boot_mem = \<lparr>apps = replicate MAX_APPS empty_app, heap_start = 0, heap_ptr = 0, heap_committed_end = 0,
     heap_max_end = 0, heap_used_bytes = 0, heap_grow_count = 0, heap_alloc_fail_count = 0, next_id = 1,
     swap_space = 0x100000, swap_ptr = 0x100000, free_list = 0,
     hdrs = (\<lambda>_. \<lparr>total_size = 0, user_size = 0, guard = 0, nxt = 0, from_swap = False\<rparr>),
     vram_base = 0, vram_size = 0, vram_locks = replicate 4 \<lparr>owner = None, locks = 0\<rparr>,
     mem_ram = (\<lambda>_. 0), debug_mode = False, kout = []\<rparr>"

definition boot_heap :: mem_state where
  "boot_heap = mem_init 0x200000 0x80000 boot_mem"

lemma boot_heap_rep: "mem_rep boot_heap Map.empty"
proof -
  have "mem_inv boot_heap {} []" unfolding boot_heap_def by (rule mem_init_inv) (simp_all add: boot_mem_def)
  then show ?thesis unfolding mem_rep_def by (intro exI [of _ "{}"] exI [of _ "[]"]) (simp add: live_map_def fun_eq_iff)
qed

lemma boot_heap_alloc: "\<exists>s'. mem_alloc 100 boot_heap = Ret (0x200028, s')"
proof -
  have al: "align8 100 = 104" "align8 144 = 144" by (simp_all add: align8_def)
  have "acquire_from_free_list tot (con cs boot_heap) = Some (0, con cs boot_heap)" for tot cs
    unfolding acquire_from_free_list_def by (subst acquire_loop.simps) (simp add: boot_heap_def mem_init_def Let_def mem_vram_init_def)
  then show ?thesis
    by (simp add: mem_alloc_def Let_def al SIZEOF_MEM_BLOCK_def)
       (simp add: boot_heap_def mem_init_def Let_def mem_vram_init_def boot_mem_def grow_heap_def
        fresh_heap_block_def fresh_block_def con_def upd_hdr_def EXOCORE_KERNEL_HEAP_MAX_SIZE_def SIZEOF_MEM_BLOCK_def)
qed

lemma boot_heap_live:
  obtains s k where "mem_alloc 100 boot_heap = Ret (0x200028, s)" "100 \<le> k" "mem_rep s [0x200028 \<mapsto> k]"
proof -
  from boot_heap_alloc obtain s where s: "mem_alloc 100 boot_heap = Ret (0x200028, s)" by blast
  with mem_alloc_rep [OF boot_heap_rep, of 100] show ?thesis using that by auto
qed

section \<open>Allocation and release\<close>

text \<open>C3: \<open>mem_init\<close> establishes the allocator with no live pointer: for a heap that lies after the
  kernel's swap space in the lower half of the address space, the state it leaves represents the
  empty map.\<close>

theorem mem_init_empty:
  assumes "swap_space s \<noteq> 0" and "unat (swap_space s) + 65536 \<le> unat hs" and "0 < unat n"
    and "unat hs + unat n < 2 ^ 63" and "unat hs + 8 * 1024 * 1024 < 2 ^ 63"
  shows "mem_rep (mem_init hs n s) Map.empty"
  unfolding mem_rep_def using mem_init_inv [OF assms]
  by (intro exI [of _ "{}"] exI [of _ "[]"]) (simp add: live_map_def fun_eq_iff)

theorem mem_init_empty_witness: "mem_rep (mem_init 0x200000 0x80000 boot_mem) Map.empty"
  by (rule mem_init_empty) (simp_all add: boot_mem_def)

text \<open>C1: \<open>mem_alloc\<close> of up to 2^62 bytes always returns. It leaves the RAM as it was and either returns
  null and keeps the live pointers, or returns a new pointer with at least the requested number of
  usable bytes, none of which belongs to any pointer that was live before.\<close>

theorem mem_alloc_refines:
  assumes rep: "mem_rep s L" and n: "unat n \<le> 2 ^ 62"
  shows "\<exists>p s'. mem_alloc n s = Ret (p, s') \<and> mem_ram s' = mem_ram s \<and>
    (if p = 0 then mem_rep s' L
     else \<exists>k. n \<le> k \<and> L p = None \<and> mem_rep s' (L(p \<mapsto> k)) \<and>
            (\<forall>q j. L q = Some j \<longrightarrow> region p k \<inter> region q j = {}))"
proof -
  from mem_alloc_rep [OF assms] obtain p s' where r: "mem_alloc n s = Ret (p, s')" "mem_ram s' = mem_ram s"
    "if p = 0 then mem_rep s' L else \<exists>k. n \<le> k \<and> L p = None \<and> mem_rep s' (L(p \<mapsto> k))" by blast
  show ?thesis
  proof (cases "p = 0")
    case True
    with r show ?thesis by auto
  next
    case False
    with r obtain k where k: "n \<le> k" "L p = None" "mem_rep s' (L(p \<mapsto> k))" by auto
    have "region p k \<inter> region q j = {}" if "L q = Some j" for q j
      by (rule mem_live_disjoint [OF k(3)]) (use that k(2) in auto)
    with False r k show ?thesis by auto
  qed
qed

theorem mem_alloc_refines_witness:
  "\<exists>s k p s'. mem_alloc 100 boot_heap = Ret (0x200028, s) \<and> mem_rep s [0x200028 \<mapsto> k] \<and>
     mem_alloc 200 s = Ret (p, s') \<and> mem_ram s' = mem_ram s \<and>
     (if p = 0 then mem_rep s' [0x200028 \<mapsto> k]
      else \<exists>j. 200 \<le> j \<and> p \<noteq> 0x200028 \<and> mem_rep s' [0x200028 \<mapsto> k, p \<mapsto> j] \<and>
             region p j \<inter> region 0x200028 k = {})"
proof -
  obtain s k where s: "mem_alloc 100 boot_heap = Ret (0x200028, s)" "mem_rep s [0x200028 \<mapsto> k]"
    by (rule boot_heap_live)
  from mem_alloc_refines [OF s(2), of 200] obtain p s' where r: "mem_alloc 200 s = Ret (p, s')"
    "mem_ram s' = mem_ram s"
    "if p = 0 then mem_rep s' [0x200028 \<mapsto> k]
     else \<exists>j. 200 \<le> j \<and> [0x200028 \<mapsto> k] p = None \<and> mem_rep s' [0x200028 \<mapsto> k, p \<mapsto> j] \<and>
       (\<forall>q i. [0x200028 \<mapsto> k] q = Some i \<longrightarrow> region p j \<inter> region q i = {})" by auto
  then have "if p = 0 then mem_rep s' [0x200028 \<mapsto> k]
      else \<exists>j. 200 \<le> j \<and> p \<noteq> 0x200028 \<and> mem_rep s' [0x200028 \<mapsto> k, p \<mapsto> j] \<and>
             region p j \<inter> region 0x200028 k = {}"
    by (cases "p = 0") (auto split: if_splits)
  with r s show ?thesis by blast
qed

text \<open>C2: \<open>mem_free\<close> of a live pointer, with any size up to its usable bytes, always returns. The pointer
  is no longer live, every other live pointer keeps its size, and no byte outside the released
  pointer's bytes changes.\<close>

theorem mem_free_refines:
  assumes "mem_rep s L" and "L p = Some k" and "n \<le> k"
  shows "\<exists>s'. mem_free p n s = Ret s' \<and> mem_rep s' (L(p := None)) \<and>
    (\<forall>x. x \<notin> region p k \<longrightarrow> mem_ram s' x = mem_ram s x)"
  by (rule mem_free_rep [OF assms])

theorem mem_free_refines_witness:
  "\<exists>s s'. mem_alloc 100 boot_heap = Ret (0x200028, s) \<and> mem_free 0x200028 100 s = Ret s' \<and>
     mem_rep s' Map.empty"
proof -
  obtain s k where s: "mem_alloc 100 boot_heap = Ret (0x200028, s)" "100 \<le> k" "mem_rep s [0x200028 \<mapsto> k]"
    by (rule boot_heap_live)
  from mem_free_refines [OF s(3) _ s(2), where p = "0x200028"] s show ?thesis by auto
qed

text \<open>C4: a second release of the same pointer is caught: once \<open>mem_free\<close> returned for a live pointer, any
  further \<open>mem_free\<close> of it panics with the use-after-free message, although the block may have been
  merged with its neighbours.\<close>

theorem mem_double_free:
  assumes rep: "mem_rep s L" and p: "L p = Some k" and n: "n \<le> k" and run: "mem_free p n s = Ret s'"
  shows "mem_free p m s' = Panic ''mem: use-after-free or corrupt block''"
proof -
  from rep obtain B F where inv: "mem_inv s B F" and L: "L = live_map (hdrs s) (B - set F)"
    by (auto simp: mem_rep_def)
  from p [unfolded L] obtain b where b: "b \<in> B - set F" "p = b + SIZEOF_MEM_BLOCK" "k = user_size (hdrs s b)"
    by (rule live_map_SomeD)
  from mem_free_ok [OF inv b(1), of n] n b run have u: "guard (hdrs s' b) = MEM_GUARD_FREED"
    "heap_start s' = heap_start s" "heap_max_end s' = heap_max_end s" "swap_space s' = swap_space s" by auto
  have "heap_ok s B F" "b \<in> B" using inv b by (auto simp: mem_inv_def)
  from block_in_arena [OF this] u have
    "ptr_in_region b (heap_start s') (heap_max_end s') \<or> ptr_in_region b (swap_space s') (swap_end s')"
    by (simp add: swap_end_def)
  moreover have "b \<noteq> 0" using mem_rep_block(1) [OF inv \<open>b \<in> B\<close>] by (rule hdr_okD(1))
  moreover have "p \<noteq> 0" by (rule mem_live_bounds(2) [OF rep p])
  ultimately show ?thesis
    using u(1) b(2) by (auto simp: mem_free_def ensure_block_integrity_def MEM_GUARD_FREED_def MEM_GUARD_ACTIVE_def)
qed

theorem mem_double_free_witness:
  "\<exists>s s'. mem_alloc 100 boot_heap = Ret (0x200028, s) \<and> mem_free 0x200028 100 s = Ret s' \<and>
     mem_free 0x200028 100 s' = Panic ''mem: use-after-free or corrupt block''"
proof -
  obtain s k where s: "mem_alloc 100 boot_heap = Ret (0x200028, s)" "100 \<le> k" "mem_rep s [0x200028 \<mapsto> k]"
    by (rule boot_heap_live)
  from mem_free_rep [OF s(3) _ s(2), where p = "0x200028"] obtain s' where "mem_free 0x200028 100 s = Ret s'"
    by auto
  with mem_double_free [OF s(3) _ s(2) this] s show ?thesis by auto
qed

text \<open>C5: \<open>mem_free\<close> refuses what it can recognise: a pointer whose header would lie outside both arenas
  and a size larger than the allocation both end in a panic, never in a changed heap.\<close>

theorem mem_free_rejects:
  assumes rep: "mem_rep s L"
  shows "(p \<noteq> 0 \<and> \<not> ptr_in_region (p - 40) (heap_start s) (heap_max_end s) \<and>
      \<not> ptr_in_region (p - 40) (swap_space s) (swap_end s) \<longrightarrow>
      mem_free p n s = Panic ''mem: free outside managed region'' \<and> L p = None) \<and>
    (L q = Some k \<and> k < m \<longrightarrow> mem_free q m s = Panic ''mem: free size larger than allocation'')"
proof -
  from rep obtain B F where inv: "mem_inv s B F" and L: "L = live_map (hdrs s) (B - set F)"
    by (auto simp: mem_rep_def)
  then have ok: "heap_ok s B F" by (simp add: mem_inv_def)
  have "mem_free p n s = Panic ''mem: free outside managed region'' \<and> L p = None"
    if "p \<noteq> 0" "\<not> ptr_in_region (p - 40) (heap_start s) (heap_max_end s)"
      "\<not> ptr_in_region (p - 40) (swap_space s) (swap_end s)"
    using that block_in_arena [OF ok, of "p - 40"] by (auto simp: mem_free_def SIZEOF_MEM_BLOCK_def L live_map_def)
  moreover have "mem_free q m s = Panic ''mem: free size larger than allocation''" if q: "L q = Some k" "k < m"
  proof -
    from q(1) [unfolded L] obtain b where b: "b \<in> B - set F" "q = b + SIZEOF_MEM_BLOCK" "k = user_size (hdrs s b)"
      by (rule live_map_SomeD)
    have "q \<noteq> 0" by (rule mem_live_bounds(2) [OF rep q(1)])
    moreover have "b \<noteq> 0" "guard (hdrs s b) = MEM_GUARD_ACTIVE"
      using mem_rep_block(1) [OF inv, of b] hdr_okD(1) heap_okD(6) [OF ok, of b] b(1) by auto
    moreover have "m \<noteq> 0" using q(2) by auto
    ultimately show ?thesis
      using block_in_arena [OF ok, of b] b q(2) by (auto simp: mem_free_def ensure_block_integrity_def)
  qed
  ultimately show ?thesis by blast
qed

theorem mem_free_rejects_witness:
  "\<exists>s. mem_alloc 100 boot_heap = Ret (0x200028, s) \<and>
     mem_free 0x200028 0xFFFFFFFFFFFFFFFF s = Panic ''mem: free size larger than allocation'' \<and>
     mem_free 0x28 0 boot_heap = Panic ''mem: free outside managed region''"
proof -
  obtain s k where s: "mem_alloc 100 boot_heap = Ret (0x200028, s)" "mem_rep s [0x200028 \<mapsto> k]"
    by (rule boot_heap_live)
  have "k < 0xFFFFFFFFFFFFFFFF" using mem_live_bounds(1) [OF s(2), of "0x200028" k] by (simp add: word_less_nat_alt)
  with mem_free_rejects [OF s(2), of 0 0 "0x200028" k "0xFFFFFFFFFFFFFFFF"]
  have "mem_free 0x200028 0xFFFFFFFFFFFFFFFF s = Panic ''mem: free size larger than allocation''" by simp
  moreover have "mem_free 0x28 0 boot_heap = Panic ''mem: free outside managed region''"
    using mem_free_rejects [OF boot_heap_rep, of "0x28" 0 0 0 0]
    by (simp add: ptr_in_region_def boot_heap_def mem_init_def mem_vram_init_def Let_def boot_mem_def swap_end_def
        con_def)
  ultimately show ?thesis using s by blast
qed

text \<open>C6: \<open>mem_alloc\<close> returns null only when memory is exhausted: every free block is too small, the
  heap cannot grow by the missing pages (to within one page), and the swap space is used up.\<close>

theorem mem_alloc_null:
  assumes inv: "mem_inv s B F" and n: "unat n \<le> 2 ^ 62" and run: "mem_alloc n s = Ret (0, s')"
  shows "(\<forall>x\<in>set F. total_size (hdrs s x) < block_total n) \<and>
    unat (heap_max_end s) < unat (heap_ptr s) + unat (block_total n) + 4095 \<and>
    unat (swap_end s) < unat (swap_ptr s) + unat (block_total n)"
  using mem_alloc_cases [OF inv n] run by (auto simp: alloc_fail_def)

text \<open>The request of 16 MiB in the witness exceeds the 8 MiB to which the heap may grow.\<close>

theorem mem_alloc_null_witness:
  "\<exists>s'. mem_alloc 0x1000000 boot_heap = Ret (0, s') \<and>
     unat (heap_max_end boot_heap) < unat (heap_ptr boot_heap) + unat (block_total 0x1000000) + 4095"
proof -
  have al: "align8 0x1000000 = 0x1000000" "align8 0x1000028 = 0x1000028" by (simp_all add: align8_def)
  have "acquire_from_free_list tot (con cs boot_heap) = Some (0, con cs boot_heap)" for tot cs
    unfolding acquire_from_free_list_def by (subst acquire_loop.simps) (simp add: boot_heap_def mem_init_def Let_def mem_vram_init_def)
  then have "\<exists>s'. mem_alloc 0x1000000 boot_heap = Ret (0, s')"
    by (simp add: mem_alloc_def Let_def al SIZEOF_MEM_BLOCK_def)
       (simp add: boot_heap_def mem_init_def Let_def mem_vram_init_def boot_mem_def grow_heap_def
        fresh_heap_block_def fresh_swap_block_def fresh_block_def con_def upd_hdr_def swap_end_def
        EXOCORE_KERNEL_HEAP_MAX_SIZE_def SIZEOF_SWAP_SPACE_def SIZEOF_MEM_BLOCK_def align8_def)
  then obtain s' where run: "mem_alloc 0x1000000 boot_heap = Ret (0, s')" by blast
  have "mem_inv boot_heap {} []" unfolding boot_heap_def by (rule mem_init_inv) (simp_all add: boot_mem_def)
  from mem_alloc_null [OF this _ run] run show ?thesis by auto
qed

text \<open>C7: the allocator is best fit: whenever some free block is large enough, \<open>mem_alloc\<close> returns the
  user bytes of a free block than which no fitting free block is smaller.\<close>

theorem mem_alloc_best_fit:
  assumes inv: "mem_inv s B F" and n: "unat n \<le> 2 ^ 62"
    and fits: "x \<in> set F" "block_total n \<le> total_size (hdrs s x)"
  shows "\<exists>b s'. mem_alloc n s = Ret (b + SIZEOF_MEM_BLOCK, s') \<and> b \<in> set F \<and>
    (\<forall>y\<in>set F. block_total n \<le> total_size (hdrs s y) \<longrightarrow> total_size (hdrs s b) \<le> total_size (hdrs s y))"
proof -
  define s0 where "s0 = con [Con_puts ''mem_alloc size='', Con_udec (ucast (align8 n)),
                   Con_puts '' heap_ptr=0x'', Con_uhex (heap_ptr s), newline] s"
  have "mem_inv s0 B F" using inv by (simp add: s0_def)
  then have ok: "heap_ok s0 B F" by (simp add: mem_inv_def)
  have tot: "40 \<le> unat (block_total n)" "8 dvd unat (block_total n)" "unat (block_total n) < 2 ^ 63"
    using block_total_bounds [OF n] n by auto
  have h0: "hdrs s0 = hdrs s" by (simp add: s0_def)
  have "\<not> total_size (hdrs s0 x) < block_total n" using fits(2) h0 by auto
  with acquire_granted [OF ok tot] fits(1) obtain b t where
    bt: "acquire_from_free_list (block_total n) s0 = Some (b, t)" "b \<in> set F" "b \<noteq> 0"
      "\<forall>y\<in>set F. block_total n \<le> total_size (hdrs s0 y) \<longrightarrow> total_size (hdrs s0 b) \<le> total_size (hdrs s0 y)"
    by blast
  have "mem_alloc n s = Ret (finish_alloc b t)"
    unfolding mem_alloc_unfold Let_def s0_def [symmetric] using bt by simp
  with bt h0 show ?thesis by (auto simp: finish_alloc_def Let_def)
qed

text \<open>A block of 144 bytes freed in a fresh heap, and a request that it serves.\<close>

definition one_free :: mem_state where
  "one_free = boot_heap\<lparr>heap_ptr := 0x200090, free_list := 0x200000, hdrs := (hdrs boot_heap)(0x200000 :=
     \<lparr>total_size = 0x90, user_size = 0x68, guard = MEM_GUARD_FREED, nxt = 0, from_swap = False\<rparr>)\<rparr>"

lemma one_free_inv: "mem_inv one_free {0x200000} [0x200000]"
proof -
  have f: "heap_start one_free = 0x200000" "heap_ptr one_free = 0x200090"
    "heap_committed_end one_free = 0x280000" "heap_max_end one_free = 0xA00000" "heap_used_bytes one_free = 0"
    "swap_space one_free = 0x100000" "swap_ptr one_free = 0x100000" "free_list one_free = 0x200000"
    "hdrs one_free 0x200000 =
      \<lparr>total_size = 0x90, user_size = 0x68, guard = MEM_GUARD_FREED, nxt = 0, from_swap = False\<rparr>"
    by (simp_all add: one_free_def boot_heap_def mem_init_def mem_vram_init_def boot_mem_def
        EXOCORE_KERNEL_HEAP_MAX_SIZE_def con_def)
  have "regions one_free sw = (if sw then {} else {0x200000..<0x200090})" for sw
    by (simp add: regions_def f)
  then show ?thesis
    by (auto simp: mem_inv_def heap_ok_def layout_ok_def f tiled_def hdr_ok_def ival_def joined_def
        blocks_adjacent_def)
qed

theorem mem_alloc_best_fit_witness: "\<exists>s'. mem_alloc 64 one_free = Ret (0x200028, s')"
proof -
  have "block_total 64 = 0x68" by (simp add: block_total_def align8_def SIZEOF_MEM_BLOCK_def)
  moreover have "total_size (hdrs one_free 0x200000) = 0x90" by (simp add: one_free_def)
  ultimately show ?thesis
    using mem_alloc_best_fit [OF one_free_inv, of 64 "0x200000"] by (auto simp: SIZEOF_MEM_BLOCK_def)
qed

text \<open>C8: no byte is lost: the free bytes that \<open>mem_heap_free\<close> reports and the blocks in use add up to the
  committed heap and the swap space, and the bytes in use that \<open>mem_get_info\<close> reports are the usable
  bytes of the active blocks. In particular the walk over the free list returns.\<close>

theorem mem_get_info_accounts:
  assumes inv: "mem_inv s B F"
  shows "\<exists>i. mem_get_info s = Some i \<and>
    unat (info_heap_free i) + (\<Sum>b\<in>B - set F. unat (total_size (hdrs s b))) =
      unat (info_heap_committed i) + 65536 \<and>
    unat (info_heap_used i) = (\<Sum>b\<in>B - set F. unat (user_size (hdrs s b)))"
proof -
  have ok: "heap_ok s B F" using inv by (simp add: mem_inv_def)
  note D = heap_okD [OF ok] and L = layout_okD [OF heap_okD(1) [OF ok]]
  let ?t = "\<lambda>b. unat (total_size (hdrs s b))"
  have split: "(\<Sum>b\<in>B. ?t b) = (\<Sum>b\<in>B - set F. ?t b) + (\<Sum>b\<in>set F. ?t b)"
    using sum.subset_diff [OF D(5) tiledD(1) [OF D(2)]] .
  have total: "(\<Sum>b\<in>B. ?t b) = (unat (heap_ptr s) - unat (heap_start s)) + (unat (swap_ptr s) - unat (swap_space s))"
    using tiled_sum [OF D(2)] card_regions [OF D(1)] by simp
  have sl: "(\<Sum>b\<leftarrow>F. ?t b) = (\<Sum>b\<in>set F. ?t b)" using D(4) by (simp add: sum_list_distinct_conv_sum_set)
  have wsum: "unat n + (\<Sum>b\<leftarrow>xs. ?t b) < 2 ^ 64 \<Longrightarrow>
      unat (n + (\<Sum>b\<leftarrow>xs. total_size (hdrs s b))) = unat n + (\<Sum>b\<leftarrow>xs. ?t b)" for n xs
  proof (induction xs arbitrary: n)
    case (Cons x xs)
    then show ?case using Cons.IH [of "n + total_size (hdrs s x)"] unat_add64 [of n "total_size (hdrs s x)"]
      by (simp add: add.assoc)
  qed simp
  let ?n = "(heap_committed_end s - heap_ptr s) + (SIZEOF_SWAP_SPACE - (swap_ptr s - swap_space s))"
  have a: "unat (heap_committed_end s - heap_ptr s) = unat (heap_committed_end s) - unat (heap_ptr s)"
    "unat (swap_ptr s - swap_space s) = unat (swap_ptr s) - unat (swap_space s)"
    "unat (heap_committed_end s - heap_start s) = unat (heap_committed_end s) - unat (heap_start s)"
    using L by (simp_all add: unat_diff64)
  have "unat (SIZEOF_SWAP_SPACE - (swap_ptr s - swap_space s)) = 65536 - (unat (swap_ptr s) - unat (swap_space s))"
    using L a(2) unat_diff64 [of "swap_ptr s - swap_space s" SIZEOF_SWAP_SPACE] by (simp add: SIZEOF_SWAP_SPACE_def)
  then have n: "unat ?n = (unat (heap_committed_end s) - unat (heap_ptr s)) + (65536 - (unat (swap_ptr s) - unat (swap_space s)))"
    using a L by (simp add: unat_add64)
  have "unat (?n + (\<Sum>b\<leftarrow>F. total_size (hdrs s b))) = unat ?n + (\<Sum>b\<in>set F. ?t b)"
    using wsum [of ?n F] n split total L sl by simp
  then show ?thesis
    using free_bytes_loop_sum [OF D(3), of ?n] inv n a split total L
    by (simp add: mem_get_info_def mem_heap_free_def mem_inv_def)
qed

theorem mem_get_info_accounts_witness:
  "\<exists>i. mem_get_info one_free = Some i \<and> unat (info_heap_free i) = unat (info_heap_committed i) + 65536 \<and>
     info_heap_used i = 0"
  using mem_get_info_accounts [OF one_free_inv] by (simp add: unat_eq_0)

section \<open>Requests near the end of the address space\<close>

text \<open>The rounding of a request of more than 2^64 - 8 bytes wraps to 0, so it is served as a request of no
  bytes at all.\<close>

lemma align8_wraps: "0xFFFFFFFFFFFFFFF8 < n \<Longrightarrow> align8 n = 0"
proof -
  assume n: "0xFFFFFFFFFFFFFFF8 < n"
  have "(7::u64) = mask 3" by (simp add: mask_eq_exp_minus_1)
  then have "unat (align8 n) = unat (n + 7) - unat (n + 7) mod 8"
    unfolding align8_def by (simp only: unat_and_not_mask) simp
  moreover have "unat (n + 7) = unat n + 7 - 18446744073709551616"
    using n by (simp add: unat_plus_if' word_less_nat_alt)
  moreover have "unat n < 18446744073709551616" by simp
  ultimately have "unat (align8 n) = 0" by (simp add: mod_less)
  then show ?thesis by (simp add: unat_eq_0)
qed

lemma mem_alloc_wraps: "0xFFFFFFFFFFFFFFF8 < n \<Longrightarrow> mem_alloc n s = mem_alloc 0 s"
proof -
  assume "0xFFFFFFFFFFFFFFF8 < n"
  moreover have "align8 0 = 0" by (simp add: align8_def)
  ultimately show ?thesis by (simp add: mem_alloc_def align8_wraps)
qed

lemma mem_alloc_fresh:
  assumes "free_list s = 0" and "align8 (40 + align8 n) = tot" and "heap_ptr s \<noteq> 0"
    and "heap_ptr s + tot \<le> heap_committed_end s"
  shows "\<exists>s'. mem_alloc n s = Ret (heap_ptr s + 40, s') \<and> free_list s' = 0 \<and> heap_ptr s' = heap_ptr s + tot \<and>
    heap_committed_end s' = heap_committed_end s \<and> heap_start s' = heap_start s"
proof -
  define s0 where "s0 = con [Con_puts ''mem_alloc size='', Con_udec (ucast (align8 n)),
                   Con_puts '' heap_ptr=0x'', Con_uhex (heap_ptr s), newline] s"
  have f: "free_list s0 = 0" "heap_ptr s0 = heap_ptr s" "heap_committed_end s0 = heap_committed_end s" "heap_start s0 = heap_start s"
    using assms(1) by (simp_all add: s0_def)
  have tot: "block_total n = tot" using assms(2) by (simp add: block_total_def SIZEOF_MEM_BLOCK_def)
  have acq: "acquire_from_free_list tot s0 = Some (0, s0)"
    by (simp add: acquire_from_free_list_def acquire_loop.simps f)
  have "\<not> heap_committed_end s0 < heap_ptr s0 + tot" using assms(4) f by (simp add: not_less)
  then have grow: "grow_heap tot s0 = s0" and
    "\<exists>t. fresh_any tot s0 = (heap_ptr s, t) \<and> free_list t = 0 \<and> heap_ptr t = heap_ptr s + tot \<and>
      heap_committed_end t = heap_committed_end s \<and> heap_start t = heap_start s"
    using assms(3) f by (simp_all add: grow_heap_def fresh_any_def fresh_heap_block_def fresh_block_def)
  then obtain t where t: "fresh_any tot s0 = (heap_ptr s, t)" "free_list t = 0" "heap_ptr t = heap_ptr s + tot"
    "heap_committed_end t = heap_committed_end s" "heap_start t = heap_start s" by blast
  have "mem_alloc n s = Ret (finish_alloc (heap_ptr s) t)"
    unfolding mem_alloc_unfold Let_def s0_def [symmetric] tot using acq grow t(1) assms(3) by simp
  with t show ?thesis by (simp add: finish_alloc_def Let_def SIZEOF_MEM_BLOCK_def)
qed

text \<open>The blocks of the heap follow one another up to \<open>heap_ptr\<close>, at distances that are multiples of 8.\<close>

lemma heap_block_distance:
  assumes inv: "mem_inv s B F" and b: "b \<in> B" "\<not> from_swap (hdrs s b)"
  shows "unat b + unat (total_size (hdrs s b)) \<le> unat (heap_ptr s) \<and> 8 dvd unat (heap_ptr s) - unat b"
  using b
proof (induction "unat (heap_ptr s) - unat b" arbitrary: b rule: less_induct)
  case less
  let ?e = "unat b + unat (total_size (hdrs s b))"
  have t: "tiled (hdrs s) B (regions s)" and ok: "hdr_ok b (hdrs s b)" using mem_rep_block [OF inv less.prems(1)] by auto
  have cover: "(\<Union>b\<in>{b\<in>B. from_swap (hdrs s b) = False}. ival (hdrs s) b) = {unat (heap_start s)..<unat (heap_ptr s)}"
    using tiledD(4) [OF t, of False] by (simp add: regions_def)
  have "?e - 1 \<in> ival (hdrs s) b" using hdr_okD(2) [OF ok] by (auto simp: ival_def)
  then have e: "?e - 1 \<in> {unat (heap_start s)..<unat (heap_ptr s)}" using cover less.prems by blast
  then have le: "?e \<le> unat (heap_ptr s)" using hdr_okD(2) [OF ok] by auto
  show ?case
  proof (cases "?e = unat (heap_ptr s)")
    case True
    then have "unat (heap_ptr s) - unat b = unat (total_size (hdrs s b))" by linarith
    with True hdr_okD(3) [OF ok] show ?thesis by simp
  next
    case False
    with e le have "?e \<in> {unat (heap_start s)..<unat (heap_ptr s)}" by auto
    then obtain c where c: "c \<in> B" "\<not> from_swap (hdrs s c)" "?e \<in> ival (hdrs s) c" using cover by blast
    have "c \<noteq> b" using c(3) by (auto simp: ival_def)
    with tiledD(3) [OF t c(1) less.prems(1)] \<open>?e - 1 \<in> ival (hdrs s) b\<close> have "?e - 1 \<notin> ival (hdrs s) c" by blast
    with c(3) have ce: "unat c = ?e" using hdr_okD(2) [OF ok] by (auto simp: ival_def)
    then have "unat (heap_ptr s) - unat c < unat (heap_ptr s) - unat b" using False le hdr_okD(2) [OF ok] by linarith
    from less.hyps [OF this c(1,2)] have d: "unat c + unat (total_size (hdrs s c)) \<le> unat (heap_ptr s)" "8 dvd unat (heap_ptr s) - unat c" by auto
    have "unat (heap_ptr s) - unat b = (unat (heap_ptr s) - unat c) + unat (total_size (hdrs s b))" using ce d(1) by linarith
    with d(2) hdr_okD(3) [OF ok] le show ?thesis by simp
  qed
qed

lemma align8_multiple:
  assumes "8 dvd unat n" and "unat n + 7 < 2 ^ 64"
  shows "align8 n = n"
proof -
  from assms(1) obtain c where "unat n = 8 * c" ..
  then have "unat (align8 n) = unat n" using unat_align8 [of n] assms(2) by simp
  then show ?thesis by (rule word_unat_eq_iff [THEN iffD2])
qed

text \<open>The request whose block goes back by the distance of \<open>d\<close>, and the size of the block for a request that fits.\<close>

lemma block_total_back:
  assumes "8 dvd unat d" and "40 \<le> unat d" and "unat d < 2 ^ 63"
  shows "align8 (40 + align8 (- d - 40)) = - d"
proof -
  have d: "unat (- d) = 18446744073709551616 - unat d" using assms(2) unat_sub_if_size [of 0 d] by (simp add: word_size)
  moreover have "40 \<le> - d" using d assms(3) by (simp add: word_le_nat_alt)
  ultimately have n: "unat (- d - 40) = 18446744073709551616 - unat d - 40" by (simp add: unat_sub)
  have "8 dvd unat (- d - 40)" "8 dvd unat (- d)" unfolding n d using assms(1) by (intro dvd_diff_nat, simp_all)+
  then have "align8 (- d - 40) = - d - 40" "align8 (- d) = - d" using n d assms(2) by (auto intro!: align8_multiple)
  then show ?thesis by simp
qed

lemma block_total_fits:
  assumes "unat n \<le> m" and "8 dvd m" and "m < 2 ^ 63"
  shows "unat (align8 (40 + align8 n)) \<le> 40 + m"
proof -
  have a: "unat (align8 n) \<le> m"
  proof -
    from assms(2) obtain c where c: "m = 8 * c" ..
    have "8 dvd unat (align8 n)" "unat (align8 n) \<le> unat n + 7" using align8_bounds [of n] assms by simp_all
    with c assms(1) show ?thesis by (auto simp: dvd_def)
  qed
  then have "unat (40 + align8 n) = 40 + unat (align8 n)" using assms(3) by (simp add: unat_add64)
  moreover have "8 dvd unat (align8 n)" using align8_bounds [of n] assms by simp
  ultimately have "align8 (40 + align8 n) = 40 + align8 n" using a assms(3) by (intro align8_multiple) auto
  with a \<open>unat (40 + align8 n) = 40 + unat (align8 n)\<close> show ?thesis by simp
qed

text \<open>C12: the limit on requests in the refinement of \<open>mem_alloc\<close> is needed. For every live pointer \<open>p\<close> of the heap, while
  the free list is empty, there is a request whose block wraps around the end of the address space: it is granted and moves \<open>heap_ptr\<close>
  back to the header of \<open>p\<close>, so that the next request of at most the size of \<open>p\<close> returns \<open>p\<close>, which is still in use.\<close>

theorem mem_alloc_reuses_live_pointer:
  assumes rep: "mem_rep s L" and free: "free_list s = 0" and live: "L p = Some k" and heap: "heap_start s < p" and n: "n \<le> k"
  shows "\<exists>q s1 s2. mem_alloc (p - heap_ptr s - 80) s = Ret (q, s1) \<and> q \<noteq> 0 \<and> heap_ptr s1 = p - 40 \<and> mem_alloc n s1 = Ret (p, s2)"
proof -
  obtain B F where inv: "mem_inv s B F" and L: "L = live_map (hdrs s) (B - set F)" using rep by (auto simp: mem_rep_def)
  obtain b where b: "b \<in> B" "p = b + 40" "k = user_size (hdrs s b)"
    using live_map_SomeD [OF live [unfolded L]] by (auto simp: SIZEOF_MEM_BLOCK_def)
  have ok: "hdr_ok b (hdrs s b)" and t: "tiled (hdrs s) B (regions s)" using mem_rep_block [OF inv b(1)] by auto
  have lay: "layout_ok s" using inv by (simp add: mem_inv_def heap_ok_def)
  note ly = layout_okD [OF lay] and H = hdr_okD [OF ok]
  have "\<not> from_swap (hdrs s b)"
  proof
    assume "from_swap (hdrs s b)"
    then have "ival (hdrs s) b \<subseteq> {unat (swap_space s)..<unat (swap_ptr s)}" using tiledD(4) [OF t, of True] b(1) by (auto simp: regions_def)
    moreover have "unat b + 39 \<in> ival (hdrs s) b" using H(2) by (simp add: ival_def)
    ultimately have "unat b + 39 < unat (swap_ptr s)" by auto
    with ly(3,4) heap b(2) H(8) show False by (simp add: word_less_nat_alt)
  qed
  note D = heap_block_distance [OF inv b(1) this]
  let ?d = "heap_ptr s - b"
  have le: "unat b + 40 \<le> unat (heap_ptr s)" "unat (heap_ptr s) < 2 ^ 63" using D H(2) ly by linarith+
  have d: "unat ?d = unat (heap_ptr s) - unat b" using le(1) by (simp add: unat_sub word_le_nat_alt)
  have "align8 (40 + align8 (- ?d - 40)) = - ?d" by (rule block_total_back) (use D d le in auto)
  moreover have "p - heap_ptr s - 80 = - ?d - 40" using b(2) by simp
  moreover have "heap_ptr s \<noteq> 0" "b \<le> heap_committed_end s" using le ly(6) by (auto simp: word_le_nat_alt)
  ultimately obtain s1 where s1: "mem_alloc (p - heap_ptr s - 80) s = Ret (heap_ptr s + 40, s1)" "free_list s1 = 0" "heap_ptr s1 = b"
    "heap_committed_end s1 = heap_committed_end s" using mem_alloc_fresh [OF free, of "- ?d - 40" "- ?d"] by auto
  have kt: "40 + unat k = unat (total_size (hdrs s b))" using H(2,4) b(3) by simp
  have "unat (align8 (40 + align8 n)) \<le> 40 + unat k"
  proof (rule block_total_fits)
    show "unat n \<le> unat k" using n by (simp add: word_le_nat_alt)
    have "8 dvd 40 + unat k" using H(3) kt by simp
    then show "8 dvd unat k" by presburger
    show "unat k < 2 ^ 63" using kt D le(2) by linarith
  qed
  then have "unat b + unat (align8 (40 + align8 n)) \<le> unat (heap_committed_end s)" using kt D ly(6) by linarith
  moreover from this have "unat b + unat (align8 (40 + align8 n)) < 18446744073709551616" using unat_lt_2p64 [of "heap_committed_end s"] by linarith
  ultimately have "b + align8 (40 + align8 n) \<le> heap_committed_end s" by (simp add: word_le_nat_alt unat_add64)
  then obtain s2 where "mem_alloc n s1 = Ret (b + 40, s2)" using mem_alloc_fresh [OF s1(2) refl, of n] s1 H(1) by auto
  moreover have "unat (heap_ptr s + 40) = unat (heap_ptr s) + 40" using le(2) by (simp add: unat_add64)
  then have "heap_ptr s + 40 \<noteq> 0" by auto
  ultimately show ?thesis using s1 b(2) by auto
qed

theorem mem_alloc_reuses_live_pointer_witness:
  "\<exists>s k q s1 s2. mem_alloc 100 boot_heap = Ret (0x200028, s) \<and> mem_rep s [0x200028 \<mapsto> k] \<and>
     mem_alloc (0x200028 - heap_ptr s - 80) s = Ret (q, s1) \<and> mem_alloc 100 s1 = Ret (0x200028, s2)"
proof -
  obtain s k where s: "mem_alloc 100 boot_heap = Ret (0x200028, s)" "100 \<le> k" "mem_rep s [0x200028 \<mapsto> k]" by (rule boot_heap_live)
  have b: "free_list boot_heap = 0" "heap_ptr boot_heap = 0x200000" "heap_committed_end boot_heap = 0x280000" "heap_start boot_heap = 0x200000"
    by (simp_all add: boot_heap_def mem_init_def mem_vram_init_def boot_mem_def con_def Let_def)
  have "free_list s = 0" "heap_start s < 0x200028" using mem_alloc_fresh [of boot_heap 100 144] b s(1) by (auto simp: align8_def)
  then show ?thesis using mem_alloc_reuses_live_pointer [OF s(3) _ _ _ s(2), of "0x200028"] s by auto
qed

end
