(* ===== verification/Mem_Apps.thy ===== *)
theory Mem_Apps
  imports Mem_Props
begin

text \<open>
  The application table (blocks saved under a handle) and the counted locks on video memory.
\<close>

section \<open>Applications\<close>

lemma split_block_apps: "apps (split_block b tot l s) = apps s" "vram_locks (split_block b tot l s) = vram_locks s"
  by (simp_all add: split_block_def Let_def upd_hdr_def set_link_def split: link.split)

lemma mem_alloc_apps:
  assumes "mem_alloc n s = Ret (p, s')"
  shows "apps s' = apps s" and "vram_locks s' = vram_locks s"
proof -
  have acq: "apps t' = apps t \<and> vram_locks t' = vram_locks t" if "acquire_from_free_list tot t = Some (b, t')" for tot t b t'
    using that by (auto simp: acquire_from_free_list_def split_block_apps split: if_splits)
  have fresh: "apps (snd (fresh_any tot t)) = apps t \<and> vram_locks (snd (fresh_any tot t)) = vram_locks t" for tot t
    by (simp add: fresh_any_def fresh_heap_block_def fresh_swap_block_def fresh_block_def upd_hdr_def Let_def
        split: if_splits)
  have grow: "apps (grow_heap tot t) = apps t \<and> vram_locks (grow_heap tot t) = vram_locks t" for tot t by (simp add: grow_heap_def Let_def)
  let ?rest = "\<lambda>b t. let (blk, s) = (if b = 0 then fresh_any (block_total n) (grow_heap (block_total n) t) else (b, t))
         in if blk = 0 then Ret (0, s\<lparr>heap_alloc_fail_count := heap_alloc_fail_count s + 1\<rparr>)
            else Ret (finish_alloc blk s)"
  define s0 where "s0 = con [Con_puts ''mem_alloc size='', Con_udec (ucast (align8 n)),
                   Con_puts '' heap_ptr=0x'', Con_uhex (heap_ptr s), newline] s"
  have "bind_outcome (of_option (acquire_from_free_list (block_total n) s0)) (\<lambda>(b, t). ?rest b t) = Ret (p, s')"
    using assms unfolding mem_alloc_unfold Let_def s0_def .
  then obtain x where x: "acquire_from_free_list (block_total n) s0 = Some x" "(case x of (b, t) \<Rightarrow> ?rest b t) = Ret (p, s')"
    unfolding bind_outcome_Ret_iff of_option_Ret_iff by blast
  obtain b t where bt: "x = (b, t)" by fastforce
  have a: "acquire_from_free_list (block_total n) s0 = Some (b, t)" and r: "?rest b t = Ret (p, s')"
    using x by (simp_all add: bt)
  obtain b2 t2 where t2: "(if b = 0 then fresh_any (block_total n) (grow_heap (block_total n) t) else (b, t)) = (b2, t2)"
    by fastforce
  then have "apps t2 = apps t \<and> vram_locks t2 = vram_locks t"
    using fresh [of "block_total n" "grow_heap (block_total n) t"] grow by (auto split: if_splits)
  moreover have "apps s' = apps t2 \<and> vram_locks s' = vram_locks t2"
    using r unfolding t2 by (auto simp: finish_alloc_def Let_def split: if_splits)
  ultimately show "apps s' = apps s" "vram_locks s' = vram_locks s" using acq [OF a] by (simp_all add: s0_def)
qed

text \<open>The application table as \<open>mem_init\<close> and \<open>mem_register_app\<close> leave it: sixteen block slots per
  application, of which \<open>block_count\<close> are in use.\<close>

definition apps_wf :: "mem_state \<Rightarrow> bool" where
  "apps_wf s \<longleftrightarrow> (\<forall>a\<in>set (apps s). length (blocks a) = 16 \<and> 0 \<le> block_count a \<and> block_count a \<le> 16)"

lemma mem_rep_con [simp]: "mem_rep (con cs s) L = mem_rep s L"
  by (simp add: mem_rep_def)

lemma mem_rep_apps: "mem_rep (s\<lparr>apps := xs\<rparr>) L = mem_rep s L"
proof -
  have "mem_inv (s\<lparr>apps := xs\<rparr>) B F = mem_inv s B F" for B F
    by (rule same_heap_inv) (simp add: same_heap_def)
  then show ?thesis by (simp add: mem_rep_def)
qed

lemma mem_alloc_app_ok:
  assumes rep: "mem_rep s L" and n: "unat n \<le> 2 ^ 62 - 8" and i: "find_slot (\<lambda>x. app_id x = aid) (apps s) = Some i"
  shows "\<exists>p s'. mem_alloc_app aid n s = Ret (p, s') \<and> mem_ram s' = mem_ram s \<and>
    (if p = 0 then mem_rep s' L \<and> apps s' = apps s
     else (\<exists>k. n \<le> k \<and> L p = None \<and> mem_rep s' (L(p \<mapsto> k))) \<and>
          (\<exists>b u. apps s' = (apps s)[i := (apps s ! i)\<lparr>base := b, used := u\<rparr>]))"
proof -
  define s0 where "s0 = con [Con_puts ''mem_alloc_app id='', Con_udec (word_of_int aid),
                   Con_puts '' size='', Con_udec (ucast (align8 n)), newline] s"
  have a: "unat n \<le> unat (align8 n)" "unat (align8 n) \<le> 2 ^ 62" using align8_bounds [of n] n by simp_all
  from rep have "mem_rep s0 L" by (simp add: s0_def)
  from mem_alloc_rep [OF this a(2)] obtain p s1 where r: "mem_alloc (align8 n) s0 = Ret (p, s1)"
    "mem_ram s1 = mem_ram s0"
    "if p = 0 then mem_rep s1 L else \<exists>k. align8 n \<le> k \<and> L p = None \<and> mem_rep s1 (L(p \<mapsto> k))" by blast
  have ap: "apps s1 = apps s" using mem_alloc_apps [OF r(1)] by (simp add: s0_def)
  show ?thesis
  proof (cases "p = 0")
    case True
    with r ap show ?thesis by (simp add: mem_alloc_app_def Let_def s0_def [symmetric]) (simp add: s0_def)
  next
    case False
    with r obtain k where k: "align8 n \<le> k" "L p = None" "mem_rep s1 (L(p \<mapsto> k))" by auto
    have "n \<le> k" using k(1) a(1) by (simp add: word_le_nat_alt)
    moreover define x where "x = (let x = apps s ! i; x = (if base x = 0 then x\<lparr>base := p\<rparr> else x)
      in x\<lparr>used := used x + ucast (align8 n)\<rparr>)"
    have "\<exists>b u. x = (apps s ! i)\<lparr>base := b, used := u\<rparr>"
      by (cases "apps s ! i") (auto simp: x_def Let_def)
    then have "\<exists>b u. (apps s)[i := x] = (apps s)[i := (apps s ! i)\<lparr>base := b, used := u\<rparr>]" by blast
    moreover have "mem_alloc_app aid n s =
        Ret (p, con [Con_puts '' app alloc addr=0x'', Con_uhex p, newline] (s1\<lparr>apps := (apps s)[i := x]\<rparr>))"
      using False r(1) i ap by (simp add: mem_alloc_app_def Let_def s0_def [symmetric] x_def)
    ultimately show ?thesis using False k r(2) by (simp add: mem_rep_apps) (auto simp: s0_def)
  qed
qed

text \<open>C9: what \<open>mem_save_app\<close> stores, \<open>mem_retrieve_app\<close> returns: for a registered application and data that
  lies in a live pointer's bytes, a handle returned by a save leads to a block of the saved size that
  holds the saved bytes, and the data itself is not disturbed.\<close>

theorem mem_save_retrieve:
  assumes rep: "mem_rep s L" and wf: "apps_wf s" and n: "unat n \<le> 2 ^ 62 - 8"
    and data: "L q = Some j" "region data n \<subseteq> region q j"
    and run: "mem_save_app aid data n s = Ret (hdl, s')" and ok: "0 \<le> hdl"
  shows "\<exists>dst s''. mem_retrieve_app aid hdl s' = ((dst, Some n), s'') \<and>
    (\<forall>i<unat n. mem_ram s' (dst + of_nat i) = mem_ram s (data + of_nat i)) \<and>
    (\<forall>x\<in>region q j. mem_ram s' x = mem_ram s x)"
proof -
  from run ok obtain i where i: "find_slot (\<lambda>x. app_id x = aid) (apps s) = Some i"
    and cnt: "block_count (apps s ! i) < 16"
    by (auto simp: mem_save_app_def split: option.splits if_splits)
  from mem_alloc_app_ok [OF rep n i] obtain p s1 where r: "mem_alloc_app aid n s = Ret (p, s1)"
    "mem_ram s1 = mem_ram s"
    "if p = 0 then mem_rep s1 L \<and> apps s1 = apps s
     else (\<exists>k. n \<le> k \<and> L p = None \<and> mem_rep s1 (L(p \<mapsto> k))) \<and>
          (\<exists>b u. apps s1 = (apps s)[i := (apps s ! i)\<lparr>base := b, used := u\<rparr>])" by blast
  have p: "p \<noteq> 0" using run ok i cnt r(1) by (auto simp: mem_save_app_def not_le [symmetric])
  with r obtain k b u where k: "n \<le> k" "L p = None" "mem_rep s1 (L(p \<mapsto> k))"
    and ap: "apps s1 = (apps s)[i := (apps s ! i)\<lparr>base := b, used := u\<rparr>]" by auto
  have ilen: "i < length (apps s)" "app_id (apps s ! i) = aid" using find_slot_SomeD [OF i] by auto
  have w: "length (blocks (apps s ! i)) = 16" "0 \<le> block_count (apps s ! i)"
    using wf ilen(1) by (auto simp: apps_wf_def)
  define y where "y = (apps s1 ! i)\<lparr>blocks := (blocks (apps s ! i))[nat (block_count (apps s ! i)) := \<lparr>ab_addr = p, ab_size = n\<rparr>],
      block_count := block_count (apps s ! i) + 1\<rparr>"
  have s': "apps s' = (apps s)[i := y]" "mem_ram s' = memcpy p data n (mem_ram s)"
    "hdl = block_count (apps s ! i)"
    using run i cnt r(1,2) p ilen by (auto simp: mem_save_app_def Let_def ap y_def)
  have "find_slot (\<lambda>x. app_id x = aid) (apps s') = Some i"
    using i ilen by (auto simp: s'(1) find_slot_Some_iff nth_list_update y_def ap)
  then have "\<exists>s''. mem_retrieve_app aid hdl s' = ((p, Some n), s'')"
    using ilen w cnt by (auto simp: mem_retrieve_app_def s' y_def)
  moreover have apart: "region p n \<inter> region q j = {}"
  proof -
    have "region p k \<inter> region q j = {}"
      by (rule mem_live_disjoint [OF k(3)]) (use data(1) k(2) in auto)
    moreover have "region p n \<subseteq> region p k" using k(1) by (auto simp: region_def)
    ultimately show ?thesis by blast
  qed
  moreover have "memcpy p data n (mem_ram s) (p + of_nat x) = mem_ram s (data + of_nat x)" if "x < unat n" for x
  proof -
    have "region p n \<inter> region data n = {}" using apart data(2) by blast
    from memcpy_apply [OF this] that show ?thesis by (simp add: region_memI)
  qed
  moreover have "memcpy p data n (mem_ram s) x = mem_ram s x" if "x \<in> region q j" for x
    by (rule memcpy_outside) (use that apart in auto)
  ultimately show ?thesis unfolding s'(2) by blast
qed

text \<open>In the witness application 1 saves four bytes of the block at \<^verbatim>\<open>0x200028\<close>.\<close>

definition app_heap :: mem_state where
  "app_heap = snd (mem_register_app 5 boot_heap)"

lemma app_heap_fields:
  "apps app_heap = empty_app\<lparr>app_id := 1, priority := 5\<rparr> # replicate 15 empty_app"
  "free_list app_heap = 0" "heap_ptr app_heap = 0x200000" "heap_committed_end app_heap = 0x280000"
proof -
  have "apps boot_heap = empty_app # replicate 15 empty_app"
  proof -
    have "apps boot_heap = replicate MAX_APPS empty_app" by (simp add: boot_heap_def mem_init_def Let_def)
    also have "MAX_APPS = Suc 15" by (simp add: MAX_APPS_def)
    finally show ?thesis by (simp only: replicate_Suc)
  qed
  moreover have "next_id boot_heap = 1" "free_list boot_heap = 0" "heap_ptr boot_heap = 0x200000"
    "heap_committed_end boot_heap = 0x280000"
    by (simp_all add: boot_heap_def mem_init_def mem_vram_init_def boot_mem_def con_def Let_def)
  moreover have "app_id empty_app = 0" by (simp add: empty_app_def)
  ultimately show "apps app_heap = empty_app\<lparr>app_id := 1, priority := 5\<rparr> # replicate 15 empty_app"
    "free_list app_heap = 0" "heap_ptr app_heap = 0x200000" "heap_committed_end app_heap = 0x280000"
    by (simp_all add: app_heap_def mem_register_app_def Let_def)
qed

lemma app_heap_rep: "mem_rep app_heap Map.empty"
proof -
  have "same_heap boot_heap app_heap"
    by (simp add: same_heap_def app_heap_def mem_register_app_def Let_def split: option.split)
  then have "mem_inv app_heap B F = mem_inv boot_heap B F" and "hdrs app_heap = hdrs boot_heap" for B F
    by (simp_all only: same_heap_inv) (simp add: same_heap_def)
  with boot_heap_rep show ?thesis by (simp add: mem_rep_def)
qed

theorem mem_save_retrieve_witness:
  "\<exists>s s' dst s''. mem_alloc 100 app_heap = Ret (0x200028, s) \<and> mem_save_app 1 0x200028 4 s = Ret (0, s') \<and>
     mem_retrieve_app 1 0 s' = ((dst, Some 4), s'') \<and>
     (\<forall>i<4. mem_ram s' (dst + of_nat i) = mem_ram s (0x200028 + of_nat i))"
proof -
  have al: "align8 (40 + align8 100) = 144" "align8 4 = 8" "align8 8 = 8" "align8 (40 + align8 8) = 48"
    by (simp_all add: align8_def)
  from mem_alloc_fresh [of app_heap 100 144] al app_heap_fields obtain s where
    s: "mem_alloc 100 app_heap = Ret (0x200028, s)" "free_list s = 0" "heap_ptr s = 0x200090"
      "heap_committed_end s = 0x280000" by auto
  with mem_alloc_rep [OF app_heap_rep, of 100] obtain k where k: "100 \<le> k" "mem_rep s [0x200028 \<mapsto> k]" by auto
  have ap: "apps s = empty_app\<lparr>app_id := 1, priority := 5\<rparr> # replicate 15 empty_app"
    using mem_alloc_apps [OF s(1)] by (simp add: app_heap_fields)
  define s0 where "s0 = con [Con_puts ''mem_alloc_app id='', Con_udec (word_of_int 1),
      Con_puts '' size='', Con_udec (ucast (align8 4)), newline] s"
  from mem_alloc_fresh [of s0 8 48] al s obtain s1 where s1: "mem_alloc 8 s0 = Ret (0x2000B8, s1)"
    by (auto simp: s0_def)
  have ap1: "apps s1 = apps s" using mem_alloc_apps [OF s1] by (simp add: s0_def)
  have id0: "app_id empty_app = 0" "block_count empty_app = 0" "base empty_app = 0" by (simp_all add: empty_app_def)
  then have slot: "find_slot (\<lambda>x. app_id x = 1) (apps s) = Some 0" "block_count (apps s ! 0) = 0" by (simp_all add: ap)
  have "mem_alloc_app 1 4 s = bind_outcome (mem_alloc 8 s0) (\<lambda>(a, s). if a = 0 then Ret (0, s)
      else case find_slot (\<lambda>x. app_id x = 1) (apps s) of None \<Rightarrow> bind_outcome (mem_free a 8 s) (\<lambda>s. Ret (0, s))
        | Some i \<Rightarrow> let x = apps s ! i; x = (if base x = 0 then x\<lparr>base := a\<rparr> else x);
            x = x\<lparr>used := used x + ucast (8::u64)\<rparr>; s = s\<lparr>apps := (apps s)[i := x]\<rparr>;
            s = con [Con_puts '' app alloc addr=0x'', Con_uhex a, newline] s in Ret (a, s))"
    unfolding mem_alloc_app_def Let_def s0_def al(2) by simp
  then have "\<exists>x s2. mem_alloc_app 1 4 s = Ret (0x2000B8, s2) \<and> apps s2 = (apps s)[0 := x] \<and> block_count x = 0"
    using s1 slot by (simp add: ap1 Let_def ap id0)
  then have "\<exists>s'. mem_save_app 1 0x200028 4 s = Ret (0, s')"
    using slot by (auto simp: mem_save_app_def Let_def ap)
  then obtain s' where run: "mem_save_app 1 0x200028 4 s = Ret (0, s')" by blast
  have wf: "apps_wf s" by (simp add: apps_wf_def ap empty_app_def)
  have sub: "region 0x200028 4 \<subseteq> region 0x200028 k" using k(1) by (auto simp: region_def word_less_nat_alt word_le_nat_alt)
  from mem_save_retrieve [OF k(2) wf _ _ sub run] s(1) run show ?thesis by auto
qed

section \<open>Video memory locks\<close>

text \<open>How often an owner holds the video memory.\<close>

definition vram_held :: "string \<Rightarrow> mem_state \<Rightarrow> nat" where
  "vram_held tag s = (case find_vram_slot tag s of None \<Rightarrow> 0 | Some i \<Rightarrow> unat (locks (vram_locks s ! i)))"

text \<open>A slot has an owner exactly while it is held, and no owner has two slots.\<close>

definition vram_wf :: "mem_state \<Rightarrow> bool" where
  "vram_wf s \<longleftrightarrow> (\<forall>l\<in>set (vram_locks s). owner l = None \<longleftrightarrow> locks l = 0) \<and>
     (\<forall>i<length (vram_locks s). \<forall>j<length (vram_locks s).
        owner (vram_locks s ! i) \<noteq> None \<longrightarrow> owner (vram_locks s ! i) = owner (vram_locks s ! j) \<longrightarrow> i = j)"

lemma find_vram_slotD:
  "find_vram_slot tag s = Some i \<Longrightarrow> i < length (vram_locks s) \<and> owner (vram_locks s ! i) = Some tag"
  using find_slot_SomeD by (auto simp: find_vram_slot_def)

lemma vram_slot_iff:
  assumes "vram_wf s" and "i < length (vram_locks s)"
  shows "find_vram_slot tag s = Some i \<longleftrightarrow> owner (vram_locks s ! i) = Some tag"
proof
  assume o: "owner (vram_locks s ! i) = Some tag"
  then have "find_vram_slot tag s \<noteq> None"
    using assms(2) by (auto simp: find_vram_slot_def find_slot_None_nth)
  then obtain j where j: "find_vram_slot tag s = Some j" by blast
  with find_vram_slotD [OF j] o assms have "i = j" unfolding vram_wf_def by (metis option.distinct(1))
  with j show "find_vram_slot tag s = Some i" by simp
qed (use find_vram_slotD in blast)

lemma vram_held_at:
  assumes "vram_wf s" and "i < length (vram_locks s)" and "owner (vram_locks s ! i) = Some t"
  shows "vram_held t s = unat (locks (vram_locks s ! i))"
proof -
  have "find_vram_slot t s = Some i" using vram_slot_iff [OF assms(1,2)] assms(3) by blast
  then show ?thesis by (simp add: vram_held_def)
qed

lemma vram_held_none:
  assumes "\<And>i. i < length (vram_locks s) \<Longrightarrow> owner (vram_locks s ! i) \<noteq> Some t"
  shows "vram_held t s = 0"
proof -
  have "find_vram_slot t s = None" using assms by (simp add: find_vram_slot_def find_slot_None_nth)
  then show ?thesis by (simp add: vram_held_def)
qed

lemma vram_held_upd:
  assumes s': "vram_locks s' = (vram_locks s)[i := l]" and i: "i < length (vram_locks s)"
    and wf: "vram_wf s" "vram_wf s'"
  shows "vram_held t s' = (if owner l = Some t then unat (locks l)
    else if owner (vram_locks s ! i) = Some t then 0 else vram_held t s)"
proof (cases "owner l = Some t")
  case True
  with vram_held_at [OF wf(2), of i t] s' i show ?thesis by simp
next
  case l: False
  show ?thesis
  proof (cases "owner (vram_locks s ! i) = Some t")
    case True
    have "owner (vram_locks s' ! j) \<noteq> Some t" if "j < length (vram_locks s')" for j
    proof
      assume "owner (vram_locks s' ! j) = Some t"
      then have "j \<noteq> i" "owner (vram_locks s ! j) = Some t" using s' i l that by (auto simp: nth_list_update split: if_splits)
      with wf(1) True i that s' show False by (auto simp: vram_wf_def)
    qed
    from vram_held_none [OF this] True l show ?thesis by simp
  next
    case False
    show ?thesis
    proof (cases "\<exists>j<length (vram_locks s). owner (vram_locks s ! j) = Some t")
      case True
      then obtain j where j: "j < length (vram_locks s)" "owner (vram_locks s ! j) = Some t" by blast
      then have "j \<noteq> i" using False by auto
      with vram_held_at [OF wf(1) j] vram_held_at [OF wf(2), of j t] j s' l False show ?thesis by simp
    next
      case none: False
      then have "vram_held t s = 0" by (intro vram_held_none) auto
      moreover have "vram_held t s' = 0"
        by (rule vram_held_none) (use none s' l i in \<open>auto simp: nth_list_update\<close>)
      ultimately show ?thesis using l False by simp
    qed
  qed
qed

lemma vram_wf_upd:
  assumes wf: "vram_wf s" and s': "vram_locks s' = (vram_locks s)[i := l]" and i: "i < length (vram_locks s)"
    and l: "owner l = None \<longleftrightarrow> locks l = 0"
    and new: "\<And>j. j < length (vram_locks s) \<Longrightarrow> j \<noteq> i \<Longrightarrow> owner l \<noteq> None \<Longrightarrow> owner (vram_locks s ! j) \<noteq> owner l"
  shows "vram_wf s'"
proof -
  have "owner x = None \<longleftrightarrow> locks x = 0" if "x \<in> set (vram_locks s')" for x
    using that wf l s' set_update_subset_insert [of "vram_locks s" i l] by (auto simp: vram_wf_def)
  moreover have "a = b"
    if "a < length (vram_locks s')" "b < length (vram_locks s')" "owner (vram_locks s' ! a) \<noteq> None"
      "owner (vram_locks s' ! a) = owner (vram_locks s' ! b)" for a b
    using that wf s' new [of a] new [of b]
    by (cases "a = i"; cases "b = i") (auto simp: vram_wf_def nth_list_update)
  ultimately show ?thesis unfolding vram_wf_def by blast
qed

lemma mem_vram_lock_ok:
  assumes wf: "vram_wf s" and run: "mem_vram_lock own s = Ret (p, s')"
    and room: "vram_held (vram_tag own) s < 2 ^ 32 - 1"
  shows "p = vram_base s" "vram_wf s'"
    "vram_held t s' = vram_held t s + (if t = vram_tag own then 1 else 0)"
proof -
  let ?tag = "vram_tag own"
  have "p = vram_base s \<and> vram_wf s' \<and> vram_held t s' = vram_held t s + (if t = ?tag then 1 else 0)" for t
  proof (cases "find_vram_slot ?tag s")
    case (Some i)
    let ?l = "vram_locks s ! i"
    have i: "i < length (vram_locks s)" "owner ?l = Some ?tag" using find_vram_slotD [OF Some] by auto
    have s': "vram_locks s' = (vram_locks s)[i := ?l\<lparr>locks := locks ?l + 1\<rparr>]" "p = vram_base s"
      using run Some by (auto simp: mem_vram_lock_def Let_def)
    have h: "vram_held ?tag s = unat (locks ?l)" by (rule vram_held_at [OF wf i])
    then have up: "unat (locks ?l + 1) = unat (locks ?l) + 1" using room by (simp add: unat_plus_if')
    have wf': "vram_wf s'"
    proof (rule vram_wf_upd [OF wf s'(1) i(1)])
      show "(owner (?l\<lparr>locks := locks ?l + 1\<rparr>) = None) = (locks (?l\<lparr>locks := locks ?l + 1\<rparr>) = 0)"
        using i(2) up by (auto simp flip: unat_eq_0)
    qed (use wf i in \<open>auto simp: vram_wf_def\<close>)
    with vram_held_upd [OF s'(1) i(1) wf wf', of t] s'(2) i(2) h up show ?thesis by auto
  next
    case None
    with run obtain i where f: "find_slot (\<lambda>l. owner l = None \<or> locks l = 0) (vram_locks s) = Some i"
      and s': "vram_locks s' = (vram_locks s)[i := \<lparr>owner = Some ?tag, locks = 1\<rparr>]" "p = vram_base s"
      by (auto simp: mem_vram_lock_def Let_def split: option.splits)
    have i: "i < length (vram_locks s)" "owner (vram_locks s ! i) = None"
      using find_slot_SomeD [OF f] wf by (auto simp: vram_wf_def)
    have no: "\<And>j. j < length (vram_locks s) \<Longrightarrow> owner (vram_locks s ! j) \<noteq> Some ?tag"
      using None by (simp add: find_vram_slot_def find_slot_None_nth)
    have wf': "vram_wf s'" by (rule vram_wf_upd [OF wf s'(1) i(1)]) (use no in auto)
    with vram_held_upd [OF s'(1) i(1) wf wf', of t] vram_held_none [OF no] i s'(2) show ?thesis by auto
  qed
  then show "p = vram_base s" "vram_wf s'"
    "vram_held t s' = vram_held t s + (if t = vram_tag own then 1 else 0)" by auto
qed

lemma mem_vram_unlock_ok:
  assumes wf: "vram_wf s" and held: "0 < vram_held (vram_tag own) s"
  shows "\<exists>s'. mem_vram_unlock own s = Ret s' \<and> vram_wf s' \<and>
    (\<forall>t. vram_held t s' = vram_held t s - (if t = vram_tag own then 1 else 0))"
proof -
  let ?tag = "vram_tag own"
  from held obtain i where f: "find_vram_slot ?tag s = Some i"
    by (auto simp: vram_held_def split: option.splits)
  let ?l = "vram_locks s ! i"
  have i: "i < length (vram_locks s)" "owner ?l = Some ?tag" using find_vram_slotD [OF f] by auto
  have h: "vram_held ?tag s = unat (locks ?l)" by (rule vram_held_at [OF wf i])
  then have nz: "locks ?l \<noteq> 0" and dn: "unat (locks ?l - 1) = unat (locks ?l) - 1"
    using held by (auto simp: unat_sub_if')
  define l where "l = (if locks ?l - 1 = 0 then ?l\<lparr>locks := locks ?l - 1, owner := None\<rparr> else ?l\<lparr>locks := locks ?l - 1\<rparr>)"
  define s' where "s' = s\<lparr>vram_locks := (vram_locks s)[i := l]\<rparr>"
  have run: "mem_vram_unlock own s = Ret s'"
    using f nz by (simp add: mem_vram_unlock_def Let_def s'_def l_def)
  have s'v: "vram_locks s' = (vram_locks s)[i := l]" by (simp add: s'_def)
  have wf': "vram_wf s'"
    by (rule vram_wf_upd [OF wf s'v i(1)]) (use wf i in \<open>auto simp: l_def vram_wf_def\<close>)
  have "vram_held t s' = vram_held t s - (if t = ?tag then 1 else 0)" for t
    using vram_held_upd [OF s'v i(1) wf wf', of t] h dn i(2) by (auto simp: l_def simp flip: unat_eq_0)
  with run wf' show ?thesis by blast
qed

text \<open>C10: video memory locks are counted per owner. A lock that is granted yields the base of the video
  memory and adds one to the owner's count only; a matching unlock then returns and restores every
  count; an owner without a lock cannot unlock.\<close>

theorem mem_vram_lock_balance:
  assumes wf: "vram_wf s" and run: "mem_vram_lock own s = Ret (p, s1)"
    and room: "vram_held (vram_tag own) s < 2 ^ 32 - 1"
  shows "p = vram_base s \<and> vram_held (vram_tag own) s1 = vram_held (vram_tag own) s + 1 \<and>
    (\<exists>s2. mem_vram_unlock own s1 = Ret s2 \<and> vram_wf s2 \<and> (\<forall>t. vram_held t s2 = vram_held t s)) \<and>
    (vram_held (vram_tag own') s = 0 \<longrightarrow> (\<exists>m. mem_vram_unlock own' s = Panic m))"
proof -
  note l = mem_vram_lock_ok [OF wf run room]
  from mem_vram_unlock_ok [OF l(2), of own] l(3) obtain s2 where
    "mem_vram_unlock own s1 = Ret s2" "vram_wf s2" "\<forall>t. vram_held t s2 = vram_held t s" by auto
  moreover have "\<exists>m. mem_vram_unlock own' s = Panic m" if "vram_held (vram_tag own') s = 0"
    using that by (auto simp: mem_vram_unlock_def vram_held_def Let_def unat_eq_0 split: option.splits)
  ultimately show ?thesis using l(1,3) by simp
qed

theorem mem_vram_lock_balance_witness:
  "\<exists>s1 s2. mem_vram_lock (Some ''console'') boot_heap = Ret (0xB8000, s1) \<and>
     mem_vram_unlock (Some ''console'') s1 = Ret s2 \<and> vram_held ''console'' s2 = vram_held ''console'' boot_heap \<and>
     (\<exists>m. mem_vram_unlock None boot_heap = Panic m)"
proof -
  have v: "vram_locks boot_heap = replicate 4 \<lparr>owner = None, locks = 0\<rparr>" "vram_base boot_heap = 0xB8000"
    by (simp_all add: boot_heap_def mem_init_def mem_vram_init_def Let_def)
  have wf: "vram_wf boot_heap" by (simp add: vram_wf_def v)
  have f: "find_vram_slot t boot_heap = None" for t by (simp add: find_vram_slot_def v)
  have held: "vram_held t boot_heap = 0" for t by (simp add: vram_held_def f)
  have "\<exists>s1. mem_vram_lock (Some ''console'') boot_heap = Ret (0xB8000, s1)"
    by (simp add: mem_vram_lock_def vram_tag_def f v)
  then obtain s1 where run: "mem_vram_lock (Some ''console'') boot_heap = Ret (0xB8000, s1)" by blast
  from mem_vram_lock_balance [OF wf run, of None] run held show ?thesis by (auto simp: vram_tag_def)
qed

end
