(* ===== verification/Memctx.thy ===== *)
theory Memctx
  imports Mem_Apps
begin

text \<open>
  Memory contexts (\<^verbatim>\<open>kernel/memctx.c\<close>): the accounts under which processes allocate from the kernel
  heap, each with a quota and statistics, and the table of blocks they own. The operations take the
  two routines of the heap they call as arguments; the kernel's operations are their instances at
  \<open>mem_alloc\<close> and \<open>mem_free\<close>. What they promise is proved once, for any allocator that keeps the
  contract, and then read off for the kernel heap.
\<close>

section \<open>State\<close>

record memctx_stats_t =
  st_quota :: u64
  st_used :: u64
  st_peak :: u64
  st_allocations :: u32

record memctx_block =
  mb_ptr :: addr
  mb_size :: u64
  mb_ctx :: int

record memctx =
  ctx_active :: bool
  ctx_id :: int
  ctx_owner_pid :: int
  ctx_stats :: memctx_stats_t

record memctx_state =
  contexts :: "memctx list"
  ctx_blocks :: "memctx_block list"
  next_ctx_id :: int

definition MEMCTX_MAX_CONTEXTS :: nat where "MEMCTX_MAX_CONTEXTS = 32"
definition MEMCTX_MAX_BLOCKS :: nat where "MEMCTX_MAX_BLOCKS = 128"

text \<open>The all-zero structures that \<open>memset\<close> leaves.\<close>

definition no_stats :: memctx_stats_t where
  "no_stats = \<lparr>st_quota = 0, st_used = 0, st_peak = 0, st_allocations = 0\<rparr>"

definition no_ctx :: memctx where
  "no_ctx = \<lparr>ctx_active = False, ctx_id = 0, ctx_owner_pid = 0, ctx_stats = no_stats\<rparr>"

definition no_block :: memctx_block where
  "no_block = \<lparr>mb_ptr = 0, mb_size = 0, mb_ctx = 0\<rparr>"

section \<open>Operations\<close>

definition find_ctx :: "int \<Rightarrow> memctx_state \<Rightarrow> nat option" where
  "find_ctx cid cs = find_slot (\<lambda>c. ctx_active c \<and> ctx_id c = cid) (contexts cs)"

definition find_block :: "int \<Rightarrow> addr \<Rightarrow> memctx_state \<Rightarrow> nat option" where
  "find_block cid ptr cs = find_slot (\<lambda>b. mb_ptr b = ptr \<and> mb_ctx b = cid) (ctx_blocks cs)"

definition memctx_init :: "memctx_state \<Rightarrow> memctx_state" where
  "memctx_init cs = \<lparr>contexts = replicate MEMCTX_MAX_CONTEXTS no_ctx,
     ctx_blocks = replicate MEMCTX_MAX_BLOCKS no_block, next_ctx_id = 1\<rparr>"

definition memctx_create :: "int \<Rightarrow> u64 \<Rightarrow> memctx_state \<Rightarrow> int \<times> memctx_state" where
  "memctx_create owner_pid quota cs =
     (case find_slot (\<lambda>c. \<not> ctx_active c) (contexts cs) of
        Some i \<Rightarrow>
          let cid = next_ctx_id cs in
          (cid, cs\<lparr>next_ctx_id := next_ctx_id cs + 1,
                   contexts := (contexts cs)[i := \<lparr>ctx_active = True, ctx_id = cid,
                     ctx_owner_pid = owner_pid,
                     ctx_stats = \<lparr>st_quota = quota, st_used = 0, st_peak = 0, st_allocations = 0\<rparr>\<rparr>]\<rparr>)
      | None \<Rightarrow> (- 1, cs))"

text \<open>The statistics after an allocation and after a release.\<close>

definition stats_add :: "u64 \<Rightarrow> memctx_stats_t \<Rightarrow> memctx_stats_t" where
  "stats_add sz st =
     (let st = st\<lparr>st_used := st_used st + sz\<rparr>;
          st = (if st_peak st < st_used st then st\<lparr>st_peak := st_used st\<rparr> else st)
      in st\<lparr>st_allocations := st_allocations st + 1\<rparr>)"

definition stats_sub :: "u64 \<Rightarrow> memctx_stats_t \<Rightarrow> memctx_stats_t" where
  "stats_sub sz st =
     (let st = (if sz \<le> st_used st then st\<lparr>st_used := st_used st - sz\<rparr> else st)
      in if st_allocations st \<noteq> 0 then st\<lparr>st_allocations := st_allocations st - 1\<rparr> else st)"

definition upd_stats :: "nat \<Rightarrow> (memctx_stats_t \<Rightarrow> memctx_stats_t) \<Rightarrow> memctx_state \<Rightarrow> memctx_state" where
  "upd_stats i f cs =
     cs\<lparr>contexts := (contexts cs)[i := (contexts cs ! i)\<lparr>ctx_stats := f (ctx_stats (contexts cs ! i))\<rparr>]\<rparr>"

definition memctx_alloc_with ::
  "(u64 \<Rightarrow> 's \<Rightarrow> (addr \<times> 's) outcome) \<Rightarrow> int \<Rightarrow> u64 \<Rightarrow> memctx_state \<Rightarrow> 's \<Rightarrow>
   (addr \<times> memctx_state \<times> 's) outcome" where
  "memctx_alloc_with alloc cid sz cs s =
     (if sz = 0 then Ret (0, cs, s)
      else case find_ctx cid cs of
        None \<Rightarrow> Ret (0, cs, s)
      | Some i \<Rightarrow>
          let st = ctx_stats (contexts cs ! i) in
          if st_quota st \<noteq> 0 \<and> st_quota st < st_used st + sz then Ret (0, cs, s)
          else case find_slot (\<lambda>b. mb_ptr b = 0) (ctx_blocks cs) of
            None \<Rightarrow> Ret (0, cs, s)
          | Some j \<Rightarrow>
              bind_outcome (alloc sz s) (\<lambda>(ptr, s).
                if ptr = 0 then Ret (0, cs, s)
                else
                  let cs = cs\<lparr>ctx_blocks := (ctx_blocks cs)[j := \<lparr>mb_ptr = ptr, mb_size = sz, mb_ctx = cid\<rparr>]\<rparr>
                  in Ret (ptr, upd_stats i (stats_add sz) cs, s)))"

definition memctx_free_with ::
  "(addr \<Rightarrow> u64 \<Rightarrow> 's \<Rightarrow> 's outcome) \<Rightarrow> int \<Rightarrow> addr \<Rightarrow> memctx_state \<Rightarrow> 's \<Rightarrow>
   (int \<times> memctx_state \<times> 's) outcome" where
  "memctx_free_with release cid ptr cs s =
     (if ptr = 0 then Ret (- 1, cs, s)
      else case (find_ctx cid cs, find_block cid ptr cs) of
        (Some i, Some j) \<Rightarrow>
          let sz = mb_size (ctx_blocks cs ! j) in
          bind_outcome (release ptr sz s) (\<lambda>s.
            let cs = upd_stats i (stats_sub sz) cs
            in Ret (0, cs\<lparr>ctx_blocks := (ctx_blocks cs)[j := no_block]\<rparr>, s))
      | _ \<Rightarrow> Ret (- 1, cs, s))"

text \<open>The caller's pointer for the statistics may be null.\<close>

definition memctx_stats :: "int \<Rightarrow> addr \<Rightarrow> memctx_state \<Rightarrow> int \<times> memctx_stats_t option" where
  "memctx_stats cid stats cs =
     (case find_ctx cid cs of
        None \<Rightarrow> (- 1, None)
      | Some i \<Rightarrow> if stats = 0 then (- 1, None) else (0, Some (ctx_stats (contexts cs ! i))))"

fun free_ctx_blocks_with ::
  "(addr \<Rightarrow> u64 \<Rightarrow> 's \<Rightarrow> 's outcome) \<Rightarrow> int \<Rightarrow> nat list \<Rightarrow> memctx_block list \<Rightarrow> 's \<Rightarrow>
   (memctx_block list \<times> 's) outcome" where
  "free_ctx_blocks_with release cid [] bs s = Ret (bs, s)"
| "free_ctx_blocks_with release cid (i # is) bs s =
     (if mb_ptr (bs ! i) \<noteq> 0 \<and> mb_ctx (bs ! i) = cid
      then bind_outcome (release (mb_ptr (bs ! i)) (mb_size (bs ! i)) s)
             (free_ctx_blocks_with release cid is (bs[i := no_block]))
      else free_ctx_blocks_with release cid is bs s)"

definition memctx_destroy_with ::
  "(addr \<Rightarrow> u64 \<Rightarrow> 's \<Rightarrow> 's outcome) \<Rightarrow> int \<Rightarrow> memctx_state \<Rightarrow> 's \<Rightarrow>
   (int \<times> memctx_state \<times> 's) outcome" where
  "memctx_destroy_with release cid cs s =
     (case find_ctx cid cs of
        None \<Rightarrow> Ret (- 1, cs, s)
      | Some i \<Rightarrow>
          bind_outcome (free_ctx_blocks_with release cid [0..<MEMCTX_MAX_BLOCKS] (ctx_blocks cs) s) (\<lambda>(bs, s).
            Ret (0, cs\<lparr>ctx_blocks := bs, contexts := (contexts cs)[i := no_ctx]\<rparr>, s)))"

text \<open>The kernel's operations.\<close>

definition memctx_alloc :: "int \<Rightarrow> u64 \<Rightarrow> memctx_state \<Rightarrow> mem_state \<Rightarrow> (addr \<times> memctx_state \<times> mem_state) outcome"
  where "memctx_alloc = memctx_alloc_with mem_alloc"

definition memctx_free :: "int \<Rightarrow> addr \<Rightarrow> memctx_state \<Rightarrow> mem_state \<Rightarrow> (int \<times> memctx_state \<times> mem_state) outcome"
  where "memctx_free = memctx_free_with mem_free"

definition memctx_destroy :: "int \<Rightarrow> memctx_state \<Rightarrow> mem_state \<Rightarrow> (int \<times> memctx_state \<times> mem_state) outcome"
  where "memctx_destroy = memctx_destroy_with mem_free"

section \<open>The invariant\<close>

definition active_ids :: "memctx list \<Rightarrow> int set" where
  "active_ids xs = {ctx_id c |c. c \<in> set xs \<and> ctx_active c}"

text \<open>The bytes and the number of blocks that the table holds for a context.\<close>

definition held_bytes :: "int \<Rightarrow> memctx_block \<Rightarrow> nat" where
  "held_bytes cid b = (if mb_ptr b \<noteq> 0 \<and> mb_ctx b = cid then unat (mb_size b) else 0)"

definition held_count :: "int \<Rightarrow> memctx_block \<Rightarrow> nat" where
  "held_count cid b = (if mb_ptr b \<noteq> 0 \<and> mb_ctx b = cid then 1 else 0)"

text \<open>Every block in the table is a live pointer of the heap, is listed once, fits its allocation and
  belongs to an active context.\<close>

definition blocks_ok :: "memctx_block list \<Rightarrow> (addr \<rightharpoonup> u64) \<Rightarrow> int set \<Rightarrow> bool" where
  "blocks_ok bs L A \<longleftrightarrow> length bs = MEMCTX_MAX_BLOCKS \<and>
     (\<forall>j<length bs. mb_ptr (bs ! j) \<noteq> 0 \<longrightarrow>
        (\<exists>k. L (mb_ptr (bs ! j)) = Some k \<and> mb_size (bs ! j) \<le> k) \<and> mb_ctx (bs ! j) \<in> A) \<and>
     (\<forall>i<length bs. \<forall>j<length bs. mb_ptr (bs ! i) \<noteq> 0 \<longrightarrow> mb_ptr (bs ! i) = mb_ptr (bs ! j) \<longrightarrow> i = j)"

text \<open>Active contexts have distinct positive ids below the next one.\<close>

definition ctxs_ok :: "memctx list \<Rightarrow> int \<Rightarrow> bool" where
  "ctxs_ok xs n \<longleftrightarrow> length xs = MEMCTX_MAX_CONTEXTS \<and> 0 < n \<and>
     (\<forall>i<length xs. ctx_active (xs ! i) \<longrightarrow> 0 < ctx_id (xs ! i) \<and> ctx_id (xs ! i) < n) \<and>
     (\<forall>i<length xs. \<forall>j<length xs. ctx_active (xs ! i) \<longrightarrow> ctx_active (xs ! j) \<longrightarrow>
        ctx_id (xs ! i) = ctx_id (xs ! j) \<longrightarrow> i = j)"

text \<open>The statistics of an active context agree with the table and stay within the quota.\<close>

definition stats_ok :: "memctx_block list \<Rightarrow> memctx \<Rightarrow> bool" where
  "stats_ok bs c \<longleftrightarrow>
     unat (st_used (ctx_stats c)) = (\<Sum>b\<leftarrow>bs. held_bytes (ctx_id c) b) \<and>
     unat (st_allocations (ctx_stats c)) = (\<Sum>b\<leftarrow>bs. held_count (ctx_id c) b) \<and>
     (st_quota (ctx_stats c) \<noteq> 0 \<longrightarrow> st_used (ctx_stats c) \<le> st_quota (ctx_stats c)) \<and>
     st_used (ctx_stats c) \<le> st_peak (ctx_stats c)"

definition memctx_inv :: "memctx_state \<Rightarrow> (addr \<rightharpoonup> u64) \<Rightarrow> bool" where
  "memctx_inv cs L \<longleftrightarrow> ctxs_ok (contexts cs) (next_ctx_id cs) \<and>
     blocks_ok (ctx_blocks cs) L (active_ids (contexts cs)) \<and>
     (\<forall>c\<in>set (contexts cs). ctx_active c \<longrightarrow> stats_ok (ctx_blocks cs) c)"

lemma find_ctxD:
  assumes "find_ctx cid cs = Some i"
  shows "i < length (contexts cs)" "ctx_active (contexts cs ! i)" "ctx_id (contexts cs ! i) = cid"
    "cid \<in> active_ids (contexts cs)"
proof -
  show i: "i < length (contexts cs)" "ctx_active (contexts cs ! i)" "ctx_id (contexts cs ! i) = cid"
    using find_slot_SomeD [OF assms [unfolded find_ctx_def]] by simp_all
  have "contexts cs ! i \<in> set (contexts cs)" using i(1) by simp
  with i(2,3) show "cid \<in> active_ids (contexts cs)" unfolding active_ids_def by blast
qed

lemma sum_list_upd_nat:
  "j < length xs \<Longrightarrow> (\<Sum>x\<leftarrow>xs[j := y]. f x) + f (xs ! j) = (\<Sum>x\<leftarrow>xs. f x) + (f y :: nat)"
  by (induction xs arbitrary: j) (auto split: nat.splits)

lemma held_count_le: "(\<Sum>b\<leftarrow>bs. held_count cid b) \<le> length bs"
  by (induction bs) (auto simp: held_count_def)

lemma blocks_okD:
  assumes "blocks_ok bs L A"
  shows "length bs = MEMCTX_MAX_BLOCKS"
    "j < length bs \<Longrightarrow> mb_ptr (bs ! j) \<noteq> 0 \<Longrightarrow> \<exists>k. L (mb_ptr (bs ! j)) = Some k \<and> mb_size (bs ! j) \<le> k"
    "j < length bs \<Longrightarrow> mb_ptr (bs ! j) \<noteq> 0 \<Longrightarrow> mb_ctx (bs ! j) \<in> A"
    "i < length bs \<Longrightarrow> j < length bs \<Longrightarrow> mb_ptr (bs ! i) \<noteq> 0 \<Longrightarrow> mb_ptr (bs ! i) = mb_ptr (bs ! j) \<Longrightarrow> i = j"
  using assms unfolding blocks_ok_def by blast+

lemma blocks_okI:
  assumes "length bs = MEMCTX_MAX_BLOCKS"
    "\<And>j. j < length bs \<Longrightarrow> mb_ptr (bs ! j) \<noteq> 0 \<Longrightarrow> \<exists>k. L (mb_ptr (bs ! j)) = Some k \<and> mb_size (bs ! j) \<le> k"
    "\<And>j. j < length bs \<Longrightarrow> mb_ptr (bs ! j) \<noteq> 0 \<Longrightarrow> mb_ctx (bs ! j) \<in> A"
    "\<And>i j. i < length bs \<Longrightarrow> j < length bs \<Longrightarrow> mb_ptr (bs ! i) \<noteq> 0 \<Longrightarrow> mb_ptr (bs ! i) = mb_ptr (bs ! j) \<Longrightarrow> i = j"
  shows "blocks_ok bs L A"
  using assms unfolding blocks_ok_def by blast

lemma held_bytes_bound:
  assumes ok: "blocks_ok bs L A" and fin: "finite (dom L)"
  shows "(\<Sum>b\<leftarrow>bs. held_bytes cid b) \<le> (\<Sum>p\<in>dom L. unat (the (L p)))"
proof -
  let ?I = "{i. i < length bs \<and> mb_ptr (bs ! i) \<noteq> 0}" and ?p = "\<lambda>i. mb_ptr (bs ! i)"
  have "(\<Sum>b\<leftarrow>bs. held_bytes cid b) = (\<Sum>i<length bs. held_bytes cid (bs ! i))"
    by (simp add: sum_list_sum_nth atLeast0LessThan)
  also have "\<dots> = (\<Sum>i\<in>?I. held_bytes cid (bs ! i))"
    by (rule sum.mono_neutral_right) (auto simp: held_bytes_def)
  also have "\<dots> \<le> (\<Sum>i\<in>?I. unat (the (L (?p i))))"
  proof (rule sum_mono)
    fix i assume "i \<in> ?I"
    then obtain k where "L (?p i) = Some k" "mb_size (bs ! i) \<le> k" using blocks_okD(2) [OF ok, of i] by auto
    then show "held_bytes cid (bs ! i) \<le> unat (the (L (?p i)))" by (simp add: held_bytes_def word_le_nat_alt)
  qed
  also have "\<dots> = (\<Sum>p\<in>?p ` ?I. unat (the (L p)))"
    using blocks_okD(4) [OF ok] by (subst sum.reindex) (auto simp: inj_on_def)
  also have "\<dots> \<le> (\<Sum>p\<in>dom L. unat (the (L p)))"
    using blocks_okD(2) [OF ok] fin by (intro sum_mono2) auto
  finally show ?thesis .
qed

lemma blocks_ok_add:
  assumes ok: "blocks_ok bs L A" and j: "j < length bs" "mb_ptr (bs ! j) = 0" and p: "L p = None" "p \<noteq> 0"
    and b: "mb_ptr b = p" "mb_size b \<le> k" "mb_ctx b \<in> A"
  shows "blocks_ok (bs[j := b]) (L(p \<mapsto> k)) A"
proof (rule blocks_okI)
  note D = blocks_okD [OF ok]
  have other: "mb_ptr (bs ! i) \<noteq> p" if "i < length bs" for i
    using D(2) [OF that] p by auto
  show "length (bs[j := b]) = MEMCTX_MAX_BLOCKS" using D(1) by simp
  show "\<exists>k'. (L(p \<mapsto> k)) (mb_ptr (bs[j := b] ! i)) = Some k' \<and> mb_size (bs[j := b] ! i) \<le> k'"
    "mb_ctx (bs[j := b] ! i) \<in> A"
    if "i < length (bs[j := b])" "mb_ptr (bs[j := b] ! i) \<noteq> 0" for i
    using that b j D(2,3) [of i] other [of i] by (cases "i = j"; simp)+
  show "i = i'" if "i < length (bs[j := b])" "i' < length (bs[j := b])"
      "mb_ptr (bs[j := b] ! i) \<noteq> 0" "mb_ptr (bs[j := b] ! i) = mb_ptr (bs[j := b] ! i')" for i i'
    using that b D(4) [of i i'] other [of i] other [of i'] by (cases "i = j"; cases "i' = j") auto
qed

lemma blocks_ok_remove:
  assumes ok: "blocks_ok bs L A" and j: "j < length bs" "mb_ptr (bs ! j) = p" "p \<noteq> 0"
  shows "blocks_ok (bs[j := no_block]) (L(p := None)) A"
proof (rule blocks_okI)
  note D = blocks_okD [OF ok]
  have nb: "mb_ptr no_block = 0" by (simp add: no_block_def)
  have ne: "i \<noteq> j \<and> mb_ptr (bs ! i) \<noteq> 0" if "i < length bs" "mb_ptr (bs[j := no_block] ! i) \<noteq> 0" for i
    using that j(1) nb by (cases "i = j") auto
  show "length (bs[j := no_block]) = MEMCTX_MAX_BLOCKS" using D(1) by simp
  show "\<exists>k'. (L(p := None)) (mb_ptr (bs[j := no_block] ! i)) = Some k' \<and> mb_size (bs[j := no_block] ! i) \<le> k'"
    "mb_ctx (bs[j := no_block] ! i) \<in> A"
    if i: "i < length (bs[j := no_block])" "mb_ptr (bs[j := no_block] ! i) \<noteq> 0" for i
  proof -
    have "i \<noteq> j" "mb_ptr (bs ! i) \<noteq> 0" "i < length bs" using ne i by auto
    moreover from this have "mb_ptr (bs ! i) \<noteq> p" using D(4) [of i j] j by auto
    ultimately show "\<exists>k'. (L(p := None)) (mb_ptr (bs[j := no_block] ! i)) = Some k' \<and> mb_size (bs[j := no_block] ! i) \<le> k'"
      "mb_ctx (bs[j := no_block] ! i) \<in> A"
      using D(2,3) [of i] by auto
  qed
  show "i = i'" if "i < length (bs[j := no_block])" "i' < length (bs[j := no_block])"
      "mb_ptr (bs[j := no_block] ! i) \<noteq> 0" "mb_ptr (bs[j := no_block] ! i) = mb_ptr (bs[j := no_block] ! i')" for i i'
    using that D(4) [of i i'] ne [of i] ne [of i'] by auto
qed

lemma active_ids_upd:
  assumes "i < length xs" and "ctx_active c = ctx_active (xs ! i)" and "ctx_id c = ctx_id (xs ! i)"
  shows "active_ids (xs[i := c]) = active_ids xs"
proof -
  have nth: "active_ids ys = {ctx_id (ys ! j) |j. j < length ys \<and> ctx_active (ys ! j)}" for ys
    unfolding active_ids_def by (auto simp: in_set_conv_nth)
  have "ctx_active (xs[i := c] ! j) = ctx_active (xs ! j)" "ctx_id (xs[i := c] ! j) = ctx_id (xs ! j)" for j
    using assms by (cases "j = i"; simp)+
  then show ?thesis unfolding nth by simp
qed

lemma ctxs_ok_upd:
  assumes "ctxs_ok xs n" and "i < length xs" and "ctx_active c = ctx_active (xs ! i)" and "ctx_id c = ctx_id (xs ! i)"
  shows "ctxs_ok (xs[i := c]) n"
proof -
  have "ctx_active (xs[i := c] ! j) = ctx_active (xs ! j)" "ctx_id (xs[i := c] ! j) = ctx_id (xs ! j)" for j
    using assms(2-4) by (cases "j = i"; simp)+
  with assms(1) show ?thesis unfolding ctxs_ok_def by simp
qed

text \<open>A change of one context's statistics together with one slot of the block table that belongs to it.\<close>

lemma memctx_inv_upd:
  assumes inv: "memctx_inv cs L" and i: "find_ctx cid cs = Some i" and j: "j < length (ctx_blocks cs)"
    and own: "mb_ptr (ctx_blocks cs ! j) \<noteq> 0 \<Longrightarrow> mb_ctx (ctx_blocks cs ! j) = cid"
    and new: "mb_ptr b \<noteq> 0 \<Longrightarrow> mb_ctx b = cid"
    and bok: "blocks_ok ((ctx_blocks cs)[j := b]) L' (active_ids (contexts cs))"
    and st: "stats_ok (ctx_blocks cs) (contexts cs ! i) \<Longrightarrow>
      stats_ok ((ctx_blocks cs)[j := b]) ((contexts cs ! i)\<lparr>ctx_stats := f (ctx_stats (contexts cs ! i))\<rparr>)"
  shows "memctx_inv (upd_stats i f cs\<lparr>ctx_blocks := (ctx_blocks cs)[j := b]\<rparr>) L'"
proof -
  note F = find_ctxD [OF i]
  let ?c = "(contexts cs ! i)\<lparr>ctx_stats := f (ctx_stats (contexts cs ! i))\<rparr>" and ?bs = "(ctx_blocks cs)[j := b]"
  have ctx: "ctxs_ok (contexts cs) (next_ctx_id cs)" using inv by (simp add: memctx_inv_def)
  have "stats_ok ?bs d" if d: "d \<in> set ((contexts cs)[i := ?c])" "ctx_active d" for d
  proof -
    from d(1) obtain m where m: "m < length (contexts cs)" "d = (contexts cs)[i := ?c] ! m"
      by (auto simp: in_set_conv_nth)
    show ?thesis
    proof (cases "m = i")
      case True
      have "stats_ok (ctx_blocks cs) (contexts cs ! i)" using inv F(1,2) by (simp add: memctx_inv_def)
      with st m True show ?thesis by simp
    next
      case False
      with m have dm: "d = contexts cs ! m" by simp
      have "ctx_id d \<noteq> cid" using ctx False m(1) dm d(2) F unfolding ctxs_ok_def by blast
      then have "held_bytes (ctx_id d) b = held_bytes (ctx_id d) (ctx_blocks cs ! j)"
        "held_count (ctx_id d) b = held_count (ctx_id d) (ctx_blocks cs ! j)"
        using own new by (auto simp: held_bytes_def held_count_def)
      with sum_list_upd_nat [OF j, of "held_bytes (ctx_id d)" b] sum_list_upd_nat [OF j, of "held_count (ctx_id d)" b]
      have "(\<Sum>b\<leftarrow>?bs. held_bytes (ctx_id d) b) = (\<Sum>b\<leftarrow>ctx_blocks cs. held_bytes (ctx_id d) b)"
        "(\<Sum>b\<leftarrow>?bs. held_count (ctx_id d) b) = (\<Sum>b\<leftarrow>ctx_blocks cs. held_count (ctx_id d) b)" by simp_all
      moreover have "stats_ok (ctx_blocks cs) d" using inv dm m(1) d(2) by (simp add: memctx_inv_def)
      ultimately show ?thesis by (simp add: stats_ok_def)
    qed
  qed
  moreover have "ctxs_ok ((contexts cs)[i := ?c]) (next_ctx_id cs)" by (rule ctxs_ok_upd [OF ctx F(1)]) simp_all
  moreover have "active_ids ((contexts cs)[i := ?c]) = active_ids (contexts cs)"
    by (rule active_ids_upd [OF F(1)]) simp_all
  ultimately show ?thesis using bok by (simp add: memctx_inv_def upd_stats_def)
qed

lemma stats_add_ok:
  assumes st: "stats_ok bs c" and j: "j < length bs" "mb_ptr (bs ! j) = 0" and len: "length bs = MEMCTX_MAX_BLOCKS"
    and b: "mb_ptr b \<noteq> 0" "mb_ctx b = ctx_id c" "mb_size b = sz"
    and fit: "(\<Sum>b\<leftarrow>bs. held_bytes (ctx_id c) b) + unat sz < 2 ^ 64"
    and quota: "\<not> (st_quota (ctx_stats c) \<noteq> 0 \<and> st_quota (ctx_stats c) < st_used (ctx_stats c) + sz)"
  shows "stats_ok (bs[j := b]) (c\<lparr>ctx_stats := stats_add sz (ctx_stats c)\<rparr>)"
proof -
  have "held_bytes (ctx_id c) (bs ! j) = 0" "held_count (ctx_id c) (bs ! j) = 0"
    "held_bytes (ctx_id c) b = unat sz" "held_count (ctx_id c) b = 1"
    using j b by (simp_all add: held_bytes_def held_count_def)
  then have sums: "(\<Sum>b\<leftarrow>bs[j := b]. held_bytes (ctx_id c) b) = (\<Sum>b\<leftarrow>bs. held_bytes (ctx_id c) b) + unat sz"
    "(\<Sum>b\<leftarrow>bs[j := b]. held_count (ctx_id c) b) = (\<Sum>b\<leftarrow>bs. held_count (ctx_id c) b) + 1"
    using sum_list_upd_nat [OF j(1), of "held_bytes (ctx_id c)" b]
      sum_list_upd_nat [OF j(1), of "held_count (ctx_id c)" b] by simp_all
  have "unat (st_used (ctx_stats c) + sz) = (\<Sum>b\<leftarrow>bs[j := b]. held_bytes (ctx_id c) b)"
    using st fit sums by (simp add: stats_ok_def unat_add64)
  moreover have "unat (st_allocations (ctx_stats c)) \<le> 128"
    using st held_count_le [of "ctx_id c" bs] len by (simp add: stats_ok_def MEMCTX_MAX_BLOCKS_def)
  then have "unat (st_allocations (ctx_stats c) + 1) = (\<Sum>b\<leftarrow>bs[j := b]. held_count (ctx_id c) b)"
    using st sums by (simp add: stats_ok_def unat_plus_if')
  ultimately show ?thesis
    using quota st by (auto simp: stats_ok_def stats_add_def Let_def not_less)
qed

lemma stats_sub_ok:
  assumes st: "stats_ok bs c" and j: "j < length bs" "mb_ptr (bs ! j) \<noteq> 0" "mb_ctx (bs ! j) = ctx_id c"
    "mb_size (bs ! j) = sz"
  shows "stats_ok (bs[j := no_block]) (c\<lparr>ctx_stats := stats_sub sz (ctx_stats c)\<rparr>)"
proof -
  have "held_bytes (ctx_id c) (bs ! j) = unat sz" "held_count (ctx_id c) (bs ! j) = 1"
    "held_bytes (ctx_id c) no_block = 0" "held_count (ctx_id c) no_block = 0"
    using j by (simp_all add: held_bytes_def held_count_def no_block_def)
  then have sums: "(\<Sum>b\<leftarrow>bs[j := no_block]. held_bytes (ctx_id c) b) + unat sz = (\<Sum>b\<leftarrow>bs. held_bytes (ctx_id c) b)"
    "(\<Sum>b\<leftarrow>bs[j := no_block]. held_count (ctx_id c) b) + 1 = (\<Sum>b\<leftarrow>bs. held_count (ctx_id c) b)"
    using sum_list_upd_nat [OF j(1), of "held_bytes (ctx_id c)" no_block]
      sum_list_upd_nat [OF j(1), of "held_count (ctx_id c)" no_block] by simp_all
  have le: "unat sz \<le> unat (st_used (ctx_stats c))" "0 < unat (st_allocations (ctx_stats c))"
    using st sums unfolding stats_ok_def by linarith+
  then have nz: "st_allocations (ctx_stats c) \<noteq> 0" by auto
  from le have "unat (st_used (ctx_stats c) - sz) = (\<Sum>b\<leftarrow>bs[j := no_block]. held_bytes (ctx_id c) b)"
    "unat (st_allocations (ctx_stats c) - 1) = (\<Sum>b\<leftarrow>bs[j := no_block]. held_count (ctx_id c) b)"
    using st sums by (auto simp: stats_ok_def unat_diff64 unat_sub_if')
  moreover have "st_used (ctx_stats c) - sz \<le> st_used (ctx_stats c)"
    using le(1) unat_diff64 [OF le(1)] by (simp add: word_le_nat_alt)
  ultimately show ?thesis
    using st le(1) nz by (simp add: stats_ok_def stats_sub_def Let_def word_le_nat_alt) linarith
qed

text \<open>The pointers that a context owns among some slots of the table.\<close>

definition owned :: "int \<Rightarrow> nat list \<Rightarrow> memctx_block list \<Rightarrow> addr set" where
  "owned cid is bs = {mb_ptr (bs ! j) |j. j \<in> set is \<and> mb_ptr (bs ! j) \<noteq> 0 \<and> mb_ctx (bs ! j) = cid}"

lemma ctx_drop:
  assumes ctx: "ctxs_ok (contexts cs) n" and i: "find_ctx cid cs = Some i"
  shows "ctxs_ok ((contexts cs)[i := no_ctx]) n"
    "active_ids ((contexts cs)[i := no_ctx]) = active_ids (contexts cs) - {cid}"
    "c \<in> set ((contexts cs)[i := no_ctx]) \<Longrightarrow> ctx_active c \<Longrightarrow> ctx_id c \<noteq> cid \<and> c \<in> set (contexts cs)"
proof -
  note F = find_ctxD [OF i]
  let ?xs = "contexts cs"
  have off: "\<not> ctx_active no_ctx" by (simp add: no_ctx_def)
  have nth: "?xs[i := no_ctx] ! j = (if j = i then no_ctx else ?xs ! j)" if "j < length ?xs" for j
    using that by (simp add: nth_list_update)
  have ne: "ctx_id (?xs ! j) \<noteq> cid" if "j < length ?xs" "j \<noteq> i" "ctx_active (?xs ! j)" for j
    using ctx that F unfolding ctxs_ok_def by blast
  have act: "\<exists>j<length ?xs. j \<noteq> i \<and> c = ?xs ! j" if c: "c \<in> set (?xs[i := no_ctx])" "ctx_active c" for c
  proof -
    from c(1) obtain j where j: "j < length ?xs" "c = ?xs[i := no_ctx] ! j" by (auto simp: in_set_conv_nth)
    with c(2) off nth [OF j(1)] show ?thesis by (auto split: if_splits)
  qed
  show "ctx_id c \<noteq> cid \<and> c \<in> set ?xs" if "c \<in> set (?xs[i := no_ctx])" "ctx_active c"
    using act [OF that] ne that by auto
  show "ctxs_ok (?xs[i := no_ctx]) n"
    using ctx off F(1) unfolding ctxs_ok_def by (auto simp: nth_list_update split: if_splits)
  show "active_ids (?xs[i := no_ctx]) = active_ids ?xs - {cid}"
  proof
    show "active_ids (?xs[i := no_ctx]) \<subseteq> active_ids ?xs - {cid}"
      using act ne by (fastforce simp: active_ids_def)
    show "active_ids ?xs - {cid} \<subseteq> active_ids (?xs[i := no_ctx])"
    proof
      fix d assume "d \<in> active_ids ?xs - {cid}"
      then obtain j where j: "j < length ?xs" "ctx_active (?xs ! j)" "d = ctx_id (?xs ! j)" "d \<noteq> cid"
        by (auto simp: active_ids_def in_set_conv_nth)
      then have "j \<noteq> i" using F(3) by auto
      with j nth [OF j(1)] have "?xs ! j \<in> set (?xs[i := no_ctx])" by (metis length_list_update nth_mem)
      with j show "d \<in> active_ids (?xs[i := no_ctx])" by (auto simp: active_ids_def)
    qed
  qed
qed

section \<open>The laws, for any allocator\<close>

context allocator
begin

lemma memctx_alloc_law:
  assumes rep: "rep s L" and inv: "memctx_inv cs L" and sz: "unat sz \<le> 2 ^ 62"
  shows "\<exists>p cs' s'. memctx_alloc_with alloc cid sz cs s = Ret (p, cs', s') \<and> ram_of s' = ram_of s \<and>
    (if p = 0 then cs' = cs \<and> rep s' L
     else \<exists>k. sz \<le> k \<and> L p = None \<and> rep s' (L(p \<mapsto> k)) \<and> memctx_inv cs' (L(p \<mapsto> k)))"
proof -
  have bok: "blocks_ok (ctx_blocks cs) L (active_ids (contexts cs))" using inv by (simp add: memctx_inv_def)
  have total: "finite (dom L)" "(\<Sum>p\<in>dom L. unat (the (L p))) < 2 ^ 63" using live_total [OF rep] by auto
  let ?over = "\<lambda>i. st_quota (ctx_stats (contexts cs ! i)) \<noteq> 0 \<and>
      st_quota (ctx_stats (contexts cs ! i)) < st_used (ctx_stats (contexts cs ! i)) + sz"
  show ?thesis
  proof (cases "sz = 0 \<or> find_ctx cid cs = None \<or> (\<exists>i. find_ctx cid cs = Some i \<and> ?over i) \<or>
      find_slot (\<lambda>b. mb_ptr b = 0) (ctx_blocks cs) = None")
    case True
    with rep have "memctx_alloc_with alloc cid sz cs s = Ret (0, cs, s)"
      by (auto simp: memctx_alloc_with_def Let_def split: option.splits)
    with rep show ?thesis by auto
  next
    case False
    then obtain i j where i: "find_ctx cid cs = Some i" "\<not> ?over i" and nz: "sz \<noteq> 0"
      and j: "find_slot (\<lambda>b. mb_ptr b = 0) (ctx_blocks cs) = Some j" by auto
    note F = find_ctxD [OF i(1)]
    have j': "j < length (ctx_blocks cs)" "mb_ptr (ctx_blocks cs ! j) = 0" using find_slot_SomeD [OF j] by auto
    from alloc_law [OF rep sz] obtain p s' where r: "alloc sz s = Ret (p, s')" "ram_of s' = ram_of s"
      "if p = 0 then rep s' L else \<exists>k. sz \<le> k \<and> L p = None \<and> rep s' (L(p \<mapsto> k))" by blast
    show ?thesis
    proof (cases "p = 0")
      case True
      then have "memctx_alloc_with alloc cid sz cs s = Ret (0, cs, s')"
        using i j nz r(1) by (auto simp: memctx_alloc_with_def Let_def)
      with True r show ?thesis by simp
    next
      case p: False
      with r obtain k where k: "sz \<le> k" "L p = None" "rep s' (L(p \<mapsto> k))" by auto
      let ?b = "\<lparr>mb_ptr = p, mb_size = sz, mb_ctx = cid\<rparr>"
      let ?cs = "upd_stats i (stats_add sz) cs\<lparr>ctx_blocks := (ctx_blocks cs)[j := ?b]\<rparr>"
      have "memctx_alloc_with alloc cid sz cs s = Ret (p, ?cs, s')"
        using i j nz p r(1) by (simp add: memctx_alloc_with_def Let_def upd_stats_def)
      moreover have "memctx_inv ?cs (L(p \<mapsto> k))"
      proof (rule memctx_inv_upd [OF inv i(1) j'(1)])
        show "blocks_ok ((ctx_blocks cs)[j := ?b]) (L(p \<mapsto> k)) (active_ids (contexts cs))"
          by (rule blocks_ok_add [OF bok j']) (use k p F in auto)
        have "(\<Sum>b\<leftarrow>ctx_blocks cs. held_bytes cid b) < 2 ^ 63"
          using held_bytes_bound [OF bok total(1), of cid] total(2) by simp
        then show "stats_ok ((ctx_blocks cs)[j := ?b])
            ((contexts cs ! i)\<lparr>ctx_stats := stats_add sz (ctx_stats (contexts cs ! i))\<rparr>)"
          if "stats_ok (ctx_blocks cs) (contexts cs ! i)"
          using that j' blocks_okD(1) [OF bok] p F(3) sz i(2) by (intro stats_add_ok) auto
      qed (use j' in auto)
      ultimately show ?thesis using p k r(2) by auto
    qed
  qed
qed

lemma memctx_free_law:
  assumes rep: "rep s L" and inv: "memctx_inv cs L"
  shows "\<exists>r cs' s'. memctx_free_with release cid p cs s = Ret (r, cs', s') \<and>
    (r = 0 \<and> p \<in> dom L \<and> find_block cid p cs \<noteq> None \<and> rep s' (L(p := None)) \<and> memctx_inv cs' (L(p := None)) \<or>
     r = - 1 \<and> cs' = cs \<and> s' = s \<and> (p = 0 \<or> find_ctx cid cs = None \<or> find_block cid p cs = None))"
proof (cases "p = 0 \<or> find_ctx cid cs = None \<or> find_block cid p cs = None")
  case True
  then show ?thesis by (auto simp: memctx_free_with_def split: option.splits)
next
  case False
  then obtain i j where i: "find_ctx cid cs = Some i" and j: "find_block cid p cs = Some j" and p: "p \<noteq> 0" by auto
  have bok: "blocks_ok (ctx_blocks cs) L (active_ids (contexts cs))" using inv by (simp add: memctx_inv_def)
  have j': "j < length (ctx_blocks cs)" "mb_ptr (ctx_blocks cs ! j) = p" "mb_ctx (ctx_blocks cs ! j) = cid"
    using find_slot_SomeD [OF j [unfolded find_block_def]] by auto
  let ?sz = "mb_size (ctx_blocks cs ! j)"
  from blocks_okD(2) [OF bok j'(1)] j' p obtain k where k: "L p = Some k" "?sz \<le> k" by auto
  from release_law [OF rep k] obtain s' where s': "release p ?sz s = Ret s'" "rep s' (L(p := None))" by auto
  let ?cs = "upd_stats i (stats_sub ?sz) cs\<lparr>ctx_blocks := (ctx_blocks cs)[j := no_block]\<rparr>"
  have "memctx_free_with release cid p cs s = Ret (0, ?cs, s')"
    using i j p s' by (simp add: memctx_free_with_def Let_def upd_stats_def)
  moreover have "memctx_inv ?cs (L(p := None))"
  proof (rule memctx_inv_upd [OF inv i j'(1)])
    show "blocks_ok ((ctx_blocks cs)[j := no_block]) (L(p := None)) (active_ids (contexts cs))"
      by (rule blocks_ok_remove [OF bok j'(1,2) p])
    show "stats_ok ((ctx_blocks cs)[j := no_block])
        ((contexts cs ! i)\<lparr>ctx_stats := stats_sub ?sz (ctx_stats (contexts cs ! i))\<rparr>)"
      if "stats_ok (ctx_blocks cs) (contexts cs ! i)"
      using that j' p find_ctxD(3) [OF i] by (intro stats_sub_ok) auto
  qed (use j' in \<open>auto simp: no_block_def\<close>)
  ultimately show ?thesis using s' k j by auto
qed

lemma free_ctx_blocks_law:
  assumes "rep s L" and "blocks_ok bs L A" and "distinct is" and "set is \<subseteq> {..<length bs}"
  shows "\<exists>bs' s'. free_ctx_blocks_with release cid is bs s = Ret (bs', s') \<and> length bs' = length bs \<and>
    (\<forall>j<length bs. bs' ! j = (if j \<in> set is \<and> mb_ptr (bs ! j) \<noteq> 0 \<and> mb_ctx (bs ! j) = cid then no_block else bs ! j)) \<and>
    rep s' (L |` (- owned cid is bs)) \<and> blocks_ok bs' (L |` (- owned cid is bs)) A"
  using assms
proof (induction "is" arbitrary: bs s L)
  case Nil
  then show ?case by (simp add: owned_def)
next
  case (Cons i "is")
  have i: "i < length bs" "i \<notin> set is" and d: "distinct is" and sub: "set is \<subseteq> {..<length bs}"
    using Cons.prems by auto
  show ?case
  proof (cases "mb_ptr (bs ! i) \<noteq> 0 \<and> mb_ctx (bs ! i) = cid")
    case True
    let ?p = "mb_ptr (bs ! i)" and ?bs = "bs[i := no_block]"
    from blocks_okD(2) [OF Cons.prems(2) i(1)] True obtain k where k: "L ?p = Some k" "mb_size (bs ! i) \<le> k" by auto
    from release_law [OF Cons.prems(1) k] obtain s1 where
      s1: "release ?p (mb_size (bs ! i)) s = Ret s1" "rep s1 (L(?p := None))" by blast
    have "blocks_ok ?bs (L(?p := None)) A" by (rule blocks_ok_remove [OF Cons.prems(2) i(1)]) (use True in auto)
    moreover have "set is \<subseteq> {..<length ?bs}" using sub by simp
    ultimately obtain bs' s' where
      r: "free_ctx_blocks_with release cid is ?bs s1 = Ret (bs', s')" "length bs' = length bs"
        "\<forall>j<length bs. bs' ! j = (if j \<in> set is \<and> mb_ptr (?bs ! j) \<noteq> 0 \<and> mb_ctx (?bs ! j) = cid then no_block else ?bs ! j)"
        "rep s' ((L(?p := None)) |` (- owned cid is ?bs))" "blocks_ok bs' ((L(?p := None)) |` (- owned cid is ?bs)) A"
      using Cons.IH [OF s1(2) _ d, of ?bs] by (auto simp only: length_list_update)
    have own: "owned cid (i # is) bs = insert ?p (owned cid is ?bs)"
    proof -
      have "?bs ! j = bs ! j" if "j \<in> set is" for j using that i(2) by (metis nth_list_update_neq)
      then have "owned cid is ?bs = owned cid is bs" unfolding owned_def by (intro Collect_cong) metis
      then show ?thesis using True by (auto simp: owned_def)
    qed
    have L: "(L(?p := None)) |` (- owned cid is ?bs) = L |` (- owned cid (i # is) bs)"
      unfolding own by (auto simp: restrict_map_def fun_eq_iff)
    have "\<forall>j<length bs. bs' ! j = (if j \<in> set (i # is) \<and> mb_ptr (bs ! j) \<noteq> 0 \<and> mb_ctx (bs ! j) = cid then no_block else bs ! j)"
      using r(3) True i by (auto simp: nth_list_update no_block_def)
    with r(1,2,4,5) True s1(1) show ?thesis unfolding L by auto
  next
    case False
    then have "owned cid (i # is) bs = owned cid is bs" by (auto simp: owned_def)
    moreover from Cons.IH [OF Cons.prems(1,2) d sub] obtain bs' s' where
      "free_ctx_blocks_with release cid is bs s = Ret (bs', s')" "length bs' = length bs"
        "\<forall>j<length bs. bs' ! j = (if j \<in> set is \<and> mb_ptr (bs ! j) \<noteq> 0 \<and> mb_ctx (bs ! j) = cid then no_block else bs ! j)"
        "rep s' (L |` (- owned cid is bs))" "blocks_ok bs' (L |` (- owned cid is bs)) A"
      by blast
    ultimately show ?thesis using False by auto
  qed
qed

lemma memctx_destroy_law:
  assumes rep: "rep s L" and inv: "memctx_inv cs L" and i: "find_ctx cid cs = Some i"
  shows "\<exists>cs' s'. memctx_destroy_with release cid cs s = Ret (0, cs', s') \<and>
    rep s' (L |` (- owned cid [0..<MEMCTX_MAX_BLOCKS] (ctx_blocks cs))) \<and>
    memctx_inv cs' (L |` (- owned cid [0..<MEMCTX_MAX_BLOCKS] (ctx_blocks cs))) \<and>
    find_ctx cid cs' = None"
proof -
  let ?is = "[0..<MEMCTX_MAX_BLOCKS]" and ?L = "L |` (- owned cid [0..<MEMCTX_MAX_BLOCKS] (ctx_blocks cs))"
  note F = find_ctxD [OF i]
  have bok: "blocks_ok (ctx_blocks cs) L (active_ids (contexts cs))" and
    ctx: "ctxs_ok (contexts cs) (next_ctx_id cs)" using inv by (simp_all add: memctx_inv_def)
  have len: "length (ctx_blocks cs) = MEMCTX_MAX_BLOCKS" using blocks_okD(1) [OF bok] .
  have "set ?is \<subseteq> {..<length (ctx_blocks cs)}" using len by auto
  from free_ctx_blocks_law [OF rep bok distinct_upt this, of cid] len obtain bs' s' where
    r: "free_ctx_blocks_with release cid ?is (ctx_blocks cs) s = Ret (bs', s')" "length bs' = length (ctx_blocks cs)"
      "\<forall>j<length (ctx_blocks cs). bs' ! j = (if mb_ptr (ctx_blocks cs ! j) \<noteq> 0 \<and> mb_ctx (ctx_blocks cs ! j) = cid
          then no_block else ctx_blocks cs ! j)"
      "rep s' ?L" "blocks_ok bs' ?L (active_ids (contexts cs))" by auto
  let ?cs = "cs\<lparr>ctx_blocks := bs', contexts := (contexts cs)[i := no_ctx]\<rparr>"
  have held: "map (held_bytes d) bs' = map (held_bytes d) (ctx_blocks cs)"
    "map (held_count d) bs' = map (held_count d) (ctx_blocks cs)" if "d \<noteq> cid" for d
    using that r(2,3) by (auto simp: list_eq_iff_nth_eq held_bytes_def held_count_def no_block_def)
  note drop = ctx_drop [OF ctx i]
  have "memctx_inv ?cs ?L"
    unfolding memctx_inv_def
  proof (intro conjI ballI impI)
    show "ctxs_ok (contexts ?cs) (next_ctx_id ?cs)" using drop(1) by simp
    show "blocks_ok (ctx_blocks ?cs) ?L (active_ids (contexts ?cs))"
    proof -
      have "mb_ctx (bs' ! j) \<noteq> cid" if "j < length bs'" "mb_ptr (bs' ! j) \<noteq> 0" for j
        using that r(2,3) by (auto simp: no_block_def split: if_splits)
      with r(5) show ?thesis unfolding blocks_ok_def by (simp add: drop(2))
    qed
    show "stats_ok (ctx_blocks ?cs) c" if "c \<in> set (contexts ?cs)" "ctx_active c" for c
    proof -
      have "ctx_id c \<noteq> cid" "c \<in> set (contexts cs)" using drop(3) that by auto
      with inv that(2) held [of "ctx_id c"] show ?thesis by (simp add: memctx_inv_def stats_ok_def)
    qed
  qed
  moreover have "find_ctx cid ?cs = None"
    using drop(3) by (auto simp: find_ctx_def find_slot_None_iff)
  moreover have "memctx_destroy_with release cid cs s = Ret (0, ?cs, s')"
    using i r(1) by (simp add: memctx_destroy_with_def)
  ultimately show ?thesis using r(4) by blast
qed

end

section \<open>Properties\<close>

lemma memctx_init_inv: "memctx_inv (memctx_init cs) L"
proof -
  have "ctx_active c \<Longrightarrow> c \<notin> set (replicate n no_ctx)" for c n by (auto simp: no_ctx_def)
  then have "active_ids (replicate n no_ctx) = {}" for n by (auto simp: active_ids_def)
  then show ?thesis
    by (auto simp: memctx_inv_def memctx_init_def ctxs_ok_def blocks_ok_def no_block_def no_ctx_def)
qed

lemma memctx_create_inv:
  assumes inv: "memctx_inv cs L" and run: "memctx_create pid q cs = (cid, cs')"
  shows "memctx_inv cs' L"
proof (cases "find_slot (\<lambda>c. \<not> ctx_active c) (contexts cs)")
  case None
  with run inv show ?thesis by (simp add: memctx_create_def)
next
  case (Some i)
  let ?c = "\<lparr>ctx_active = True, ctx_id = next_ctx_id cs, ctx_owner_pid = pid,
    ctx_stats = \<lparr>st_quota = q, st_used = 0, st_peak = 0, st_allocations = 0\<rparr>\<rparr>"
  let ?xs = "(contexts cs)[i := ?c]"
  have cs': "cs' = cs\<lparr>next_ctx_id := next_ctx_id cs + 1, contexts := ?xs\<rparr>"
    using run Some by (auto simp: memctx_create_def Let_def)
  have i: "i < length (contexts cs)" "\<not> ctx_active (contexts cs ! i)" using find_slot_SomeD [OF Some] by auto
  have ctx: "ctxs_ok (contexts cs) (next_ctx_id cs)" and
    bok: "blocks_ok (ctx_blocks cs) L (active_ids (contexts cs))" using inv by (simp_all add: memctx_inv_def)
  have ids: "d < next_ctx_id cs" if "d \<in> active_ids (contexts cs)" for d
    using that ctx by (auto simp: active_ids_def ctxs_ok_def in_set_conv_nth)
  have sub: "active_ids (contexts cs) \<subseteq> active_ids ?xs"
  proof
    fix d assume "d \<in> active_ids (contexts cs)"
    then obtain j where j: "j < length (contexts cs)" "ctx_active (contexts cs ! j)" "d = ctx_id (contexts cs ! j)"
      by (auto simp: active_ids_def in_set_conv_nth)
    then have "?xs ! j = contexts cs ! j" using i(2) by (cases "j = i") auto
    moreover have "?xs ! j \<in> set ?xs" using j(1) by (intro nth_mem) simp
    ultimately show "d \<in> active_ids ?xs" using j unfolding active_ids_def by auto
  qed
  have zero: "(\<Sum>b\<leftarrow>ctx_blocks cs. held_bytes (next_ctx_id cs) b) = 0" "(\<Sum>b\<leftarrow>ctx_blocks cs. held_count (next_ctx_id cs) b) = 0"
  proof -
    have "mb_ptr b = 0 \<or> mb_ctx b \<noteq> next_ctx_id cs" if "b \<in> set (ctx_blocks cs)" for b
      using that blocks_okD(3) [OF bok] ids by (fastforce simp: in_set_conv_nth)
    then show "(\<Sum>b\<leftarrow>ctx_blocks cs. held_bytes (next_ctx_id cs) b) = 0" "(\<Sum>b\<leftarrow>ctx_blocks cs. held_count (next_ctx_id cs) b) = 0"
      unfolding sum_list_eq_0_iff held_bytes_def held_count_def by auto
  qed
  have "ctxs_ok ?xs (next_ctx_id cs + 1)"
  proof -
    have nth: "?xs ! j = (if j = i then ?c else contexts cs ! j)" if "j < length (contexts cs)" for j
      using that by (simp add: nth_list_update)
    have lt: "ctx_id (contexts cs ! j) < next_ctx_id cs" "0 < ctx_id (contexts cs ! j)"
      if "j < length (contexts cs)" "ctx_active (contexts cs ! j)" for j
      using ctx that unfolding ctxs_ok_def by blast+
    have uniq: "j = j'" if "j < length (contexts cs)" "j' < length (contexts cs)" "ctx_active (contexts cs ! j)"
      "ctx_active (contexts cs ! j')" "ctx_id (contexts cs ! j) = ctx_id (contexts cs ! j')" for j j'
      using ctx that unfolding ctxs_ok_def by blast
    have n0: "0 < next_ctx_id cs" and len: "length (contexts cs) = MEMCTX_MAX_CONTEXTS"
      using ctx by (simp_all add: ctxs_ok_def)
    show ?thesis
      unfolding ctxs_ok_def
    proof (intro conjI allI impI)
      show "0 < ctx_id (?xs ! j)" "ctx_id (?xs ! j) < next_ctx_id cs + 1"
        if "j < length ?xs" "ctx_active (?xs ! j)" for j
        using that nth [of j] lt [of j] n0 by (auto split: if_splits)
      show "j = j'" if "j < length ?xs" "j' < length ?xs" "ctx_active (?xs ! j)" "ctx_active (?xs ! j')"
          "ctx_id (?xs ! j) = ctx_id (?xs ! j')" for j j'
        using that nth [of j] nth [of j'] lt(1) [of j] lt(1) [of j'] uniq [of j j'] by (auto split: if_splits)
    qed (use n0 len in simp_all)
  qed
  moreover have "blocks_ok (ctx_blocks cs) L (active_ids ?xs)"
    using bok sub unfolding blocks_ok_def by blast
  moreover have "stats_ok (ctx_blocks cs) c" if "c \<in> set ?xs" "ctx_active c" for c
  proof -
    have "c = ?c \<or> c \<in> set (contexts cs)" using that(1) set_update_subset_insert by fast
    then show ?thesis using inv that(2) zero by (auto simp: memctx_inv_def stats_ok_def)
  qed
  ultimately show ?thesis by (simp add: memctx_inv_def cs')
qed

text \<open>A context with a quota of one page on a fresh table, for the runs below.\<close>

definition ctx_boot :: memctx_state where
  "ctx_boot = snd (memctx_create 7 4096 (memctx_init \<lparr>contexts = [], ctx_blocks = [], next_ctx_id = 0\<rparr>))"

lemma ctx_boot_inv: "memctx_inv ctx_boot L"
  unfolding ctx_boot_def
  by (rule memctx_create_inv [OF memctx_init_inv, of 7 4096]) (rule prod.collapse [symmetric])

lemma ctx_boot_find: "find_ctx 1 ctx_boot = Some 0" "st_used (ctx_stats (contexts ctx_boot ! 0)) = 0"
    "st_quota (ctx_stats (contexts ctx_boot ! 0)) = 4096"
    "find_slot (\<lambda>b. mb_ptr b = 0) (ctx_blocks ctx_boot) = Some 0"
proof -
  have r: "replicate MEMCTX_MAX_CONTEXTS no_ctx = no_ctx # replicate 31 no_ctx"
  proof -
    have "MEMCTX_MAX_CONTEXTS = Suc 31" by (simp add: MEMCTX_MAX_CONTEXTS_def)
    then show ?thesis unfolding replicate_Suc [symmetric] by (rule arg_cong)
  qed
  show "find_ctx 1 ctx_boot = Some 0" "st_used (ctx_stats (contexts ctx_boot ! 0)) = 0"
    "st_quota (ctx_stats (contexts ctx_boot ! 0)) = 4096"
    "find_slot (\<lambda>b. mb_ptr b = 0) (ctx_blocks ctx_boot) = Some 0"
    unfolding ctx_boot_def find_ctx_def memctx_init_def r
    by (simp_all add: memctx_create_def no_ctx_def Let_def no_block_def MEMCTX_MAX_BLOCKS_def)
qed

lemma ctx_boot_alloc:
  obtains cs s k where "memctx_alloc 1 100 ctx_boot boot_heap = Ret (0x200028, cs, s)"
    "mem_rep s [0x200028 \<mapsto> k]" "memctx_inv cs [0x200028 \<mapsto> k]"
proof -
  from boot_heap_alloc obtain s where "mem_alloc 100 boot_heap = Ret (0x200028, s)" by blast
  then obtain cs where run: "memctx_alloc 1 100 ctx_boot boot_heap = Ret (0x200028, cs, s)"
    using ctx_boot_find by (simp add: memctx_alloc_def memctx_alloc_with_def Let_def)
  have "unat (100 :: u64) \<le> 2 ^ 62" by simp
  from kheap.memctx_alloc_law [OF boot_heap_rep ctx_boot_inv this, of 1] run obtain k where
    "mem_rep s [0x200028 \<mapsto> k]" "memctx_inv cs [0x200028 \<mapsto> k]"
    unfolding memctx_alloc_def by auto
  with run that show ?thesis by blast
qed

text \<open>
  What a successful allocation leaves in the tables, and why one may fail: the entry of the new block, the
  account of the context, and the accounts of the others.
\<close>

lemma memctx_alloc_run:
  assumes "memctx_alloc cid sz cs s = Ret (p, cs', s')" and "p \<noteq> 0"
  obtains i j where "sz \<noteq> 0" and "find_ctx cid cs = Some i" and "find_slot (\<lambda>b. mb_ptr b = 0) (ctx_blocks cs) = Some j"
    and "cs' = upd_stats i (stats_add sz) (cs\<lparr>ctx_blocks := (ctx_blocks cs)[j := \<lparr>mb_ptr = p, mb_size = sz, mb_ctx = cid\<rparr>]\<rparr>)"
  using assms that by (auto simp: memctx_alloc_def memctx_alloc_with_def Let_def bind_outcome_Ret_iff split: if_splits option.splits)

lemma memctx_alloc_refusal:
  assumes "memctx_alloc cid sz cs s = Ret (0, cs', s')"
  shows "sz = 0 \<or> (\<exists>s'. mem_alloc sz s = Ret (0, s')) \<or> (\<forall>b\<in>set (ctx_blocks cs). mb_ptr b \<noteq> 0) \<or>
    (case memctx_stats cid 1 cs of (e, None) \<Rightarrow> True | (e, Some st) \<Rightarrow> st_quota st \<noteq> 0 \<and> st_quota st < st_used st + sz)"
  using assms by (auto simp: memctx_alloc_def memctx_alloc_with_def memctx_stats_def Let_def bind_outcome_Ret_iff find_slot_None_iff
      split: if_splits option.splits)

lemma find_slot_upd_same: "i < length xs \<Longrightarrow> P y = P (xs ! i) \<Longrightarrow> find_slot P (xs[i := y]) = find_slot P xs"
proof (induction xs arbitrary: i)
  case (Cons x xs)
  then show ?case by (cases i) simp_all
qed simp

lemma memctx_stats_upd:
  assumes i: "find_ctx cid cs = Some i"
  shows "memctx_stats d 1 (upd_stats i f (cs\<lparr>ctx_blocks := bs\<rparr>)) =
    (if d = cid then (0, Some (f (ctx_stats (contexts cs ! i)))) else memctx_stats d 1 cs)"
proof -
  note F = find_ctxD [OF i]
  have c: "contexts (upd_stats i f (cs\<lparr>ctx_blocks := bs\<rparr>)) = (contexts cs)[i := (contexts cs ! i)\<lparr>ctx_stats := f (ctx_stats (contexts cs ! i))\<rparr>]"
    by (simp add: upd_stats_def)
  have "find_slot (\<lambda>c. ctx_active c \<and> ctx_id c = d) ((contexts cs)[i := (contexts cs ! i)\<lparr>ctx_stats := f (ctx_stats (contexts cs ! i))\<rparr>]) =
      find_slot (\<lambda>c. ctx_active c \<and> ctx_id c = d) (contexts cs)"
    by (rule find_slot_upd_same) (use F in auto)
  then have "find_ctx d (upd_stats i f (cs\<lparr>ctx_blocks := bs\<rparr>)) = find_ctx d cs" by (simp add: find_ctx_def c)
  moreover have "j \<noteq> i" if "find_ctx d cs = Some j" "d \<noteq> cid" for j using find_ctxD(3) [OF that(1)] F(3) that(2) by auto
  ultimately show ?thesis using i F(1) by (auto simp: memctx_stats_def c split: option.split)
qed


text \<open>The account of the context \<open>cid\<close> and the table of blocks before and after the block \<open>p\<close> is charged to it.\<close>

definition charged :: "int \<Rightarrow> u64 \<Rightarrow> addr \<Rightarrow> memctx_state \<Rightarrow> memctx_state \<Rightarrow> bool" where
  "charged cid sz p cs cs' \<longleftrightarrow>
     (\<exists>st st' j. memctx_stats cid 1 cs = (0, Some st) \<and> memctx_stats cid 1 cs' = (0, Some st') \<and>
        unat (st_used st') = unat (st_used st) + unat sz \<and> st_quota st' = st_quota st \<and>
        (st_quota st = 0 \<or> unat (st_used st) + unat sz \<le> unat (st_quota st)) \<and>
        st_allocations st' = st_allocations st + 1 \<and> st_peak st' = max (st_peak st) (st_used st') \<and>
        find_block cid p cs' = Some j \<and> mb_size (ctx_blocks cs' ! j) = sz) \<and>
     (\<forall>d. d \<noteq> cid \<longrightarrow> memctx_stats d 1 cs' = memctx_stats d 1 cs) \<and>
     (\<forall>d q. q \<noteq> p \<longrightarrow> q \<noteq> 0 \<longrightarrow> find_block d q cs' = find_block d q cs)"

lemma memctx_alloc_charged:
  assumes rep: "mem_rep s L" and inv: "memctx_inv cs L" and inv': "memctx_inv cs' L'" and sz: "unat sz \<le> 2 ^ 62"
    and run: "memctx_alloc cid sz cs s = Ret (p, cs', s')" "p \<noteq> 0"
  shows "charged cid sz p cs cs'"
proof -
  from memctx_alloc_run [OF run] obtain i j where i: "find_ctx cid cs = Some i" and j: "find_slot (\<lambda>b. mb_ptr b = 0) (ctx_blocks cs) = Some j"
    and cs': "cs' = upd_stats i (stats_add sz) (cs\<lparr>ctx_blocks := (ctx_blocks cs)[j := \<lparr>mb_ptr = p, mb_size = sz, mb_ctx = cid\<rparr>]\<rparr>)" by blast
  let ?st = "ctx_stats (contexts cs ! i)" and ?b = "\<lparr>mb_ptr = p, mb_size = sz, mb_ctx = cid\<rparr>"
  have j': "j < length (ctx_blocks cs)" "mb_ptr (ctx_blocks cs ! j) = 0" using find_slot_SomeD [OF j] by auto
  have bs: "ctx_blocks cs' = (ctx_blocks cs)[j := ?b]" by (simp add: cs' upd_stats_def)
  have bok: "blocks_ok (ctx_blocks cs) L (active_ids (contexts cs))" "blocks_ok (ctx_blocks cs') L' (active_ids (contexts cs'))"
    using inv inv' by (simp_all add: memctx_inv_def)
  have st: "memctx_stats d 1 cs' = (if d = cid then (0, Some (stats_add sz ?st)) else memctx_stats d 1 cs)" for d
    unfolding cs' by (rule memctx_stats_upd [OF i])
  have "stats_ok (ctx_blocks cs) (contexts cs ! i)" using inv find_ctxD [OF i] by (simp add: memctx_inv_def)
  then have "unat (st_used ?st) < 2 ^ 63"
    using held_bytes_bound [OF bok(1), of cid] kheap.live_total [OF rep] find_ctxD(3) [OF i] by (simp add: stats_ok_def)
  then have used: "unat (st_used ?st + sz) = unat (st_used ?st) + unat sz" using sz by (simp add: unat_add64)
  have "find_block cid p cs' = Some j"
  proof -
    have "mb_ptr (ctx_blocks cs' ! j) = p" using j'(1) by (simp add: bs)
    then have "mb_ptr (ctx_blocks cs' ! k) \<noteq> p" if "k < j" for k
      using blocks_okD(4) [OF bok(2), of j k] that j'(1) run(2) by (auto simp: bs)
    with j'(1) show ?thesis by (simp add: find_block_def find_slot_Some_iff bs)
  qed
  moreover have "find_block d q cs' = find_block d q cs" if "q \<noteq> p" "q \<noteq> 0" for d q
    unfolding find_block_def bs by (rule find_slot_upd_same) (use j' that in auto)
  moreover have "st_quota ?st = 0 \<or> unat (st_used ?st) + unat sz \<le> unat (st_quota ?st)"
    using run i used by (auto simp: memctx_alloc_def memctx_alloc_with_def Let_def word_less_nat_alt split: if_splits)
  moreover have "memctx_stats cid 1 cs = (0, Some ?st)" using i by (simp add: memctx_stats_def)
  ultimately show ?thesis unfolding charged_def st using used j'(1)
    by (auto simp: bs stats_add_def Let_def max_def not_less)
qed

text \<open>C13: a context is charged for exactly what it holds. For a context table that agrees with the heap,
  \<open>memctx_alloc\<close> of up to 2^62 bytes returns. A null result changes no account and no live pointer, and has one of five reasons:
  no bytes are asked for, the heap returned null, the table of blocks is full, there is no such context, or its quota would be exceeded.
  Otherwise the pointer is new, its entry in the table names the context and the size, the bytes in use of
  the context grow by exactly this size, without wrapping around and within the quota, every other account and
  entry is as before, and the table agrees with the heap again.\<close>

theorem memctx_alloc_accounts:
  assumes rep: "mem_rep s L" and inv: "memctx_inv cs L" and sz: "unat sz \<le> 2 ^ 62"
  shows "\<exists>p cs' s'. memctx_alloc cid sz cs s = Ret (p, cs', s') \<and> mem_ram s' = mem_ram s \<and>
    (if p = 0
     then cs' = cs \<and> mem_rep s' L \<and>
       (sz = 0 \<or> (\<exists>s'. mem_alloc sz s = Ret (0, s')) \<or> (\<forall>b\<in>set (ctx_blocks cs). mb_ptr b \<noteq> 0) \<or>
        (case memctx_stats cid 1 cs of (e, None) \<Rightarrow> True | (e, Some st) \<Rightarrow> st_quota st \<noteq> 0 \<and> st_quota st < st_used st + sz))
     else (\<exists>k. sz \<le> k \<and> L p = None \<and> mem_rep s' (L(p \<mapsto> k)) \<and> memctx_inv cs' (L(p \<mapsto> k))) \<and> charged cid sz p cs cs')"
proof -
  from kheap.memctx_alloc_law [OF assms, of cid] obtain p cs' s' where r: "memctx_alloc cid sz cs s = Ret (p, cs', s')" "mem_ram s' = mem_ram s"
    "if p = 0 then cs' = cs \<and> mem_rep s' L else \<exists>k. sz \<le> k \<and> L p = None \<and> mem_rep s' (L(p \<mapsto> k)) \<and> memctx_inv cs' (L(p \<mapsto> k))"
    unfolding memctx_alloc_def by blast
  show ?thesis
  proof (cases "p = 0")
    case True
    with r memctx_alloc_refusal [of cid sz cs s cs' s'] show ?thesis by (intro exI [of _ p] exI [of _ cs'] exI [of _ s']) simp
  next
    case False
    with r memctx_alloc_charged [OF rep inv _ sz r(1)] show ?thesis by (intro exI [of _ p] exI [of _ cs'] exI [of _ s']) auto
  qed
qed

theorem memctx_alloc_accounts_witness:
  "\<exists>cs' s' k. memctx_alloc 1 100 ctx_boot boot_heap = Ret (0x200028, cs', s') \<and> mem_rep s' [0x200028 \<mapsto> k] \<and> 100 \<le> k \<and>
     charged 1 100 0x200028 ctx_boot cs'"
proof -
  obtain cs s k where a: "memctx_alloc 1 100 ctx_boot boot_heap = Ret (0x200028, cs, s)"
    "mem_rep s [0x200028 \<mapsto> k]" "memctx_inv cs [0x200028 \<mapsto> k]" by (rule ctx_boot_alloc)
  have "unat (100 :: u64) \<le> 2 ^ 62" by simp
  from memctx_alloc_accounts [OF boot_heap_rep ctx_boot_inv this, of 1] a(1) show ?thesis by auto
qed

text \<open>C14: \<open>memctx_free\<close> releases only what the context owns: it returns, and either the pointer was a block
  of this context, which is given back to the heap and credited, or it reports an error and changes
  nothing.\<close>

theorem memctx_free_accounts:
  assumes rep: "mem_rep s L" and inv: "memctx_inv cs L"
  shows "\<exists>r cs' s'. memctx_free cid p cs s = Ret (r, cs', s') \<and>
    (r = 0 \<and> p \<in> dom L \<and> find_block cid p cs \<noteq> None \<and> mem_rep s' (L(p := None)) \<and> memctx_inv cs' (L(p := None)) \<or>
     r = - 1 \<and> cs' = cs \<and> s' = s \<and> (p = 0 \<or> find_ctx cid cs = None \<or> find_block cid p cs = None))"
  unfolding memctx_free_def by (rule kheap.memctx_free_law [OF assms])

theorem memctx_free_accounts_witness:
  "\<exists>cs s r cs' s'. memctx_alloc 1 100 ctx_boot boot_heap = Ret (0x200028, cs, s) \<and>
     memctx_free 1 0x200028 cs s = Ret (r, cs', s') \<and> (r = 0 \<or> r = - 1 \<and> cs' = cs \<and> s' = s)"
proof -
  obtain cs s k where a: "memctx_alloc 1 100 ctx_boot boot_heap = Ret (0x200028, cs, s)"
    "mem_rep s [0x200028 \<mapsto> k]" "memctx_inv cs [0x200028 \<mapsto> k]" by (rule ctx_boot_alloc)
  with memctx_free_accounts [OF a(2,3), of 1 "0x200028"] show ?thesis by blast
qed

text \<open>C15: \<open>memctx_destroy\<close> gives back every block that the context still owns and no other, and the context
  is gone: afterwards the heap holds the live pointers it held before except those, and no context has
  the id.\<close>

theorem memctx_destroy_releases_all:
  assumes rep: "mem_rep s L" and inv: "memctx_inv cs L" and i: "find_ctx cid cs = Some i"
  shows "\<exists>cs' s'. memctx_destroy cid cs s = Ret (0, cs', s') \<and>
    mem_rep s' (L |` (- owned cid [0..<MEMCTX_MAX_BLOCKS] (ctx_blocks cs))) \<and>
    memctx_inv cs' (L |` (- owned cid [0..<MEMCTX_MAX_BLOCKS] (ctx_blocks cs))) \<and>
    find_ctx cid cs' = None"
  unfolding memctx_destroy_def by (rule kheap.memctx_destroy_law [OF assms])

theorem memctx_destroy_releases_all_witness:
  "\<exists>cs s k cs' s'. memctx_alloc 1 100 ctx_boot boot_heap = Ret (0x200028, cs, s) \<and> mem_rep s [0x200028 \<mapsto> k] \<and>
     memctx_destroy 1 cs s = Ret (0, cs', s') \<and> find_ctx 1 cs' = None \<and> mem_rep s' Map.empty"
proof -
  obtain cs s k where a: "memctx_alloc 1 100 ctx_boot boot_heap = Ret (0x200028, cs, s)"
    "mem_rep s [0x200028 \<mapsto> k]" "memctx_inv cs [0x200028 \<mapsto> k]" by (rule ctx_boot_alloc)
  from memctx_alloc_run [OF a(1)] obtain i j where i: "find_ctx 1 ctx_boot = Some i"
    and j: "find_slot (\<lambda>b. mb_ptr b = 0) (ctx_blocks ctx_boot) = Some j"
    and cs: "cs = upd_stats i (stats_add 100) (ctx_boot\<lparr>ctx_blocks := (ctx_blocks ctx_boot)[j := \<lparr>mb_ptr = 0x200028, mb_size = 100, mb_ctx = 1\<rparr>]\<rparr>)" by auto
  have "length (ctx_blocks ctx_boot) = MEMCTX_MAX_BLOCKS" using ctx_boot_inv by (simp add: memctx_inv_def blocks_ok_def)
  with find_slot_SomeD [OF j] have jl: "j < MEMCTX_MAX_BLOCKS" "ctx_blocks cs ! j = \<lparr>mb_ptr = 0x200028, mb_size = 100, mb_ctx = 1\<rparr>"
    by (simp_all add: cs upd_stats_def)
  have "memctx_stats 1 1 cs \<noteq> (- 1, None)" unfolding cs memctx_stats_upd [OF i] by simp
  then obtain i' where i': "find_ctx 1 cs = Some i'" by (auto simp: memctx_stats_def split: option.splits)
  have "0x200028 \<in> owned 1 [0..<MEMCTX_MAX_BLOCKS] (ctx_blocks cs)" using jl by (force simp: owned_def)
  then have "[0x200028 \<mapsto> k] |` (- owned 1 [0..<MEMCTX_MAX_BLOCKS] (ctx_blocks cs)) = Map.empty"
    by (auto simp: restrict_map_def fun_eq_iff)
  with memctx_destroy_releases_all [OF a(2,3) i'] a(1,2) show ?thesis by auto
qed

end
