(* ===== verification/Vfs.thy ===== *)
theory Vfs
  imports Mem_Apps
begin

unbundle bit_operations_syntax

text \<open>
  The in-memory file tree of \<^verbatim>\<open>kernel/vfs.c\<close>: a table of 64 nodes linked by parent indices, file
  contents in blocks of the kernel heap, and a table of 32 open files.

  A path is the string the pointer designates (\<open>None\<close> for a null pointer); a segment of a path, which
  the code passes as a pointer and a length, is the string of its characters. Indices and return
  values are \<open>int\<close>, with -1 for failure as in the code. File contents are bytes of the RAM, so reading
  and writing copy between the caller's buffer and the node's block with \<open>memcpy\<close>. The doubling of a
  capacity and the walk to the root are \<^theory_text>\<open>partial_function\<close>s: the first does not end for every
  argument, the second is shown to end because the path it builds is bounded.
\<close>

section \<open>State\<close>

record vfs_node =
  n_used :: bool
  inode :: u32
  n_type :: u32
  parent :: int
  n_name :: string
  n_data :: addr
  n_size :: u64
  capacity :: u64

record vfs_open_file =
  o_used :: bool
  o_node :: int
  offset :: u64
  o_flags :: int

record vfs_state =
  nodes :: "vfs_node list"
  open_files :: "vfs_open_file list"
  next_inode :: u32
  cwd_node :: int
  ready :: bool

definition VFS_MAX_NODES :: nat where "VFS_MAX_NODES = 64"
definition VFS_MAX_OPEN :: nat where "VFS_MAX_OPEN = 32"
definition VFS_MAX_NAME :: nat where "VFS_MAX_NAME = 31"
definition VFS_MAX_PATH :: nat where "VFS_MAX_PATH = 128"
definition VFS_O_RDONLY :: int where "VFS_O_RDONLY = 0x01"
definition VFS_O_WRONLY :: int where "VFS_O_WRONLY = 0x02"
definition VFS_O_RDWR :: int where "VFS_O_RDWR = 0x03"
definition VFS_O_CREAT :: int where "VFS_O_CREAT = 0x10"
definition VFS_O_TRUNC :: int where "VFS_O_TRUNC = 0x20"
definition VFS_O_APPEND :: int where "VFS_O_APPEND = 0x40"
definition VFS_TYPE_FILE :: u32 where "VFS_TYPE_FILE = 1"
definition VFS_TYPE_DIR :: u32 where "VFS_TYPE_DIR = 2"

definition no_node :: vfs_node where
  "no_node = \<lparr>n_used = False, inode = 0, n_type = 0, parent = 0, n_name = [], n_data = 0, n_size = 0, capacity = 0\<rparr>"

definition no_open :: vfs_open_file where
  "no_open = \<lparr>o_used = False, o_node = 0, offset = 0, o_flags = 0\<rparr>"

definition node_at :: "vfs_state \<Rightarrow> int \<Rightarrow> vfs_node" where
  "node_at v n = nodes v ! nat n"

definition upd_node :: "int \<Rightarrow> (vfs_node \<Rightarrow> vfs_node) \<Rightarrow> vfs_state \<Rightarrow> vfs_state" where
  "upd_node n f v = v\<lparr>nodes := (nodes v)[nat n := f (node_at v n)]\<rparr>"

definition upd_open :: "int \<Rightarrow> (vfs_open_file \<Rightarrow> vfs_open_file) \<Rightarrow> vfs_state \<Rightarrow> vfs_state" where
  "upd_open fd f v = v\<lparr>open_files := (open_files v)[nat fd := f (open_files v ! nat fd)]\<rparr>"

definition fd_ok :: "vfs_state \<Rightarrow> int \<Rightarrow> bool" where
  "fd_ok v fd \<longleftrightarrow> 0 \<le> fd \<and> fd < int VFS_MAX_OPEN \<and> o_used (open_files v ! nat fd)"

definition no_vfs :: vfs_state where
  "no_vfs = \<lparr>nodes = replicate VFS_MAX_NODES no_node, open_files = replicate VFS_MAX_OPEN no_open,
     next_inode = 1, cwd_node = 0, ready = False\<rparr>"

section \<open>Names and paths\<close>

definition copy_name :: "string \<Rightarrow> string" where
  "copy_name src = take VFS_MAX_NAME src"

fun name_eq :: "string \<Rightarrow> string \<Rightarrow> bool" where
  "name_eq [] [] \<longleftrightarrow> True"
| "name_eq (c # cs) (d # ds) \<longleftrightarrow> c = d \<and> name_eq cs ds"
| "name_eq _ _ \<longleftrightarrow> False"

definition alloc_node :: "u32 \<Rightarrow> int \<Rightarrow> string \<Rightarrow> vfs_state \<Rightarrow> int \<times> vfs_state" where
  "alloc_node ty par name v =
     (case find_slot (\<lambda>n. \<not> n_used n) (nodes v) of
        Some i \<Rightarrow>
          (int i, v\<lparr>nodes := (nodes v)[i := no_node\<lparr>n_used := True, inode := next_inode v, n_type := ty,
                                        parent := par, n_name := copy_name name\<rparr>],
                    next_inode := next_inode v + 1\<rparr>)
      | None \<Rightarrow> (- 1, v))"

definition find_child :: "vfs_state \<Rightarrow> int \<Rightarrow> string \<Rightarrow> int" where
  "find_child v par seg =
     (if par < 0 \<or> int VFS_MAX_NODES \<le> par \<or> \<not> n_used (node_at v par) \<or> n_type (node_at v par) \<noteq> VFS_TYPE_DIR
      then - 1
      else case find_slot (\<lambda>n. n_used n \<and> parent n = par \<and> name_eq (n_name n) seg) (nodes v) of
             Some i \<Rightarrow> int i
           | None \<Rightarrow> - 1)"

definition child_count :: "vfs_state \<Rightarrow> int \<Rightarrow> nat" where
  "child_count v par =
     length (filter (\<lambda>i. int i \<noteq> par \<and> n_used (nodes v ! i) \<and> parent (nodes v ! i) = par) [0..<VFS_MAX_NODES])"

text \<open>\<open>next_segment\<close> returns the segment and the rest of the path, which is empty or starts with a slash.\<close>

definition next_segment :: "string \<Rightarrow> string \<times> string" where
  "next_segment p =
     (let p = dropWhile (\<lambda>c. c = CHR ''/'') p
      in (takeWhile (\<lambda>c. c \<noteq> CHR ''/'') p, dropWhile (\<lambda>c. c \<noteq> CHR ''/'') p))"

lemma next_segment_shorter: "snd (next_segment p) \<noteq> [] \<Longrightarrow> length (snd (next_segment p)) < length p"
proof (cases p)
  case (Cons c cs)
  have "length (dropWhile (\<lambda>c. c \<noteq> CHR ''/'') (dropWhile (\<lambda>c. c = CHR ''/'') cs)) \<le> length cs"
    by (meson length_dropWhile_le order_trans)
  moreover have "length (dropWhile (\<lambda>c. c \<noteq> CHR ''/'') cs) \<le> length cs" by (rule length_dropWhile_le)
  ultimately show ?thesis using Cons by (simp add: next_segment_def Let_def)
qed (simp add: next_segment_def Let_def)

definition up :: "vfs_state \<Rightarrow> int \<Rightarrow> int" where
  "up v node = (if node \<noteq> 0 then parent (node_at v node) else node)"

function resolve_loop :: "vfs_state \<Rightarrow> int \<Rightarrow> string \<Rightarrow> int" where
  "resolve_loop v node p =
     (let (seg, p') = next_segment p in
      if p' \<noteq> [] then
        if seg = [] then resolve_loop v node p'
        else if seg = ''.'' then resolve_loop v node p'
        else if seg = ''..'' then resolve_loop v (up v node) p'
        else let node = find_child v node seg in if node < 0 then - 1 else resolve_loop v node p'
      else if seg \<noteq> [] then
        if seg = ''.'' then node
        else if seg = ''..'' then up v node
        else find_child v node seg
      else node)"
  by pat_completeness auto
termination
proof (relation "measure (\<lambda>(v, node, p). length p)", goal_cases)
  case (2 v node p x seg p')
  then show ?case using next_segment_shorter [of p] by (simp flip: 2(1)) (metis snd_conv)
next
  case (3 v node p x seg p')
  then show ?case using next_segment_shorter [of p] by (metis in_measure case_prod_conv snd_conv)
next
  case (4 v node p x seg p')
  then show ?case using next_segment_shorter [of p] by (metis in_measure case_prod_conv snd_conv)
next
  case (5 v node p x seg p' node')
  then show ?case using next_segment_shorter [of p] by (metis in_measure case_prod_conv snd_conv)
qed simp

declare resolve_loop.simps [simp del]

definition resolve_path :: "vfs_state \<Rightarrow> string option \<Rightarrow> int" where
  "resolve_path v path =
     (case path of
        None \<Rightarrow> - 1
      | Some p \<Rightarrow>
          if \<not> ready v \<or> p = [] then - 1
          else resolve_loop v (if hd p = CHR ''/'' then 0 else cwd_node v) p)"

text \<open>\<open>resolve_parent\<close> walks all segments but the last; it returns the directory and the last segment.\<close>

definition enter :: "vfs_state \<Rightarrow> int \<Rightarrow> string option \<Rightarrow> int option" where
  "enter v node lst =
     (case lst of
        None \<Rightarrow> Some node
      | Some l \<Rightarrow>
          if l = ''..'' then Some (up v node)
          else let node = find_child v node l
               in if node < 0 \<or> n_type (node_at v node) \<noteq> VFS_TYPE_DIR then None else Some node)"

definition leaf_result :: "int \<Rightarrow> string option \<Rightarrow> (int \<times> string) option" where
  "leaf_result node lst =
     (case lst of
        None \<Rightarrow> None
      | Some l \<Rightarrow> if l = [] \<or> l = ''.'' \<or> l = ''..'' then None else Some (node, l))"

function parent_loop :: "vfs_state \<Rightarrow> int \<Rightarrow> string option \<Rightarrow> string \<Rightarrow> (int \<times> string) option" where
  "parent_loop v node lst p =
     (let (seg, p') = next_segment p in
      if p' \<noteq> [] then
        if seg = [] \<or> seg = ''.'' then parent_loop v node lst p'
        else case enter v node lst of
               None \<Rightarrow> None
             | Some node \<Rightarrow> parent_loop v node (Some seg) p'
      else if seg \<noteq> [] then
        case enter v node lst of
          None \<Rightarrow> None
        | Some node \<Rightarrow> leaf_result node (Some seg)
      else leaf_result node lst)"
  by pat_completeness auto
termination
proof (relation "measure (\<lambda>(v, node, lst, p). length p)", goal_cases)
  case (2 v node lst p x seg p')
  then show ?case using next_segment_shorter [of p] by (metis in_measure case_prod_conv snd_conv)
next
  case (3 v node lst p x seg p' node')
  then show ?case using next_segment_shorter [of p] by (metis in_measure case_prod_conv snd_conv)
qed simp

declare parent_loop.simps [simp del]

definition resolve_parent :: "vfs_state \<Rightarrow> string option \<Rightarrow> (int \<times> string) option" where
  "resolve_parent v path =
     (case path of
        None \<Rightarrow> None
      | Some p \<Rightarrow>
          if p = [] then None
          else parent_loop v (if hd p = CHR ''/'' then 0 else cwd_node v) None p)"

section \<open>File contents\<close>

partial_function (option) grow_cap :: "u64 \<Rightarrow> u64 \<Rightarrow> u64 option" where
  "grow_cap cap need = (if cap < need then grow_cap (cap * 2) need else Some cap)"

definition ensure_capacity :: "vfs_node \<Rightarrow> u64 \<Rightarrow> mem_state \<Rightarrow> (int \<times> vfs_node \<times> mem_state) outcome" where
  "ensure_capacity node need m =
     (if need \<le> capacity node then Ret (0, node, m)
      else bind_outcome (of_option (grow_cap (if capacity node \<noteq> 0 then capacity node else 64) need)) (\<lambda>cap.
        bind_outcome (mem_alloc cap m) (\<lambda>(new_data, m).
          if new_data = 0 then Ret (- 1, node, m)
          else
            let m = (if n_data node \<noteq> 0 \<and> n_size node \<noteq> 0
                     then m\<lparr>mem_ram := memcpy new_data (n_data node) (n_size node) (mem_ram m)\<rparr> else m)
            in bind_outcome (if n_data node \<noteq> 0 then mem_free (n_data node) (capacity node) m else Ret m) (\<lambda>m.
                 Ret (0, node\<lparr>n_data := new_data, capacity := cap\<rparr>, m)))))"

record vfs_stat_t =
  stat_type :: u32
  stat_size :: u64
  stat_inode :: u32
  stat_children :: u32

text \<open>The caller's \<^verbatim>\<open>vfs_stat_t *\<close> is an address, null when 0; the filled structure is returned.\<close>

definition fill_stat :: "vfs_state \<Rightarrow> int \<Rightarrow> addr \<Rightarrow> int \<times> vfs_stat_t option" where
  "fill_stat v node st =
     (if node < 0 \<or> int VFS_MAX_NODES \<le> node \<or> \<not> n_used (node_at v node) \<or> st = 0 then (- 1, None)
      else let n = node_at v node in
        (0, Some \<lparr>stat_type = n_type n, stat_size = n_size n, stat_inode = inode n,
              stat_children = (if n_type n = VFS_TYPE_DIR then of_nat (child_count v node) else 0)\<rparr>))"

section \<open>Operations\<close>

definition vfs_init :: "vfs_state \<Rightarrow> int \<times> vfs_state" where
  "vfs_init v =
     (let v = \<lparr>nodes = replicate VFS_MAX_NODES no_node, open_files = replicate VFS_MAX_OPEN no_open,
               next_inode = 1, cwd_node = 0, ready = True\<rparr>;
          (root, v) = alloc_node VFS_TYPE_DIR 0 [] v
      in (if root = 0 then 0 else - 1, v))"

definition vfs_is_ready :: "vfs_state \<Rightarrow> bool" where
  "vfs_is_ready v = ready v"

definition vfs_mkdir :: "string option \<Rightarrow> vfs_state \<Rightarrow> int \<times> vfs_state" where
  "vfs_mkdir path v =
     (case resolve_parent v path of
        None \<Rightarrow> (- 1, v)
      | Some (par, leaf) \<Rightarrow>
          if 0 \<le> find_child v par leaf then (- 1, v)
          else let (i, v) = alloc_node VFS_TYPE_DIR par leaf v in (if 0 \<le> i then 0 else - 1, v))"

definition drop_node :: "int \<Rightarrow> vfs_state \<Rightarrow> mem_state \<Rightarrow> (int \<times> vfs_state \<times> mem_state) outcome" where
  "drop_node node v m =
     bind_outcome (if n_data (node_at v node) \<noteq> 0
                   then mem_free (n_data (node_at v node)) (capacity (node_at v node)) m else Ret m) (\<lambda>m.
       Ret (0, upd_node node (\<lambda>_. no_node) v, m))"

definition vfs_unlink :: "string option \<Rightarrow> vfs_state \<Rightarrow> mem_state \<Rightarrow> (int \<times> vfs_state \<times> mem_state) outcome" where
  "vfs_unlink path v m =
     (let node = resolve_path v path in
      if node \<le> 0 \<or> n_type (node_at v node) = VFS_TYPE_DIR \<or> child_count v node \<noteq> 0
      then Ret (- 1, v, m)
      else drop_node node v m)"

definition vfs_rename :: "string option \<Rightarrow> string option \<Rightarrow> vfs_state \<Rightarrow> int \<times> vfs_state" where
  "vfs_rename old_path new_path v =
     (let node = resolve_path v old_path in
      if node \<le> 0 then (- 1, v)
      else case resolve_parent v new_path of
             None \<Rightarrow> (- 1, v)
           | Some (par, leaf) \<Rightarrow>
               if 0 \<le> find_child v par leaf then (- 1, v)
               else (0, upd_node node (\<lambda>n. n\<lparr>parent := par, n_name := copy_name leaf\<rparr>) v))"

definition vfs_chdir :: "string option \<Rightarrow> vfs_state \<Rightarrow> int \<times> vfs_state" where
  "vfs_chdir path v =
     (let node = resolve_path v path in
      if node < 0 \<or> n_type (node_at v node) \<noteq> VFS_TYPE_DIR then (- 1, v)
      else (0, v\<lparr>cwd_node := node\<rparr>))"

partial_function (option) build_loop :: "vfs_state \<Rightarrow> int \<Rightarrow> string \<Rightarrow> string option option" where
  "build_loop v cur tmp =
     (if cur = 0 then Some (Some tmp)
      else if VFS_MAX_PATH \<le> length (n_name (node_at v cur)) + length tmp + 2 then Some None
      else build_loop v (parent (node_at v cur)) (CHR ''/'' # n_name (node_at v cur) @ tmp))"

text \<open>The result of \<open>build_path\<close> is the return value and, on success, the string left in the caller's buffer.\<close>

definition build_path :: "vfs_state \<Rightarrow> int \<Rightarrow> addr \<Rightarrow> u64 \<Rightarrow> (int \<times> string option) option" where
  "build_path v node buf len =
     (if buf = 0 \<or> len = 0 then Some (- 1, None)
      else if node = 0 then Some (if len < 2 then (- 1, None) else (0, Some ''/''))
      else map_option (\<lambda>r. case r of
             None \<Rightarrow> (- 1, None)
           | Some tmp \<Rightarrow> if len < of_nat (length tmp) + 1 then (- 1, None) else (0, Some tmp))
           (build_loop v node []))"

definition vfs_getcwd :: "addr \<Rightarrow> u64 \<Rightarrow> vfs_state \<Rightarrow> (int \<times> string option) option" where
  "vfs_getcwd buf len v = build_path v (cwd_node v) buf len"

definition open_slot :: "int \<Rightarrow> int \<Rightarrow> vfs_state \<Rightarrow> int \<times> vfs_state" where
  "open_slot node flags v =
     (case find_slot (\<lambda>f. \<not> o_used f) (open_files v) of
        Some fd \<Rightarrow>
          (int fd, v\<lparr>open_files := (open_files v)[fd := \<lparr>o_used = True, o_node = node,
             offset = (if flags AND VFS_O_APPEND \<noteq> 0 then n_size (node_at v node) else 0), o_flags = flags\<rparr>]\<rparr>)
      | None \<Rightarrow> (- 1, v))"

definition vfs_open :: "string option \<Rightarrow> int \<Rightarrow> vfs_state \<Rightarrow> mem_state \<Rightarrow> (int \<times> vfs_state \<times> mem_state) outcome" where
  "vfs_open path flags v m =
     (let node = resolve_path v path;
          (node, v) = (if node < 0 \<and> flags AND VFS_O_CREAT \<noteq> 0
                       then case resolve_parent v path of
                              None \<Rightarrow> (- 1, v)
                            | Some (par, leaf) \<Rightarrow> alloc_node VFS_TYPE_FILE par leaf v
                       else (node, v))
      in if node < 0 then Ret (- 1, v, m)
         else if n_type (node_at v node) = VFS_TYPE_DIR \<and>
                 flags AND (VFS_O_WRONLY OR VFS_O_CREAT OR VFS_O_TRUNC OR VFS_O_APPEND) \<noteq> 0
         then Ret (- 1, v, m)
         else bind_outcome
                (if flags AND VFS_O_TRUNC \<noteq> 0 \<and> n_type (node_at v node) = VFS_TYPE_FILE
                 then bind_outcome (ensure_capacity (node_at v node) 0 m) (\<lambda>(r, n, m).
                        Ret (upd_node node (\<lambda>_. if r = 0 then n\<lparr>n_size := 0\<rparr> else n) v, m))
                 else Ret (v, m)) (\<lambda>(v, m).
              let (fd, v) = open_slot node flags v in Ret (fd, v, m)))"

definition vfs_read :: "int \<Rightarrow> addr \<Rightarrow> u64 \<Rightarrow> vfs_state \<Rightarrow> mem_state \<Rightarrow> int \<times> vfs_state \<times> mem_state" where
  "vfs_read fd buf len v m =
     (if \<not> fd_ok v fd \<or> buf = 0 then (- 1, v, m)
      else let off = offset (open_files v ! nat fd); node = node_at v (o_node (open_files v ! nat fd)) in
        if n_type node \<noteq> VFS_TYPE_FILE then (- 1, v, m)
        else if n_size node \<le> off then (0, v, m)
        else let len = (if n_size node < off + len then n_size node - off else len)
             in (sint len, upd_open fd (\<lambda>f. f\<lparr>offset := off + len\<rparr>) v,
                 m\<lparr>mem_ram := memcpy buf (n_data node + off) len (mem_ram m)\<rparr>))"

definition vfs_write :: "int \<Rightarrow> addr \<Rightarrow> u64 \<Rightarrow> vfs_state \<Rightarrow> mem_state \<Rightarrow> (int \<times> vfs_state \<times> mem_state) outcome" where
  "vfs_write fd buf len v m =
     (if \<not> fd_ok v fd \<or> buf = 0 then Ret (- 1, v, m)
      else let n = o_node (open_files v ! nat fd); node = node_at v n in
        if n_type node \<noteq> VFS_TYPE_FILE then Ret (- 1, v, m)
        else
          let v = (if o_flags (open_files v ! nat fd) AND VFS_O_APPEND \<noteq> 0
                   then upd_open fd (\<lambda>f. f\<lparr>offset := n_size node\<rparr>) v else v);
              off = offset (open_files v ! nat fd);
              end_off = off + len
          in bind_outcome (ensure_capacity node end_off m) (\<lambda>(r, node, m).
               let v = upd_node n (\<lambda>_. node) v in
               if r \<noteq> 0 then Ret (- 1, v, m)
               else
                 let m = m\<lparr>mem_ram := memcpy (n_data node + off) buf len (mem_ram m)\<rparr>;
                     v = upd_open fd (\<lambda>f. f\<lparr>offset := end_off\<rparr>) v;
                     v = (if n_size node < end_off then upd_node n (\<lambda>k. k\<lparr>n_size := end_off\<rparr>) v else v)
                 in Ret (sint len, v, m)))"

definition vfs_lseek :: "int \<Rightarrow> int \<Rightarrow> int \<Rightarrow> vfs_state \<Rightarrow> int \<times> vfs_state" where
  "vfs_lseek fd off whence v =
     (if \<not> fd_ok v fd then (- 1, v)
      else
        let f = open_files v ! nat fd;
            base = (if whence = 0 then Some 0
                    else if whence = 1 then Some (sint (offset f))
                    else if whence = 2 then Some (sint (n_size (node_at v (o_node f))))
                    else None)
        in case base of
             None \<Rightarrow> (- 1, v)
           | Some b \<Rightarrow>
               let nx = b + off
               in if nx < 0 then (- 1, v) else (nx, upd_open fd (\<lambda>f. f\<lparr>offset := word_of_int nx\<rparr>) v))"

definition vfs_close :: "int \<Rightarrow> vfs_state \<Rightarrow> int \<times> vfs_state" where
  "vfs_close fd v = (if \<not> fd_ok v fd then (- 1, v) else (0, upd_open fd (\<lambda>_. no_open) v))"

definition vfs_stat :: "string option \<Rightarrow> addr \<Rightarrow> vfs_state \<Rightarrow> int \<times> vfs_stat_t option" where
  "vfs_stat path st v = fill_stat v (resolve_path v path) st"

definition vfs_fstat :: "int \<Rightarrow> addr \<Rightarrow> vfs_state \<Rightarrow> int \<times> vfs_stat_t option" where
  "vfs_fstat fd st v =
     (if \<not> fd_ok v fd then (- 1, None) else fill_stat v (o_node (open_files v ! nat fd)) st)"

record vfs_dirent =
  d_type :: u32
  d_inode :: u32
  d_size :: u64
  d_name :: string

fun getdents_loop :: "vfs_state \<Rightarrow> int \<Rightarrow> u64 \<Rightarrow> u64 \<Rightarrow> nat list \<Rightarrow> u64 \<Rightarrow> vfs_dirent list \<Rightarrow> vfs_dirent list" where
  "getdents_loop v dir off max_ents [] index acc = acc"
| "getdents_loop v dir off max_ents (i # is) index acc =
     (let n = nodes v ! i in
      if max_ents \<le> of_nat (length acc) then acc
      else if int i = dir \<or> \<not> n_used n \<or> parent n \<noteq> dir then getdents_loop v dir off max_ents is index acc
      else if index < off then getdents_loop v dir off max_ents is (index + 1) acc
      else getdents_loop v dir off max_ents is (index + 1)
             (acc @ [\<lparr>d_type = n_type n, d_inode = inode n, d_size = n_size n, d_name = copy_name (n_name n)\<rparr>]))"

text \<open>The entries written to the caller's array, which may be null, are returned.\<close>

definition vfs_getdents :: "int \<Rightarrow> addr \<Rightarrow> u64 \<Rightarrow> vfs_state \<Rightarrow> int \<times> vfs_dirent list \<times> vfs_state" where
  "vfs_getdents fd ents max_ents v =
     (if \<not> fd_ok v fd \<or> ents = 0 then (- 1, [], v)
      else
        let f = open_files v ! nat fd; dir = o_node f in
        if n_type (node_at v dir) \<noteq> VFS_TYPE_DIR then (- 1, [], v)
        else
          let es = getdents_loop v dir (offset f) max_ents [0..<VFS_MAX_NODES] 0 []
          in (int (length es), es, upd_open fd (\<lambda>f. f\<lparr>offset := offset f + of_nat (length es)\<rparr>) v))"

definition vfs_rmdir :: "string option \<Rightarrow> vfs_state \<Rightarrow> mem_state \<Rightarrow> (int \<times> vfs_state \<times> mem_state) outcome" where
  "vfs_rmdir path v m =
     (let node = resolve_path v path in
      if node \<le> 0 \<or> n_type (node_at v node) \<noteq> VFS_TYPE_DIR \<or> child_count v node \<noteq> 0
      then Ret (- 1, v, m)
      else
        let v = (if cwd_node v = node then v\<lparr>cwd_node := 0\<rparr> else v)
        in drop_node node v m)"

definition vfs_access :: "string option \<Rightarrow> int \<Rightarrow> vfs_state \<Rightarrow> int" where
  "vfs_access path mode v = (if 0 \<le> resolve_path v path then 0 else - 1)"

end
