(* ===== verification/Vfs_Inv.thy ===== *)
theory Vfs_Inv
  imports Vfs
begin

text \<open>
  The invariant of the file tree: the node table is a forest of directories and files below existing
  directories, and every file's contents lie in a live block of the kernel heap that no other file
  uses. All operations keep it, and with bounded sizes all of them return.
\<close>

section \<open>The invariant\<close>

definition is_node :: "vfs_state \<Rightarrow> int \<Rightarrow> bool" where
  "is_node v n \<longleftrightarrow> 0 \<le> n \<and> n < int VFS_MAX_NODES \<and> n_used (node_at v n)"

definition is_dir :: "vfs_state \<Rightarrow> int \<Rightarrow> bool" where
  "is_dir v n \<longleftrightarrow> is_node v n \<and> n_type (node_at v n) = VFS_TYPE_DIR"

definition tree_ok :: "vfs_state \<Rightarrow> bool" where
  "tree_ok v \<longleftrightarrow> ready v \<and> length (nodes v) = VFS_MAX_NODES \<and> length (open_files v) = VFS_MAX_OPEN \<and>
     is_dir v 0 \<and> parent (node_at v 0) = 0 \<and> is_dir v (cwd_node v) \<and>
     (\<forall>n. is_node v n \<longrightarrow> (n_type (node_at v n) = VFS_TYPE_FILE \<or> n_type (node_at v n) = VFS_TYPE_DIR) \<and>
        is_dir v (parent (node_at v n)) \<and> length (n_name (node_at v n)) \<le> VFS_MAX_NAME) \<and>
     (\<forall>n. 0 \<le> n \<longrightarrow> n < int VFS_MAX_NODES \<longrightarrow> \<not> n_used (node_at v n) \<longrightarrow> node_at v n = no_node) \<and>
     (\<forall>fd. fd_ok v fd \<longrightarrow> 0 \<le> o_node (open_files v ! nat fd) \<and> o_node (open_files v ! nat fd) < int VFS_MAX_NODES)"

text \<open>One node's contents: no block, or a live block of at least \<open>capacity\<close> bytes.\<close>

definition content_ok :: "vfs_node \<Rightarrow> (addr \<rightharpoonup> u64) \<Rightarrow> bool" where
  "content_ok n L \<longleftrightarrow> (if n_data n = 0 then capacity n = 0 else \<exists>k. L (n_data n) = Some k \<and> capacity n \<le> k) \<and>
     n_size n \<le> capacity n \<and> (n_type n = VFS_TYPE_DIR \<longrightarrow> n_data n = 0)"

definition data_ok :: "vfs_node list \<Rightarrow> (addr \<rightharpoonup> u64) \<Rightarrow> bool" where
  "data_ok ns L \<longleftrightarrow> (\<forall>i<length ns. content_ok (ns ! i) L) \<and>
     (\<forall>i<length ns. \<forall>j<length ns. n_data (ns ! i) \<noteq> 0 \<longrightarrow> n_data (ns ! i) = n_data (ns ! j) \<longrightarrow> i = j)"

definition vfs_inv :: "vfs_state \<Rightarrow> (addr \<rightharpoonup> u64) \<Rightarrow> bool" where
  "vfs_inv v L \<longleftrightarrow> tree_ok v \<and> data_ok (nodes v) L"

lemma tree_okD:
  assumes "tree_ok v"
  shows "ready v" "length (nodes v) = VFS_MAX_NODES" "length (open_files v) = VFS_MAX_OPEN" "is_dir v 0"
    "parent (node_at v 0) = 0" "is_dir v (cwd_node v)"
    "is_node v n \<Longrightarrow> n_type (node_at v n) = VFS_TYPE_FILE \<or> n_type (node_at v n) = VFS_TYPE_DIR"
    "is_node v n \<Longrightarrow> is_dir v (parent (node_at v n))"
    "is_node v n \<Longrightarrow> length (n_name (node_at v n)) \<le> VFS_MAX_NAME"
    "0 \<le> n \<Longrightarrow> n < int VFS_MAX_NODES \<Longrightarrow> \<not> n_used (node_at v n) \<Longrightarrow> node_at v n = no_node"
    "fd_ok v fd \<Longrightarrow> 0 \<le> o_node (open_files v ! nat fd) \<and> o_node (open_files v ! nat fd) < int VFS_MAX_NODES"
  using assms unfolding tree_ok_def by blast+

lemma tree_okI:
  assumes "ready v" "length (nodes v) = VFS_MAX_NODES" "length (open_files v) = VFS_MAX_OPEN" "is_dir v 0"
    "parent (node_at v 0) = 0" "is_dir v (cwd_node v)"
    "\<And>n. is_node v n \<Longrightarrow> n_type (node_at v n) = VFS_TYPE_FILE \<or> n_type (node_at v n) = VFS_TYPE_DIR"
    "\<And>n. is_node v n \<Longrightarrow> is_dir v (parent (node_at v n))"
    "\<And>n. is_node v n \<Longrightarrow> length (n_name (node_at v n)) \<le> VFS_MAX_NAME"
    "\<And>n. 0 \<le> n \<Longrightarrow> n < int VFS_MAX_NODES \<Longrightarrow> \<not> n_used (node_at v n) \<Longrightarrow> node_at v n = no_node"
    "\<And>fd. fd_ok v fd \<Longrightarrow> 0 \<le> o_node (open_files v ! nat fd) \<and> o_node (open_files v ! nat fd) < int VFS_MAX_NODES"
  shows "tree_ok v"
  using assms unfolding tree_ok_def by blast

lemma is_dir_node: "is_dir v n \<Longrightarrow> is_node v n"
  by (simp add: is_dir_def)

lemma data_okD:
  assumes "data_ok ns L"
  shows "i < length ns \<Longrightarrow> content_ok (ns ! i) L"
    "i < length ns \<Longrightarrow> j < length ns \<Longrightarrow> n_data (ns ! i) \<noteq> 0 \<Longrightarrow> n_data (ns ! i) = n_data (ns ! j) \<Longrightarrow> i = j"
  using assms unfolding data_ok_def by blast+

lemma data_okI:
  assumes "\<And>i. i < length ns \<Longrightarrow> content_ok (ns ! i) L"
    "\<And>i j. i < length ns \<Longrightarrow> j < length ns \<Longrightarrow> n_data (ns ! i) \<noteq> 0 \<Longrightarrow> n_data (ns ! i) = n_data (ns ! j) \<Longrightarrow> i = j"
  shows "data_ok ns L"
  using assms unfolding data_ok_def by blast

lemma node_at_upd:
  assumes "0 \<le> n" and "n < int (length (nodes v))" and "0 \<le> k"
  shows "node_at (upd_node n f v) k = (if k = n then f (node_at v n) else node_at v k)"
  using assms by (auto simp: node_at_def upd_node_def nth_list_update nat_eq_iff)

lemma upd_node_fields [simp]:
  "open_files (upd_node n f v) = open_files v" "cwd_node (upd_node n f v) = cwd_node v"
  "ready (upd_node n f v) = ready v" "next_inode (upd_node n f v) = next_inode v"
  "length (nodes (upd_node n f v)) = length (nodes v)" "fd_ok (upd_node n f v) fd = fd_ok v fd"
  by (simp_all add: upd_node_def fd_ok_def)

lemma upd_open_fields [simp]:
  "nodes (upd_open fd f v) = nodes v" "cwd_node (upd_open fd f v) = cwd_node v"
  "ready (upd_open fd f v) = ready v" "length (open_files (upd_open fd f v)) = length (open_files v)"
  "node_at (upd_open fd f v) n = node_at v n"
  by (simp_all add: upd_open_def node_at_def)

section \<open>Lookups\<close>

lemma name_eq_iff [simp]: "name_eq a b \<longleftrightarrow> a = b"
  by (induction a b rule: name_eq.induct) auto

lemma find_child_cases:
  assumes "length (nodes v) = VFS_MAX_NODES"
  shows "find_child v par seg = - 1 \<or>
    is_node v (find_child v par seg) \<and> parent (node_at v (find_child v par seg)) = par \<and>
    n_name (node_at v (find_child v par seg)) = seg \<and> is_dir v par"
proof (cases "find_slot (\<lambda>n. n_used n \<and> parent n = par \<and> name_eq (n_name n) seg) (nodes v)")
  case (Some i)
  from find_slot_SomeD [OF Some] Some assms show ?thesis
    by (auto simp: find_child_def is_node_def is_dir_def node_at_def)
qed (simp add: find_child_def)

lemma find_child_found:
  assumes "length (nodes v) = VFS_MAX_NODES" and "is_dir v par"
    and "is_node v n" and "parent (node_at v n) = par" and "n_name (node_at v n) = seg"
  shows "is_node v (find_child v par seg)"
proof -
  have "find_slot (\<lambda>n. n_used n \<and> parent n = par \<and> name_eq (n_name n) seg) (nodes v) \<noteq> None"
    using assms by (auto simp: find_slot_None_nth is_node_def node_at_def intro: exI [of _ "nat n"])
  then have "find_child v par seg \<noteq> - 1"
    using assms(2) by (auto simp: find_child_def is_dir_def is_node_def)
  with find_child_cases [OF assms(1), of par seg] show ?thesis by auto
qed

lemma up_dir: "tree_ok v \<Longrightarrow> is_node v n \<Longrightarrow> is_node v (up v n)"
  using tree_okD(8) by (auto simp: up_def dest: is_dir_node)

lemma resolve_loop_step:
  "next_segment p = (seg, p') \<Longrightarrow> resolve_loop v n p =
     (if p' \<noteq> [] then
        if seg = [] \<or> seg = ''.'' then resolve_loop v n p'
        else if seg = ''..'' then resolve_loop v (up v n) p'
        else if find_child v n seg < 0 then - 1 else resolve_loop v (find_child v n seg) p'
      else if seg = [] \<or> seg = ''.'' then n
      else if seg = ''..'' then up v n
      else find_child v n seg)"
  by (subst resolve_loop.simps) (simp add: Let_def)

lemma resolve_loop_node:
  "tree_ok v \<Longrightarrow> is_node v n \<Longrightarrow> resolve_loop v n p = - 1 \<or> is_node v (resolve_loop v n p)"
proof (induction p arbitrary: n rule: length_induct)
  case (1 p)
  obtain seg p' where sp: "next_segment p = (seg, p')" by fastforce
  have up: "is_node v (up v n)" by (rule up_dir [OF 1(2,3)])
  have fc: "find_child v n seg = - 1 \<or> is_node v (find_child v n seg)"
    using find_child_cases [OF tree_okD(2) [OF 1(2)], of n seg] by blast
  have ih: "resolve_loop v k p' = - 1 \<or> is_node v (resolve_loop v k p')" if "p' \<noteq> []" "is_node v k" for k
    using 1(1) that 1(2) next_segment_shorter [of p] sp by simp
  show ?case
    unfolding resolve_loop_step [OF sp]
    using ih [of n] ih [of "up v n"] ih [of "find_child v n seg"] up fc 1(3) by auto
qed

lemma resolve_path_node:
  assumes "tree_ok v"
  shows "resolve_path v path = - 1 \<or> is_node v (resolve_path v path)"
proof (cases path)
  case (Some p)
  have "is_node v (if hd p = CHR ''/'' then 0 else cwd_node v)"
    using tree_okD(4,6) [OF assms] is_dir_node by simp
  from resolve_loop_node [OF assms this, of p] show ?thesis by (simp add: resolve_path_def Some)
qed (simp add: resolve_path_def)

lemma enter_dir:
  assumes "tree_ok v" and "is_dir v n" and "enter v n l = Some k"
  shows "is_dir v k"
proof (cases l)
  case None
  with assms show ?thesis by (simp add: enter_def)
next
  case (Some s)
  show ?thesis
  proof (cases "s = ''..''")
    case True
    have "is_dir v (up v n)"
      using assms(2) tree_okD(8) [OF assms(1) is_dir_node [OF assms(2)]] by (auto simp: up_def)
    with assms(3) Some True show ?thesis by (simp add: enter_def)
  next
    case False
    with assms(3) Some find_child_cases [OF tree_okD(2) [OF assms(1)], of n s] show ?thesis
      by (auto simp: enter_def is_dir_def Let_def split: if_splits)
  qed
qed

lemma leaf_resultD: "leaf_result n l = Some (par, leaf) \<Longrightarrow> par = n \<and> l = Some leaf \<and> leaf \<noteq> [] \<and> leaf \<noteq> ''.'' \<and> leaf \<noteq> ''..''"
  by (auto simp: leaf_result_def split: option.splits if_splits)

lemma parent_loop_step:
  "next_segment p = (seg, p') \<Longrightarrow> parent_loop v n l p =
     (if p' \<noteq> [] then
        if seg = [] \<or> seg = ''.'' then parent_loop v n l p'
        else case enter v n l of None \<Rightarrow> None | Some k \<Rightarrow> parent_loop v k (Some seg) p'
      else if seg \<noteq> [] then case enter v n l of None \<Rightarrow> None | Some k \<Rightarrow> leaf_result k (Some seg)
      else leaf_result n l)"
  by (subst parent_loop.simps) (simp add: Let_def)

lemma parent_loop_dir:
  "tree_ok v \<Longrightarrow> is_dir v n \<Longrightarrow> parent_loop v n l p = Some (par, leaf) \<Longrightarrow>
   is_dir v par \<and> leaf \<noteq> [] \<and> leaf \<noteq> ''.'' \<and> leaf \<noteq> ''..''"
proof (induction p arbitrary: n l rule: length_induct)
  case (1 p)
  obtain seg p' where sp: "next_segment p = (seg, p')" by fastforce
  have ih: "is_dir v par \<and> leaf \<noteq> [] \<and> leaf \<noteq> ''.'' \<and> leaf \<noteq> ''..''"
    if "p' \<noteq> []" "is_dir v k" "parent_loop v k l' p' = Some (par, leaf)" for k l'
    using 1(1,2) that next_segment_shorter [of p] sp by (metis snd_conv)
  show ?case
  proof (cases "enter v n l")
    case None
    with 1(3,4) ih [of n l] leaf_resultD [of n l par leaf] show ?thesis
      unfolding parent_loop_step [OF sp] by (auto split: if_splits)
  next
    case (Some k)
    have "is_dir v k" by (rule enter_dir [OF 1(2,3) Some])
    with 1(3,4) Some ih [of n l] ih [of k "Some seg"] leaf_resultD [of n l par leaf]
      leaf_resultD [of k "Some seg" par leaf] show ?thesis
      unfolding parent_loop_step [OF sp] by (auto split: if_splits)
  qed
qed

lemma resolve_parent_dir:
  assumes "tree_ok v" and "resolve_parent v path = Some (par, leaf)"
  shows "is_dir v par" "leaf \<noteq> []" "leaf \<noteq> ''.''" "leaf \<noteq> ''..''"
proof -
  from assms(2) obtain p where p: "path = Some p"
    "parent_loop v (if hd p = CHR ''/'' then 0 else cwd_node v) None p = Some (par, leaf)"
    by (auto simp: resolve_parent_def split: option.splits if_splits)
  have "is_dir v (if hd p = CHR ''/'' then 0 else cwd_node v)" using tree_okD(4,6) [OF assms(1)] by simp
  from parent_loop_dir [OF assms(1) this p(2)]
  show "is_dir v par" "leaf \<noteq> []" "leaf \<noteq> ''.''" "leaf \<noteq> ''..''" by auto
qed

section \<open>Changing one node\<close>

text \<open>The tree stays well formed when one node is replaced, provided a directory stays one unless it is
  neither the root nor the working directory nor anybody's parent.\<close>

lemma tree_ok_upd:
  assumes ok: "tree_ok v" and n: "0 \<le> n" "n < int VFS_MAX_NODES"
    and nodes': "nodes v' = (nodes v)[nat n := x]"
    and rest: "open_files v' = open_files v" "cwd_node v' = cwd_node v" "ready v' = ready v"
    and used: "n_used x \<Longrightarrow> (n_type x = VFS_TYPE_FILE \<or> n_type x = VFS_TYPE_DIR) \<and> is_dir v (parent x) \<and>
        length (n_name x) \<le> VFS_MAX_NAME"
    and free: "\<not> n_used x \<Longrightarrow> x = no_node"
    and root: "n = 0 \<Longrightarrow> parent x = 0"
    and dirs: "is_dir v n \<Longrightarrow> n_used x \<and> n_type x = VFS_TYPE_DIR \<or>
        \<not> n_used x \<and> n \<noteq> 0 \<and> cwd_node v \<noteq> n \<and> (\<forall>k. is_node v k \<longrightarrow> k \<noteq> n \<longrightarrow> parent (node_at v k) \<noteq> n)"
  shows "tree_ok v'"
proof -
  note D = tree_okD [OF ok]
  have at: "node_at v' k = (if k = n then x else node_at v k)" if "0 \<le> k" for k
    using that n D(2) by (auto simp: node_at_def nodes' nth_list_update nat_eq_iff)
  have node: "is_node v' k \<longleftrightarrow> (if k = n then n_used x else is_node v k)" for k
    using n at by (auto simp: is_node_def)
  have dir: "is_dir v' k \<longleftrightarrow> (if k = n then n_used x \<and> n_type x = VFS_TYPE_DIR else is_dir v k)" for k
    using n at node by (auto simp: is_dir_def is_node_def)
  have keep: "is_dir v' k" if "is_dir v k" "k = 0 \<or> k = cwd_node v \<or> (\<exists>j. is_node v j \<and> j \<noteq> n \<and> parent (node_at v j) = k)" for k
    using that dirs by (auto simp: dir)
  show ?thesis
  proof (rule tree_okI)
    show "is_dir v' 0" "is_dir v' (cwd_node v')" using keep D(4,6) rest by auto
    show "parent (node_at v' 0) = 0" using at [of 0] D(5) root by auto
    show "n_type (node_at v' k) = VFS_TYPE_FILE \<or> n_type (node_at v' k) = VFS_TYPE_DIR"
      "length (n_name (node_at v' k)) \<le> VFS_MAX_NAME" if "is_node v' k" for k
      using that D(7,9) [of k] used at [of k] by (auto simp: node is_node_def split: if_splits)
    show "is_dir v' (parent (node_at v' k))" if "is_node v' k" for k
    proof (cases "k = n")
      case True
      with that have "n_used x" by (simp add: node)
      then have "is_dir v (parent x)" using used by simp
      moreover have "is_dir v' (parent x)"
      proof (cases "parent x = n")
        case True
        with \<open>n_used x\<close> \<open>is_dir v (parent x)\<close> dirs show ?thesis by (simp add: dir)
      next
        case False
        with \<open>is_dir v (parent x)\<close> show ?thesis by (simp add: dir)
      qed
      ultimately show ?thesis using True n at by simp
    next
      case False
      with that have k: "is_node v k" by (simp add: node)
      with D(8) [OF k] keep [of "parent (node_at v k)"] False at [of k] show ?thesis by (auto simp: is_node_def)
    qed
    show "node_at v' k = no_node" if "0 \<le> k" "k < int VFS_MAX_NODES" "\<not> n_used (node_at v' k)" for k
      using that D(10) [of k] at [of k] free by (auto split: if_splits)
    show "0 \<le> o_node (open_files v' ! nat fd) \<and> o_node (open_files v' ! nat fd) < int VFS_MAX_NODES" if "fd_ok v' fd" for fd
      using that D(11) [of fd] rest by (simp add: fd_ok_def)
  qed (use D rest nodes' in simp_all)
qed

lemma data_ok_upd:
  assumes ok: "data_ok ns L" and i: "i < length ns" and x: "content_ok x L'"
    and others: "\<And>j. j < length ns \<Longrightarrow> j \<noteq> i \<Longrightarrow> n_data (ns ! j) \<noteq> 0 \<Longrightarrow> L' (n_data (ns ! j)) = L (n_data (ns ! j))"
    and fresh: "\<And>j. j < length ns \<Longrightarrow> j \<noteq> i \<Longrightarrow> n_data x \<noteq> 0 \<Longrightarrow> n_data (ns ! j) \<noteq> n_data x"
  shows "data_ok (ns[i := x]) L'"
proof (rule data_okI)
  note D = data_okD [OF ok]
  show "content_ok (ns[i := x] ! j) L'" if "j < length (ns[i := x])" for j
    using that D(1) [of j] x others [of j] by (cases "j = i") (auto simp: content_ok_def split: if_splits)
  show "j = j'" if "j < length (ns[i := x])" "j' < length (ns[i := x])" "n_data (ns[i := x] ! j) \<noteq> 0"
      "n_data (ns[i := x] ! j) = n_data (ns[i := x] ! j')" for j j'
    using that D(2) [of j j'] fresh [of j] fresh [of j'] by (cases "j = i"; cases "j' = i") auto
qed

lemma content_ok_no_node: "content_ok no_node L"
  by (simp add: content_ok_def no_node_def VFS_TYPE_DIR_def)

lemma alloc_node_inv:
  assumes inv: "vfs_inv v L" and par: "is_dir v par" and ty: "ty = VFS_TYPE_FILE \<or> ty = VFS_TYPE_DIR"
    and run: "alloc_node ty par name v = (i, v')"
  shows "vfs_inv v' L"
    "i = - 1 \<and> v' = v \<or> 0 < i \<and> is_node v' i \<and> \<not> n_used (node_at v i) \<and>
       node_at v' i = no_node\<lparr>n_used := True, inode := next_inode v, n_type := ty, parent := par, n_name := copy_name name\<rparr> \<and>
       (\<forall>k. 0 \<le> k \<longrightarrow> k \<noteq> i \<longrightarrow> node_at v' k = node_at v k) \<and> cwd_node v' = cwd_node v \<and> ready v' = ready v \<and>
       open_files v' = open_files v"
proof -
  have ok: "tree_ok v" and dok: "data_ok (nodes v) L" using inv by (auto simp: vfs_inv_def)
  note D = tree_okD [OF ok]
  have "vfs_inv v' L \<and> (i = - 1 \<and> v' = v \<or> 0 < i \<and> is_node v' i \<and> \<not> n_used (node_at v i) \<and>
       node_at v' i = no_node\<lparr>n_used := True, inode := next_inode v, n_type := ty, parent := par, n_name := copy_name name\<rparr> \<and>
       (\<forall>k. 0 \<le> k \<longrightarrow> k \<noteq> i \<longrightarrow> node_at v' k = node_at v k) \<and> cwd_node v' = cwd_node v \<and> ready v' = ready v \<and>
       open_files v' = open_files v)"
  proof (cases "find_slot (\<lambda>n. \<not> n_used n) (nodes v)")
    case None
    with run inv show ?thesis by (simp add: alloc_node_def)
  next
    case (Some j)
    let ?x = "no_node\<lparr>n_used := True, inode := next_inode v, n_type := ty, parent := par, n_name := copy_name name\<rparr>"
    have j: "j < VFS_MAX_NODES" "\<not> n_used (nodes v ! j)" using find_slot_SomeD [OF Some] D(2) by auto
    have v': "i = int j" "nodes v' = (nodes v)[j := ?x]" "open_files v' = open_files v" "cwd_node v' = cwd_node v" "ready v' = ready v"
      using run Some by (auto simp: alloc_node_def)
    have j0: "j \<noteq> 0"
    proof
      assume "j = 0"
      with D(4) j(2) show False by (simp add: is_dir_def is_node_def node_at_def)
    qed
    have nd: "\<not> is_dir v (int j)" using j(2) by (simp add: is_dir_def is_node_def node_at_def)
    have "tree_ok v'"
      by (rule tree_ok_upd [OF ok, of "int j" v' ?x])
         (use j j0 v' nd par ty in \<open>auto simp: copy_name_def\<close>)
    moreover have "content_ok ?x L" by (simp add: content_ok_def no_node_def)
    then have "data_ok (nodes v') L"
      unfolding v'(2) by (intro data_ok_upd [OF dok]) (use j D(2) in \<open>simp_all add: no_node_def\<close>)
    moreover have "\<forall>k. 0 \<le> k \<longrightarrow> k \<noteq> i \<longrightarrow> node_at v' k = node_at v k"
      using v'(1,2) by (auto simp: node_at_def nat_eq_iff nth_list_update)
    moreover have "node_at v' i = ?x" using v'(1,2) j(1) D(2) by (simp add: node_at_def)
    moreover have "is_node v' i" using calculation(4) v'(1) j(1) by (simp add: is_node_def)
    ultimately show ?thesis using v' j j0 by (simp add: vfs_inv_def node_at_def)
  qed
  then show "vfs_inv v' L"
    "i = - 1 \<and> v' = v \<or> 0 < i \<and> is_node v' i \<and> \<not> n_used (node_at v i) \<and>
       node_at v' i = no_node\<lparr>n_used := True, inode := next_inode v, n_type := ty, parent := par, n_name := copy_name name\<rparr> \<and>
       (\<forall>k. 0 \<le> k \<longrightarrow> k \<noteq> i \<longrightarrow> node_at v' k = node_at v k) \<and> cwd_node v' = cwd_node v \<and> ready v' = ready v \<and>
       open_files v' = open_files v" by blast+
qed

section \<open>Operations on the tree\<close>

lemma vfs_init_inv: "vfs_init v = (r, v') \<Longrightarrow> r = 0 \<and> vfs_inv v' L"
proof -
  assume run: "vfs_init v = (r, v')"
  let ?x = "no_node\<lparr>n_used := True, inode := 1, n_type := VFS_TYPE_DIR, parent := 0, n_name := []\<rparr>"
  have v': "r = 0" "nodes v' = (replicate VFS_MAX_NODES no_node)[0 := ?x]"
    "open_files v' = replicate VFS_MAX_OPEN no_open" "cwd_node v' = 0" "ready v'"
    using run by (auto simp: vfs_init_def alloc_node_def no_node_def copy_name_def VFS_MAX_NODES_def)
  have at: "node_at v' n = (if n = 0 then ?x else no_node)" if "0 \<le> n" "n < int VFS_MAX_NODES" for n
    using that by (auto simp: node_at_def v' nth_list_update VFS_MAX_NODES_def)
  have node: "is_node v' n \<longleftrightarrow> n = 0" for n
    using at [of n] by (auto simp: is_node_def no_node_def VFS_MAX_NODES_def split: if_splits)
  have at0: "node_at v' 0 = ?x" using at [of 0] by (simp add: VFS_MAX_NODES_def)
  have "tree_ok v'"
  proof (rule tree_okI)
    show "is_dir v' 0" "is_dir v' (cwd_node v')" by (simp_all add: is_dir_def node at0 v')
    show "0 \<le> o_node (open_files v' ! nat fd) \<and> o_node (open_files v' ! nat fd) < int VFS_MAX_NODES" if "fd_ok v' fd" for fd
      using that by (auto simp: fd_ok_def v' no_open_def VFS_MAX_OPEN_def)
  qed (use at in \<open>auto simp: v' node at0 is_dir_def split: if_splits\<close>)
  moreover have "data_ok (nodes v') L"
    by (rule data_okI) (auto simp: v' nth_list_update content_ok_def no_node_def split: if_splits)
  ultimately show ?thesis using v'(1) by (simp add: vfs_inv_def)
qed

lemma vfs_mkdir_inv:
  assumes inv: "vfs_inv v L" and run: "vfs_mkdir path v = (r, v')"
  shows "vfs_inv v' L"
proof (cases "resolve_parent v path")
  case None
  with run inv show ?thesis by (simp add: vfs_mkdir_def)
next
  case (Some pl)
  obtain par leaf where pl: "pl = (par, leaf)" by fastforce
  have "is_dir v par" using resolve_parent_dir(1) [of v path par leaf] inv Some pl by (simp add: vfs_inv_def)
  then show ?thesis
    using run inv Some pl alloc_node_inv(1) [OF inv, of par VFS_TYPE_DIR leaf]
    by (auto simp: vfs_mkdir_def split: if_splits prod.splits)
qed

lemma vfs_rename_inv:
  assumes inv: "vfs_inv v L" and run: "vfs_rename old new v = (r, v')"
  shows "vfs_inv v' L"
proof -
  have ok: "tree_ok v" and dok: "data_ok (nodes v) L" using inv by (auto simp: vfs_inv_def)
  note D = tree_okD [OF ok]
  let ?n = "resolve_path v old"
  show ?thesis
  proof (cases "?n \<le> 0 \<or> resolve_parent v new = None \<or>
      (\<exists>par leaf. resolve_parent v new = Some (par, leaf) \<and> 0 \<le> find_child v par leaf)")
    case True
    with run inv show ?thesis by (auto simp: vfs_rename_def Let_def split: if_splits)
  next
    case False
    then obtain par leaf where p: "resolve_parent v new = Some (par, leaf)" "\<not> 0 \<le> find_child v par leaf" "0 < ?n"
      by auto
    let ?x = "(node_at v ?n)\<lparr>parent := par, n_name := copy_name leaf\<rparr>"
    have n: "is_node v ?n" using resolve_path_node [OF ok, of old] p(3) by auto
    then have n': "0 \<le> ?n" "?n < int VFS_MAX_NODES" "n_used (node_at v ?n)" by (auto simp: is_node_def)
    have v': "v' = upd_node ?n (\<lambda>n. n\<lparr>parent := par, n_name := copy_name leaf\<rparr>) v"
      using run p by (simp add: vfs_rename_def Let_def)
    have nodes': "nodes v' = (nodes v)[nat ?n := ?x]" by (simp add: v' upd_node_def)
    have "tree_ok v'"
      by (rule tree_ok_upd [OF ok n'(1,2) nodes'])
         (use v' D(7) [OF n] n' p(3) resolve_parent_dir(1) [OF ok p(1)] in \<open>auto simp: copy_name_def is_dir_def\<close>)
    moreover have lt: "nat ?n < length (nodes v)" using n' D(2) by simp
    have "content_ok ?x L" using data_okD(1) [OF dok lt] by (simp add: content_ok_def node_at_def)
    then have "data_ok (nodes v') L"
      unfolding nodes' using data_okD(2) [OF dok _ lt]
      by (intro data_ok_upd [OF dok lt]) (auto simp: node_at_def)
    ultimately show ?thesis by (simp add: vfs_inv_def)
  qed
qed

lemma vfs_chdir_inv:
  assumes inv: "vfs_inv v L" and run: "vfs_chdir path v = (r, v')"
  shows "vfs_inv v' L"
proof (cases "resolve_path v path < 0 \<or> n_type (node_at v (resolve_path v path)) \<noteq> VFS_TYPE_DIR")
  case True
  with run inv show ?thesis by (auto simp: vfs_chdir_def Let_def)
next
  case False
  have ok: "tree_ok v" using inv by (simp add: vfs_inv_def)
  have v': "v' = v\<lparr>cwd_node := resolve_path v path\<rparr>" using False run by (auto simp: vfs_chdir_def Let_def)
  have "is_dir v (resolve_path v path)" using False resolve_path_node [OF ok, of path] by (auto simp: is_dir_def)
  moreover have "node_at v' n = node_at v n" "fd_ok v' fd = fd_ok v fd" for n fd
    by (simp_all add: v' node_at_def fd_ok_def)
  then have "is_node v' n = is_node v n" "is_dir v' n = is_dir v n" "node_at v' n = node_at v n" "fd_ok v' fd = fd_ok v fd" for n fd
    by (simp_all add: is_node_def is_dir_def)
  ultimately have "tree_ok v'" using ok unfolding tree_ok_def by (simp add: v')
  with inv show ?thesis by (simp add: vfs_inv_def v')
qed

lemma child_count_0:
  assumes "child_count v n = 0" and "is_node v k" and "k \<noteq> n"
  shows "parent (node_at v k) \<noteq> n"
proof -
  from assms(1) have "\<forall>i\<in>set [0..<VFS_MAX_NODES]. \<not> (int i \<noteq> n \<and> n_used (nodes v ! i) \<and> parent (nodes v ! i) = n)"
    unfolding child_count_def by (simp only: length_0_conv filter_empty_conv)
  with assms(2,3) show ?thesis by (auto simp: is_node_def node_at_def)
qed

lemma drop_node_inv:
  assumes inv: "vfs_inv v L" and rep: "mem_rep m L" and n: "0 < n" "is_node v n" "child_count v n = 0" "cwd_node v \<noteq> n"
  shows "\<exists>v' m' L'. drop_node n v m = Ret (0, v', m') \<and> mem_rep m' L' \<and> vfs_inv v' L' \<and> node_at v' n = no_node \<and>
    (L' = L \<or> L' = L(n_data (node_at v n) := None)) \<and> (\<forall>k. 0 \<le> k \<longrightarrow> k \<noteq> n \<longrightarrow> node_at v' k = node_at v k)"
proof -
  have ok: "tree_ok v" and dok: "data_ok (nodes v) L" using inv by (auto simp: vfs_inv_def)
  note D = tree_okD [OF ok]
  let ?v = "upd_node n (\<lambda>_. no_node) v" and ?d = "n_data (node_at v n)"
  have n': "0 \<le> n" "n < int VFS_MAX_NODES" using n(2) by (auto simp: is_node_def)
  then have lt: "nat n < length (nodes v)" using D(2) by simp
  have nodes': "nodes ?v = (nodes v)[nat n := no_node]" by (simp add: upd_node_def)
  have tree: "tree_ok ?v"
    by (rule tree_ok_upd [OF ok n' nodes']) (use n child_count_0 [OF n(3)] in \<open>auto simp: no_node_def\<close>)
  have at: "node_at ?v n = no_node" "\<forall>k. 0 \<le> k \<longrightarrow> k \<noteq> n \<longrightarrow> node_at ?v k = node_at v k"
    using node_at_upd [of n v] n' D(2) by auto
  show ?thesis
  proof (cases "?d = 0")
    case True
    have "data_ok (nodes ?v) L"
      unfolding nodes' by (rule data_ok_upd [OF dok lt content_ok_no_node]) (auto simp: no_node_def)
    with True rep tree at show ?thesis by (auto simp: drop_node_def vfs_inv_def)
  next
    case False
    have "content_ok (node_at v n) L" using data_okD(1) [OF dok lt] by (simp add: node_at_def)
    with False obtain k where k: "L ?d = Some k" "capacity (node_at v n) \<le> k" by (auto simp: content_ok_def)
    from kheap.release_law [OF rep k] obtain m' where m': "mem_free ?d (capacity (node_at v n)) m = Ret m'"
      "mem_rep m' (L(?d := None))" by blast
    have "data_ok (nodes ?v) (L(?d := None))"
      unfolding nodes' using data_okD(2) [OF dok _ lt]
      by (intro data_ok_upd [OF dok lt content_ok_no_node]) (auto simp: no_node_def node_at_def)
    with False m' tree at show ?thesis by (auto simp: drop_node_def vfs_inv_def)
  qed
qed

end
