(* ===== verification/Vfs_Data.thy ===== *)
theory Vfs_Data
  imports Vfs_Inv
begin

text \<open>
  File contents: growing a file's block, reading, writing and seeking, over the contract of the kernel
  heap. The bytes of a file are \<open>file_bytes\<close>, a function of the offset.
\<close>

section \<open>Growing a block\<close>

lemma grow_cap_ok:
  assumes "0 < unat cap" and "unat need \<le> 2 ^ 61"
  shows "\<exists>c. grow_cap cap need = Some c \<and> need \<le> c \<and> (c = cap \<or> unat c < 2 * unat need)"
  using assms(1)
proof (induction "unat need - unat cap" arbitrary: cap rule: less_induct)
  case less
  show ?case
  proof (cases "cap < need")
    case False
    then have "grow_cap cap need = Some cap" by (subst grow_cap.simps) simp
    with False show ?thesis by (auto simp: not_less)
  next
    case True
    then have lt: "unat cap < unat need" by (simp add: word_less_nat_alt)
    have "unat cap * 2 < 2 ^ 64" using lt assms(2) by simp
    then have d: "unat (cap * 2) = 2 * unat cap" by (simp add: unat_word_ariths)
    have "unat need - unat (cap * 2) < unat need - unat cap" "0 < unat (cap * 2)" using lt d less.prems by linarith+
    from less.hyps [OF this] obtain c where
      "grow_cap (cap * 2) need = Some c" "need \<le> c" "c = cap * 2 \<or> unat c < 2 * unat need" by auto
    moreover have "grow_cap cap need = grow_cap (cap * 2) need" using True by (subst grow_cap.simps) simp
    ultimately show ?thesis using d lt by auto
  qed
qed

text \<open>Every result of the doubling is at least what was asked for and is the start times a power of two,
  so the loop has no result when that overflows first.\<close>

lemma grow_cap_result:
  assumes run: "grow_cap cap need = Some c"
  shows "need \<le> c \<and> (\<exists>k. c = cap * 2 ^ k)"
proof (rule grow_cap.raw_induct [where P = "\<lambda>cap need c. need \<le> c \<and> (\<exists>k. c = cap * 2 ^ k)", OF _ run])
  fix g :: "u64 \<Rightarrow> u64 \<Rightarrow> u64 option" and cap need c
  assume ih: "\<And>cap need c. g cap need = Some c \<Longrightarrow> need \<le> c \<and> (\<exists>k. c = cap * 2 ^ k)"
    and step: "(if cap < need then g (cap * 2) need else Some cap) = Some c"
  show "need \<le> c \<and> (\<exists>k. c = cap * 2 ^ k)"
  proof (cases "cap < need")
    case True
    with step ih have "need \<le> c \<and> (\<exists>k. c = cap * 2 * 2 ^ k)" by auto
    then show ?thesis by (metis mult.assoc power_Suc)
  next
    case False
    with step have "c = cap * 2 ^ 0" "need \<le> c" by auto
    then show ?thesis by blast
  qed
qed

lemma pow2_64_bound: "unat ((64::u64) * 2 ^ k) \<le> 2 ^ 63"
proof (cases "k < 58")
  case True
  have "(64::u64) * 2 ^ k = 2 ^ (6 + k)" by (simp add: power_add)
  moreover have "unat ((2::u64) ^ (6 + k)) = 2 ^ (6 + k)"
  proof -
    have "(2::nat) ^ (6 + k) < 2 ^ 64" using True by (intro power_strict_increasing) auto
    then show ?thesis using unat_of_nat64 [of "2 ^ (6 + k)"] by simp
  qed
  moreover have "(2::nat) ^ (6 + k) \<le> 2 ^ 63" using True by (intro power_increasing) auto
  ultimately show ?thesis by simp
next
  case False
  have "(64::u64) * 2 ^ k = 2 ^ (6 + k)" by (simp add: power_add)
  moreover have "(2::u64) ^ (6 + k) = 0" using False by (simp add: exp_eq_zero_iff)
  ultimately show ?thesis by simp
qed

lemma grow_cap_diverges: "2 ^ 63 < unat need \<Longrightarrow> grow_cap 64 need = None"
proof (rule ccontr)
  assume need: "2 ^ 63 < unat need" and "grow_cap 64 need \<noteq> None"
  then obtain c where "grow_cap 64 need = Some c" by blast
  from grow_cap_result [OF this] obtain k where "need \<le> c" "c = 64 * 2 ^ k" by blast
  with pow2_64_bound [of k] need show False by (simp add: word_le_nat_alt)
qed

definition file_byte :: "vfs_node \<Rightarrow> mem_state \<Rightarrow> nat \<Rightarrow> u8" where
  "file_byte n m i = mem_ram m (n_data n + of_nat i)"

text \<open>What a successful or failed \<open>ensure_capacity\<close> leaves of a node, its bytes and the other live blocks.\<close>

definition grown :: "vfs_node \<Rightarrow> mem_state \<Rightarrow> (addr \<rightharpoonup> u64) \<Rightarrow> vfs_node \<Rightarrow> mem_state \<Rightarrow> (addr \<rightharpoonup> u64) \<Rightarrow> bool" where
  "grown n m L n' m' L' \<longleftrightarrow> mem_rep m' L' \<and> content_ok n' L' \<and>
    n_size n' = n_size n \<and> n_used n' = n_used n \<and> n_type n' = n_type n \<and> parent n' = parent n \<and> n_name n' = n_name n \<and>
    (\<forall>i<unat (n_size n). file_byte n' m' i = file_byte n m i) \<and>
    (\<forall>q j. L q = Some j \<longrightarrow> q \<noteq> n_data n \<longrightarrow> L' q = Some j \<and> (\<forall>x\<in>region q j. mem_ram m' x = mem_ram m x)) \<and>
    (n_data n' = n_data n \<or> L (n_data n') = None)"

lemma grown_refl: "mem_rep m L \<Longrightarrow> content_ok n L \<Longrightarrow> grown n m L n m L"
  by (simp add: grown_def)

lemma memcpy_fresh:
  assumes rep: "mem_rep m (L(p \<mapsto> k))" and p: "L p = None" and d: "L d = Some j" and sz: "sz \<le> k" "sz \<le> j"
  shows "i < unat sz \<Longrightarrow> memcpy p d sz r (p + of_nat i) = r (d + of_nat i)"
    and "x \<notin> region p k \<Longrightarrow> memcpy p d sz r x = r x"
proof -
  have sub: "region p sz \<subseteq> region p k" "region d sz \<subseteq> region d j" using sz by (auto simp: region_def)
  have "p \<noteq> d" using p d by auto
  then have "region p k \<inter> region d j = {}" using kheap.live_disjoint [OF rep, of p k d j] d by simp
  then have "region p sz \<inter> region d sz = {}" using sub by blast
  from memcpy_apply [OF this] show "i < unat sz \<Longrightarrow> memcpy p d sz r (p + of_nat i) = r (d + of_nat i)"
    by (simp add: region_memI)
  show "x \<notin> region p k \<Longrightarrow> memcpy p d sz r x = r x" by (rule memcpy_outside) (use sub in auto)
qed

text \<open>Moving the contents of a node to a block just allocated.\<close>

lemma move_block:
  assumes rep: "mem_rep m1 (L(p \<mapsto> k))" and ram: "mem_ram m1 = mem_ram m" and p: "L p = None" "p \<noteq> 0"
    and c: "content_ok n L" "n_type n = VFS_TYPE_FILE" and cap: "capacity n \<le> cap" "cap \<le> k"
    and m2: "m2 = (if n_data n \<noteq> 0 \<and> n_size n \<noteq> 0
       then m1\<lparr>mem_ram := memcpy p (n_data n) (n_size n) (mem_ram m1)\<rparr> else m1)"
  shows "\<exists>m3 L'. (if n_data n \<noteq> 0 then mem_free (n_data n) (capacity n) m2 else Ret m2) = Ret m3 \<and>
    grown n m L (n\<lparr>n_data := p, capacity := cap\<rparr>) m3 L'"
proof (cases "n_data n = 0")
  case True
  then have z: "n_size n = 0" "m2 = m1" using c m2 by (auto simp: content_ok_def)
  have "\<forall>q j. L q = Some j \<longrightarrow> (L(p \<mapsto> k)) q = Some j" using p by auto
  moreover have "content_ok (n\<lparr>n_data := p, capacity := cap\<rparr>) (L(p \<mapsto> k))"
    using cap z c p by (simp add: content_ok_def VFS_TYPE_FILE_def VFS_TYPE_DIR_def)
  ultimately have "grown n m L (n\<lparr>n_data := p, capacity := cap\<rparr>) m2 (L(p \<mapsto> k))"
    using z rep p ram by (simp add: grown_def)
  with True show ?thesis by auto
next
  case False
  let ?d = "n_data n" and ?n = "n\<lparr>n_data := p, capacity := cap\<rparr>" and ?L = "(L(p \<mapsto> k))(n_data n := None)"
  from c False obtain j where j: "L ?d = Some j" "capacity n \<le> j" "n_size n \<le> capacity n" by (auto simp: content_ok_def)
  have pd: "p \<noteq> ?d" using j p by auto
  have sz: "n_size n \<le> k" "n_size n \<le> j" using j cap by auto
  note cp = memcpy_fresh [OF rep p(1) j(1) sz]
  have rep2: "mem_rep m2 (L(p \<mapsto> k))" using rep kheap.rep_set_ram by (simp add: m2)
  have Ld: "(L(p \<mapsto> k)) ?d = Some j" using j pd by simp
  from kheap.release_law [OF rep2 Ld j(2)] obtain m3 where m3: "mem_free ?d (capacity n) m2 = Ret m3" "mem_rep m3 ?L"
    "\<forall>x. x \<notin> region ?d j \<longrightarrow> mem_ram m3 x = mem_ram m2 x" by blast
  have dis: "region p k \<inter> region ?d j = {}" using kheap.live_disjoint [OF rep, of p k ?d j] Ld pd by simp
  have bytes: "file_byte ?n m3 i = file_byte n m i" if i: "i < unat (n_size n)" for i
  proof -
    have "n_size n \<noteq> 0" using i by auto
    then have r2: "mem_ram m2 = memcpy p ?d (n_size n) (mem_ram m)" using False ram by (simp add: m2)
    have "p + of_nat i \<in> region p k" using i sz(1) by (intro region_memI) (simp add: word_le_nat_alt)
    then have "p + of_nat i \<notin> region ?d j" using dis by blast
    with m3(3) r2 cp(1) [OF i] show ?thesis by (simp add: file_byte_def)
  qed
  have others: "?L q = Some i \<and> (\<forall>x\<in>region q i. mem_ram m3 x = mem_ram m x)" if q: "L q = Some i" "q \<noteq> ?d" for q i
  proof -
    have qp: "q \<noteq> p" using q p by auto
    have "region q i \<inter> region ?d j = {}" "region q i \<inter> region p k = {}"
      using kheap.live_disjoint [OF rep, of q i ?d j] kheap.live_disjoint [OF rep, of q i p k] q qp Ld by simp_all
    then have out: "x \<notin> region ?d j" "x \<notin> region p k" if "x \<in> region q i" for x using that by blast+
    have "mem_ram m2 x = mem_ram m x" if "x \<notin> region p k" for x using cp(2) [OF that] ram by (simp add: m2)
    with out m3(3) have "mem_ram m3 x = mem_ram m x" if "x \<in> region q i" for x using that by simp
    with q qp show ?thesis by simp
  qed
  have "content_ok ?n ?L"
    using cap j c pd p by (simp add: content_ok_def VFS_TYPE_FILE_def VFS_TYPE_DIR_def)
  with m3(2) bytes others p have "grown n m L ?n m3 ?L" by (simp add: grown_def)
  with False m3(1) show ?thesis by auto
qed

lemma ensure_capacity_ok:
  assumes rep: "mem_rep m L" and c: "content_ok n L" "n_type n = VFS_TYPE_FILE" and need: "unat need \<le> 2 ^ 61"
  shows "\<exists>r n' m' L'. ensure_capacity n need m = Ret (r, n', m') \<and> grown n m L n' m' L' \<and>
    (r = 0 \<and> need \<le> capacity n' \<or> r = - 1 \<and> n' = n \<and> L' = L \<and> mem_ram m' = mem_ram m)"
proof (cases "need \<le> capacity n")
  case True
  with grown_refl [OF rep c(1)] show ?thesis by (auto simp: ensure_capacity_def)
next
  case False
  let ?c0 = "if capacity n \<noteq> 0 then capacity n else 64"
  have "0 < unat ?c0" by (auto simp flip: unat_gt_0)
  from grow_cap_ok [OF this need] obtain cap where cap: "grow_cap ?c0 need = Some cap" "need \<le> cap"
    "cap = ?c0 \<or> unat cap < 2 * unat need" by blast
  have small: "unat cap \<le> 2 ^ 62" using cap(2,3) False need by (auto split: if_splits)
  have le: "capacity n \<le> cap" using cap(2) False by auto
  from kheap.alloc_law [OF rep small] obtain p m1 where r: "mem_alloc cap m = Ret (p, m1)" "mem_ram m1 = mem_ram m"
    "if p = 0 then mem_rep m1 L else \<exists>k. cap \<le> k \<and> L p = None \<and> mem_rep m1 (L(p \<mapsto> k))" by blast
  show ?thesis
  proof (cases "p = 0")
    case True
    then have "ensure_capacity n need m = Ret (- 1, n, m1)"
      using False cap(1) r(1) by (simp add: ensure_capacity_def)
    moreover have "grown n m L n m1 L" using True r c by (simp add: grown_def file_byte_def)
    ultimately show ?thesis using r(2) by blast
  next
    case p: False
    with r obtain k where k: "cap \<le> k" "L p = None" "mem_rep m1 (L(p \<mapsto> k))" by auto
    define m2 where "m2 = (if n_data n \<noteq> 0 \<and> n_size n \<noteq> 0
       then m1\<lparr>mem_ram := memcpy p (n_data n) (n_size n) (mem_ram m1)\<rparr> else m1)"
    from move_block [OF k(3) r(2) k(2) p c le k(1) m2_def] obtain m3 L' where
      m3: "(if n_data n \<noteq> 0 then mem_free (n_data n) (capacity n) m2 else Ret m2) = Ret m3"
        "grown n m L (n\<lparr>n_data := p, capacity := cap\<rparr>) m3 L'" by blast
    have "ensure_capacity n need m = Ret (0, n\<lparr>n_data := p, capacity := cap\<rparr>, m3)"
      using False cap(1) r(1) p m3(1) unfolding ensure_capacity_def m2_def by (simp add: Let_def)
    with m3(2) cap(2) show ?thesis
      by (intro exI [of _ 0] exI [of _ "n\<lparr>n_data := p, capacity := cap\<rparr>"] exI [of _ m3] exI [of _ L']) simp
  qed
qed

section \<open>Open files\<close>

lemma tree_ok_open:
  assumes ok: "tree_ok v" and "nodes v' = nodes v" "cwd_node v' = cwd_node v" "ready v' = ready v"
    and len: "length (open_files v') = length (open_files v)"
    and fds: "\<And>fd. fd_ok v' fd \<Longrightarrow> 0 \<le> o_node (open_files v' ! nat fd) \<and> o_node (open_files v' ! nat fd) < int VFS_MAX_NODES"
  shows "tree_ok v'"
proof -
  have "node_at v' n = node_at v n" for n using assms(2) by (simp add: node_at_def)
  then have "is_node v' n = is_node v n" "is_dir v' n = is_dir v n" "node_at v' n = node_at v n" for n
    by (simp_all add: is_node_def is_dir_def)
  with ok assms(2-4) len show ?thesis by (intro tree_okI fds) (simp_all add: tree_okD)
qed

lemma upd_open_inv:
  assumes inv: "vfs_inv v L" and fd: "fd_ok v fd"
    and keep: "\<And>f. o_used (g f) \<Longrightarrow> o_node (g f) = o_node f"
  shows "vfs_inv (upd_open fd g v) L"
proof -
  have ok: "tree_ok v" using inv by (simp add: vfs_inv_def)
  note D = tree_okD [OF ok]
  have at: "open_files (upd_open fd g v) ! nat k = (if k = fd then g (open_files v ! nat fd) else open_files v ! nat k)"
    if "0 \<le> k" for k
    using that fd D(3) by (auto simp: upd_open_def nth_list_update fd_ok_def nat_eq_iff)
  have "tree_ok (upd_open fd g v)"
  proof (rule tree_ok_open [OF ok])
    fix k assume k: "fd_ok (upd_open fd g v) k"
    then show "0 \<le> o_node (open_files (upd_open fd g v) ! nat k) \<and> o_node (open_files (upd_open fd g v) ! nat k) < int VFS_MAX_NODES"
      using at [of k] D(11) [of k] D(11) [OF fd] keep by (cases "k = fd") (auto simp: fd_ok_def)
  qed simp_all
  with inv show ?thesis by (simp add: vfs_inv_def)
qed

lemma vfs_lseek_inv: "vfs_inv v L \<Longrightarrow> vfs_lseek fd off wh v = (r, v') \<Longrightarrow> vfs_inv v' L"
  using upd_open_inv [of v L fd] by (auto simp: vfs_lseek_def Let_def split: if_splits option.splits)

lemma vfs_close_inv: "vfs_inv v L \<Longrightarrow> vfs_close fd v = (r, v') \<Longrightarrow> vfs_inv v' L"
  using upd_open_inv [of v L fd "\<lambda>_. no_open"] by (auto simp: vfs_close_def no_open_def split: if_splits)

lemma vfs_getdents_inv: "vfs_inv v L \<Longrightarrow> vfs_getdents fd e n v = (r, es, v') \<Longrightarrow> vfs_inv v' L"
  using upd_open_inv [of v L fd] by (auto simp: vfs_getdents_def Let_def split: if_splits)

lemma vfs_read_inv:
  assumes "vfs_inv v L" and "mem_rep m L" and "vfs_read fd buf len v m = (r, v', m')"
  shows "vfs_inv v' L \<and> mem_rep m' L"
  using assms upd_open_inv [of v L fd] kheap.rep_set_ram
  by (auto simp: vfs_read_def Let_def split: if_splits)

lemma open_slot_inv:
  assumes inv: "vfs_inv v L" and n: "is_node v n" and run: "open_slot n flags v = (fd, v')"
  shows "vfs_inv v' L"
proof (cases "find_slot (\<lambda>f. \<not> o_used f) (open_files v)")
  case None
  with run inv show ?thesis by (simp add: open_slot_def)
next
  case (Some i)
  have ok: "tree_ok v" using inv by (simp add: vfs_inv_def)
  let ?f = "\<lparr>o_used = True, o_node = n,
             offset = (if flags AND VFS_O_APPEND \<noteq> 0 then n_size (node_at v n) else 0), o_flags = flags\<rparr>"
  have v': "v' = v\<lparr>open_files := (open_files v)[i := ?f]\<rparr>" using run Some by (simp add: open_slot_def)
  have i: "i < length (open_files v)" using find_slot_SomeD [OF Some] by simp
  have "tree_ok v'"
  proof (rule tree_ok_open [OF ok])
    fix k assume "fd_ok v' k"
    then show "0 \<le> o_node (open_files v' ! nat k) \<and> o_node (open_files v' ! nat k) < int VFS_MAX_NODES"
      using i n tree_okD(11) [OF ok, of k] by (auto simp: v' fd_ok_def nth_list_update is_node_def split: if_splits)
  qed (simp_all add: v')
  with inv show ?thesis by (simp add: vfs_inv_def v')
qed

lemma ensure_capacity_0: "ensure_capacity n 0 m = Ret (0, n, m)"
  by (simp add: ensure_capacity_def)

text \<open>Replacing the node of an open file by one that differs in its block, size and capacity only.\<close>

lemma upd_content_inv:
  assumes inv: "vfs_inv v L" and n: "is_node v n"
    and x: "n_used x = n_used (node_at v n)" "n_type x = n_type (node_at v n)" "parent x = parent (node_at v n)"
      "n_name x = n_name (node_at v n)" and c: "content_ok x L'"
    and others: "\<And>q j. L q = Some j \<Longrightarrow> q \<noteq> n_data (node_at v n) \<Longrightarrow> L' q = Some j"
    and fresh: "n_data x = n_data (node_at v n) \<or> L (n_data x) = None"
  shows "vfs_inv (upd_node n (\<lambda>_. x) v) L'"
proof -
  have ok: "tree_ok v" and dok: "data_ok (nodes v) L" using inv by (auto simp: vfs_inv_def)
  note D = tree_okD [OF ok]
  have n': "0 \<le> n" "n < int VFS_MAX_NODES" "n_used (node_at v n)" using n by (auto simp: is_node_def)
  then have lt: "nat n < length (nodes v)" using D(2) by simp
  have nodes': "nodes (upd_node n (\<lambda>_. x) v) = (nodes v)[nat n := x]" by (simp add: upd_node_def)
  have "tree_ok (upd_node n (\<lambda>_. x) v)"
    by (rule tree_ok_upd [OF ok n'(1,2) nodes'])
       (use D(5,7,8,9) n n' x in \<open>auto simp: is_dir_def\<close>)
  moreover have "data_ok (nodes (upd_node n (\<lambda>_. x) v)) L'"
    unfolding nodes'
  proof (rule data_ok_upd [OF dok lt c])
    fix j assume j: "j < length (nodes v)" "j \<noteq> nat n"
    have ne: "n_data (nodes v ! j) \<noteq> n_data (node_at v n)" if "n_data (nodes v ! j) \<noteq> 0"
      using data_okD(2) [OF dok j(1) lt that] j(2) by (auto simp: node_at_def)
    have live: "\<exists>k. L (n_data (nodes v ! j)) = Some k" if "n_data (nodes v ! j) \<noteq> 0"
      using data_okD(1) [OF dok j(1)] that by (auto simp: content_ok_def)
    show "L' (n_data (nodes v ! j)) = L (n_data (nodes v ! j))" if "n_data (nodes v ! j) \<noteq> 0"
      using ne [OF that] live [OF that] others by auto
    show "n_data (nodes v ! j) \<noteq> n_data x" if "n_data x \<noteq> 0"
      using ne live fresh that by (metis option.distinct(1))
  qed
  ultimately show ?thesis by (simp add: vfs_inv_def)
qed

section \<open>Opening, removing and writing\<close>

lemma vfs_open_ok:
  assumes inv: "vfs_inv v L"
  shows "\<exists>r v'. vfs_open path flags v m = Ret (r, v', m) \<and> vfs_inv v' L"
proof -
  have ok: "tree_ok v" using inv by (simp add: vfs_inv_def)
  let ?nv = "if resolve_path v path < 0 \<and> flags AND VFS_O_CREAT \<noteq> 0
     then case resolve_parent v path of None \<Rightarrow> (- 1, v) | Some (par, leaf) \<Rightarrow> alloc_node VFS_TYPE_FILE par leaf v
     else (resolve_path v path, v)"
  obtain n v1 where nv: "?nv = (n, v1)" by fastforce
  have n: "vfs_inv v1 L \<and> (n < 0 \<or> is_node v1 n)"
  proof (cases "resolve_path v path < 0 \<and> flags AND VFS_O_CREAT \<noteq> 0")
    case True
    show ?thesis
    proof (cases "resolve_parent v path")
      case None
      with nv True inv show ?thesis by simp
    next
      case (Some pl)
      obtain par leaf where pl: "pl = (par, leaf)" by fastforce
      have "is_dir v par" using resolve_parent_dir(1) [OF ok] Some pl by blast
      from alloc_node_inv [OF inv this, of VFS_TYPE_FILE leaf n v1] nv True Some pl show ?thesis by auto
    qed
  next
    case False
    with nv inv resolve_path_node [OF ok, of path] show ?thesis by auto
  qed
  have run: "vfs_open path flags v m =
      (if n < 0 then Ret (- 1, v1, m)
       else if n_type (node_at v1 n) = VFS_TYPE_DIR \<and> flags AND (VFS_O_WRONLY OR VFS_O_CREAT OR VFS_O_TRUNC OR VFS_O_APPEND) \<noteq> 0
       then Ret (- 1, v1, m)
       else let v2 = (if flags AND VFS_O_TRUNC \<noteq> 0 \<and> n_type (node_at v1 n) = VFS_TYPE_FILE
                      then upd_node n (\<lambda>_. (node_at v1 n)\<lparr>n_size := 0\<rparr>) v1 else v1);
                (fd, v3) = open_slot n flags v2 in Ret (fd, v3, m))"
    unfolding vfs_open_def Let_def nv prod.case by (simp add: ensure_capacity_0)
  show ?thesis
  proof (cases "n < 0 \<or> n_type (node_at v1 n) = VFS_TYPE_DIR \<and> flags AND (VFS_O_WRONLY OR VFS_O_CREAT OR VFS_O_TRUNC OR VFS_O_APPEND) \<noteq> 0")
    case True
    with run n show ?thesis by auto
  next
    case False
    then have node: "is_node v1 n" and inv1: "vfs_inv v1 L" using n by auto
    let ?v2 = "if flags AND VFS_O_TRUNC \<noteq> 0 \<and> n_type (node_at v1 n) = VFS_TYPE_FILE
                      then upd_node n (\<lambda>_. (node_at v1 n)\<lparr>n_size := 0\<rparr>) v1 else v1"
    have len: "length (nodes v1) = VFS_MAX_NODES" and n0: "0 \<le> n" "n < int VFS_MAX_NODES"
      using inv1 node by (auto simp: vfs_inv_def tree_ok_def is_node_def)
    have "content_ok (node_at v1 n) L"
      using inv1 n0 len data_okD(1) [of "nodes v1" L "nat n"] by (simp add: vfs_inv_def node_at_def)
    then have c: "content_ok ((node_at v1 n)\<lparr>n_size := 0\<rparr>) L" by (simp add: content_ok_def)
    have "vfs_inv (upd_node n (\<lambda>_. (node_at v1 n)\<lparr>n_size := 0\<rparr>) v1) L"
      by (rule upd_content_inv [OF inv1 node _ _ _ _ c]) simp_all
    moreover have "is_node (upd_node n (\<lambda>_. (node_at v1 n)\<lparr>n_size := 0\<rparr>) v1) n"
      using node n0 len node_at_upd [of n v1 n] by (simp add: is_node_def)
    ultimately have "vfs_inv ?v2 L" "is_node ?v2 n" using inv1 node by simp_all
    moreover obtain fd v3 where o: "open_slot n flags ?v2 = (fd, v3)" by fastforce
    ultimately have "vfs_inv v3 L" by (rule open_slot_inv)
    with run False o show ?thesis by (auto simp: Let_def)
  qed
qed

lemma vfs_unlink_ok:
  assumes inv: "vfs_inv v L" and rep: "mem_rep m L"
  shows "\<exists>r v' m' L'. vfs_unlink path v m = Ret (r, v', m') \<and> mem_rep m' L' \<and> vfs_inv v' L'"
proof -
  have ok: "tree_ok v" using inv by (simp add: vfs_inv_def)
  let ?n = "resolve_path v path"
  show ?thesis
  proof (cases "?n \<le> 0 \<or> n_type (node_at v ?n) = VFS_TYPE_DIR \<or> child_count v ?n \<noteq> 0")
    case True
    with inv rep show ?thesis by (auto simp: vfs_unlink_def Let_def)
  next
    case False
    then have "is_node v ?n" using resolve_path_node [OF ok, of path] by auto
    moreover have "cwd_node v \<noteq> ?n" using tree_okD(6) [OF ok] False by (auto simp: is_dir_def)
    ultimately show ?thesis
      using drop_node_inv [OF inv rep, of ?n] False by (auto simp: vfs_unlink_def Let_def)
  qed
qed

lemma vfs_rmdir_ok:
  assumes inv: "vfs_inv v L" and rep: "mem_rep m L"
  shows "\<exists>r v' m' L'. vfs_rmdir path v m = Ret (r, v', m') \<and> mem_rep m' L' \<and> vfs_inv v' L'"
proof -
  have ok: "tree_ok v" using inv by (simp add: vfs_inv_def)
  let ?n = "resolve_path v path"
  show ?thesis
  proof (cases "?n \<le> 0 \<or> n_type (node_at v ?n) \<noteq> VFS_TYPE_DIR \<or> child_count v ?n \<noteq> 0")
    case True
    with inv rep show ?thesis by (auto simp: vfs_rmdir_def Let_def)
  next
    case False
    let ?v = "if cwd_node v = ?n then v\<lparr>cwd_node := 0\<rparr> else v"
    have n: "is_node v ?n" using False resolve_path_node [OF ok, of path] by auto
    have same: "node_at ?v k = node_at v k" "fd_ok ?v fd = fd_ok v fd" "nodes ?v = nodes v" "open_files ?v = open_files v" "ready ?v = ready v" for k fd
      by (simp_all add: node_at_def fd_ok_def)
    then have same': "is_node ?v k = is_node v k" "is_dir ?v k = is_dir v k" "child_count ?v k = child_count v k" for k
      by (simp_all add: is_node_def is_dir_def child_count_def)
    have "is_dir v (cwd_node ?v)" using tree_okD(4,6) [OF ok] by simp
    then have "tree_ok ?v" using ok unfolding tree_ok_def same same' by blast
    then have "vfs_inv ?v L" using inv same by (simp add: vfs_inv_def)
    moreover have "cwd_node ?v \<noteq> ?n" using False by auto
    ultimately show ?thesis
      using drop_node_inv [of ?v L m ?n] rep False n same' by (auto simp: vfs_rmdir_def Let_def)
  qed
qed

text \<open>The offset at which a write starts, and the node it writes to.\<close>

definition fd_node :: "vfs_state \<Rightarrow> int \<Rightarrow> int" where
  "fd_node v fd = o_node (open_files v ! nat fd)"

definition write_off :: "vfs_state \<Rightarrow> int \<Rightarrow> u64" where
  "write_off v fd = (if o_flags (open_files v ! nat fd) AND VFS_O_APPEND \<noteq> 0
     then n_size (node_at v (fd_node v fd)) else offset (open_files v ! nat fd))"

lemma file_is_node:
  assumes ok: "tree_ok v" and fd: "fd_ok v fd" and f: "n_type (node_at v (fd_node v fd)) = VFS_TYPE_FILE"
  shows "is_node v (fd_node v fd)"
proof -
  have n: "0 \<le> fd_node v fd" "fd_node v fd < int VFS_MAX_NODES" using tree_okD(11) [OF ok fd] by (auto simp: fd_node_def)
  with tree_okD(10) [OF ok n] f show ?thesis
    by (cases "n_used (node_at v (fd_node v fd))") (auto simp: is_node_def no_node_def VFS_TYPE_FILE_def)
qed

lemma vfs_write_run:
  assumes fd: "fd_ok v fd" "buf \<noteq> 0" "n_type (node_at v (fd_node v fd)) = VFS_TYPE_FILE"
    and len: "nat (fd_node v fd) < length (nodes v)" "nat fd < length (open_files v)"
    and e: "ensure_capacity (node_at v (fd_node v fd)) (write_off v fd + n) m = Ret (0, x, m1)"
  shows "vfs_write fd buf n v m = Ret (sint n,
      upd_open fd (\<lambda>f. f\<lparr>offset := write_off v fd + n\<rparr>)
        (upd_node (fd_node v fd) (\<lambda>_. if n_size x < write_off v fd + n then x\<lparr>n_size := write_off v fd + n\<rparr> else x) v),
      m1\<lparr>mem_ram := memcpy (n_data x + write_off v fd) buf n (mem_ram m1)\<rparr>)"
proof -
  let ?v1 = "if o_flags (open_files v ! nat fd) AND VFS_O_APPEND \<noteq> 0
     then upd_open fd (\<lambda>f. f\<lparr>offset := n_size (node_at v (fd_node v fd))\<rparr>) v else v"
  have off: "offset (open_files ?v1 ! nat fd) = write_off v fd"
    using len(2) by (simp add: write_off_def upd_open_def)
  show ?thesis
    using fd e len off unfolding vfs_write_def Let_def fd_node_def [symmetric]
    by (auto simp: upd_node_def upd_open_def node_at_def split: if_splits)
qed

lemma vfs_write_fail:
  assumes fd: "fd_ok v fd" "buf \<noteq> 0" "n_type (node_at v (fd_node v fd)) = VFS_TYPE_FILE"
    and len: "nat (fd_node v fd) < length (nodes v)" "nat fd < length (open_files v)"
    and e: "ensure_capacity (node_at v (fd_node v fd)) (write_off v fd + n) m = Ret (- 1, node_at v (fd_node v fd), m1)"
  shows "\<exists>g. vfs_write fd buf n v m = Ret (- 1, upd_open fd g v, m1) \<and> (\<forall>f. o_node (g f) = o_node f \<and> o_used (g f) = o_used f)"
proof -
  let ?g = "\<lambda>f. if o_flags (open_files v ! nat fd) AND VFS_O_APPEND \<noteq> 0
     then f\<lparr>offset := n_size (node_at v (fd_node v fd))\<rparr> else f"
  have off: "offset (open_files (upd_open fd ?g v) ! nat fd) = write_off v fd"
    using len(2) by (simp add: write_off_def upd_open_def)
  have "vfs_write fd buf n v m = Ret (- 1, upd_open fd ?g v, m1)"
    using fd e len off unfolding vfs_write_def Let_def fd_node_def [symmetric]
    by (auto simp: upd_node_def upd_open_def node_at_def split: if_splits)
  then show ?thesis by (intro exI [of _ ?g]) auto
qed

text \<open>What a write within the bounds leaves of the file, the other live blocks and the bytes.\<close>

definition written :: "int \<Rightarrow> addr \<Rightarrow> u64 \<Rightarrow> vfs_state \<Rightarrow> mem_state \<Rightarrow> (addr \<rightharpoonup> u64) \<Rightarrow> vfs_state \<Rightarrow> mem_state \<Rightarrow>
    (addr \<rightharpoonup> u64) \<Rightarrow> bool" where
  "written fd buf n v m L v' m' L' \<longleftrightarrow>
     (let x = node_at v (fd_node v fd); x' = node_at v' (fd_node v fd); off = unat (write_off v fd) in
      fd_ok v' fd \<and> fd_node v' fd = fd_node v fd \<and> unat (offset (open_files v' ! nat fd)) = off + unat n \<and>
      n_type x' = VFS_TYPE_FILE \<and> unat (n_size x') = max (unat (n_size x)) (off + unat n) \<and>
      (\<forall>q j. L q = Some j \<longrightarrow> q \<noteq> n_data x \<longrightarrow> L' q = Some j \<and> q \<noteq> n_data x' \<and>
         (region buf n \<subseteq> region q j \<longrightarrow> (\<forall>i<unat n. file_byte x' m' (off + i) = mem_ram m (buf + of_nat i)))) \<and>
      (\<forall>i<unat (n_size x). i < off \<or> off + unat n \<le> i \<longrightarrow> file_byte x' m' i = file_byte x m i))"

lemma write_bytes:
  assumes rep: "mem_rep m L" and d: "L d = Some k" and fit: "off + unat n \<le> unat k" and w: "unat w = off"
  shows "x \<notin> region d k \<Longrightarrow> memcpy (d + w) buf n r x = r x"
    and "i < off \<or> off + unat n \<le> i \<Longrightarrow> i < unat k \<Longrightarrow> memcpy (d + w) buf n r (d + of_nat i) = r (d + of_nat i)"
    and "L q = Some j \<Longrightarrow> q \<noteq> d \<Longrightarrow> region buf n \<subseteq> region q j \<Longrightarrow> i < unat n \<Longrightarrow>
      memcpy (d + w) buf n r (d + of_nat (off + i)) = r (buf + of_nat i)"
proof -
  have nw: "unat d + unat k < 2 ^ 64" by (rule kheap.live_nowrap [OF rep d])
  have w': "w = of_nat off" using w by auto
  have sub: "region (d + w) n \<subseteq> region d k"
  proof
    fix x assume "x \<in> region (d + w) n"
    then obtain i where i: "i < unat n" "x = d + w + of_nat i" by (auto simp: in_region_iff)
    then have "x = d + of_nat (off + i)" by (simp add: w' add.assoc)
    moreover have "off + i < unat k" using i(1) fit by simp
    ultimately show "x \<in> region d k" by (simp only: region_memI)
  qed
  show "x \<notin> region d k \<Longrightarrow> memcpy (d + w) buf n r x = r x" by (rule memcpy_outside) (use sub in auto)
  show "memcpy (d + w) buf n r (d + of_nat i) = r (d + of_nat i)" if i: "i < off \<or> off + unat n \<le> i" "i < unat k"
  proof (rule memcpy_outside)
    show "d + of_nat i \<notin> region (d + w) n"
    proof
      assume "d + of_nat i \<in> region (d + w) n"
      then obtain j where j: "j < unat n" "d + of_nat i = d + w + of_nat j" by (auto simp: in_region_iff)
      then have "(of_nat i :: u64) = of_nat (off + j)" by (simp add: w' add.assoc)
      then have "i = off + j" using i(2) j(1) fit nw by (subst (asm) of_nat_eq64) auto
      with i(1) j(1) show False by auto
    qed
  qed
  show "memcpy (d + w) buf n r (d + of_nat (off + i)) = r (buf + of_nat i)"
    if q: "L q = Some j" "q \<noteq> d" "region buf n \<subseteq> region q j" "i < unat n"
  proof -
    have "region d k \<inter> region q j = {}" using kheap.live_disjoint [OF rep d q(1)] q(2) by blast
    then have "region (d + w) n \<inter> region buf n = {}" using sub q(3) by blast
    from memcpy_apply [OF this] q(4) have "memcpy (d + w) buf n r (d + w + of_nat i) = r (buf + of_nat i)"
      by (simp add: region_memI)
    then show ?thesis by (simp add: w' add.assoc)
  qed
qed

lemma written_grown:
  assumes g: "grown (node_at v (fd_node v fd)) m L x m1 L'" and cap: "write_off v fd + n \<le> capacity x"
    and e: "unat (write_off v fd + n) = unat (write_off v fd) + unat n"
    and ty: "n_type (node_at v (fd_node v fd)) = VFS_TYPE_FILE"
    and x': "x' = (if n_size x < write_off v fd + n then x\<lparr>n_size := write_off v fd + n\<rparr> else x)"
    and m': "m' = m1\<lparr>mem_ram := memcpy (n_data x + write_off v fd) buf n (mem_ram m1)\<rparr>"
    and v': "fd_ok v' fd" "fd_node v' fd = fd_node v fd" "offset (open_files v' ! nat fd) = write_off v fd + n"
      "node_at v' (fd_node v fd) = x'"
  shows "written fd buf n v m L v' m' L'"
proof -
  let ?x = "node_at v (fd_node v fd)" and ?off = "write_off v fd"
  have G: "mem_rep m1 L'" "content_ok x L'" "n_size x = n_size ?x" "n_type x = n_type ?x"
    "\<And>i. i < unat (n_size ?x) \<Longrightarrow> file_byte x m1 i = file_byte ?x m i"
    "\<And>q j. L q = Some j \<Longrightarrow> q \<noteq> n_data ?x \<Longrightarrow> L' q = Some j"
    "\<And>q j y. L q = Some j \<Longrightarrow> q \<noteq> n_data ?x \<Longrightarrow> y \<in> region q j \<Longrightarrow> mem_ram m1 y = mem_ram m y"
    "n_data x = n_data ?x \<or> L (n_data x) = None"
    using g unfolding grown_def by auto
  have sz': "unat (n_size x') = max (unat (n_size ?x)) (unat ?off + unat n)"
    using e G(3) by (auto simp: x' word_less_nat_alt)
  have data': "n_data x' = n_data x" "n_type x' = n_type ?x" using G(4) by (auto simp: x')
  show ?thesis
  proof (cases "n_data x = 0")
    case True
    then have z: "unat ?off + unat n = 0" using G(2) cap e by (auto simp: content_ok_def word_le_nat_alt)
    then have "n = 0" by (simp add: unat_eq_0)
    then have "memcpy (n_data x + ?off) buf n (mem_ram m1) = mem_ram m1" by (simp add: memcpy_def)
    then have "file_byte x' m' i = file_byte x m1 i" for i using data'(1) by (simp add: file_byte_def m')
    with G True z v' data' sz' ty e show ?thesis unfolding written_def Let_def by (auto simp: file_byte_def)
  next
    case False
    with G(2) obtain j where j: "L' (n_data x) = Some j" "capacity x \<le> j" by (auto simp: content_ok_def)
    have fit: "unat ?off + unat n \<le> unat j" "unat (n_size ?x) \<le> unat j"
      using cap j(2) e G(2,3) by (auto simp: word_le_nat_alt content_ok_def)
    note wb = write_bytes [OF G(1) j(1) fit(1) refl]
    have fb: "file_byte x' m' i = memcpy (n_data x + ?off) buf n (mem_ram m1) (n_data x + of_nat i)" for i
      using data'(1) by (simp add: file_byte_def m')
    have keep: "file_byte x' m' i = file_byte ?x m i" if "i < unat (n_size ?x)" "i < unat ?off \<or> unat ?off + unat n \<le> i" for i
      using wb(2) [OF that(2), of buf "mem_ram m1"] fb that(1) fit(2) G(5) [OF that(1)] by (simp add: file_byte_def)
    have other: "L' q = Some i \<and> q \<noteq> n_data x' \<and> (region buf n \<subseteq> region q i \<longrightarrow>
        (\<forall>t<unat n. file_byte x' m' (unat ?off + t) = mem_ram m (buf + of_nat t)))" if q: "L q = Some i" "q \<noteq> n_data ?x" for q i
    proof -
      have ne: "q \<noteq> n_data x" using q G(8) by auto
      have "file_byte x' m' (unat ?off + t) = mem_ram m (buf + of_nat t)"
        if t: "region buf n \<subseteq> region q i" "t < unat n" for t
      proof -
        have "buf + of_nat t \<in> region q i" using t region_memI by blast
        with wb(3) [OF G(6) [OF q] ne t, of "mem_ram m1"] fb G(7) [OF q] show ?thesis by simp
      qed
      with G(6) [OF q] ne data'(1) show ?thesis by simp
    qed
    show ?thesis unfolding written_def Let_def v'(4) using v'(1-3) sz' e data'(2) ty keep other by simp
  qed
qed

text \<open>What an operation on the tree leaves of the live blocks the tree does not own: they stay live, and
  the tree takes over only blocks that were not live before.\<close>

definition vfs_ptrs :: "vfs_state \<Rightarrow> addr set" where
  "vfs_ptrs v = {n_data x |x. x \<in> set (nodes v) \<and> n_data x \<noteq> 0}"

definition vfs_frame :: "vfs_state \<Rightarrow> (addr \<rightharpoonup> u64) \<Rightarrow> vfs_state \<Rightarrow> (addr \<rightharpoonup> u64) \<Rightarrow> bool" where
  "vfs_frame v L v' L' \<longleftrightarrow> (\<forall>q j. L q = Some j \<longrightarrow> q \<notin> vfs_ptrs v \<longrightarrow> L' q = Some j) \<and>
     (\<forall>q\<in>vfs_ptrs v'. q \<in> vfs_ptrs v \<or> L q = None)"

lemma vfs_frame_refl: "nodes v' = nodes v \<Longrightarrow> vfs_frame v L v' L"
  by (simp add: vfs_frame_def vfs_ptrs_def)

lemma vfs_frame_upd:
  assumes n: "0 \<le> k" "nat k < length (nodes v)" and keep: "\<And>q j. L q = Some j \<Longrightarrow> q \<noteq> n_data (node_at v k) \<Longrightarrow> L' q = Some j"
    and fresh: "n_data x = n_data (node_at v k) \<or> L (n_data x) = None" and nz: "L 0 = None"
  shows "vfs_frame v L (upd_node k (\<lambda>_. x) v) L'"
proof -
  have mem: "node_at v k \<in> set (nodes v)" using n by (simp add: node_at_def)
  then have "q \<noteq> n_data (node_at v k)" if "q \<notin> vfs_ptrs v" "L q = Some j" for q j
    using that nz by (auto simp: vfs_ptrs_def)
  moreover have "q \<in> vfs_ptrs v \<or> L q = None" if "q \<in> vfs_ptrs (upd_node k (\<lambda>_. x) v)" for q
  proof -
    from that obtain y where y: "y \<in> set ((nodes v)[nat k := x])" "q = n_data y" "n_data y \<noteq> 0"
      by (auto simp: vfs_ptrs_def upd_node_def)
    from y(1) have "y = x \<or> y \<in> set (nodes v)" using set_update_subset_insert by fast
    with y fresh mem show ?thesis by (auto simp: vfs_ptrs_def)
  qed
  ultimately show ?thesis using keep by (auto simp: vfs_frame_def)
qed

lemma vfs_write_ok:
  assumes inv: "vfs_inv v L" and rep: "mem_rep m L" and bound: "unat (write_off v fd) + unat n \<le> 2 ^ 61"
  shows "\<exists>r v' m' L'. vfs_write fd buf n v m = Ret (r, v', m') \<and> mem_rep m' L' \<and> vfs_inv v' L' \<and> vfs_frame v L v' L' \<and>
    (r = - 1 \<or> r = uint n \<and> written fd buf n v m L v' m' L')"
proof (cases "fd_ok v fd \<and> buf \<noteq> 0 \<and> n_type (node_at v (fd_node v fd)) = VFS_TYPE_FILE")
  case False
  then have "vfs_write fd buf n v m = Ret (- 1, v, m)" by (auto simp: vfs_write_def fd_node_def Let_def)
  with inv rep vfs_frame_refl [of v v] show ?thesis by auto
next
  case True
  let ?k = "fd_node v fd" and ?x = "node_at v (fd_node v fd)" and ?off = "write_off v fd"
  have fd: "fd_ok v fd" "buf \<noteq> 0" "n_type ?x = VFS_TYPE_FILE" using True by auto
  have ok: "tree_ok v" and dok: "data_ok (nodes v) L" using inv by (auto simp: vfs_inv_def)
  note D = tree_okD [OF ok]
  have node: "is_node v ?k" by (rule file_is_node [OF ok fd(1,3)])
  then have k: "0 \<le> ?k" "?k < int VFS_MAX_NODES" by (auto simp: is_node_def)
  have len: "nat ?k < length (nodes v)" "nat fd < length (open_files v)"
    using k D(2,3) fd(1) by (auto simp: fd_ok_def)
  have c: "content_ok ?x L" using data_okD(1) [OF dok len(1)] by (simp add: node_at_def)
  have e: "unat (?off + n) = unat ?off + unat n" using bound by (intro unat_add64) simp
  then have "unat (?off + n) \<le> 2 ^ 61" using bound by simp
  from ensure_capacity_ok [OF rep c fd(3) this] obtain r x m1 L' where
    ec: "ensure_capacity ?x (?off + n) m = Ret (r, x, m1)" and g: "grown ?x m L x m1 L'"
    and r: "r = 0 \<and> ?off + n \<le> capacity x \<or> r = - 1 \<and> x = ?x \<and> L' = L \<and> mem_ram m1 = mem_ram m" by blast
  have G: "mem_rep m1 L'" "content_ok x L'" "n_used x = n_used ?x" "n_type x = n_type ?x" "parent x = parent ?x"
    "n_name x = n_name ?x" "\<And>q j. L q = Some j \<Longrightarrow> q \<noteq> n_data ?x \<Longrightarrow> L' q = Some j"
    "n_data x = n_data ?x \<or> L (n_data x) = None"
    using g unfolding grown_def by auto
  from r show ?thesis
  proof
    assume r: "r = - 1 \<and> x = ?x \<and> L' = L \<and> mem_ram m1 = mem_ram m"
    with vfs_write_fail [OF fd len] ec obtain h where h: "vfs_write fd buf n v m = Ret (- 1, upd_open fd h v, m1)"
      "\<forall>f. o_node (h f) = o_node f \<and> o_used (h f) = o_used f" by blast
    have "vfs_inv (upd_open fd h v) L" by (rule upd_open_inv [OF inv fd(1)]) (use h(2) in simp)
    with h(1) G(1) r vfs_frame_refl [of "upd_open fd h v" v] show ?thesis by auto
  next
    assume r: "r = 0 \<and> ?off + n \<le> capacity x"
    let ?x' = "if n_size x < ?off + n then x\<lparr>n_size := ?off + n\<rparr> else x"
    let ?v' = "upd_open fd (\<lambda>f. f\<lparr>offset := ?off + n\<rparr>) (upd_node ?k (\<lambda>_. ?x') v)"
    let ?m' = "m1\<lparr>mem_ram := memcpy (n_data x + ?off) buf n (mem_ram m1)\<rparr>"
    have run: "vfs_write fd buf n v m = Ret (sint n, ?v', ?m')"
      using vfs_write_run [OF fd len] ec r by simp
    have sn: "sint n = uint n" by (rule sint_small64) (use bound in simp)
    have data': "n_data ?x' = n_data x" "n_used ?x' = n_used ?x" "n_type ?x' = n_type ?x" "parent ?x' = parent ?x"
      "n_name ?x' = n_name ?x" using G(3-6) by auto
    have c': "content_ok ?x' L'" using G(2,4) r fd(3) by (auto simp: content_ok_def)
    have fresh: "n_data ?x' = n_data ?x \<or> L (n_data ?x') = None" using G(8) data'(1) by simp
    have "vfs_inv (upd_node ?k (\<lambda>_. ?x') v) L'"
      by (rule upd_content_inv [OF inv node data'(2-5) c' G(7) fresh])
    then have inv': "vfs_inv ?v' L'" by (rule upd_open_inv) (use fd(1) in simp_all)
    have rep': "mem_rep ?m' L'" using G(1) kheap.rep_set_ram by simp
    have "vfs_frame v L (upd_node ?k (\<lambda>_. ?x') v) L'"
      by (rule vfs_frame_upd [OF k(1) len(1) G(7) fresh kheap.live_nonnull [OF rep]])
    then have frame: "vfs_frame v L ?v' L'" by (simp add: vfs_frame_def vfs_ptrs_def)
    have at': "node_at ?v' ?k = ?x'" using node_at_upd [of ?k v ?k "\<lambda>_. ?x'"] k D(2) by simp
    have fd': "fd_ok ?v' fd" "fd_node ?v' fd = ?k" "offset (open_files ?v' ! nat fd) = ?off + n"
      using fd(1) len(2) by (simp_all add: fd_ok_def fd_node_def upd_open_def)
    have "written fd buf n v m L ?v' ?m' L'"
      by (rule written_grown [OF g _ e fd(3) refl refl fd' at']) (use r in simp)
    with run sn inv' rep' frame show ?thesis by auto
  qed
qed

end
