(* ===== verification/Proc.thy ===== *)
theory Proc
  imports Memctx Vfs_Data
begin

text \<open>
  The process table of \<^verbatim>\<open>kernel/proc.c\<close>: creation, the current process, termination and reaping, the
  per-process file descriptors over the file tree, and the memory of a process as a memory context.
  The static variables of the file and those of the components it calls are the fields of \<open>kernel\<close>.
  Loading and starting a program is in theory \<open>Proc_Exec\<close>, on top of the ELF loader, which itself
  allocates through \<open>proc_alloc\<close>.
\<close>

section \<open>State\<close>

record proc_info_t =
  pi_pid :: int
  pi_parent_pid :: int
  pi_state :: int
  pi_exit_status :: int
  pi_memctx :: int
  pi_name :: string
  pi_cwd :: string
  pi_exe_path :: string
  entry_point :: addr
  image_base :: addr
  image_size :: u64
  requested_base :: addr
  requested_end :: addr
  stack_pointer :: addr

record proc_entry =
  info :: proc_info_t
  p_used :: bool
  fds :: "int list"

record kernel =
  kmem :: mem_state
  kctx :: memctx_state
  kvfs :: vfs_state
  procs :: "proc_entry list"
  next_pid :: int
  current_pid :: int

definition PROC_MAX :: nat where "PROC_MAX = 16"
definition PROC_MAX_FDS :: nat where "PROC_MAX_FDS = 16"
definition PROC_NAME_MAX :: nat where "PROC_NAME_MAX = 31"
definition PROC_EXEC_PATH_MAX :: nat where "PROC_EXEC_PATH_MAX = VFS_MAX_PATH"
definition PROC_STACK_SIZE :: u64 where "PROC_STACK_SIZE = 4096"
definition PROC_STATE_UNUSED :: int where "PROC_STATE_UNUSED = 0"
definition PROC_STATE_READY :: int where "PROC_STATE_READY = 1"
definition PROC_STATE_RUNNING :: int where "PROC_STATE_RUNNING = 2"
definition PROC_STATE_EXITED :: int where "PROC_STATE_EXITED = 3"
definition PROC_STATE_ZOMBIE :: int where "PROC_STATE_ZOMBIE = 4"
definition PROC_STATE_DEAD :: int where "PROC_STATE_DEAD = 5"
definition PROC_ERR_NOT_FOUND :: int where "PROC_ERR_NOT_FOUND = - 3"
definition PROC_ERR_PROTECTED :: int where "PROC_ERR_PROTECTED = - 13"
definition PROC_ERR_NOMEM :: int where "PROC_ERR_NOMEM = - 12"
definition PROC_ERR_INVALID_STATE :: int where "PROC_ERR_INVALID_STATE = - 22"

lemmas proc_consts = PROC_STATE_UNUSED_def PROC_STATE_READY_def PROC_STATE_RUNNING_def PROC_STATE_EXITED_def
  PROC_STATE_ZOMBIE_def PROC_STATE_DEAD_def PROC_ERR_NOT_FOUND_def PROC_ERR_PROTECTED_def PROC_ERR_NOMEM_def
  PROC_ERR_INVALID_STATE_def

text \<open>The all-zero structures that \<open>memset\<close> leaves; the descriptors of such an entry are 0, not -1.\<close>

definition no_info :: proc_info_t where
  "no_info = \<lparr>pi_pid = 0, pi_parent_pid = 0, pi_state = PROC_STATE_UNUSED, pi_exit_status = 0, pi_memctx = 0,
     pi_name = [], pi_cwd = [], pi_exe_path = [], entry_point = 0, image_base = 0, image_size = 0,
     requested_base = 0, requested_end = 0, stack_pointer = 0\<rparr>"

definition no_proc :: proc_entry where
  "no_proc = \<lparr>info = no_info, p_used = False, fds = replicate PROC_MAX_FDS 0\<rparr>"

definition upd_proc :: "nat \<Rightarrow> (proc_entry \<Rightarrow> proc_entry) \<Rightarrow> kernel \<Rightarrow> kernel" where
  "upd_proc i f k = k\<lparr>procs := (procs k)[i := f (procs k ! i)]\<rparr>"

definition upd_info :: "nat \<Rightarrow> (proc_info_t \<Rightarrow> proc_info_t) \<Rightarrow> kernel \<Rightarrow> kernel" where
  "upd_info i f = upd_proc i (\<lambda>p. p\<lparr>info := f (info p)\<rparr>)"

section \<open>Lookup and names\<close>

definition proc_is_terminal_state :: "int \<Rightarrow> bool" where
  "proc_is_terminal_state st \<longleftrightarrow> st = PROC_STATE_EXITED \<or> st = PROC_STATE_ZOMBIE \<or> st = PROC_STATE_DEAD"

definition find_proc :: "int \<Rightarrow> kernel \<Rightarrow> nat option" where
  "find_proc pid k = find_slot (\<lambda>p. p_used p \<and> pi_pid (info p) = pid) (procs k)"

definition copy_text :: "nat \<Rightarrow> string option \<Rightarrow> string" where
  "copy_text dst_len src = take (dst_len - 1) (case src of None \<Rightarrow> [] | Some s \<Rightarrow> s)"

fun basename_loop :: "string \<Rightarrow> string \<Rightarrow> string" where
  "basename_loop b [] = b"
| "basename_loop b (c # cs) = basename_loop (if c = CHR ''/'' then cs else b) cs"

definition basename_from_path :: "string option \<Rightarrow> string option" where
  "basename_from_path path =
     (let s = (case path of None \<Rightarrow> [] | Some s \<Rightarrow> s); b = basename_loop s s
      in if b \<noteq> [] then Some b else path)"

section \<open>Creation and the current process\<close>

definition proc_init :: "kernel \<Rightarrow> kernel" where
  "proc_init k = k\<lparr>procs := replicate PROC_MAX no_proc, next_pid := 1, current_pid := 0, kctx := memctx_init (kctx k)\<rparr>"

definition proc_create :: "string option \<Rightarrow> int \<Rightarrow> kernel \<Rightarrow> int \<times> kernel" where
  "proc_create name parent_pid k =
     (if parent_pid \<noteq> 0 \<and> find_proc parent_pid k = None then (- 1, k)
      else if parent_pid = 0 \<and> next_pid k \<noteq> 1 then (- 1, k)
      else case find_slot (\<lambda>p. \<not> p_used p) (procs k) of
        None \<Rightarrow> (PROC_ERR_NOMEM, k)
      | Some i \<Rightarrow>
          let pid = next_pid k;
              (cid, ctx) = memctx_create pid 0 (kctx k);
              k = k\<lparr>next_pid := pid + 1, kctx := ctx\<rparr>
          in if cid < 0 then (PROC_ERR_NOMEM, upd_proc i (\<lambda>_. no_proc) k)
             else (pid, upd_proc i (\<lambda>_. \<lparr>info = no_info\<lparr>pi_pid := pid, pi_parent_pid := parent_pid, pi_state := PROC_STATE_READY,
                       pi_memctx := cid, pi_name := copy_text (PROC_NAME_MAX + 1) name,
                       pi_cwd := copy_text VFS_MAX_PATH (Some ''/'')\<rparr>,
                     p_used = True, fds = replicate PROC_MAX_FDS (- 1)\<rparr>) k))"

definition proc_set_current :: "int \<Rightarrow> kernel \<Rightarrow> int \<times> kernel" where
  "proc_set_current pid k =
     (case find_proc pid k of
        None \<Rightarrow> (- 1, k)
      | Some i \<Rightarrow>
          if proc_is_terminal_state (pi_state (info (procs k ! i))) then (- 1, k)
          else
            let k = (if current_pid k \<noteq> 0 then
                       case find_proc (current_pid k) k of
                         None \<Rightarrow> k
                       | Some j \<Rightarrow>
                           if pi_state (info (procs k ! j)) = PROC_STATE_RUNNING
                           then upd_info j (\<lambda>x. x\<lparr>pi_state := PROC_STATE_READY\<rparr>) k else k
                     else k);
                k = k\<lparr>current_pid := pid\<rparr>
            in (0, upd_info i (\<lambda>x. x\<lparr>pi_state := PROC_STATE_RUNNING\<rparr>) k))"

definition proc_current_pid :: "kernel \<Rightarrow> int" where
  "proc_current_pid k = current_pid k"

definition proc_current_valid :: "kernel \<Rightarrow> bool" where
  "proc_current_valid k =
     (case find_proc (current_pid k) k of
        None \<Rightarrow> False
      | Some i \<Rightarrow> 0 < current_pid k \<and> pi_state (info (procs k ! i)) = PROC_STATE_RUNNING)"

section \<open>Termination and reaping\<close>

fun close_fds :: "int list \<Rightarrow> vfs_state \<Rightarrow> vfs_state" where
  "close_fds [] v = v"
| "close_fds (fd # fs) v = close_fds fs (if 0 \<le> fd then snd (vfs_close fd v) else v)"

definition proc_exit_locked :: "int \<Rightarrow> int \<Rightarrow> kernel \<Rightarrow> (int \<times> kernel) outcome" where
  "proc_exit_locked pid status k =
     (case find_proc pid k of
        None \<Rightarrow> Ret (PROC_ERR_NOT_FOUND, k)
      | Some i \<Rightarrow>
          if proc_is_terminal_state (pi_state (info (procs k ! i))) then Ret (PROC_ERR_INVALID_STATE, k)
          else if pid = 1 then Panic ''init process exited''
          else
            let k = k\<lparr>kvfs := close_fds (fds (procs k ! i)) (kvfs k)\<rparr>;
                k = upd_proc i (\<lambda>p. p\<lparr>fds := map (\<lambda>fd. if 0 \<le> fd then - 1 else fd) (fds p)\<rparr>) k;
                k = (if pid \<noteq> 1 then
                       k\<lparr>procs := map (\<lambda>p. if p_used p \<and> pi_parent_pid (info p) = pid
                                        then p\<lparr>info := (info p)\<lparr>pi_parent_pid := 1\<rparr>\<rparr> else p) (procs k)\<rparr>
                     else k);
                k = upd_info i (\<lambda>x. x\<lparr>pi_exit_status := status, pi_state := PROC_STATE_EXITED\<rparr>) k
            in Ret (0, if current_pid k = pid then k\<lparr>current_pid := 0\<rparr> else k))"

definition proc_exit :: "int \<Rightarrow> int \<Rightarrow> kernel \<Rightarrow> (int \<times> kernel) outcome" where
  "proc_exit pid status k = proc_exit_locked pid status k"

text \<open>The caller's status pointer may be null; the status written is returned.\<close>

definition proc_wait :: "int \<Rightarrow> int \<Rightarrow> addr \<Rightarrow> kernel \<Rightarrow> (int \<times> int option \<times> kernel) outcome" where
  "proc_wait parent_pid child_pid status k =
     (case find_proc child_pid k of
        None \<Rightarrow> Ret (- 1, None, k)
      | Some i \<Rightarrow>
          let child = info (procs k ! i) in
          if pi_parent_pid child \<noteq> parent_pid \<or> pi_state child \<noteq> PROC_STATE_EXITED then Ret (- 1, None, k)
          else bind_outcome (memctx_destroy (pi_memctx child) (kctx k) (kmem k)) (\<lambda>(_, ctx, m).
            Ret (child_pid, if status \<noteq> 0 then Some (pi_exit_status child) else None,
                 upd_proc i (\<lambda>_. no_proc) (k\<lparr>kctx := ctx, kmem := m\<rparr>))))"

definition proc_info :: "int \<Rightarrow> addr \<Rightarrow> kernel \<Rightarrow> int \<times> proc_info_t option" where
  "proc_info pid ptr k =
     (case find_proc pid k of
        None \<Rightarrow> (- 1, None)
      | Some i \<Rightarrow> if ptr = 0 then (- 1, None) else (0, Some (info (procs k ! i))))"

definition proc_kill :: "int \<Rightarrow> int \<Rightarrow> kernel \<Rightarrow> (int \<times> kernel) outcome" where
  "proc_kill pid status k =
     (if pid \<le> 0 then Ret (PROC_ERR_NOT_FOUND, k)
      else if pid = 1 then Ret (PROC_ERR_PROTECTED, k)
      else case find_proc pid k of
        None \<Rightarrow> Ret (PROC_ERR_NOT_FOUND, k)
      | Some i \<Rightarrow>
          if proc_is_terminal_state (pi_state (info (procs k ! i))) then Ret (PROC_ERR_INVALID_STATE, k)
          else proc_exit_locked pid status k)"

definition proc_list :: "addr \<Rightarrow> u64 \<Rightarrow> kernel \<Rightarrow> int \<times> proc_info_t list" where
  "proc_list infos max_infos k =
     (if infos = 0 \<and> max_infos \<noteq> 0 then (- 1, [])
      else let used = filter p_used (procs k)
           in (int (length used), map info (take (unat max_infos) used)))"

section \<open>Memory\<close>

definition proc_alloc :: "int \<Rightarrow> u64 \<Rightarrow> kernel \<Rightarrow> (addr \<times> kernel) outcome" where
  "proc_alloc pid sz k =
     (case find_proc pid k of
        None \<Rightarrow> Ret (0, k)
      | Some i \<Rightarrow>
          bind_outcome (memctx_alloc (pi_memctx (info (procs k ! i))) sz (kctx k) (kmem k)) (\<lambda>(p, ctx, m).
            Ret (p, k\<lparr>kctx := ctx, kmem := m\<rparr>)))"

definition proc_free :: "int \<Rightarrow> addr \<Rightarrow> kernel \<Rightarrow> (int \<times> kernel) outcome" where
  "proc_free pid ptr k =
     (case find_proc pid k of
        None \<Rightarrow> Ret (- 1, k)
      | Some i \<Rightarrow>
          bind_outcome (memctx_free (pi_memctx (info (procs k ! i))) ptr (kctx k) (kmem k)) (\<lambda>(r, ctx, m).
            Ret (r, k\<lparr>kctx := ctx, kmem := m\<rparr>)))"

section \<open>File descriptors\<close>

definition proc_open :: "int \<Rightarrow> string option \<Rightarrow> int \<Rightarrow> kernel \<Rightarrow> (int \<times> kernel) outcome" where
  "proc_open pid path flags k =
     (case find_proc pid k of
        None \<Rightarrow> Ret (- 1, k)
      | Some i \<Rightarrow>
          if proc_is_terminal_state (pi_state (info (procs k ! i))) then Ret (- 1, k)
          else bind_outcome (vfs_open path flags (kvfs k) (kmem k)) (\<lambda>(rfd, v, m).
            let k = k\<lparr>kvfs := v, kmem := m\<rparr> in
            if rfd < 0 then Ret (- 1, k)
            else case find_slot (\<lambda>fd. fd < 0) (fds (procs k ! i)) of
                   Some fd \<Rightarrow> Ret (int fd, upd_proc i (\<lambda>p. p\<lparr>fds := (fds p)[fd := rfd]\<rparr>) k)
                 | None \<Rightarrow> Ret (- 1, k\<lparr>kvfs := snd (vfs_close rfd (kvfs k))\<rparr>)))"

definition real_fd :: "nat option \<Rightarrow> int \<Rightarrow> kernel \<Rightarrow> int" where
  "real_fd proc fd k =
     (case proc of
        None \<Rightarrow> - 1
      | Some i \<Rightarrow> if fd < 0 \<or> int PROC_MAX_FDS \<le> fd then - 1 else fds (procs k ! i) ! nat fd)"

definition proc_read :: "int \<Rightarrow> int \<Rightarrow> addr \<Rightarrow> u64 \<Rightarrow> kernel \<Rightarrow> int \<times> kernel" where
  "proc_read pid fd buf len k =
     (let (r, v, m) = vfs_read (real_fd (find_proc pid k) fd k) buf len (kvfs k) (kmem k)
      in (r, k\<lparr>kvfs := v, kmem := m\<rparr>))"

definition proc_write :: "int \<Rightarrow> int \<Rightarrow> addr \<Rightarrow> u64 \<Rightarrow> kernel \<Rightarrow> (int \<times> kernel) outcome" where
  "proc_write pid fd buf len k =
     bind_outcome (vfs_write (real_fd (find_proc pid k) fd k) buf len (kvfs k) (kmem k)) (\<lambda>(r, v, m).
       Ret (r, k\<lparr>kvfs := v, kmem := m\<rparr>))"

definition proc_lseek :: "int \<Rightarrow> int \<Rightarrow> int \<Rightarrow> int \<Rightarrow> kernel \<Rightarrow> int \<times> kernel" where
  "proc_lseek pid fd off whence k =
     (let (r, v) = vfs_lseek (real_fd (find_proc pid k) fd k) off whence (kvfs k) in (r, k\<lparr>kvfs := v\<rparr>))"

definition proc_close :: "int \<Rightarrow> int \<Rightarrow> kernel \<Rightarrow> int \<times> kernel" where
  "proc_close pid fd k =
     (let proc = find_proc pid k; backing = real_fd proc fd k in
      case proc of
        None \<Rightarrow> (- 1, k)
      | Some i \<Rightarrow>
          if backing < 0 then (- 1, k)
          else let k = upd_proc i (\<lambda>p. p\<lparr>fds := (fds p)[nat fd := - 1]\<rparr>) k;
                   (r, v) = vfs_close backing (kvfs k)
               in (r, k\<lparr>kvfs := v\<rparr>))"

definition proc_dup :: "int \<Rightarrow> int \<Rightarrow> kernel \<Rightarrow> int \<times> kernel" where
  "proc_dup pid oldfd k =
     (let proc = find_proc pid k; backing = real_fd proc oldfd k in
      case proc of
        None \<Rightarrow> (- 1, k)
      | Some i \<Rightarrow>
          if backing < 0 then (- 1, k)
          else case find_slot (\<lambda>fd. fd < 0) (fds (procs k ! i)) of
                 Some fd \<Rightarrow> (int fd, upd_proc i (\<lambda>p. p\<lparr>fds := (fds p)[fd := backing]\<rparr>) k)
               | None \<Rightarrow> (- 1, k))"

definition proc_dup2 :: "int \<Rightarrow> int \<Rightarrow> int \<Rightarrow> kernel \<Rightarrow> int \<times> kernel" where
  "proc_dup2 pid oldfd newfd k =
     (let proc = find_proc pid k; backing = real_fd proc oldfd k in
      case proc of
        None \<Rightarrow> (- 1, k)
      | Some i \<Rightarrow>
          if backing < 0 \<or> newfd < 0 \<or> int PROC_MAX_FDS \<le> newfd then (- 1, k)
          else
            let old = fds (procs k ! i) ! nat newfd;
                k = (if 0 \<le> old \<and> old \<noteq> backing then k\<lparr>kvfs := snd (vfs_close old (kvfs k))\<rparr> else k)
            in (newfd, upd_proc i (\<lambda>p. p\<lparr>fds := (fds p)[nat newfd := backing]\<rparr>) k))"

end
