(* ===== verification/Proc_Inv.thy ===== *)
theory Proc_Inv
  imports Proc
begin

unbundle bit_operations_syntax

text \<open>
  The invariant that ties the process table to the components below it, and that every operation of
  \<^verbatim>\<open>kernel/proc.c\<close> keeps it. The heap, the memory contexts and the file tree are each well formed, the
  blocks of contexts and files are different ones, process ids are distinct, the only running process is
  the current one, every process has a memory context of its own and every context has its process, and
  the init process is alive once it was created.
\<close>

section \<open>Blocks of contexts and of files\<close>

definition ctx_ptrs :: "memctx_state \<Rightarrow> addr set" where
  "ctx_ptrs cs = {mb_ptr b |b. b \<in> set (ctx_blocks cs) \<and> mb_ptr b \<noteq> 0}"

lemma vfs_inv_cong:
  assumes inv: "vfs_inv v L" and eq: "\<And>q. q \<in> vfs_ptrs v \<Longrightarrow> L' q = L q"
  shows "vfs_inv v L'"
proof -
  have "content_ok (nodes v ! i) L'" if i: "i < length (nodes v)" for i
  proof -
    have "content_ok (nodes v ! i) L" using inv i by (simp add: vfs_inv_def data_ok_def)
    moreover have "n_data (nodes v ! i) \<noteq> 0 \<Longrightarrow> L' (n_data (nodes v ! i)) = L (n_data (nodes v ! i))"
      using i by (intro eq) (auto simp: vfs_ptrs_def)
    ultimately show ?thesis by (auto simp: content_ok_def)
  qed
  with inv show ?thesis by (simp add: vfs_inv_def data_ok_def)
qed

lemma memctx_inv_cong:
  assumes inv: "memctx_inv cs L" and eq: "\<And>q. q \<in> ctx_ptrs cs \<Longrightarrow> L' q = L q"
  shows "memctx_inv cs L'"
proof -
  have "L' (mb_ptr (ctx_blocks cs ! j)) = L (mb_ptr (ctx_blocks cs ! j))"
    if "j < length (ctx_blocks cs)" "mb_ptr (ctx_blocks cs ! j) \<noteq> 0" for j
    using that by (intro eq) (auto simp: ctx_ptrs_def)
  with inv show ?thesis by (simp add: memctx_inv_def blocks_ok_def)
qed

lemma ctx_ptrs_upd: "ctx_ptrs (cs\<lparr>ctx_blocks := (ctx_blocks cs)[j := b]\<rparr>) \<subseteq> insert (mb_ptr b) (ctx_ptrs cs)"
  using set_update_subset_insert by (fastforce simp: ctx_ptrs_def)

lemma upd_stats_fields [simp]:
  "ctx_blocks (upd_stats i f cs) = ctx_blocks cs" "next_ctx_id (upd_stats i f cs) = next_ctx_id cs"
  "ctx_ptrs (upd_stats i f cs) = ctx_ptrs cs"
  by (simp_all add: upd_stats_def ctx_ptrs_def)

lemma active_ids_upd_stats: "find_ctx cid cs = Some i \<Longrightarrow> active_ids (contexts (upd_stats i f cs)) = active_ids (contexts cs)"
  using find_ctxD(1) [of cid cs i] by (simp add: upd_stats_def active_ids_upd)

lemma memctx_alloc_ptrs:
  assumes "memctx_alloc cid sz cs m = Ret (p, cs', m')"
  shows "ctx_ptrs cs' \<subseteq> insert p (ctx_ptrs cs) \<and> active_ids (contexts cs') = active_ids (contexts cs)"
proof -
  let ?cs = "\<lambda>i j p. upd_stats i (stats_add sz) (cs\<lparr>ctx_blocks := (ctx_blocks cs)[j := \<lparr>mb_ptr = p, mb_size = sz, mb_ctx = cid\<rparr>]\<rparr>)"
  have "cs' = cs \<or> (\<exists>i j. find_ctx cid cs = Some i \<and> cs' = ?cs i j p)"
    using assms by (auto simp: memctx_alloc_def memctx_alloc_with_def Let_def bind_outcome_Ret_iff split: if_splits option.splits)
  moreover have "active_ids (contexts (?cs i j p)) = active_ids (contexts cs)" if "find_ctx cid cs = Some i" for i j
    using active_ids_upd_stats [of cid "cs\<lparr>ctx_blocks := (ctx_blocks cs)[j := \<lparr>mb_ptr = p, mb_size = sz, mb_ctx = cid\<rparr>]\<rparr>" i]
      that by (simp add: find_ctx_def)
  moreover have "ctx_ptrs (?cs i j p) \<subseteq> insert p (ctx_ptrs cs)" for i j
    using ctx_ptrs_upd [of cs j "\<lparr>mb_ptr = p, mb_size = sz, mb_ctx = cid\<rparr>"] by simp
  ultimately show ?thesis by blast
qed

lemma memctx_free_ptrs:
  assumes "memctx_free cid p cs m = Ret (r, cs', m')"
  shows "ctx_ptrs cs' \<subseteq> ctx_ptrs cs \<and> active_ids (contexts cs') = active_ids (contexts cs)"
proof -
  let ?cs = "\<lambda>i j sz. upd_stats i (stats_sub sz) cs\<lparr>ctx_blocks := (ctx_blocks cs)[j := no_block]\<rparr>"
  have "cs' = cs \<or> (\<exists>i j sz. find_ctx cid cs = Some i \<and> cs' = ?cs i j sz)"
    using assms by (auto simp: memctx_free_def memctx_free_with_def Let_def bind_outcome_Ret_iff split: if_splits option.splits)
  moreover have "active_ids (contexts (?cs i j sz)) = active_ids (contexts cs)" if "find_ctx cid cs = Some i" for i j sz
    using active_ids_upd_stats [OF that] by simp
  moreover have "ctx_ptrs (?cs i j sz) \<subseteq> ctx_ptrs cs" for i j sz
  proof -
    have "ctx_ptrs (?cs i j sz) = ctx_ptrs (cs\<lparr>ctx_blocks := (ctx_blocks cs)[j := no_block]\<rparr>)" by (simp add: ctx_ptrs_def)
    moreover have "0 \<notin> ctx_ptrs c" for c by (auto simp: ctx_ptrs_def)
    ultimately show ?thesis using ctx_ptrs_upd [of cs j no_block] by (auto simp: no_block_def)
  qed
  ultimately show ?thesis by blast
qed

lemma free_ctx_blocks_ptrs:
  "free_ctx_blocks_with rel cid is bs s = Ret (bs', s') \<Longrightarrow> {mb_ptr b |b. b \<in> set bs' \<and> mb_ptr b \<noteq> 0} \<subseteq> {mb_ptr b |b. b \<in> set bs \<and> mb_ptr b \<noteq> 0}"
proof (induction "is" arbitrary: bs s)
  case (Cons i "is")
  show ?case
  proof (cases "mb_ptr (bs ! i) \<noteq> 0 \<and> mb_ctx (bs ! i) = cid")
    case True
    with Cons.prems obtain s1 where "free_ctx_blocks_with rel cid is (bs[i := no_block]) s1 = Ret (bs', s')"
      by (auto simp: bind_outcome_Ret_iff)
    from Cons.IH [OF this] have "{mb_ptr b |b. b \<in> set bs' \<and> mb_ptr b \<noteq> 0} \<subseteq> {mb_ptr b |b. b \<in> set (bs[i := no_block]) \<and> mb_ptr b \<noteq> 0}" .
    also have "\<dots> \<subseteq> {mb_ptr b |b. b \<in> insert no_block (set bs) \<and> mb_ptr b \<noteq> 0}" using set_update_subset_insert by fast
    also have "\<dots> = {mb_ptr b |b. b \<in> set bs \<and> mb_ptr b \<noteq> 0}" by (auto simp: no_block_def)
    finally show ?thesis .
  next
    case False
    with Cons show ?thesis by auto
  qed
qed simp

lemma memctx_destroy_ptrs:
  assumes "memctx_destroy cid cs m = Ret (r, cs', m')" and inv: "memctx_inv cs L"
  shows "ctx_ptrs cs' \<subseteq> ctx_ptrs cs \<and> active_ids (contexts cs') = active_ids (contexts cs) - {cid}"
proof (cases "find_ctx cid cs")
  case None
  then have "cid \<notin> active_ids (contexts cs)" by (auto simp: find_ctx_def find_slot_None_iff active_ids_def)
  with None assms(1) show ?thesis by (auto simp: memctx_destroy_def memctx_destroy_with_def)
next
  case (Some i)
  have ctx: "ctxs_ok (contexts cs) (next_ctx_id cs)" using inv by (simp add: memctx_inv_def)
  from assms(1) Some obtain bs where
    bs: "free_ctx_blocks_with mem_free cid [0..<MEMCTX_MAX_BLOCKS] (ctx_blocks cs) m = Ret (bs, m')"
      "cs' = cs\<lparr>ctx_blocks := bs, contexts := (contexts cs)[i := no_ctx]\<rparr>"
    by (auto simp: memctx_destroy_def memctx_destroy_with_def bind_outcome_Ret_iff)
  show ?thesis using free_ctx_blocks_ptrs [OF bs(1)] ctx_drop(2) [OF ctx Some] bs(2) by (simp add: ctx_ptrs_def)
qed

lemma memctx_create_facts:
  assumes run: "memctx_create pid q cs = (cid, cs')" and inv: "memctx_inv cs L"
  shows "ctx_blocks cs' = ctx_blocks cs"
    and "cid < 0 \<Longrightarrow> cs' = cs \<and> card (active_ids (contexts cs)) = MEMCTX_MAX_CONTEXTS"
    and "0 \<le> cid \<Longrightarrow> active_ids (contexts cs') = insert cid (active_ids (contexts cs)) \<and> cid \<notin> active_ids (contexts cs)"
proof -
  have ctx: "ctxs_ok (contexts cs) (next_ctx_id cs)" using inv by (simp add: memctx_inv_def)
  have ids: "d < next_ctx_id cs" if "d \<in> active_ids (contexts cs)" for d
    using that ctx by (auto simp: active_ids_def ctxs_ok_def in_set_conv_nth)
  show "ctx_blocks cs' = ctx_blocks cs" using run by (auto simp: memctx_create_def Let_def split: option.splits)
  show "cs' = cs \<and> card (active_ids (contexts cs)) = MEMCTX_MAX_CONTEXTS" if "cid < 0"
  proof -
    have none: "find_slot (\<lambda>c. \<not> ctx_active c) (contexts cs) = None" "cs' = cs"
      using run that ctx by (auto simp: memctx_create_def Let_def ctxs_ok_def split: option.splits)
    then have act: "ctx_active (contexts cs ! i)" if "i < length (contexts cs)" for i
      using that by (auto simp: find_slot_None_nth)
    have "active_ids (contexts cs) = (\<lambda>i. ctx_id (contexts cs ! i)) ` {..<length (contexts cs)}"
      using act by (auto simp: active_ids_def in_set_conv_nth)
    moreover have "inj_on (\<lambda>i. ctx_id (contexts cs ! i)) {..<length (contexts cs)}"
      using ctx act by (auto simp: ctxs_ok_def inj_on_def)
    ultimately show ?thesis using none(2) ctx by (simp add: card_image ctxs_ok_def)
  qed
  show "active_ids (contexts cs') = insert cid (active_ids (contexts cs)) \<and> cid \<notin> active_ids (contexts cs)" if "0 \<le> cid"
  proof -
    from run that obtain i where i: "find_slot (\<lambda>c. \<not> ctx_active c) (contexts cs) = Some i" "cid = next_ctx_id cs"
      by (auto simp: memctx_create_def Let_def split: option.splits)
    let ?c = "\<lparr>ctx_active = True, ctx_id = cid, ctx_owner_pid = pid,
       ctx_stats = \<lparr>st_quota = q, st_used = 0, st_peak = 0, st_allocations = 0\<rparr>\<rparr>"
    have cs': "contexts cs' = (contexts cs)[i := ?c]" using run i by (auto simp: memctx_create_def Let_def)
    have il: "i < length (contexts cs)" "\<not> ctx_active (contexts cs ! i)" using find_slot_SomeD [OF i(1)] by auto
    have "active_ids ((contexts cs)[i := ?c]) = insert cid (active_ids (contexts cs))"
    proof
      show "active_ids ((contexts cs)[i := ?c]) \<subseteq> insert cid (active_ids (contexts cs))"
        using set_update_subset_insert by (fastforce simp: active_ids_def)
      have "?c \<in> set ((contexts cs)[i := ?c])" using il(1) by (simp add: set_update_memI)
      then have "cid \<in> active_ids ((contexts cs)[i := ?c])" unfolding active_ids_def by force
      moreover have "d \<in> active_ids ((contexts cs)[i := ?c])" if "d \<in> active_ids (contexts cs)" for d
      proof -
        from that obtain j where j: "j < length (contexts cs)" "ctx_active (contexts cs ! j)" "d = ctx_id (contexts cs ! j)"
          by (auto simp: active_ids_def in_set_conv_nth)
        then have "(contexts cs)[i := ?c] ! j = contexts cs ! j" using il(2) by (cases "j = i") auto
        then have "contexts cs ! j \<in> set ((contexts cs)[i := ?c])" using j(1) by (metis length_list_update nth_mem)
        with j show ?thesis unfolding active_ids_def by blast
      qed
      ultimately show "insert cid (active_ids (contexts cs)) \<subseteq> active_ids ((contexts cs)[i := ?c])" by blast
    qed
    with cs' ids [of cid] i(2) show ?thesis by auto
  qed
qed

section \<open>The process table\<close>

definition live_procs :: "proc_entry list \<Rightarrow> proc_entry set" where
  "live_procs ps = {p \<in> set ps. p_used p}"

text \<open>Process ids and context ids identify the entries in use; ids lie below the next one to be given.\<close>

definition table_ok :: "proc_entry list \<Rightarrow> int \<Rightarrow> bool" where
  "table_ok ps n \<longleftrightarrow> length ps = PROC_MAX \<and> 0 < n \<and>
     (\<forall>i<length ps. p_used (ps ! i) \<longrightarrow> 0 < pi_pid (info (ps ! i)) \<and> pi_pid (info (ps ! i)) < n) \<and>
     (\<forall>i<length ps. \<forall>j<length ps. p_used (ps ! i) \<longrightarrow> p_used (ps ! j) \<longrightarrow>
        pi_pid (info (ps ! i)) = pi_pid (info (ps ! j)) \<or> pi_memctx (info (ps ! i)) = pi_memctx (info (ps ! j)) \<longrightarrow> i = j)"

definition fds_ok :: "proc_entry list \<Rightarrow> bool" where
  "fds_ok ps \<longleftrightarrow> (\<forall>i<length ps. p_used (ps ! i) \<longrightarrow> length (fds (ps ! i)) = PROC_MAX_FDS \<and>
     (\<forall>fd\<in>set (fds (ps ! i)). - 1 \<le> fd \<and> fd < int VFS_MAX_OPEN))"

definition run_ok :: "proc_entry list \<Rightarrow> int \<Rightarrow> bool" where
  "run_ok ps cur \<longleftrightarrow>
     (\<forall>i<length ps. p_used (ps ! i) \<longrightarrow> pi_state (info (ps ! i)) = PROC_STATE_RUNNING \<longrightarrow> pi_pid (info (ps ! i)) = cur) \<and>
     (cur \<noteq> 0 \<longrightarrow> (\<exists>i<length ps. p_used (ps ! i) \<and> pi_pid (info (ps ! i)) = cur \<and> pi_state (info (ps ! i)) = PROC_STATE_RUNNING))"

definition init_ok :: "proc_entry list \<Rightarrow> int \<Rightarrow> bool" where
  "init_ok ps n \<longleftrightarrow> (1 < n \<longrightarrow> (\<exists>i<length ps. p_used (ps ! i) \<and> pi_pid (info (ps ! i)) = 1 \<and>
     \<not> proc_is_terminal_state (pi_state (info (ps ! i)))))"

definition mem_ok :: "mem_state \<Rightarrow> memctx_state \<Rightarrow> vfs_state \<Rightarrow> (addr \<rightharpoonup> u64) \<Rightarrow> bool" where
  "mem_ok m cs v L \<longleftrightarrow> mem_rep m L \<and> memctx_inv cs L \<and> vfs_inv v L \<and> ctx_ptrs cs \<inter> vfs_ptrs v = {}"

definition kernel_inv :: "kernel \<Rightarrow> (addr \<rightharpoonup> u64) \<Rightarrow> bool" where
  "kernel_inv k L \<longleftrightarrow> mem_ok (kmem k) (kctx k) (kvfs k) L \<and> table_ok (procs k) (next_pid k) \<and> fds_ok (procs k) \<and>
     run_ok (procs k) (current_pid k) \<and> init_ok (procs k) (next_pid k) \<and>
     active_ids (contexts (kctx k)) = (\<lambda>p. pi_memctx (info p)) ` live_procs (procs k)"

section \<open>Memory and files\<close>

lemma vfs_ptrs_live:
  assumes "vfs_inv v L" and "q \<in> vfs_ptrs v"
  shows "L q \<noteq> None"
proof -
  from assms(2) obtain i where i: "i < length (nodes v)" "q = n_data (nodes v ! i)" "q \<noteq> 0"
    by (auto simp: vfs_ptrs_def in_set_conv_nth)
  from assms(1) i(1) have "content_ok (nodes v ! i) L" by (simp add: vfs_inv_def data_ok_def)
  with i show ?thesis by (auto simp: content_ok_def)
qed

lemma ctx_ptrs_live: "memctx_inv cs L \<Longrightarrow> q \<in> ctx_ptrs cs \<Longrightarrow> L q \<noteq> None"
  by (auto simp: memctx_inv_def blocks_ok_def ctx_ptrs_def in_set_conv_nth)

lemma mem_ok_alloc:
  assumes ok: "mem_ok m cs v L" and sz: "unat sz \<le> 2 ^ 62"
  shows "\<exists>p cs' m' L'. memctx_alloc cid sz cs m = Ret (p, cs', m') \<and> mem_ok m' cs' v L' \<and>
    active_ids (contexts cs') = active_ids (contexts cs) \<and> mem_ram m' = mem_ram m \<and>
    (p = 0 \<and> cs' = cs \<and> L' = L \<or> p \<noteq> 0 \<and> (\<exists>k. sz \<le> k \<and> L p = None \<and> L' = L(p \<mapsto> k)))"
proof -
  have rep: "mem_rep m L" "memctx_inv cs L" "vfs_inv v L" "ctx_ptrs cs \<inter> vfs_ptrs v = {}" using ok by (auto simp: mem_ok_def)
  from kheap.memctx_alloc_law [OF rep(1,2) sz, of cid] obtain p cs' m' where
    r: "memctx_alloc cid sz cs m = Ret (p, cs', m')" "mem_ram m' = mem_ram m"
      "if p = 0 then cs' = cs \<and> mem_rep m' L
       else \<exists>k. sz \<le> k \<and> L p = None \<and> mem_rep m' (L(p \<mapsto> k)) \<and> memctx_inv cs' (L(p \<mapsto> k))"
    unfolding memctx_alloc_def by blast
  note ptrs = memctx_alloc_ptrs [OF r(1)]
  show ?thesis
  proof (cases "p = 0")
    case True
    with r rep ptrs show ?thesis by (auto simp: mem_ok_def)
  next
    case False
    with r(3) obtain k where k: "sz \<le> k" "L p = None" "mem_rep m' (L(p \<mapsto> k))" "memctx_inv cs' (L(p \<mapsto> k))" by auto
    have "p \<notin> vfs_ptrs v" using vfs_ptrs_live [OF rep(3)] k(2) by blast
    moreover from this have "vfs_inv v (L(p \<mapsto> k))" by (intro vfs_inv_cong [OF rep(3)]) auto
    ultimately have "mem_ok m' cs' v (L(p \<mapsto> k))" using k(3,4) rep(4) ptrs by (auto simp: mem_ok_def)
    with r(1,2) ptrs False k(1,2) show ?thesis by blast
  qed
qed

lemma mem_ok_free:
  assumes ok: "mem_ok m cs v L"
  shows "\<exists>r cs' m' L'. memctx_free cid p cs m = Ret (r, cs', m') \<and> mem_ok m' cs' v L' \<and>
    active_ids (contexts cs') = active_ids (contexts cs) \<and> (r = 0 \<and> L' = L(p := None) \<or> r = - 1 \<and> L' = L)"
proof -
  have rep: "mem_rep m L" "memctx_inv cs L" "vfs_inv v L" "ctx_ptrs cs \<inter> vfs_ptrs v = {}" using ok by (auto simp: mem_ok_def)
  from kheap.memctx_free_law [OF rep(1,2), of cid p] obtain r cs' m' where
    r: "memctx_free cid p cs m = Ret (r, cs', m')"
      "r = 0 \<and> p \<in> dom L \<and> find_block cid p cs \<noteq> None \<and> mem_rep m' (L(p := None)) \<and> memctx_inv cs' (L(p := None)) \<or>
       r = - 1 \<and> cs' = cs \<and> m' = m" unfolding memctx_free_def by blast
  note ptrs = memctx_free_ptrs [OF r(1)]
  from r(2) show ?thesis
  proof
    assume c: "r = 0 \<and> p \<in> dom L \<and> find_block cid p cs \<noteq> None \<and> mem_rep m' (L(p := None)) \<and> memctx_inv cs' (L(p := None))"
    then have "p \<noteq> 0" using kheap.live_nonnull [OF rep(1)] by auto
    moreover from c obtain j where "find_slot (\<lambda>b. mb_ptr b = p \<and> mb_ctx b = cid) (ctx_blocks cs) = Some j"
      by (auto simp: find_block_def)
    ultimately have "p \<in> ctx_ptrs cs" using find_slot_SomeD by (fastforce simp: ctx_ptrs_def)
    then have "p \<notin> vfs_ptrs v" using rep(4) by blast
    then have "vfs_inv v (L(p := None))" by (intro vfs_inv_cong [OF rep(3)]) auto
    then have "mem_ok m' cs' v (L(p := None))" using c rep(4) ptrs by (auto simp: mem_ok_def)
    with r(1) ptrs c show ?thesis by blast
  next
    assume "r = - 1 \<and> cs' = cs \<and> m' = m"
    with r(1) ok show ?thesis by auto
  qed
qed

lemma mem_ok_destroy:
  assumes ok: "mem_ok m cs v L" and act: "cid \<in> active_ids (contexts cs)"
  shows "\<exists>cs' m'. memctx_destroy cid cs m = Ret (0, cs', m') \<and>
    mem_ok m' cs' v (L |` (- owned cid [0..<MEMCTX_MAX_BLOCKS] (ctx_blocks cs))) \<and>
    active_ids (contexts cs') = active_ids (contexts cs) - {cid}"
proof -
  have rep: "mem_rep m L" "memctx_inv cs L" "vfs_inv v L" "ctx_ptrs cs \<inter> vfs_ptrs v = {}" using ok by (auto simp: mem_ok_def)
  let ?L = "L |` (- owned cid [0..<MEMCTX_MAX_BLOCKS] (ctx_blocks cs))"
  from act obtain i where "find_ctx cid cs = Some i"
    by (cases "find_ctx cid cs") (auto simp: find_ctx_def find_slot_None_iff active_ids_def)
  from kheap.memctx_destroy_law [OF rep(1,2) this] obtain cs' m' where
    r: "memctx_destroy cid cs m = Ret (0, cs', m')" "mem_rep m' ?L" "memctx_inv cs' ?L" unfolding memctx_destroy_def by blast
  note ptrs = memctx_destroy_ptrs [OF r(1) rep(2)]
  have len: "length (ctx_blocks cs) = MEMCTX_MAX_BLOCKS" using rep(2) by (simp add: memctx_inv_def blocks_ok_def)
  have "q \<in> ctx_ptrs cs" if "q \<in> owned cid [0..<MEMCTX_MAX_BLOCKS] (ctx_blocks cs)" for q
    using that len by (auto simp: owned_def ctx_ptrs_def)
  then have "?L q = L q" if "q \<in> vfs_ptrs v" for q using that rep(4) by (auto simp: restrict_map_def)
  then have "vfs_inv v ?L" by (rule vfs_inv_cong [OF rep(3)])
  then have "mem_ok m' cs' v ?L" using r rep(4) ptrs by (auto simp: mem_ok_def)
  with r(1) ptrs show ?thesis by blast
qed

lemma mem_ok_write:
  assumes ok: "mem_ok m cs v L" and bound: "unat (write_off v fd) + unat n \<le> 2 ^ 61"
  shows "\<exists>r v' m' L'. vfs_write fd buf n v m = Ret (r, v', m') \<and> mem_ok m' cs v' L'"
proof -
  have rep: "mem_rep m L" "memctx_inv cs L" "vfs_inv v L" "ctx_ptrs cs \<inter> vfs_ptrs v = {}" using ok by (auto simp: mem_ok_def)
  from vfs_write_ok [OF rep(3,1) bound, of buf] obtain r v' m' L' where
    r: "vfs_write fd buf n v m = Ret (r, v', m')" "mem_rep m' L'" "vfs_inv v' L'" "vfs_frame v L v' L'" by blast
  have keep: "L' q = L q" if "q \<in> ctx_ptrs cs" for q
  proof -
    from ctx_ptrs_live [OF rep(2) that] obtain j where "L q = Some j" by auto
    moreover have "q \<notin> vfs_ptrs v" using that rep(4) by blast
    ultimately show ?thesis using r(4) by (auto simp: vfs_frame_def)
  qed
  have "memctx_inv cs L'" by (rule memctx_inv_cong [OF rep(2) keep])
  moreover have "ctx_ptrs cs \<inter> vfs_ptrs v' = {}"
    using r(4) rep(4) ctx_ptrs_live [OF rep(2)] by (fastforce simp: vfs_frame_def)
  ultimately show ?thesis using r by (auto simp: mem_ok_def)
qed

lemma mem_ok_vfs:
  "mem_ok m cs v L \<Longrightarrow> vfs_inv v' L \<Longrightarrow> mem_rep m' L \<Longrightarrow> vfs_ptrs v' \<subseteq> vfs_ptrs v \<Longrightarrow> mem_ok m' cs v' L"
  by (auto simp: mem_ok_def)

lemma vfs_ptrs_upd:
  assumes "nodes v' = (nodes v)[j := x]" and "n_data x = 0 \<or> n_data x \<in> vfs_ptrs v"
  shows "vfs_ptrs v' \<subseteq> vfs_ptrs v"
proof
  fix q assume "q \<in> vfs_ptrs v'"
  then obtain y where y: "y \<in> set ((nodes v)[j := x])" "q = n_data y" "n_data y \<noteq> 0" by (auto simp: vfs_ptrs_def assms(1))
  from y(1) have "y = x \<or> y \<in> set (nodes v)" using set_update_subset_insert by fast
  with y assms(2) show "q \<in> vfs_ptrs v" by (auto simp: vfs_ptrs_def)
qed

lemma alloc_node_ptrs:
  assumes "alloc_node ty par name v = (i, v')"
  shows "vfs_ptrs v' \<subseteq> vfs_ptrs v"
proof (cases "find_slot (\<lambda>n. \<not> n_used n) (nodes v)")
  case (Some j)
  with assms show ?thesis
    by (intro vfs_ptrs_upd [of v' v j "no_node\<lparr>n_used := True, inode := next_inode v, n_type := ty,
       parent := par, n_name := copy_name name\<rparr>"]) (auto simp: alloc_node_def no_node_def)
qed (use assms in \<open>simp add: alloc_node_def\<close>)

lemma open_slot_fd:
  assumes "open_slot n flags v = (fd, v')" and "length (open_files v) = VFS_MAX_OPEN"
  shows "- 1 \<le> fd \<and> fd < int VFS_MAX_OPEN \<and> nodes v' = nodes v"
proof (cases "find_slot (\<lambda>f. \<not> o_used f) (open_files v)")
  case (Some i)
  with find_slot_SomeD [OF Some] assms show ?thesis by (auto simp: open_slot_def)
qed (use assms in \<open>auto simp: open_slot_def VFS_MAX_OPEN_def\<close>)

lemma upd_node_size_ptrs: "vfs_ptrs (upd_node k (\<lambda>_. (node_at v k)\<lparr>n_size := sz\<rparr>) v) \<subseteq> vfs_ptrs v"
proof (cases "nat k < length (nodes v)")
  case True
  then have "node_at v k \<in> set (nodes v)" by (simp add: node_at_def)
  then show ?thesis
    by (intro vfs_ptrs_upd [of _ v "nat k" "(node_at v k)\<lparr>n_size := sz\<rparr>"]) (auto simp: upd_node_def vfs_ptrs_def)
qed (simp add: vfs_ptrs_def upd_node_def list_update_beyond)

lemma vfs_open_ptrs:
  assumes run: "vfs_open path flags v m = Ret (fd, v', m')" and len: "length (open_files v) = VFS_MAX_OPEN"
  shows "vfs_ptrs v' \<subseteq> vfs_ptrs v" "- 1 \<le> fd" "fd < int VFS_MAX_OPEN"
proof -
  let ?nv = "if resolve_path v path < 0 \<and> flags AND VFS_O_CREAT \<noteq> 0
     then case resolve_parent v path of None \<Rightarrow> (- 1, v) | Some (par, leaf) \<Rightarrow> alloc_node VFS_TYPE_FILE par leaf v
     else (resolve_path v path, v)"
  obtain n v1 where nv: "?nv = (n, v1)" by fastforce
  have v1: "vfs_ptrs v1 \<subseteq> vfs_ptrs v \<and> length (open_files v1) = VFS_MAX_OPEN"
  proof (cases "resolve_path v path < 0 \<and> flags AND VFS_O_CREAT \<noteq> 0")
    case True
    show ?thesis
    proof (cases "resolve_parent v path")
      case (Some pl)
      obtain par leaf where pl: "pl = (par, leaf)" by fastforce
      then have "alloc_node VFS_TYPE_FILE par leaf v = (n, v1)" using nv True Some by simp
      from alloc_node_ptrs [OF this] this len show ?thesis by (auto simp: alloc_node_def split: option.splits)
    qed (use nv True len in simp)
  qed (use nv len in auto)
  let ?v2 = "if flags AND VFS_O_TRUNC \<noteq> 0 \<and> n_type (node_at v1 n) = VFS_TYPE_FILE
     then upd_node n (\<lambda>_. (node_at v1 n)\<lparr>n_size := 0\<rparr>) v1 else v1"
  have fail: "(fd, v') = (- 1, v1) \<or> (fd, v') = open_slot n flags ?v2"
    using run unfolding vfs_open_def nv Let_def
    by (auto simp: ensure_capacity_0 split: if_splits prod.splits)
  have v2: "vfs_ptrs ?v2 \<subseteq> vfs_ptrs v" "length (open_files ?v2) = VFS_MAX_OPEN"
    using v1 upd_node_size_ptrs [where k = n and v = v1 and sz = 0] by auto
  from fail have "vfs_ptrs v' \<subseteq> vfs_ptrs v \<and> - 1 \<le> fd \<and> fd < int VFS_MAX_OPEN"
  proof
    assume "(fd, v') = open_slot n flags ?v2"
    from open_slot_fd [OF this [symmetric] v2(2)] v2(1) show ?thesis by (simp add: vfs_ptrs_def)
  qed (use v1 in \<open>simp add: VFS_MAX_OPEN_def\<close>)
  then show "vfs_ptrs v' \<subseteq> vfs_ptrs v" "- 1 \<le> fd" "fd < int VFS_MAX_OPEN" by auto
qed

lemma mem_ok_open:
  assumes ok: "mem_ok m cs v L"
  shows "\<exists>fd v'. vfs_open path flags v m = Ret (fd, v', m) \<and> mem_ok m cs v' L \<and> - 1 \<le> fd \<and> fd < int VFS_MAX_OPEN"
proof -
  have rep: "mem_rep m L" "vfs_inv v L" using ok by (auto simp: mem_ok_def)
  from vfs_open_ok [OF rep(2), of path flags m] obtain fd v' where
    r: "vfs_open path flags v m = Ret (fd, v', m)" "vfs_inv v' L" by blast
  have "length (open_files v) = VFS_MAX_OPEN" using rep(2) by (simp add: vfs_inv_def tree_ok_def)
  from vfs_open_ptrs [OF r(1) this] r mem_ok_vfs [OF ok r(2) rep(1)] show ?thesis by auto
qed

lemma mem_ok_close: "mem_ok m cs v L \<Longrightarrow> mem_ok m cs (snd (vfs_close fd v)) L"
proof -
  assume ok: "mem_ok m cs v L"
  have "vfs_inv (snd (vfs_close fd v)) L" using ok vfs_close_inv [of v L fd] by (cases "vfs_close fd v") (auto simp: mem_ok_def)
  moreover have "vfs_ptrs (snd (vfs_close fd v)) = vfs_ptrs v" by (auto simp: vfs_close_def vfs_ptrs_def)
  ultimately show ?thesis using ok mem_ok_vfs [OF ok] by (auto simp: mem_ok_def)
qed

lemma mem_ok_close_fds: "mem_ok m cs v L \<Longrightarrow> mem_ok m cs (close_fds fs v) L"
  by (induction fs arbitrary: v) (auto intro: mem_ok_close)

lemma mem_ok_read:
  assumes ok: "mem_ok m cs v L" and run: "vfs_read fd buf n v m = (r, v', m')"
  shows "mem_ok m' cs v' L"
proof -
  have "vfs_inv v' L \<and> mem_rep m' L" using ok run by (intro vfs_read_inv) (auto simp: mem_ok_def)
  moreover have "vfs_ptrs v' = vfs_ptrs v" using run by (auto simp: vfs_read_def Let_def vfs_ptrs_def split: if_splits)
  ultimately show ?thesis using mem_ok_vfs [OF ok] by auto
qed

lemma mem_ok_lseek:
  assumes ok: "mem_ok m cs v L" and run: "vfs_lseek fd off wh v = (r, v')"
  shows "mem_ok m cs v' L"
proof -
  have rep: "mem_rep m L" "vfs_inv v L" using ok by (auto simp: mem_ok_def)
  have "nodes v' = nodes v" using run by (auto simp: vfs_lseek_def Let_def split: if_splits option.splits)
  then have "vfs_ptrs v' \<subseteq> vfs_ptrs v" by (simp add: vfs_ptrs_def)
  then show ?thesis by (rule mem_ok_vfs [OF ok vfs_lseek_inv [OF rep(2) run] rep(1)])
qed

end
