(* ===== verification/Proc_Steps.thy ===== *)
theory Proc_Steps
  imports Proc_Inv
begin

text \<open>
  Every operation of the process table keeps the invariant, and those that may panic or loop in
  general return in a state that satisfies it.
\<close>

section \<open>Changes that keep the identity of the entries\<close>

definition same_ids :: "proc_entry list \<Rightarrow> proc_entry list \<Rightarrow> bool" where
  "same_ids ps ps' \<longleftrightarrow> length ps' = length ps \<and>
     (\<forall>i<length ps. p_used (ps' ! i) = p_used (ps ! i) \<and> pi_pid (info (ps' ! i)) = pi_pid (info (ps ! i)) \<and>
        pi_memctx (info (ps' ! i)) = pi_memctx (info (ps ! i)))"

lemma same_ids_table: "same_ids ps ps' \<Longrightarrow> table_ok ps n \<Longrightarrow> table_ok ps' n"
  unfolding same_ids_def table_ok_def by simp

lemma live_image: "(\<lambda>p. pi_memctx (info p)) ` live_procs ps = {pi_memctx (info (ps ! i)) |i. i < length ps \<and> p_used (ps ! i)}"
  by (auto simp: live_procs_def in_set_conv_nth)

lemma same_ids_live: "same_ids ps ps' \<Longrightarrow> (\<lambda>p. pi_memctx (info p)) ` live_procs ps' = (\<lambda>p. pi_memctx (info p)) ` live_procs ps"
  unfolding live_image same_ids_def by (intro Collect_cong) metis

lemma same_ids_trans: "same_ids ps qs \<Longrightarrow> same_ids qs rs \<Longrightarrow> same_ids ps rs"
  by (simp add: same_ids_def)

lemma upd_proc_fields [simp]:
  "kmem (upd_proc i f k) = kmem k" "kctx (upd_proc i f k) = kctx k" "kvfs (upd_proc i f k) = kvfs k"
  "next_pid (upd_proc i f k) = next_pid k" "current_pid (upd_proc i f k) = current_pid k"
  "procs (upd_proc i f k) = (procs k)[i := f (procs k ! i)]"
  by (simp_all add: upd_proc_def)

lemma find_procD:
  assumes "find_proc pid k = Some i"
  shows "i < length (procs k)" "p_used (procs k ! i)" "pi_pid (info (procs k ! i)) = pid"
  using find_slot_SomeD [OF assms [unfolded find_proc_def]] by auto

lemma find_proc_None: "find_proc pid k = None \<longleftrightarrow> (\<forall>i<length (procs k). p_used (procs k ! i) \<longrightarrow> pi_pid (info (procs k ! i)) \<noteq> pid)"
  by (auto simp: find_proc_def find_slot_None_nth)

lemma find_proc_eq:
  assumes "table_ok (procs k) n" and "i < length (procs k)" and "p_used (procs k ! i)" and "pi_pid (info (procs k ! i)) = pid"
  shows "find_proc pid k = Some i"
proof (cases "find_proc pid k")
  case None
  with assms show ?thesis by (auto simp: find_proc_None)
next
  case (Some j)
  note D = find_procD [OF Some]
  have "j = i" using assms D unfolding table_ok_def by blast
  with Some show ?thesis by simp
qed

lemma kernel_invD:
  assumes "kernel_inv k L"
  shows "mem_ok (kmem k) (kctx k) (kvfs k) L" "table_ok (procs k) (next_pid k)" "fds_ok (procs k)"
    "run_ok (procs k) (current_pid k)" "init_ok (procs k) (next_pid k)"
    "active_ids (contexts (kctx k)) = (\<lambda>p. pi_memctx (info p)) ` live_procs (procs k)"
  using assms by (auto simp: kernel_inv_def)

text \<open>Replacing one entry by another with the same ids.\<close>

lemma same_ids_upd:
  assumes "i < length ps" and "p_used x = p_used (ps ! i)" and "pi_pid (info x) = pi_pid (info (ps ! i))"
    and "pi_memctx (info x) = pi_memctx (info (ps ! i))"
  shows "same_ids ps (ps[i := x])"
  using assms by (auto simp: same_ids_def nth_list_update)

lemma fds_ok_upd:
  assumes "fds_ok ps" and "p_used x \<Longrightarrow> length (fds x) = PROC_MAX_FDS \<and> (\<forall>fd\<in>set (fds x). - 1 \<le> fd \<and> fd < int VFS_MAX_OPEN)"
  shows "fds_ok (ps[i := x])"
  unfolding fds_ok_def
proof (intro allI impI)
  fix j assume j: "j < length (ps[i := x])" "p_used (ps[i := x] ! j)"
  then show "length (fds (ps[i := x] ! j)) = PROC_MAX_FDS \<and> (\<forall>fd\<in>set (fds (ps[i := x] ! j)). - 1 \<le> fd \<and> fd < int VFS_MAX_OPEN)"
    using assms by (cases "j = i") (auto simp: fds_ok_def)
qed

lemma run_ok_same:
  assumes "run_ok ps cur" and "length ps' = length ps"
    and "\<And>j. j < length ps \<Longrightarrow> p_used (ps' ! j) = p_used (ps ! j) \<and> pi_pid (info (ps' ! j)) = pi_pid (info (ps ! j)) \<and>
      pi_state (info (ps' ! j)) = pi_state (info (ps ! j))"
  shows "run_ok ps' cur"
  using assms unfolding run_ok_def by metis

lemma init_ok_same:
  assumes "init_ok ps n" and "length ps' = length ps"
    and "\<And>j. j < length ps \<Longrightarrow> p_used (ps ! j) \<Longrightarrow> pi_pid (info (ps ! j)) = 1 \<Longrightarrow> \<not> proc_is_terminal_state (pi_state (info (ps ! j))) \<Longrightarrow>
      p_used (ps' ! j) \<and> pi_pid (info (ps' ! j)) = 1 \<and> \<not> proc_is_terminal_state (pi_state (info (ps' ! j)))"
  shows "init_ok ps' n"
  using assms unfolding init_ok_def by metis

text \<open>An operation that changes only the descriptors of one process and the components below.\<close>

lemma kernel_inv_fds:
  assumes inv: "kernel_inv k L" and i: "i < length (procs k)" and mem: "mem_ok (kmem k') (kctx k') (kvfs k') L'"
    and act: "active_ids (contexts (kctx k')) = active_ids (contexts (kctx k))"
    and fs: "length fs = PROC_MAX_FDS" "\<forall>fd\<in>set fs. - 1 \<le> fd \<and> fd < int VFS_MAX_OPEN"
    and k': "procs k' = (procs k)[i := (procs k ! i)\<lparr>fds := fs\<rparr>]" "next_pid k' = next_pid k" "current_pid k' = current_pid k"
  shows "kernel_inv k' L'"
proof -
  note D = kernel_invD [OF inv]
  let ?ps = "(procs k)[i := (procs k ! i)\<lparr>fds := fs\<rparr>]"
  have same: "same_ids (procs k) ?ps" by (rule same_ids_upd [OF i]) simp_all
  have nth: "?ps ! j = (if j = i then (procs k ! i)\<lparr>fds := fs\<rparr> else procs k ! j)" if "j < length (procs k)" for j
    using that by (simp add: nth_list_update)
  have "run_ok ?ps (current_pid k)" by (rule run_ok_same [OF D(4)]) (simp_all add: nth)
  moreover have "init_ok ?ps (next_pid k)" by (rule init_ok_same [OF D(5)]) (auto simp: nth)
  moreover have "fds_ok ?ps" by (rule fds_ok_upd [OF D(3)]) (use fs in simp)
  ultimately show ?thesis
    using mem act D(6) same_ids_table [OF same D(2)] same_ids_live [OF same] k' by (simp add: kernel_inv_def)
qed

lemma kernel_inv_mem:
  assumes "kernel_inv k L" and "mem_ok (kmem k') (kctx k') (kvfs k') L'"
    and "active_ids (contexts (kctx k')) = active_ids (contexts (kctx k))"
    and "procs k' = procs k" "next_pid k' = next_pid k" "current_pid k' = current_pid k"
  shows "kernel_inv k' L'"
  using assms by (simp add: kernel_inv_def)

lemma fds_okD:
  assumes "fds_ok ps" and "i < length ps" and "p_used (ps ! i)"
  shows "length (fds (ps ! i)) = PROC_MAX_FDS" "fd \<in> set (fds (ps ! i)) \<Longrightarrow> - 1 \<le> fd" "fd \<in> set (fds (ps ! i)) \<Longrightarrow> fd < int VFS_MAX_OPEN"
  using assms by (auto simp: fds_ok_def)

lemma fds_set:
  assumes "fds_ok ps" and "i < length ps" and "p_used (ps ! i)" and "- 1 \<le> x" and "x < int VFS_MAX_OPEN"
  shows "length ((fds (ps ! i))[j := x]) = PROC_MAX_FDS" "\<forall>fd\<in>set ((fds (ps ! i))[j := x]). - 1 \<le> fd \<and> fd < int VFS_MAX_OPEN"
proof -
  note D = fds_okD [OF assms(1-3)]
  show "length ((fds (ps ! i))[j := x]) = PROC_MAX_FDS" using D(1) by simp
  have "set ((fds (ps ! i))[j := x]) \<subseteq> insert x (set (fds (ps ! i)))" by (rule set_update_subset_insert)
  with D(2,3) assms(4,5) show "\<forall>fd\<in>set ((fds (ps ! i))[j := x]). - 1 \<le> fd \<and> fd < int VFS_MAX_OPEN" by blast
qed

section \<open>Files\<close>

lemma real_fd_range:
  assumes inv: "kernel_inv k L" and "find_proc pid k = Some i"
  shows "- 1 \<le> real_fd (Some i) fd k \<and> real_fd (Some i) fd k < int VFS_MAX_OPEN"
proof -
  note D = find_procD [OF assms(2)]
  note F = fds_okD [OF kernel_invD(3) [OF inv] D(1,2)]
  show ?thesis using F(1) F(2,3) [of "fds (procs k ! i) ! nat fd"] by (auto simp: real_fd_def VFS_MAX_OPEN_def)
qed

lemma proc_open_inv:
  assumes inv: "kernel_inv k L"
  shows "\<exists>r k'. proc_open pid path flags k = Ret (r, k') \<and> kernel_inv k' L"
proof (cases "find_proc pid k")
  case None
  with inv show ?thesis by (simp add: proc_open_def)
next
  case (Some i)
  note P = find_procD [OF Some] and D = kernel_invD [OF inv]
  from mem_ok_open [OF D(1), of path flags] obtain fd v where
    r: "vfs_open path flags (kvfs k) (kmem k) = Ret (fd, v, kmem k)" "mem_ok (kmem k) (kctx k) v L" "- 1 \<le> fd" "fd < int VFS_MAX_OPEN" by blast
  have same: "kernel_inv (k\<lparr>kvfs := v\<rparr>) L" by (rule kernel_inv_mem [OF inv]) (use r in simp_all)
  have closed: "kernel_inv (k\<lparr>kvfs := snd (vfs_close fd v)\<rparr>) L"
    by (rule kernel_inv_mem [OF inv]) (use mem_ok_close [OF r(2)] in simp_all)
  have slot: "kernel_inv (upd_proc i (\<lambda>p. p\<lparr>fds := (fds p)[j := fd]\<rparr>) (k\<lparr>kvfs := v\<rparr>)) L" for j
    by (rule kernel_inv_fds [OF inv P(1) _ _ fds_set [OF D(3) P(1,2) r(3,4), of j]]) (use r(2) in simp_all)
  show ?thesis using Some r(1) inv same closed slot by (auto simp: proc_open_def Let_def split: option.splits)
qed

lemma proc_read_inv:
  assumes inv: "kernel_inv k L" and run: "proc_read pid fd buf n k = (r, k')"
  shows "kernel_inv k' L"
proof -
  obtain r1 v m where v: "vfs_read (real_fd (find_proc pid k) fd k) buf n (kvfs k) (kmem k) = (r1, v, m)" by (metis prod_cases3)
  from mem_ok_read [OF kernel_invD(1) [OF inv] v] show ?thesis
    by (intro kernel_inv_mem [OF inv]) (use run v in \<open>auto simp: proc_read_def\<close>)
qed

lemma proc_lseek_inv:
  assumes inv: "kernel_inv k L" and run: "proc_lseek pid fd off wh k = (r, k')"
  shows "kernel_inv k' L"
proof -
  obtain r1 v where v: "vfs_lseek (real_fd (find_proc pid k) fd k) off wh (kvfs k) = (r1, v)" by fastforce
  from mem_ok_lseek [OF kernel_invD(1) [OF inv] v] show ?thesis
    by (intro kernel_inv_mem [OF inv]) (use run v in \<open>auto simp: proc_lseek_def\<close>)
qed

lemma proc_write_inv:
  assumes inv: "kernel_inv k L" and bound: "unat (write_off (kvfs k) (real_fd (find_proc pid k) fd k)) + unat n \<le> 2 ^ 61"
  shows "\<exists>r k' L'. proc_write pid fd buf n k = Ret (r, k') \<and> kernel_inv k' L'"
proof -
  from mem_ok_write [OF kernel_invD(1) [OF inv] bound, of buf] obtain r v m L' where
    w: "vfs_write (real_fd (find_proc pid k) fd k) buf n (kvfs k) (kmem k) = Ret (r, v, m)" "mem_ok m (kctx k) v L'" by blast
  have "kernel_inv (k\<lparr>kvfs := v, kmem := m\<rparr>) L'" by (rule kernel_inv_mem [OF inv]) (use w in simp_all)
  with w(1) show ?thesis by (auto simp: proc_write_def)
qed

lemma proc_close_inv:
  assumes inv: "kernel_inv k L" and run: "proc_close pid fd k = (r, k')"
  shows "kernel_inv k' L"
proof (cases "find_proc pid k")
  case None
  with assms show ?thesis by (simp add: proc_close_def Let_def)
next
  case (Some i)
  note P = find_procD [OF Some] and D = kernel_invD [OF inv]
  let ?b = "real_fd (Some i) fd k"
  let ?k = "upd_proc i (\<lambda>p. p\<lparr>fds := (fds p)[nat fd := - 1]\<rparr>) k"
  have "kernel_inv (?k\<lparr>kvfs := snd (vfs_close ?b (kvfs k))\<rparr>) L"
    by (rule kernel_inv_fds [OF inv P(1) _ _ fds_set [OF D(3) P(1,2), of "- 1" "nat fd"]])
       (use mem_ok_close [OF D(1), of ?b] in \<open>simp_all add: VFS_MAX_OPEN_def\<close>)
  with run inv Some show ?thesis by (auto simp: proc_close_def Let_def split: if_splits prod.splits)
qed

lemma proc_dup_inv:
  assumes inv: "kernel_inv k L" and run: "proc_dup pid fd k = (r, k')"
  shows "kernel_inv k' L"
proof (cases "find_proc pid k")
  case None
  with assms show ?thesis by (simp add: proc_dup_def Let_def)
next
  case (Some i)
  note P = find_procD [OF Some] and D = kernel_invD [OF inv]
  let ?b = "real_fd (Some i) fd k"
  have b: "- 1 \<le> ?b" "?b < int VFS_MAX_OPEN" using real_fd_range [OF inv Some] by auto
  have "kernel_inv (upd_proc i (\<lambda>p. p\<lparr>fds := (fds p)[j := ?b]\<rparr>) k) L" for j
    by (rule kernel_inv_fds [OF inv P(1) _ _ fds_set [OF D(3) P(1,2) b, of j]]) (use D(1) in simp_all)
  with run inv Some show ?thesis by (auto simp: proc_dup_def Let_def split: if_splits option.splits)
qed

lemma proc_dup2_inv:
  assumes inv: "kernel_inv k L" and run: "proc_dup2 pid fd fd' k = (r, k')"
  shows "kernel_inv k' L"
proof (cases "find_proc pid k")
  case None
  with assms show ?thesis by (simp add: proc_dup2_def Let_def)
next
  case (Some i)
  note P = find_procD [OF Some] and D = kernel_invD [OF inv]
  let ?b = "real_fd (Some i) fd k"
  have b: "- 1 \<le> ?b" "?b < int VFS_MAX_OPEN" using real_fd_range [OF inv Some] by auto
  let ?f = "\<lambda>p. p\<lparr>fds := (fds p)[nat fd' := ?b]\<rparr>"
  note upd = kernel_inv_fds [OF inv P(1) _ _ fds_set [OF D(3) P(1,2) b, of "nat fd'"]]
  have "kernel_inv (upd_proc i ?f k) L" by (rule upd) (use D(1) in simp_all)
  moreover have "kernel_inv (upd_proc i ?f (k\<lparr>kvfs := snd (vfs_close old (kvfs k))\<rparr>)) L" for old
    by (rule upd) (use mem_ok_close [OF D(1)] in simp_all)
  ultimately show ?thesis using run inv Some by (auto simp: proc_dup2_def Let_def split: if_splits)
qed

section \<open>Memory\<close>

lemma proc_alloc_inv:
  assumes inv: "kernel_inv k L" and sz: "unat sz \<le> 2 ^ 62"
  shows "\<exists>p k' L'. proc_alloc pid sz k = Ret (p, k') \<and> kernel_inv k' L' \<and> procs k' = procs k \<and> next_pid k' = next_pid k \<and>
    current_pid k' = current_pid k \<and> kvfs k' = kvfs k \<and> mem_ram (kmem k') = mem_ram (kmem k) \<and>
    (p = 0 \<and> L' = L \<or> p \<noteq> 0 \<and> (\<exists>j. sz \<le> j \<and> L p = None \<and> L' = L(p \<mapsto> j)))"
proof (cases "find_proc pid k")
  case None
  with inv show ?thesis by (simp add: proc_alloc_def)
next
  case (Some i)
  from mem_ok_alloc [OF kernel_invD(1) [OF inv] sz, of "pi_memctx (info (procs k ! i))"] obtain p cs m L' where
    r: "memctx_alloc (pi_memctx (info (procs k ! i))) sz (kctx k) (kmem k) = Ret (p, cs, m)" "mem_ok m cs (kvfs k) L'"
      "active_ids (contexts cs) = active_ids (contexts (kctx k))" "mem_ram m = mem_ram (kmem k)"
      "p = 0 \<and> cs = kctx k \<and> L' = L \<or> p \<noteq> 0 \<and> (\<exists>j. sz \<le> j \<and> L p = None \<and> L' = L(p \<mapsto> j))" by blast
  have "kernel_inv (k\<lparr>kctx := cs, kmem := m\<rparr>) L'" by (rule kernel_inv_mem [OF inv]) (use r in simp_all)
  with r Some show ?thesis by (auto simp: proc_alloc_def)
qed

lemma proc_free_inv:
  assumes inv: "kernel_inv k L"
  shows "\<exists>r k' L'. proc_free pid p k = Ret (r, k') \<and> kernel_inv k' L' \<and> procs k' = procs k \<and> next_pid k' = next_pid k \<and>
    current_pid k' = current_pid k \<and> kvfs k' = kvfs k \<and> (r = 0 \<and> L' = L(p := None) \<or> r = - 1 \<and> L' = L)"
proof (cases "find_proc pid k")
  case None
  with inv show ?thesis by (simp add: proc_free_def)
next
  case (Some i)
  from mem_ok_free [OF kernel_invD(1) [OF inv], of "pi_memctx (info (procs k ! i))" p] obtain r cs m L' where
    r: "memctx_free (pi_memctx (info (procs k ! i))) p (kctx k) (kmem k) = Ret (r, cs, m)" "mem_ok m cs (kvfs k) L'"
      "active_ids (contexts cs) = active_ids (contexts (kctx k))" "r = 0 \<and> L' = L(p := None) \<or> r = - 1 \<and> L' = L" by blast
  have "kernel_inv (k\<lparr>kctx := cs, kmem := m\<rparr>) L'" by (rule kernel_inv_mem [OF inv]) (use r in simp_all)
  with r Some show ?thesis by (auto simp: proc_free_def)
qed

section \<open>Scheduling state\<close>

lemma kernel_inv_states:
  assumes inv: "kernel_inv k L" and ids: "same_ids (procs k) ps" and fs: "\<And>j. j < length (procs k) \<Longrightarrow> fds (ps ! j) = fds (procs k ! j)"
    and run: "run_ok ps cur" and init: "init_ok ps (next_pid k)"
  shows "kernel_inv (k\<lparr>procs := ps, current_pid := cur\<rparr>) L"
proof -
  note D = kernel_invD [OF inv]
  have "fds_ok ps" using D(3) ids fs by (simp add: fds_ok_def same_ids_def)
  then show ?thesis
    using D(1,6) same_ids_table [OF ids D(2)] same_ids_live [OF ids] run init by (simp add: kernel_inv_def)
qed

text \<open>The table after the current process, if any, is set back to ready.\<close>

definition demoted :: "kernel \<Rightarrow> proc_entry list" where
  "demoted k = (if current_pid k \<noteq> 0 then case find_proc (current_pid k) k of None \<Rightarrow> procs k
     | Some j \<Rightarrow> if pi_state (info (procs k ! j)) = PROC_STATE_RUNNING
         then (procs k)[j := (procs k ! j)\<lparr>info := (info (procs k ! j))\<lparr>pi_state := PROC_STATE_READY\<rparr>\<rparr>] else procs k
     else procs k)"

lemma demoted_nth:
  assumes inv: "kernel_inv k L" and j: "j < length (procs k)"
  shows "length (demoted k) = length (procs k)"
    and "p_used (procs k ! j) \<Longrightarrow> demoted k ! j = (procs k ! j)\<lparr>info := (info (procs k ! j))\<lparr>pi_state :=
       (if pi_state (info (procs k ! j)) = PROC_STATE_RUNNING then PROC_STATE_READY else pi_state (info (procs k ! j)))\<rparr>\<rparr>"
    and "\<not> p_used (procs k ! j) \<Longrightarrow> demoted k ! j = procs k ! j"
proof -
  note D = kernel_invD [OF inv]
  show "length (demoted k) = length (procs k)" by (auto simp: demoted_def split: option.splits)
  have cur: "pi_state (info (procs k ! i)) = PROC_STATE_RUNNING \<Longrightarrow> pi_pid (info (procs k ! i)) = current_pid k"
    if "i < length (procs k)" "p_used (procs k ! i)" for i using D(4) that by (simp add: run_ok_def)
  have both: "(p_used (procs k ! j) \<longrightarrow> demoted k ! j = (procs k ! j)\<lparr>info := (info (procs k ! j))\<lparr>pi_state :=
       (if pi_state (info (procs k ! j)) = PROC_STATE_RUNNING then PROC_STATE_READY else pi_state (info (procs k ! j)))\<rparr>\<rparr>) \<and>
     (\<not> p_used (procs k ! j) \<longrightarrow> demoted k ! j = procs k ! j)"
  proof (cases "current_pid k = 0")
    case True
    then have "\<not> (p_used (procs k ! j) \<and> pi_state (info (procs k ! j)) = PROC_STATE_RUNNING)"
      using cur [OF j] D(2) j by (auto simp: table_ok_def)
    with True show ?thesis by (auto simp: demoted_def)
  next
    case False
    then obtain c where c: "c < length (procs k)" "p_used (procs k ! c)" "pi_pid (info (procs k ! c)) = current_pid k"
      "pi_state (info (procs k ! c)) = PROC_STATE_RUNNING" using D(4) by (auto simp: run_ok_def)
    have f: "find_proc (current_pid k) k = Some c" by (rule find_proc_eq [OF D(2) c(1-3)])
    have eq: "j = c" if "p_used (procs k ! j)" "pi_state (info (procs k ! j)) = PROC_STATE_RUNNING"
      using cur [OF j that] find_proc_eq [OF D(2) j that(1)] f by auto
    show ?thesis using False f c eq by (auto simp: demoted_def nth_list_update)
  qed
  then show "p_used (procs k ! j) \<Longrightarrow> demoted k ! j = (procs k ! j)\<lparr>info := (info (procs k ! j))\<lparr>pi_state :=
       (if pi_state (info (procs k ! j)) = PROC_STATE_RUNNING then PROC_STATE_READY else pi_state (info (procs k ! j)))\<rparr>\<rparr>"
    "\<not> p_used (procs k ! j) \<Longrightarrow> demoted k ! j = procs k ! j" by blast+
qed

lemma proc_set_current_eq:
  assumes "find_proc pid k = Some i" and "\<not> proc_is_terminal_state (pi_state (info (procs k ! i)))"
  shows "proc_set_current pid k = (0, k\<lparr>procs := (demoted k)[i := (demoted k ! i)\<lparr>info := (info (demoted k ! i))\<lparr>pi_state := PROC_STATE_RUNNING\<rparr>\<rparr>],
    current_pid := pid\<rparr>)"
  using assms by (auto simp: proc_set_current_def demoted_def Let_def upd_info_def upd_proc_def split: option.splits)

lemma proc_set_current_inv:
  assumes inv: "kernel_inv k L" and run: "proc_set_current pid k = (r, k')"
  shows "kernel_inv k' L"
proof (cases "\<exists>i. find_proc pid k = Some i \<and> \<not> proc_is_terminal_state (pi_state (info (procs k ! i)))")
  case False
  then have "proc_set_current pid k = (- 1, k)" by (cases "find_proc pid k") (simp_all add: proc_set_current_def)
  with run inv show ?thesis by simp
next
  case True
  then obtain i where i: "find_proc pid k = Some i" "\<not> proc_is_terminal_state (pi_state (info (procs k ! i)))" by blast
  note P = find_procD [OF i(1)] and D = kernel_invD [OF inv] and M = demoted_nth [OF inv]
  define ps where "ps = (demoted k)[i := (demoted k ! i)\<lparr>info := (info (demoted k ! i))\<lparr>pi_state := PROC_STATE_RUNNING\<rparr>\<rparr>]"
  have k': "k' = k\<lparr>procs := ps, current_pid := pid\<rparr>" using run proc_set_current_eq [OF i] by (simp add: ps_def)
  have len: "length ps = length (procs k)" using M(1) [OF P(1)] by (simp add: ps_def)
  have nth: "j < length (procs k) \<Longrightarrow> j \<noteq> i \<Longrightarrow> ps ! j = demoted k ! j" for j by (simp add: ps_def)
  have nth_i: "ps ! i = (procs k ! i)\<lparr>info := (info (procs k ! i))\<lparr>pi_state := PROC_STATE_RUNNING\<rparr>\<rparr>"
    using M(1,2) [OF P(1)] P(1,2) by (simp add: ps_def)
  have at: "p_used (ps ! j) = p_used (procs k ! j) \<and> pi_pid (info (ps ! j)) = pi_pid (info (procs k ! j)) \<and>
    pi_memctx (info (ps ! j)) = pi_memctx (info (procs k ! j)) \<and> fds (ps ! j) = fds (procs k ! j) \<and>
    (p_used (procs k ! j) \<longrightarrow> pi_state (info (ps ! j)) = (if j = i then PROC_STATE_RUNNING
       else if pi_state (info (procs k ! j)) = PROC_STATE_RUNNING then PROC_STATE_READY else pi_state (info (procs k ! j))))"
    if j: "j < length (procs k)" for j
  proof (cases "j = i")
    case True
    then show ?thesis by (simp add: nth_i)
  next
    case False
    then show ?thesis using nth [OF j False] M(2,3) [OF j] by (cases "p_used (procs k ! j)") simp_all
  qed
  have "same_ids (procs k) ps" using len at by (simp add: same_ids_def)
  moreover have "run_ok ps pid" unfolding run_ok_def
  proof (intro conjI allI impI)
    fix j assume j: "j < length ps" "p_used (ps ! j)" "pi_state (info (ps ! j)) = PROC_STATE_RUNNING"
    then have jl: "j < length (procs k)" using len by simp
    have "PROC_STATE_READY \<noteq> PROC_STATE_RUNNING" by (simp add: proc_consts)
    then have "j = i" using at [OF jl] j(2,3) by (simp split: if_splits)
    then show "pi_pid (info (ps ! j)) = pid" using P(3) by (simp add: nth_i)
  next
    show "\<exists>i<length ps. p_used (ps ! i) \<and> pi_pid (info (ps ! i)) = pid \<and> pi_state (info (ps ! i)) = PROC_STATE_RUNNING"
      using P len by (intro exI [of _ i]) (simp add: nth_i)
  qed
  moreover have "init_ok ps (next_pid k)"
  proof (rule init_ok_same [OF D(5) len])
    fix j assume "j < length (procs k)" "p_used (procs k ! j)" "pi_pid (info (procs k ! j)) = 1"
      "\<not> proc_is_terminal_state (pi_state (info (procs k ! j)))"
    then show "p_used (ps ! j) \<and> pi_pid (info (ps ! j)) = 1 \<and> \<not> proc_is_terminal_state (pi_state (info (ps ! j)))"
      using at [of j] by (auto simp: proc_is_terminal_state_def proc_consts)
  qed
  ultimately show ?thesis unfolding k' using at by (intro kernel_inv_states [OF inv]) simp_all
qed

section \<open>Termination, reaping and creation\<close>

text \<open>What \<open>proc_exit_locked\<close> makes of an entry; \<open>self\<close> marks the process that terminates.\<close>

definition exit_entry :: "int \<Rightarrow> int \<Rightarrow> bool \<Rightarrow> proc_entry \<Rightarrow> proc_entry" where
  "exit_entry pid status self p =
     (let p = (if self then p\<lparr>fds := map (\<lambda>fd. if 0 \<le> fd then - 1 else fd) (fds p)\<rparr> else p);
          p = (if p_used p \<and> pi_parent_pid (info p) = pid then p\<lparr>info := (info p)\<lparr>pi_parent_pid := 1\<rparr>\<rparr> else p)
      in if self then p\<lparr>info := (info p)\<lparr>pi_exit_status := status, pi_state := PROC_STATE_EXITED\<rparr>\<rparr> else p)"

lemma exit_entry_fields [simp]:
  "p_used (exit_entry pid st self p) = p_used p" "pi_pid (info (exit_entry pid st self p)) = pi_pid (info p)"
  "pi_memctx (info (exit_entry pid st self p)) = pi_memctx (info p)"
  "pi_state (info (exit_entry pid st self p)) = (if self then PROC_STATE_EXITED else pi_state (info p))"
  "fds (exit_entry pid st self p) = (if self then map (\<lambda>fd. if 0 \<le> fd then - 1 else fd) (fds p) else fds p)"
  "pi_exit_status (info (exit_entry pid st self p)) = (if self then st else pi_exit_status (info p))"
  "pi_parent_pid (info (exit_entry pid st self p)) = (if p_used p \<and> pi_parent_pid (info p) = pid then 1 else pi_parent_pid (info p))"
  by (simp_all add: exit_entry_def Let_def)

lemma proc_exit_run:
  assumes i: "find_proc pid k = Some i" and st: "\<not> proc_is_terminal_state (pi_state (info (procs k ! i)))" and pid: "pid \<noteq> 1"
  shows "\<exists>k'. proc_exit_locked pid status k = Ret (0, k') \<and> kmem k' = kmem k \<and> kctx k' = kctx k \<and>
    kvfs k' = close_fds (fds (procs k ! i)) (kvfs k) \<and> next_pid k' = next_pid k \<and>
    current_pid k' = (if current_pid k = pid then 0 else current_pid k) \<and> length (procs k') = length (procs k) \<and>
    (\<forall>j<length (procs k). procs k' ! j = exit_entry pid status (j = i) (procs k ! j))"
proof -
  have il: "i < length (procs k)" using find_procD [OF i] by simp
  let ?p1 = "(procs k ! i)\<lparr>fds := map (\<lambda>fd. if 0 \<le> fd then - 1 else fd) (fds (procs k ! i))\<rparr>"
  let ?re = "\<lambda>p. if p_used p \<and> pi_parent_pid (info p) = pid then p\<lparr>info := (info p)\<lparr>pi_parent_pid := 1\<rparr>\<rparr> else p"
  define ps where "ps = map ?re ((procs k)[i := ?p1])"
  define ps' where "ps' = ps[i := (ps ! i)\<lparr>info := (info (ps ! i))\<lparr>pi_exit_status := status, pi_state := PROC_STATE_EXITED\<rparr>\<rparr>]"
  let ?k = "k\<lparr>kvfs := close_fds (fds (procs k ! i)) (kvfs k), procs := ps'\<rparr>"
  have run: "proc_exit_locked pid status k = Ret (0, if current_pid k = pid then ?k\<lparr>current_pid := 0\<rparr> else ?k)"
    using i st pid by (simp add: proc_exit_locked_def Let_def upd_info_def upd_proc_def ps_def ps'_def)
  have psi: "ps ! i = ?re ?p1" using il by (simp add: ps_def)
  have "ps' ! j = exit_entry pid status (j = i) (procs k ! j)" if j: "j < length (procs k)" for j
  proof (cases "j = i")
    case True
    then show ?thesis using il psi by (simp add: ps'_def exit_entry_def Let_def ps_def)
  next
    case False
    then have "ps' ! j = ?re (procs k ! j)" using j by (simp add: ps'_def ps_def)
    then show ?thesis using False by (simp add: exit_entry_def Let_def)
  qed
  moreover have "length ps' = length (procs k)" by (simp add: ps'_def ps_def)
  ultimately show ?thesis using run by auto
qed

lemma proc_exit_locked_inv:
  assumes inv: "kernel_inv k L" and pid: "pid \<noteq> 1"
  shows "\<exists>r k'. proc_exit_locked pid status k = Ret (r, k') \<and> kernel_inv k' L"
proof (cases "\<exists>i. find_proc pid k = Some i \<and> \<not> proc_is_terminal_state (pi_state (info (procs k ! i)))")
  case False
  then have "proc_exit_locked pid status k = Ret (PROC_ERR_NOT_FOUND, k) \<or> proc_exit_locked pid status k = Ret (PROC_ERR_INVALID_STATE, k)"
    by (cases "find_proc pid k") (simp_all add: proc_exit_locked_def)
  with inv show ?thesis by auto
next
  case True
  then obtain i where i: "find_proc pid k = Some i" "\<not> proc_is_terminal_state (pi_state (info (procs k ! i)))" by blast
  note P = find_procD [OF i(1)] and D = kernel_invD [OF inv]
  from proc_exit_run [OF i pid, of status] obtain k' where k': "proc_exit_locked pid status k = Ret (0, k')" "kmem k' = kmem k" "kctx k' = kctx k"
    "kvfs k' = close_fds (fds (procs k ! i)) (kvfs k)" "next_pid k' = next_pid k"
    "current_pid k' = (if current_pid k = pid then 0 else current_pid k)" and len: "length (procs k') = length (procs k)"
    and at: "\<And>j. j < length (procs k) \<Longrightarrow> procs k' ! j = exit_entry pid status (j = i) (procs k ! j)" by blast
  have ids: "same_ids (procs k) (procs k')" using len at by (simp add: same_ids_def)
  have fds: "fds_ok (procs k')" unfolding fds_ok_def
  proof (intro allI impI)
    fix j assume "j < length (procs k')" "p_used (procs k' ! j)"
    then have j: "j < length (procs k)" "p_used (procs k ! j)" using len at by simp_all
    show "length (fds (procs k' ! j)) = PROC_MAX_FDS \<and> (\<forall>fd\<in>set (fds (procs k' ! j)). - 1 \<le> fd \<and> fd < int VFS_MAX_OPEN)"
      using fds_okD [OF D(3) j] at [OF j(1)] by (cases "j = i") (auto simp: VFS_MAX_OPEN_def)
  qed
  have run: "run_ok (procs k') (current_pid k')" unfolding run_ok_def
  proof (intro conjI allI impI)
    fix j assume j: "j < length (procs k')" "p_used (procs k' ! j)" "pi_state (info (procs k' ! j)) = PROC_STATE_RUNNING"
    then have ji: "j \<noteq> i" "p_used (procs k ! j)" "pi_state (info (procs k ! j)) = PROC_STATE_RUNNING"
      using at [of j] len by (auto simp: proc_consts split: if_splits)
    then have cur: "pi_pid (info (procs k ! j)) = current_pid k" using D(4) j(1) len by (simp add: run_ok_def)
    moreover have "pi_pid (info (procs k ! j)) \<noteq> pid" using find_proc_eq [OF D(2), of j pid] i(1) ji j(1) len by auto
    ultimately show "pi_pid (info (procs k' ! j)) = current_pid k'" using at [of j] j(1) len k'(6) by simp
  next
    assume "current_pid k' \<noteq> 0"
    then have c: "current_pid k \<noteq> 0" "current_pid k' = current_pid k" "current_pid k \<noteq> pid" using k'(6) by (auto split: if_splits)
    then obtain j where j: "j < length (procs k)" "p_used (procs k ! j)" "pi_pid (info (procs k ! j)) = current_pid k"
      "pi_state (info (procs k ! j)) = PROC_STATE_RUNNING" using D(4) by (auto simp: run_ok_def)
    have "j \<noteq> i" using j(3) c(3) P(3) by auto
    then show "\<exists>i<length (procs k'). p_used (procs k' ! i) \<and> pi_pid (info (procs k' ! i)) = current_pid k' \<and>
      pi_state (info (procs k' ! i)) = PROC_STATE_RUNNING"
      using j at [OF j(1)] len c(2) by (intro exI [of _ j]) simp
  qed
  have init: "init_ok (procs k') (next_pid k)"
  proof (rule init_ok_same [OF D(5) len])
    fix j assume j: "j < length (procs k)" "p_used (procs k ! j)" "pi_pid (info (procs k ! j)) = 1"
      "\<not> proc_is_terminal_state (pi_state (info (procs k ! j)))"
    then have "j \<noteq> i" using P(3) pid by auto
    with j at [OF j(1)] show "p_used (procs k' ! j) \<and> pi_pid (info (procs k' ! j)) = 1 \<and> \<not> proc_is_terminal_state (pi_state (info (procs k' ! j)))"
      by simp
  qed
  have "kernel_inv k' L"
    using mem_ok_close_fds [OF D(1), of "fds (procs k ! i)"] k' same_ids_table [OF ids D(2)] fds run init D(6) same_ids_live [OF ids]
    by (simp add: kernel_inv_def)
  with k'(1) show ?thesis by blast
qed

lemma proc_kill_inv:
  assumes inv: "kernel_inv k L"
  shows "\<exists>r k'. proc_kill pid status k = Ret (r, k') \<and> kernel_inv k' L"
proof (cases "pid \<le> 0 \<or> pid = 1")
  case True
  with inv show ?thesis by (auto simp: proc_kill_def)
next
  case False
  with proc_exit_locked_inv [OF inv, of pid status] inv show ?thesis
    by (cases "find_proc pid k") (auto simp: proc_kill_def)
qed

text \<open>Clearing an entry whose context is destroyed.\<close>

lemma nth_clear:
  assumes "\<not> p_used x" and "j < length ps"
  shows "p_used (ps[i := x] ! j) \<longleftrightarrow> j \<noteq> i \<and> p_used (ps ! j)" "j \<noteq> i \<Longrightarrow> ps[i := x] ! j = ps ! j"
  using assms by (cases "j = i"; simp)+

lemma table_ok_clear:
  assumes tab: "table_ok ps n" and x: "\<not> p_used x"
  shows "table_ok (ps[i := x]) n"
  unfolding table_ok_def
proof (intro conjI allI impI)
  show "length (ps[i := x]) = PROC_MAX" "0 < n" using tab by (simp_all add: table_ok_def)
  show "0 < pi_pid (info (ps[i := x] ! j))" "pi_pid (info (ps[i := x] ! j)) < n" if "j < length (ps[i := x])" "p_used (ps[i := x] ! j)" for j
    using that tab nth_clear [OF x, of j ps i] by (simp_all add: table_ok_def)
  show "j = j'" if j: "j < length (ps[i := x])" "j' < length (ps[i := x])" "p_used (ps[i := x] ! j)" "p_used (ps[i := x] ! j')"
    "pi_pid (info (ps[i := x] ! j)) = pi_pid (info (ps[i := x] ! j')) \<or> pi_memctx (info (ps[i := x] ! j)) = pi_memctx (info (ps[i := x] ! j'))"
    for j j'
  proof -
    have "j < length ps" "j' < length ps" "p_used (ps ! j)" "p_used (ps ! j')" "ps[i := x] ! j = ps ! j" "ps[i := x] ! j' = ps ! j'"
      using j nth_clear [OF x, of j ps i] nth_clear [OF x, of j' ps i] by simp_all
    with j(5) tab show ?thesis unfolding table_ok_def by metis
  qed
qed

lemma live_clear:
  assumes tab: "table_ok ps n" and i: "i < length ps" "p_used (ps ! i)" and x: "\<not> p_used x"
  shows "(\<lambda>p. pi_memctx (info p)) ` live_procs (ps[i := x]) = (\<lambda>p. pi_memctx (info p)) ` live_procs ps - {pi_memctx (info (ps ! i))}"
    (is "?l = ?r")
proof (intro equalityI subsetI)
  have inj: "j = i" if "j < length ps" "p_used (ps ! j)" "pi_memctx (info (ps ! j)) = pi_memctx (info (ps ! i))" for j
    using tab i that unfolding table_ok_def by metis
  show "c \<in> ?r" if c: "c \<in> ?l" for c
  proof -
    from c obtain j where j: "c = pi_memctx (info (ps[i := x] ! j))" "j < length (ps[i := x])" "p_used (ps[i := x] ! j)"
      unfolding live_image by blast
    then have "j < length ps" "j \<noteq> i" "p_used (ps ! j)" "c = pi_memctx (info (ps ! j))"
      using nth_clear [OF x, of j ps i] by simp_all
    with inj [of j] show ?thesis unfolding live_image by auto
  qed
  show "c \<in> ?l" if c: "c \<in> ?r" for c
  proof -
    from c obtain j where j: "c = pi_memctx (info (ps ! j))" "j < length ps" "p_used (ps ! j)" "j \<noteq> i"
      unfolding live_image by blast
    then have "j < length (ps[i := x])" "p_used (ps[i := x] ! j)" "c = pi_memctx (info (ps[i := x] ! j))" by simp_all
    then show ?thesis unfolding live_image by blast
  qed
qed

lemma kernel_inv_clear:
  assumes inv: "kernel_inv k L" and i: "i < length (procs k)" "p_used (procs k ! i)"
    and st: "pi_pid (info (procs k ! i)) \<noteq> 1" "pi_state (info (procs k ! i)) \<noteq> PROC_STATE_RUNNING"
    and mem: "mem_ok m cs (kvfs k) L'" and act: "active_ids (contexts cs) = active_ids (contexts (kctx k)) - {pi_memctx (info (procs k ! i))}"
  shows "kernel_inv (upd_proc i (\<lambda>_. no_proc) (k\<lparr>kctx := cs, kmem := m\<rparr>)) L'"
proof -
  note D = kernel_invD [OF inv]
  let ?ps = "(procs k)[i := no_proc]"
  have un: "\<not> p_used no_proc" by (simp add: no_proc_def)
  have nth: "j < length (procs k) \<Longrightarrow> ?ps ! j = (if j = i then no_proc else procs k ! j)" for j by (simp add: nth_list_update)
  have "run_ok ?ps (current_pid k)"
  proof -
    have "\<exists>j<length (procs k). j \<noteq> i \<and> p_used (procs k ! j) \<and> pi_pid (info (procs k ! j)) = current_pid k \<and>
      pi_state (info (procs k ! j)) = PROC_STATE_RUNNING" if "current_pid k \<noteq> 0"
      using D(4) that st(2) unfolding run_ok_def by metis
    then have "current_pid k \<noteq> 0 \<Longrightarrow> \<exists>j<length ?ps. p_used (?ps ! j) \<and> pi_pid (info (?ps ! j)) = current_pid k \<and>
      pi_state (info (?ps ! j)) = PROC_STATE_RUNNING" by (metis length_list_update nth)
    moreover have "pi_pid (info (?ps ! j)) = current_pid k"
      if "j < length ?ps" "p_used (?ps ! j)" "pi_state (info (?ps ! j)) = PROC_STATE_RUNNING" for j
      using that D(4) nth_clear [OF un, of j "procs k" i] by (simp add: run_ok_def)
    ultimately show ?thesis unfolding run_ok_def by blast
  qed
  moreover have "init_ok ?ps (next_pid k)"
    by (rule init_ok_same [OF D(5)]) (use st(1) in \<open>auto simp: nth\<close>)
  moreover have "fds_ok ?ps" by (rule fds_ok_upd [OF D(3)]) (simp add: un)
  ultimately show ?thesis
    using mem act D(6) table_ok_clear [OF D(2) un, of i] live_clear [OF D(2) i un] by (simp add: kernel_inv_def)
qed

lemma proc_wait_run:
  assumes inv: "kernel_inv k L" and i: "find_proc child k = Some i"
    and st: "pi_parent_pid (info (procs k ! i)) = par" "pi_state (info (procs k ! i)) = PROC_STATE_EXITED"
  shows "\<exists>k'. proc_wait par child ptr k = Ret (child, if ptr \<noteq> 0 then Some (pi_exit_status (info (procs k ! i))) else None, k') \<and>
    kernel_inv k' (L |` (- owned (pi_memctx (info (procs k ! i))) [0..<MEMCTX_MAX_BLOCKS] (ctx_blocks (kctx k)))) \<and>
    procs k' = (procs k)[i := no_proc]"
proof -
  note P = find_procD [OF i] and D = kernel_invD [OF inv]
  let ?c = "pi_memctx (info (procs k ! i))"
  have "?c \<in> active_ids (contexts (kctx k))" using D(6) P(1,2) by (auto simp: live_image)
  from mem_ok_destroy [OF D(1) this] obtain cs m where
    r: "memctx_destroy ?c (kctx k) (kmem k) = Ret (0, cs, m)"
      "mem_ok m cs (kvfs k) (L |` (- owned ?c [0..<MEMCTX_MAX_BLOCKS] (ctx_blocks (kctx k))))"
      "active_ids (contexts cs) = active_ids (contexts (kctx k)) - {?c}" by blast
  have "pi_pid (info (procs k ! i)) \<noteq> 1"
  proof
    assume one: "pi_pid (info (procs k ! i)) = 1"
    then have "1 < next_pid k" using D(2) P(1,2) by (auto simp: table_ok_def)
    then obtain j where "j < length (procs k)" "p_used (procs k ! j)" "pi_pid (info (procs k ! j)) = 1"
      "\<not> proc_is_terminal_state (pi_state (info (procs k ! j)))" using D(5) by (auto simp: init_ok_def)
    moreover from this have "j = i" using D(2) P(1,2) one unfolding table_ok_def by metis
    ultimately show False using st(2) by (simp add: proc_is_terminal_state_def)
  qed
  moreover have "pi_state (info (procs k ! i)) \<noteq> PROC_STATE_RUNNING" using st(2) by (simp add: proc_consts)
  ultimately have "kernel_inv (upd_proc i (\<lambda>_. no_proc) (k\<lparr>kctx := cs, kmem := m\<rparr>))
      (L |` (- owned ?c [0..<MEMCTX_MAX_BLOCKS] (ctx_blocks (kctx k))))"
    by (intro kernel_inv_clear [OF inv P(1,2) _ _ r(2,3)])
  with i st r(1) show ?thesis by (simp add: proc_wait_def Let_def)
qed

lemma proc_wait_inv:
  assumes inv: "kernel_inv k L"
  shows "\<exists>r s k' L'. proc_wait par child ptr k = Ret (r, s, k') \<and> kernel_inv k' L'"
proof (cases "find_proc child k")
  case None
  with inv show ?thesis by (auto simp: proc_wait_def)
next
  case (Some i)
  show ?thesis
  proof (cases "pi_parent_pid (info (procs k ! i)) = par \<and> pi_state (info (procs k ! i)) = PROC_STATE_EXITED")
    case True
    with proc_wait_run [OF inv Some] show ?thesis by blast
  next
    case False
    then have "proc_wait par child ptr k = Ret (- 1, None, k)" using Some by (auto simp: proc_wait_def Let_def)
    with inv show ?thesis by blast
  qed
qed

section \<open>Creation\<close>

text \<open>Filling a free entry with a new process.\<close>

lemma nth_fill:
  assumes "\<not> p_used (ps ! i)" and "j < length ps" and "p_used (ps ! j)"
  shows "ps[i := x] ! j = ps ! j"
  using assms by (cases "j = i") auto

lemma fill_cases:
  assumes "i < length ps" and "j < length ps" and "p_used (ps[i := x] ! j)" and "\<not> p_used (ps ! i)"
  shows "j = i \<and> ps[i := x] ! j = x \<or> j \<noteq> i \<and> p_used (ps ! j) \<and> ps[i := x] ! j = ps ! j"
  using assms by (cases "j = i") auto

lemma table_ok_fill:
  assumes tab: "table_ok ps n" and i: "i < length ps" "\<not> p_used (ps ! i)" and x: "pi_pid (info x) = n"
    and c: "pi_memctx (info x) \<notin> (\<lambda>p. pi_memctx (info p)) ` live_procs ps"
  shows "table_ok (ps[i := x]) (n + 1)"
  unfolding table_ok_def
proof (intro conjI allI impI)
  have pids: "0 < pi_pid (info (ps ! j)) \<and> pi_pid (info (ps ! j)) < n \<and> pi_memctx (info (ps ! j)) \<noteq> pi_memctx (info x)"
    if "j < length ps" "p_used (ps ! j)" for j
    using tab that c unfolding table_ok_def live_image by auto
  show "length (ps[i := x]) = PROC_MAX" "0 < n + 1" using tab by (simp_all add: table_ok_def)
  show "0 < pi_pid (info (ps[i := x] ! j))" "pi_pid (info (ps[i := x] ! j)) < n + 1"
    if j: "j < length (ps[i := x])" "p_used (ps[i := x] ! j)" for j
  proof -
    have "0 < n" using tab by (simp add: table_ok_def)
    with fill_cases [OF i(1) _ j(2) i(2)] j(1) x pids [of j]
    show "0 < pi_pid (info (ps[i := x] ! j))" "pi_pid (info (ps[i := x] ! j)) < n + 1" by auto
  qed
  show "j = j'" if j: "j < length (ps[i := x])" "j' < length (ps[i := x])" "p_used (ps[i := x] ! j)" "p_used (ps[i := x] ! j')"
    "pi_pid (info (ps[i := x] ! j)) = pi_pid (info (ps[i := x] ! j')) \<or> pi_memctx (info (ps[i := x] ! j)) = pi_memctx (info (ps[i := x] ! j'))"
    for j j'
  proof -
    have l: "j < length ps" "j' < length ps" using j by simp_all
    from fill_cases [OF i(1) l(1) j(3) i(2)] fill_cases [OF i(1) l(2) j(4) i(2)] show ?thesis
    proof (elim disjE)
      assume "j \<noteq> i \<and> p_used (ps ! j) \<and> ps[i := x] ! j = ps ! j" "j' \<noteq> i \<and> p_used (ps ! j') \<and> ps[i := x] ! j' = ps ! j'"
      with l j(5) tab show ?thesis unfolding table_ok_def by metis
    qed (use x l j(5) pids [of j] pids [of j'] in auto)
  qed
qed

lemma live_fill:
  assumes i: "i < length ps" "\<not> p_used (ps ! i)" and x: "p_used x"
  shows "(\<lambda>p. pi_memctx (info p)) ` live_procs (ps[i := x]) = insert (pi_memctx (info x)) ((\<lambda>p. pi_memctx (info p)) ` live_procs ps)"
proof -
  have "live_procs (ps[i := x]) = insert x (live_procs ps)"
  proof (intro equalityI subsetI)
    show "p \<in> insert x (live_procs ps)" if "p \<in> live_procs (ps[i := x])" for p
      using that set_update_subset_insert by (fastforce simp: live_procs_def)
    show "p \<in> live_procs (ps[i := x])" if p: "p \<in> insert x (live_procs ps)" for p
    proof (cases "p = x")
      case True
      with i x show ?thesis by (simp add: live_procs_def set_update_memI)
    next
      case False
      with p obtain j where "j < length ps" "p = ps ! j" "p_used p" by (auto simp: live_procs_def in_set_conv_nth)
      with nth_fill [OF i(2), of j x] show ?thesis unfolding live_procs_def by (metis (mono_tags, lifting) length_list_update mem_Collect_eq nth_mem)
    qed
  qed
  then show ?thesis by simp
qed

lemma live_card: "table_ok ps n \<Longrightarrow> card ((\<lambda>p. pi_memctx (info p)) ` live_procs ps) \<le> PROC_MAX"
proof -
  assume "table_ok ps n"
  then have "length ps = PROC_MAX" by (simp add: table_ok_def)
  moreover have "card (live_procs ps) \<le> length ps"
    by (rule order_trans [OF card_mono card_length]) (auto simp: live_procs_def)
  moreover have "finite (live_procs ps)" by (simp add: live_procs_def)
  ultimately show ?thesis using card_image_le order_trans by metis
qed

lemma run_ok_fill:
  assumes run: "run_ok ps cur" and i: "i < length ps" "\<not> p_used (ps ! i)" and x: "pi_state (info x) = PROC_STATE_READY"
  shows "run_ok (ps[i := x]) cur"
  unfolding run_ok_def
proof (intro conjI allI impI)
  show "pi_pid (info (ps[i := x] ! j)) = cur"
    if j: "j < length (ps[i := x])" "p_used (ps[i := x] ! j)" "pi_state (info (ps[i := x] ! j)) = PROC_STATE_RUNNING" for j
  proof -
    have jl: "j < length ps" using j(1) by simp
    have "ps[i := x] ! j \<noteq> x" using j(3) x by (auto simp: proc_consts)
    with fill_cases [OF i(1) jl j(2) i(2)] have "p_used (ps ! j)" "ps[i := x] ! j = ps ! j" by simp_all
    with jl j(3) run show ?thesis by (simp add: run_ok_def)
  qed
  assume "cur \<noteq> 0"
  with run obtain j where "j < length ps" "p_used (ps ! j)" "pi_pid (info (ps ! j)) = cur" "pi_state (info (ps ! j)) = PROC_STATE_RUNNING"
    unfolding run_ok_def by blast
  with nth_fill [OF i(2), of j x] show "\<exists>j<length (ps[i := x]). p_used (ps[i := x] ! j) \<and> pi_pid (info (ps[i := x] ! j)) = cur \<and>
      pi_state (info (ps[i := x] ! j)) = PROC_STATE_RUNNING" by (intro exI [of _ j]) simp
qed

lemma init_ok_fill:
  assumes ini: "init_ok ps n" and n: "0 < n" and i: "i < length ps" "\<not> p_used (ps ! i)"
    and x: "p_used x" "pi_pid (info x) = n" "pi_state (info x) = PROC_STATE_READY"
  shows "init_ok (ps[i := x]) (n + 1)"
proof (cases "n = 1")
  case True
  with i x show ?thesis by (auto simp: init_ok_def proc_is_terminal_state_def proc_consts intro!: exI [of _ i])
next
  case False
  with n ini obtain j where "j < length ps" "p_used (ps ! j)" "pi_pid (info (ps ! j)) = 1"
    "\<not> proc_is_terminal_state (pi_state (info (ps ! j)))" by (auto simp: init_ok_def)
  with nth_fill [OF i(2), of j x] show ?thesis unfolding init_ok_def by (intro impI exI [of _ j]) simp
qed

definition new_proc :: "string option \<Rightarrow> int \<Rightarrow> int \<Rightarrow> int \<Rightarrow> proc_entry" where
  "new_proc name ppid pid cid = \<lparr>info = no_info\<lparr>pi_pid := pid, pi_parent_pid := ppid, pi_state := PROC_STATE_READY,
     pi_memctx := cid, pi_name := copy_text (PROC_NAME_MAX + 1) name, pi_cwd := copy_text VFS_MAX_PATH (Some ''/'')\<rparr>,
     p_used = True, fds = replicate PROC_MAX_FDS (- 1)\<rparr>"

lemma new_proc_fields [simp]:
  "pi_pid (info (new_proc name ppid pid cid)) = pid" "pi_parent_pid (info (new_proc name ppid pid cid)) = ppid"
  "pi_state (info (new_proc name ppid pid cid)) = PROC_STATE_READY" "pi_memctx (info (new_proc name ppid pid cid)) = cid"
  "p_used (new_proc name ppid pid cid)" "fds (new_proc name ppid pid cid) = replicate PROC_MAX_FDS (- 1)"
  by (simp_all add: new_proc_def no_info_def)

text \<open>A context is always to be had for a new process, since there are fewer processes than contexts.\<close>

lemma proc_create_run:
  assumes inv: "kernel_inv k L" and par: "ppid \<noteq> 0 \<longrightarrow> find_proc ppid k \<noteq> None" "ppid = 0 \<longrightarrow> next_pid k = 1"
    and i: "find_slot (\<lambda>p. \<not> p_used p) (procs k) = Some i"
  shows "\<exists>cid k'. proc_create name ppid k = (next_pid k, k') \<and> kernel_inv k' L \<and>
    procs k' = (procs k)[i := new_proc name ppid (next_pid k) cid] \<and> next_pid k' = next_pid k + 1 \<and> current_pid k' = current_pid k"
proof -
  note D = kernel_invD [OF inv]
  have il: "i < length (procs k)" "\<not> p_used (procs k ! i)" using find_slot_SomeD [OF i] by auto
  have mi: "memctx_inv (kctx k) L" using D(1) by (simp add: mem_ok_def)
  obtain cid cs where c: "memctx_create (next_pid k) 0 (kctx k) = (cid, cs)" by fastforce
  note F = memctx_create_facts [OF c mi]
  have pos: "0 \<le> cid"
    using F(2) D(6) live_card [OF D(2)] by (cases "0 \<le> cid") (auto simp: PROC_MAX_def MEMCTX_MAX_CONTEXTS_def)
  let ?x = "new_proc name ppid (next_pid k) cid"
  define k' where "k' = upd_proc i (\<lambda>_. ?x) (k\<lparr>next_pid := next_pid k + 1, kctx := cs\<rparr>)"
  have run: "proc_create name ppid k = (next_pid k, k')"
  proof -
    have "\<not> (ppid \<noteq> 0 \<and> find_proc ppid k = None)" "\<not> (ppid = 0 \<and> next_pid k \<noteq> 1)" using par by auto
    then show ?thesis unfolding proc_create_def by (simp only: if_False i option.case Let_def c prod.case) (use pos in \<open>simp add: k'_def new_proc_def\<close>)
  qed
  have "ctx_ptrs cs = ctx_ptrs (kctx k)" using F(1) by (simp add: ctx_ptrs_def)
  with D(1) memctx_create_inv [OF mi c] have mem: "mem_ok (kmem k) cs (kvfs k) L" by (simp add: mem_ok_def)
  have fresh: "cid \<notin> (\<lambda>p. pi_memctx (info p)) ` live_procs (procs k)" using F(3) [OF pos] D(6) by simp
  have "0 < next_pid k" using D(2) by (simp add: table_ok_def)
  then have "init_ok ((procs k)[i := ?x]) (next_pid k + 1)" by (intro init_ok_fill [OF D(5) _ il]) simp_all
  moreover have "run_ok ((procs k)[i := ?x]) (current_pid k)" by (rule run_ok_fill [OF D(4) il]) simp
  moreover have "fds_ok ((procs k)[i := ?x])" by (rule fds_ok_upd [OF D(3)]) (simp add: VFS_MAX_OPEN_def)
  moreover have "table_ok ((procs k)[i := ?x]) (next_pid k + 1)" by (rule table_ok_fill [OF D(2) il]) (simp_all add: fresh)
  moreover have "active_ids (contexts cs) = (\<lambda>p. pi_memctx (info p)) ` live_procs ((procs k)[i := ?x])"
    using F(3) [OF pos] D(6) live_fill [OF il, of ?x] by simp
  ultimately have "kernel_inv k' L" using mem by (simp add: kernel_inv_def k'_def)
  with run show ?thesis by (intro exI [of _ cid] exI [of _ k']) (simp add: k'_def)
qed

lemma proc_create_inv:
  assumes inv: "kernel_inv k L"
  shows "kernel_inv (snd (proc_create name ppid k)) L"
proof (cases "(ppid \<noteq> 0 \<longrightarrow> find_proc ppid k \<noteq> None) \<and> (ppid = 0 \<longrightarrow> next_pid k = 1)")
  case True
  show ?thesis
  proof (cases "find_slot (\<lambda>p. \<not> p_used p) (procs k)")
    case None
    with inv show ?thesis by (simp add: proc_create_def)
  next
    case (Some i)
    from proc_create_run [OF inv conjunct1 [OF True] conjunct2 [OF True] Some, of name] show ?thesis by auto
  qed
next
  case False
  with inv show ?thesis by (auto simp: proc_create_def)
qed

end
