(* ===== verification/Bytes.thy ===== *)
theory Bytes
  imports Memutils
begin

unbundle bit_operations_syntax

text \<open>
  Little-endian integers in RAM: the readers and writers of \<^verbatim>\<open>kernel/fs.c\<close>, which assemble them byte by
  byte, and the 64-bit load and store of the machine. A value is read back after it was written,
  and a write changes only its own bytes.
\<close>

definition rd16 :: "ram \<Rightarrow> addr \<Rightarrow> u16" where
  "rd16 r p = ucast (r p) OR push_bit 8 (ucast (r (p + 1)))"

definition rd32 :: "ram \<Rightarrow> addr \<Rightarrow> u32" where
  "rd32 r p = ucast (r p) OR push_bit 8 (ucast (r (p + 1))) OR
     push_bit 16 (ucast (r (p + 2))) OR push_bit 24 (ucast (r (p + 3)))"

definition rd64 :: "ram \<Rightarrow> addr \<Rightarrow> u64" where
  "rd64 r p = ucast (rd32 r p) OR push_bit 32 (ucast (rd32 r (p + 4)))"

definition wr16 :: "addr \<Rightarrow> u16 \<Rightarrow> ram \<Rightarrow> ram" where
  "wr16 p v r = r(p := ucast v, p + 1 := ucast (drop_bit 8 v))"

definition wr32 :: "addr \<Rightarrow> u32 \<Rightarrow> ram \<Rightarrow> ram" where
  "wr32 p v r = r(p := ucast v, p + 1 := ucast (drop_bit 8 v),
     p + 2 := ucast (drop_bit 16 v), p + 3 := ucast (drop_bit 24 v))"

definition wr64 :: "addr \<Rightarrow> u64 \<Rightarrow> ram \<Rightarrow> ram" where
  "wr64 p v r = wr32 (p + 4) (ucast (drop_bit 32 v)) (wr32 p (ucast v) r)"

lemma rd16_wr16 [simp]: "rd16 (wr16 p v r) p = v"
  by (rule bit_word_eqI) (auto simp: rd16_def wr16_def bit_simps less_diff_conv2)

lemma rd32_wr32 [simp]: "rd32 (wr32 p v r) p = v"
proof (rule bit_word_eqI)
  fix n assume "n < LENGTH(32)"
  then consider "n < 8" | "8 \<le> n" "n < 16" | "16 \<le> n" "n < 24" | "24 \<le> n" "n < 32" by force
  then show "bit (rd32 (wr32 p v r) p) n = bit v n"
    by cases (auto simp: rd32_def wr32_def bit_simps)
qed

lemma wr16_other: "x \<notin> region p 2 \<Longrightarrow> wr16 p v r x = r x"
  by (auto simp: wr16_def region_def)

lemma wr32_other: "x \<notin> region p 4 \<Longrightarrow> wr32 p v r x = r x"
  by (auto simp: wr32_def region_def)

lemma rd16_cong: "(\<And>x. x \<in> region p 2 \<Longrightarrow> r x = r' x) \<Longrightarrow> rd16 r p = rd16 r' p"
  by (simp add: rd16_def region_def)

lemma rd32_cong: "(\<And>x. x \<in> region p 4 \<Longrightarrow> r x = r' x) \<Longrightarrow> rd32 r p = rd32 r' p"
  by (simp add: rd32_def region_def)

lemma rd64_cong: "(\<And>x. x \<in> region p 8 \<Longrightarrow> r x = r' x) \<Longrightarrow> rd64 r p = rd64 r' p"
  by (simp add: rd64_def rd32_def region_def add.assoc)

end
