(* ===== verification/Elf.thy ===== *)
theory Elf
  imports Proc Bytes
begin

unbundle bit_operations_syntax

text \<open>
  The ELF loader of \<^verbatim>\<open>kernel/elf.c\<close>. The packed structures of \<^verbatim>\<open>elf.h\<close> are read from the bytes of
  RAM the file lies in; the image is allocated through the process that is to run it. The loop that
  copies the segments reads the headers from the RAM it writes to, as the code does.
\<close>

section \<open>Structures\<close>

definition ELF_MAGIC :: u32 where "ELF_MAGIC = 0x464C457F"
definition ELF_CLASS_64 :: u8 where "ELF_CLASS_64 = 2"
definition ELF_DATA_LSB :: u8 where "ELF_DATA_LSB = 1"
definition ELF_VERSION_CURRENT :: nat where "ELF_VERSION_CURRENT = 1"
definition ELF_TYPE_EXEC :: u16 where "ELF_TYPE_EXEC = 2"
definition ELF_MACHINE_X86_64 :: u16 where "ELF_MACHINE_X86_64 = 62"
definition ELF_PT_LOAD :: u32 where "ELF_PT_LOAD = 1"
definition ELF_PF_X :: u32 where "ELF_PF_X = 1"
definition ELF_PF_W :: u32 where "ELF_PF_W = 2"
definition ELF_PF_R :: u32 where "ELF_PF_R = 4"
definition ELF_MAX_LOAD_SIZE :: u64 where "ELF_MAX_LOAD_SIZE = 16 * 1024 * 1024"

lemmas elf_consts = ELF_MAGIC_def ELF_CLASS_64_def ELF_DATA_LSB_def ELF_VERSION_CURRENT_def ELF_TYPE_EXEC_def
  ELF_MACHINE_X86_64_def ELF_PT_LOAD_def ELF_PF_X_def ELF_PF_W_def ELF_PF_R_def ELF_MAX_LOAD_SIZE_def

record elf_header_t =
  e_magic :: u32
  e_class :: u8
  e_data :: u8
  e_version :: u8
  e_osabi :: u8
  e_abiversion :: u8
  e_pad :: "u8 list"
  e_type :: u16
  e_machine :: u16
  e_version2 :: u32
  e_entry :: u64
  e_phoff :: u64
  e_shoff :: u64
  e_flags :: u32
  e_ehsize :: u16
  e_phentsize :: u16
  e_phnum :: u16
  e_shentsize :: u16
  e_shnum :: u16
  e_shstrndx :: u16

record elf_phdr_t =
  p_type :: u32
  p_flags :: u32
  p_offset :: u64
  p_vaddr :: u64
  p_paddr :: u64
  p_filesz :: u64
  p_memsz :: u64
  p_align :: u64

record elf_image_t =
  im_requested_base :: addr
  im_requested_end :: addr
  im_load_base :: addr
  im_load_size :: u64
  im_entry :: addr

definition sizeof_elf_header :: nat where "sizeof_elf_header = 64"
definition sizeof_elf_phdr :: nat where "sizeof_elf_phdr = 56"

definition elf_header :: "ram \<Rightarrow> addr \<Rightarrow> elf_header_t" where
  "elf_header r p = \<lparr>e_magic = rd32 r p, e_class = r (p + 4), e_data = r (p + 5), e_version = r (p + 6),
     e_osabi = r (p + 7), e_abiversion = r (p + 8), e_pad = map (\<lambda>i. r (p + of_nat i)) [9..<16],
     e_type = rd16 r (p + 16), e_machine = rd16 r (p + 18), e_version2 = rd32 r (p + 20), e_entry = rd64 r (p + 24),
     e_phoff = rd64 r (p + 32), e_shoff = rd64 r (p + 40), e_flags = rd32 r (p + 48), e_ehsize = rd16 r (p + 52),
     e_phentsize = rd16 r (p + 54), e_phnum = rd16 r (p + 56), e_shentsize = rd16 r (p + 58), e_shnum = rd16 r (p + 60),
     e_shstrndx = rd16 r (p + 62)\<rparr>"

definition elf_phdr :: "ram \<Rightarrow> addr \<Rightarrow> nat \<Rightarrow> elf_phdr_t" where
  "elf_phdr r ph i = (let p = ph + of_nat (sizeof_elf_phdr * i) in
     \<lparr>p_type = rd32 r p, p_flags = rd32 r (p + 4), p_offset = rd64 r (p + 8), p_vaddr = rd64 r (p + 16),
      p_paddr = rd64 r (p + 24), p_filesz = rd64 r (p + 32), p_memsz = rd64 r (p + 40), p_align = rd64 r (p + 48)\<rparr>)"

section \<open>Validation\<close>

definition add_overflow_u64 :: "u64 \<Rightarrow> u64 \<Rightarrow> bool \<times> u64" where
  "add_overflow_u64 a b = (let out = a + b in (out < a, out))"

definition range_inside :: "u64 \<Rightarrow> u64 \<Rightarrow> u64 \<Rightarrow> bool" where
  "range_inside off len file_total =
     (let (overflow, e) = add_overflow_u64 off len in if overflow then False else off \<le> file_total \<and> e \<le> file_total)"

definition valid_flags :: "u32 \<Rightarrow> bool" where
  "valid_flags flags \<longleftrightarrow> flags AND NOT (ELF_PF_R OR ELF_PF_W OR ELF_PF_X) = 0"

text \<open>One round of the loop of \<open>inspect_load_range\<close> over the accumulated minimum, maximum and count.\<close>

definition inspect_segment :: "elf_phdr_t \<Rightarrow> u64 \<Rightarrow> u64 \<times> u64 \<times> int \<Rightarrow> (u64 \<times> u64 \<times> int) option" where
  "inspect_segment ph file_size acc =
     (let (min_vaddr, max_vaddr, loads) = acc in
      if p_type ph \<noteq> ELF_PT_LOAD then Some acc
      else if \<not> valid_flags (p_flags ph) \<or> p_memsz ph = 0 \<or> p_memsz ph < p_filesz ph then None
      else let (over, file_end) = add_overflow_u64 (p_offset ph) (p_filesz ph) in
        if over \<or> file_size < file_end then None
        else let (over, mem_end) = add_overflow_u64 (p_vaddr ph) (p_memsz ph) in
          if over then None
          else if p_align ph \<noteq> 0 \<and> p_align ph AND (p_align ph - 1) \<noteq> 0 then None
          else if 1 < p_align ph \<and> (p_vaddr ph - p_offset ph) AND (p_align ph - 1) \<noteq> 0 then None
          else Some (if p_vaddr ph < min_vaddr then p_vaddr ph else min_vaddr,
                     if max_vaddr < mem_end then mem_end else max_vaddr, loads + 1))"

fun inspect_loop :: "elf_phdr_t list \<Rightarrow> u64 \<Rightarrow> u64 \<times> u64 \<times> int \<Rightarrow> (u64 \<times> u64 \<times> int) option" where
  "inspect_loop [] file_size acc = Some acc"
| "inspect_loop (ph # phs) file_size acc =
     (case inspect_segment ph file_size acc of
        None \<Rightarrow> None
      | Some acc \<Rightarrow> inspect_loop phs file_size acc)"

text \<open>None is the result -1; the three out-parameters are set when it is 0.\<close>

definition inspect_load_range :: "ram \<Rightarrow> elf_header_t \<Rightarrow> addr \<Rightarrow> u64 \<Rightarrow> (u64 \<times> u64 \<times> int) option" where
  "inspect_load_range r eh ph file_size =
     (case inspect_loop (map (elf_phdr r ph) [0..<unat (e_phnum eh)]) file_size (- 1, 0, 0) of
        None \<Rightarrow> None
      | Some (min_vaddr, max_vaddr, loads) \<Rightarrow>
          if loads = 0 \<or> e_entry eh < min_vaddr \<or> max_vaddr \<le> e_entry eh then None
          else if max_vaddr \<le> min_vaddr \<or> ELF_MAX_LOAD_SIZE < max_vaddr - min_vaddr then None
          else Some (min_vaddr, max_vaddr, loads))"

definition elf_validate :: "addr \<Rightarrow> u64 \<Rightarrow> ram \<Rightarrow> int" where
  "elf_validate file file_size r =
     (if file = 0 \<or> file_size < of_nat sizeof_elf_header then - 1
      else let eh = elf_header r file in
        if e_magic eh \<noteq> ELF_MAGIC \<or> e_class eh \<noteq> ELF_CLASS_64 \<or> e_data eh \<noteq> ELF_DATA_LSB then - 1
        else if e_version eh \<noteq> of_nat ELF_VERSION_CURRENT \<or> e_version2 eh \<noteq> of_nat ELF_VERSION_CURRENT then - 1
        else if e_type eh \<noteq> ELF_TYPE_EXEC \<or> e_machine eh \<noteq> ELF_MACHINE_X86_64 then - 1
        else if e_ehsize eh \<noteq> of_nat sizeof_elf_header \<or> e_phentsize eh \<noteq> of_nat sizeof_elf_phdr \<or> e_phnum eh = 0 then - 1
        else if \<not> range_inside (e_phoff eh) (ucast (e_phentsize eh) * ucast (e_phnum eh)) file_size then - 1
        else if inspect_load_range r eh (file + e_phoff eh) file_size = None then - 1 else 0)"

section \<open>Loading\<close>

abbreviation kram :: "kernel \<Rightarrow> ram" where
  "kram k \<equiv> mem_ram (kmem k)"

definition upd_ram :: "(ram \<Rightarrow> ram) \<Rightarrow> kernel \<Rightarrow> kernel" where
  "upd_ram f k = k\<lparr>kmem := (kmem k)\<lparr>mem_ram := f (kram k)\<rparr>\<rparr>"

lemma upd_ram_fields [simp]:
  "kram (upd_ram f k) = f (kram k)" "kctx (upd_ram f k) = kctx k" "kvfs (upd_ram f k) = kvfs k" "procs (upd_ram f k) = procs k"
  "next_pid (upd_ram f k) = next_pid k" "current_pid (upd_ram f k) = current_pid k"
  by (simp_all add: upd_ram_def)

text \<open>The copying loop; it ends with whether every segment lay inside the image.\<close>

function load_loop :: "int \<Rightarrow> addr \<Rightarrow> addr \<Rightarrow> addr \<Rightarrow> u64 \<Rightarrow> u64 \<Rightarrow> nat \<Rightarrow> kernel \<Rightarrow> (bool \<times> kernel) outcome" where
  "load_loop pid file ph base_addr min_vaddr load_size i k =
     (if i < unat (e_phnum (elf_header (kram k) file)) then
        let p = elf_phdr (kram k) ph i in
        if p_type p \<noteq> ELF_PT_LOAD then load_loop pid file ph base_addr min_vaddr load_size (i + 1) k
        else let dest_off = p_vaddr p - min_vaddr in
          if load_size < dest_off \<or> load_size - dest_off < p_memsz p
          then bind_outcome (proc_free pid base_addr k) (\<lambda>(_, k). Ret (False, k))
          else load_loop pid file ph base_addr min_vaddr load_size (i + 1)
                 (upd_ram (memcpy (base_addr + dest_off) (file + p_offset p) (p_filesz p)) k)
      else Ret (True, k))"
  by pat_completeness auto
termination
proof (relation "measure (\<lambda>(pid, fl, ph, b, mn, ls, i, k). 2 ^ 16 - i)")
  have b: "i < 65536" if "i < unat n" for i and n :: u16
    using that unat_lt_2p16 [of n] by linarith
  show "((pid, fl, ph, b, mn, ls, i + 1, k'), pid, fl, ph, b, mn, ls, i, k) \<in> measure (\<lambda>(pid, fl, ph, b, mn, ls, i, k). 2 ^ 16 - i)"
    if "i < unat (e_phnum (elf_header (kram k) fl))" for pid fl ph b mn ls i k k'
    using b [OF that] by simp
  then show "((pid, fl, ph, b, mn, ls, i + 1, k'), pid, fl, ph, b, mn, ls, i, k) \<in> measure (\<lambda>(pid, fl, ph, b, mn, ls, i, k). 2 ^ 16 - i)"
    if "i < unat (e_phnum (elf_header (kram k) fl))" for pid fl ph b mn ls i k k'
    using that .
qed simp_all

declare load_loop.simps [simp del]

definition elf_load_process_image :: "int \<Rightarrow> addr \<Rightarrow> u64 \<Rightarrow> addr \<Rightarrow> kernel \<Rightarrow> (int \<times> elf_image_t option \<times> kernel) outcome" where
  "elf_load_process_image pid file file_size out k =
     (if out = 0 \<or> elf_validate file file_size (kram k) \<noteq> 0 then Ret (- 1, None, k)
      else let eh = elf_header (kram k) file; ph = file + e_phoff eh in
        case inspect_load_range (kram k) eh ph file_size of
          None \<Rightarrow> Ret (- 1, None, k)
        | Some (min_vaddr, max_vaddr, _) \<Rightarrow>
            let load_size = max_vaddr - min_vaddr in
            bind_outcome (proc_alloc pid load_size k) (\<lambda>(base_addr, k).
              if base_addr = 0 then Ret (- 1, None, k)
              else bind_outcome (load_loop pid file ph base_addr min_vaddr load_size 0 (upd_ram (memset base_addr 0 load_size) k))
                (\<lambda>(ok, k).
                   if \<not> ok then Ret (- 1, None, k)
                   else Ret (0, Some \<lparr>im_requested_base = min_vaddr, im_requested_end = max_vaddr, im_load_base = base_addr,
                                 im_load_size = load_size, im_entry = base_addr + (e_entry (elf_header (kram k) file) - min_vaddr)\<rparr>, k))))"

text \<open>The image structure is cleared when its memory was given back; a null pointer is None.\<close>

definition elf_free_process_image :: "int \<Rightarrow> elf_image_t option \<Rightarrow> kernel \<Rightarrow> (elf_image_t option \<times> kernel) outcome" where
  "elf_free_process_image pid img k =
     (case img of
        None \<Rightarrow> Ret (None, k)
      | Some im \<Rightarrow>
          if im_load_base im = 0 then Ret (img, k)
          else bind_outcome (proc_free pid (im_load_base im) k) (\<lambda>(_, k).
            Ret (Some \<lparr>im_requested_base = 0, im_requested_end = 0, im_load_base = 0, im_load_size = 0, im_entry = 0\<rparr>, k)))"

end
