(* ===== verification/Proc_Exec.thy ===== *)
theory Proc_Exec
  imports Elf
begin

unbundle bit_operations_syntax

text \<open>
  Running a program: the part of \<^verbatim>\<open>kernel/proc.c\<close> that reads a file of the file tree into the memory
  of a new process, loads it with the ELF loader, gives it a stack and calls its entry point. The machine
  code of the program is not part of the kernel: it is the argument \<open>user\<close>, a function of the entry point
  and the stack pointer that transforms the kernel state by the system calls it makes, and with it
  whatever else the calls reach, the component \<open>w\<close> of the state.
\<close>

definition proc_attach_image :: "int \<Rightarrow> string option \<Rightarrow> elf_image_t option \<Rightarrow> kernel \<Rightarrow> (int \<times> kernel) outcome" where
  "proc_attach_image pid path img k =
     (case find_proc pid k of
        None \<Rightarrow> Ret (- 1, k)
      | Some i \<Rightarrow>
          case img of
            None \<Rightarrow> Ret (- 1, k)
          | Some im \<Rightarrow>
              if im_load_base im = 0 \<or> im_entry im = 0 then Ret (- 1, k)
              else
                let k = upd_info i (\<lambda>x. x\<lparr>entry_point := im_entry im, image_base := im_load_base im, image_size := im_load_size im,
                          requested_base := im_requested_base im, requested_end := im_requested_end im,
                          pi_exe_path := copy_text PROC_EXEC_PATH_MAX path\<rparr>) k
                in bind_outcome (proc_alloc pid PROC_STACK_SIZE k) (\<lambda>(stack, k).
                     if stack = 0 then Ret (- 1, k)
                     else Ret (0, upd_info i (\<lambda>x. x\<lparr>stack_pointer := stack + PROC_STACK_SIZE\<rparr>) k)))"

definition proc_start_flat ::
  "(addr \<Rightarrow> addr \<Rightarrow> 'w \<times> kernel \<Rightarrow> ('w \<times> kernel) outcome) \<Rightarrow> int \<Rightarrow> 'w \<times> kernel \<Rightarrow> (int \<times> 'w \<times> kernel) outcome" where
  "proc_start_flat user pid wk =
     (let (w, k) = wk in
      case find_proc pid k of
        None \<Rightarrow> Ret (- 1, w, k)
      | Some i \<Rightarrow>
          if entry_point (info (procs k ! i)) = 0 \<or> proc_is_terminal_state (pi_state (info (procs k ! i))) then Ret (- 1, w, k)
          else
            let previous = current_pid k;
                (r, k) = proc_set_current pid k
            in if r \<noteq> 0 then Ret (- 1, w, k)
            else
              let entry = entry_point (info (procs k ! i));
                  stack_top = stack_pointer (info (procs k ! i)) AND NOT 0xF
              in bind_outcome (user entry stack_top (w, k)) (\<lambda>(w, k).
                bind_outcome
                  (case find_proc pid k of
                     None \<Rightarrow> Ret (0, k)
                   | Some j \<Rightarrow> if proc_is_terminal_state (pi_state (info (procs k ! j))) then Ret (0, k) else proc_exit_locked pid 0 k)
                  (\<lambda>(_, k).
                    if previous \<noteq> 0 \<and> previous \<noteq> pid \<and> find_proc previous k \<noteq> None then Ret (0, w, snd (proc_set_current previous k))
                    else if current_pid k = pid then Ret (0, w, k\<lparr>current_pid := 0\<rparr>)
                    else Ret (0, w, k))))"

definition read_vfs_file :: "string option \<Rightarrow> addr \<Rightarrow> u64 \<Rightarrow> kernel \<Rightarrow> (int \<times> kernel) outcome" where
  "read_vfs_file path buf sz k =
     bind_outcome (vfs_open path VFS_O_RDONLY (kvfs k) (kmem k)) (\<lambda>(fd, v, m).
       if fd < 0 then Ret (- 1, k\<lparr>kvfs := v, kmem := m\<rparr>)
       else let (got, v, m) = vfs_read fd buf sz v m;
                v = snd (vfs_close fd v)
            in Ret (if got = sint sz then 0 else - 1, k\<lparr>kvfs := v, kmem := m\<rparr>))"

text \<open>
  The clean-up \<^verbatim>\<open>memctx_destroy(find_proc(pid)->info.memctx); memset(find_proc(pid), 0, ...)\<close> of the error
  paths. A process that is not found would be a null pointer dereference.
\<close>

definition discard_proc :: "int \<Rightarrow> int \<Rightarrow> kernel \<Rightarrow> (int \<times> kernel) outcome" where
  "discard_proc pid r k =
     (case find_proc pid k of
        None \<Rightarrow> Panic ''null pointer''
      | Some i \<Rightarrow>
          bind_outcome (memctx_destroy (pi_memctx (info (procs k ! i))) (kctx k) (kmem k)) (\<lambda>(_, ctx, m).
            Ret (r, upd_proc i (\<lambda>_. no_proc) (k\<lparr>kctx := ctx, kmem := m\<rparr>))))"

text \<open>
  The part of \<open>proc_spawn_exec\<close> from the allocation for the file to the attached image: 0 when the process is
  ready to start, otherwise the error that is returned after the clean-up. The address of the local variables
  \<open>st\<close> and \<open>image\<close> stands as 1: it is only compared with null.
\<close>

definition spawn_load :: "int \<Rightarrow> string option \<Rightarrow> u64 \<Rightarrow> kernel \<Rightarrow> (int \<times> kernel) outcome" where
  "spawn_load pid path sz k =
     bind_outcome (proc_alloc pid sz k) (\<lambda>(fl, k).
       if fl = 0 then discard_proc pid PROC_ERR_NOMEM k
       else bind_outcome (read_vfs_file path fl sz k) (\<lambda>(r, k).
         if r \<noteq> 0 then discard_proc pid (- 1) k
         else bind_outcome (elf_load_process_image pid fl sz 1 k) (\<lambda>(r, img, k).
           if r \<noteq> 0 then discard_proc pid PROC_ERR_NOMEM k
           else bind_outcome (proc_attach_image pid path img k) (\<lambda>(r, k).
             if r \<noteq> 0 then bind_outcome (elf_free_process_image pid img k) (\<lambda>(_, k). discard_proc pid PROC_ERR_NOMEM k)
             else Ret (0, k)))))"

definition proc_spawn_exec ::
  "(addr \<Rightarrow> addr \<Rightarrow> 'w \<times> kernel \<Rightarrow> ('w \<times> kernel) outcome) \<Rightarrow> int \<Rightarrow> string option \<Rightarrow> 'w \<times> kernel \<Rightarrow> (int \<times> 'w \<times> kernel) outcome" where
  "proc_spawn_exec user parent_pid path wk =
     (let (w, k) = wk in
      if path = None \<or> find_proc parent_pid k = None then Ret (- 1, w, k)
      else case vfs_stat path 1 (kvfs k) of
        (r, None) \<Rightarrow> Ret (- 1, w, k)
      | (r, Some st) \<Rightarrow>
          if r \<noteq> 0 \<or> stat_type st \<noteq> VFS_TYPE_FILE \<or> stat_size st = 0 then Ret (- 1, w, k)
          else
            let (pid, k) = proc_create (basename_from_path path) parent_pid k in
            if pid < 0 then Ret (pid, w, k)
            else bind_outcome (spawn_load pid path (stat_size st) k) (\<lambda>(r, k).
              if r \<noteq> 0 then Ret (r, w, k)
              else bind_outcome (proc_start_flat user pid (w, k)) (\<lambda>(start, wk).
                Ret (if start = 0 then pid else - 1, wk))))"

end
