(* ===== verification/Heap_Steps.thy ===== *)
theory Heap_Steps
  imports Vfs_Data Memctx
begin

text \<open>
  How the kernel changes the bytes of its heap. In C the headers of the blocks lie in the same memory as
  the data; in the model they are a store of their own beside RAM, so a write to RAM cannot damage them.
  This theory shows where that separation is sound: the bytes of a live block are never bytes of a
  header, and the operations of the file tree and of the memory contexts change the heap only by calls
  of the allocator and by writes inside live blocks.
\<close>

section \<open>The bytes of the headers\<close>

definition header_bytes :: "mem_state \<Rightarrow> addr set" where
  "header_bytes m = {a. \<exists>B F b. mem_inv m B F \<and> b \<in> B \<and> a \<in> region b SIZEOF_MEM_BLOCK}"

text \<open>The headers in use determine the blocks: two tilings of the same regions are the same.\<close>

lemma tiled_sub:
  assumes t: "tiled h B R" "tiled h C R"
  shows "b \<in> B \<longrightarrow> b \<in> C"
proof (induction "unat b" arbitrary: b rule: less_induct)
  case less
  show ?case
  proof
    assume b: "b \<in> B"
    note D = tiledD [OF t(1)] and E = tiledD [OF t(2)]
    have "unat b \<in> ival h b" using hdr_okD(2) [OF D(2) [OF b]] by (simp add: ival_def)
    then have "unat b \<in> R (from_swap (h b))" using D(4) b by blast
    then obtain c where c: "c \<in> C" "unat b \<in> ival h c" using E(4) by blast
    show "b \<in> C"
    proof (cases "c = b")
      case False
      then have lt: "unat c < unat b" using c(2) word_unat_eq_iff by (fastforce simp: ival_def)
      have "unat c \<in> ival h c" using hdr_okD(2) [OF E(2) [OF c(1)]] by (simp add: ival_def)
      then have "unat c \<in> R (from_swap (h c))" using E(4) c(1) by blast
      then obtain d where d: "d \<in> B" "unat c \<in> ival h d" using D(4) by blast
      then have "unat d \<le> unat c" by (simp add: ival_def)
      with lt less [of d] d(1) have "d \<in> C" by simp
      with E(3) [of d c] c(1) d(2) \<open>unat c \<in> ival h c\<close> have "d = c" by blast
      with d(1) D(3) [of b c] b c(2) \<open>unat b \<in> ival h b\<close> False show ?thesis by blast
    qed (use c in simp)
  qed
qed

lemma tiled_unique: "tiled h B R \<Longrightarrow> tiled h C R \<Longrightarrow> B = C"
  using tiled_sub by blast

lemma header_ival: "hdr_ok b (h b) \<Longrightarrow> a \<in> region b SIZEOF_MEM_BLOCK \<Longrightarrow> unat a \<in> ival h b \<and> unat a < unat b + 40"
proof -
  assume b: "hdr_ok b (h b)" and a: "a \<in> region b SIZEOF_MEM_BLOCK"
  have d: "unat (a - b) < 40" using a by (simp add: region_def SIZEOF_MEM_BLOCK_def word_less_nat_alt)
  have "unat (b + (a - b)) = unat b + unat (a - b)" by (rule unat_add64) (use hdr_okD(2,5) [OF b] d in simp)
  then have "unat a = unat b + unat (a - b)" by simp
  with d hdr_okD(2) [OF b] show ?thesis by (simp add: ival_def)
qed

lemma live_above:
  assumes "hdr_ok b (h b)" and "x \<in> region (b + SIZEOF_MEM_BLOCK) (user_size (h b))"
  shows "unat b + 40 \<le> unat x"
proof -
  let ?d = "x - (b + 40)"
  have d: "unat ?d < unat (user_size (h b))"
    using assms(2) by (simp add: region_def SIZEOF_MEM_BLOCK_def word_less_nat_alt)
  have "unat ((b + 40) + ?d) = unat (b + 40) + unat ?d"
    by (rule unat_add64) (use hdr_okD(2,4,5,8) [OF assms(1)] d in simp)
  then show ?thesis using hdr_okD(8) [OF assms(1)] by simp
qed

lemma live_not_header:
  assumes rep: "mem_rep m L" and p: "L p = Some k"
  shows "region p k \<inter> header_bytes m = {}"
proof -
  from rep obtain B F where B: "mem_inv m B F" "L = live_map (hdrs m) (B - set F)" unfolding mem_rep_def by blast
  let ?b = "p - SIZEOF_MEM_BLOCK"
  have b: "?b \<in> B" "k = user_size (hdrs m ?b)" using B(2) p by (auto simp: live_map_def split: if_splits)
  have t: "tiled (hdrs m) B (regions m)" using B(1) unfolding mem_inv_def by (blast dest: heap_okD(2))
  note D = tiledD [OF t]
  have False if x: "x \<in> region p k" "x \<in> header_bytes m" for x
  proof -
    from x(2) obtain B' F' c where c: "mem_inv m B' F'" "c \<in> B'" "x \<in> region c SIZEOF_MEM_BLOCK" unfolding header_bytes_def by blast
    have "tiled (hdrs m) B' (regions m)" using c(1) unfolding mem_inv_def by (blast dest: heap_okD(2))
    from tiled_unique [OF this t] c(2) have cB: "c \<in> B" by simp
    have xb: "unat x \<in> ival (hdrs m) ?b" "unat ?b + 40 \<le> unat x"
      using live_region [of ?b "hdrs m" x] live_above [of ?b "hdrs m" x] D(2) [OF b(1)] x(1) b(2) by simp_all
    have xc: "unat x \<in> ival (hdrs m) c \<and> unat x < unat c + 40" by (rule header_ival) (use D(2) [OF cB] c(3) in simp_all)
    with xb(1) D(3) [OF cB b(1)] have "c = ?b" by blast
    with xc xb(2) show False by simp
  qed
  then show ?thesis by blast
qed

section \<open>Steps of the heap\<close>

text \<open>
  A call of the allocator, or a write of any bytes inside one live block.
\<close>

inductive heap_step :: "mem_state \<Rightarrow> mem_state \<Rightarrow> bool" where
  alloc: "mem_alloc n m = Ret (p, m') \<Longrightarrow> unat n \<le> 2 ^ 62 \<Longrightarrow> heap_step m m'"
| release: "mem_rep m L \<Longrightarrow> L p = Some k \<Longrightarrow> n \<le> k \<Longrightarrow> mem_free p n m = Ret m' \<Longrightarrow> heap_step m m'"
| data: "mem_rep m L \<Longrightarrow> L p = Some k \<Longrightarrow> (\<forall>a. a \<notin> region p k \<longrightarrow> r a = mem_ram m a) \<Longrightarrow>
    heap_step m (m\<lparr>mem_ram := r\<rparr>)"

text \<open>Such a step leaves the heap well formed and the bytes of the headers to the allocator.\<close>

lemma heap_step_rep:
  assumes "heap_step m m'" and rep: "mem_rep m L"
  shows "(\<exists>L'. mem_rep m' L') \<and> (\<forall>a\<in>header_bytes m. mem_ram m' a = mem_ram m a)"
  using assms(1)
proof cases
  case (alloc n p)
  with kheap.alloc_law [OF rep, of n] show ?thesis by (auto split: if_splits)
next
  case (release L' p k n)
  from kheap.release_law [OF release(1-3)] release(4) have "mem_rep m' (L'(p := None))"
    "\<forall>x. x \<notin> region p k \<longrightarrow> mem_ram m' x = mem_ram m x" by auto
  with live_not_header [OF release(1,2)] show ?thesis by blast
next
  case (data L' p k r)
  with live_not_header [OF data(2,3)] kheap.rep_set_ram [of r m L'] show ?thesis by auto
qed

lemma heap_steps_rep: "heap_step\<^sup>*\<^sup>* m m' \<Longrightarrow> mem_rep m L \<Longrightarrow> \<exists>L'. mem_rep m' L'"
  by (induction rule: rtranclp_induct) (auto dest: heap_step_rep)

lemma heap_step_memcpy:
  assumes "mem_rep m L" and "L q = Some j" and "region dst n \<subseteq> region q j"
  shows "heap_step m (m\<lparr>mem_ram := memcpy dst src n (mem_ram m)\<rparr>)"
  by (rule heap_step.data [OF assms(1,2)]) (use assms(3) memcpy_outside in blast)

lemma region_offset:
  fixes k off n :: u64
  assumes "off + n \<le> k" and u: "unat (off + n) = unat off + unat n"
  shows "region (p + off) n \<subseteq> region p k"
proof
  fix x assume "x \<in> region (p + off) n"
  then have d: "unat (x - (p + off)) < unat n" by (simp add: region_def word_less_nat_alt)
  have "unat (off + y) \<le> unat off + unat y" for y :: u64 by (simp add: unat_word_ariths)
  then have "unat (off + (x - (p + off))) \<le> unat off + unat (x - (p + off))" .
  moreover have "off + (x - (p + off)) = x - p" by simp
  ultimately have "unat (x - p) < unat (off + n)" using d u by simp
  with assms(1) show "x \<in> region p k" by (simp add: region_def word_less_nat_alt word_le_nat_alt)
qed

text \<open>A buffer that the caller passes for the bytes it wants lies in a live block.\<close>

definition heap_buffer :: "mem_state \<Rightarrow> addr \<Rightarrow> u64 \<Rightarrow> bool" where
  "heap_buffer m buf n \<longleftrightarrow> (\<exists>L q j. mem_rep m L \<and> L q = Some j \<and> region buf n \<subseteq> region q j)"

section \<open>The file tree\<close>

lemma read_len_le:
  fixes off size len :: u64
  shows "off < size \<Longrightarrow> size < off + len \<Longrightarrow> size - off \<le> len"
  by unat_arith

lemma vfs_read_heap:
  assumes "vfs_read fd buf n v m = (r, v', m')" and b: "heap_buffer m buf n"
  shows "heap_step\<^sup>*\<^sup>* m m'"
proof -
  from b obtain L q j where q: "mem_rep m L" "L q = Some j" "region buf n \<subseteq> region q j" unfolding heap_buffer_def by blast
  have "heap_step m (m\<lparr>mem_ram := memcpy buf src k (mem_ram m)\<rparr>)" if "k \<le> n" for k src
    using heap_step_memcpy [OF q(1,2), of buf k src] q(3) that by (force simp: region_def)
  moreover have "m' = m \<or> (\<exists>src k. k \<le> n \<and> m' = m\<lparr>mem_ram := memcpy buf src k (mem_ram m)\<rparr>)"
  proof -
    let ?o = "open_files v ! nat fd" and ?x = "node_at v (o_node (open_files v ! nat fd))"
    let ?k = "if n_size ?x < offset ?o + n then n_size ?x - offset ?o else n"
    have "m' = m \<or> offset ?o < n_size ?x \<and> m' = m\<lparr>mem_ram := memcpy buf (n_data ?x + offset ?o) ?k (mem_ram m)\<rparr>"
      using assms(1) by (auto simp: vfs_read_def Let_def not_le split: if_splits)
    moreover have "offset ?o < n_size ?x \<Longrightarrow> ?k \<le> n" using read_len_le [of "offset ?o" "n_size ?x" n] by simp
    ultimately show ?thesis by blast
  qed
  ultimately show ?thesis by blast
qed

lemma free_data_heap:
  assumes rep: "mem_rep m L" and c: "content_ok n L" and f: "mem_free (n_data n) (capacity n) m = Ret m'" "n_data n \<noteq> 0"
  shows "heap_step m m'"
proof -
  from c f(2) obtain j where "L (n_data n) = Some j" "capacity n \<le> j" by (auto simp: content_ok_def split: if_splits)
  with heap_step.release [OF rep _ _ f(1)] show ?thesis by blast
qed

lemma drop_node_heap:
  assumes "drop_node n v m = Ret (r, v', m')" and "mem_rep m L" and "content_ok (node_at v n) L"
  shows "heap_step\<^sup>*\<^sup>* m m'"
  using assms free_data_heap [OF assms(2,3)] by (auto simp: drop_node_def bind_outcome_Ret_iff split: if_splits)

lemma node_content: "vfs_inv v L \<Longrightarrow> is_node v n \<Longrightarrow> content_ok (node_at v n) L"
  by (auto simp: vfs_inv_def data_ok_def is_node_def node_at_def dest!: tree_okD(2))

lemma vfs_unlink_heap:
  assumes "vfs_unlink path v m = Ret (r, v', m')" and "mem_rep m L" and inv: "vfs_inv v L"
  shows "heap_step\<^sup>*\<^sup>* m m'"
proof (cases "resolve_path v path \<le> 0")
  case False
  have "tree_ok v" using inv by (simp add: vfs_inv_def)
  then have "is_node v (resolve_path v path)" using resolve_path_node False by force
  from drop_node_heap [OF _ assms(2) node_content [OF inv this]] assms(1) False show ?thesis
    by (auto simp: vfs_unlink_def Let_def split: if_splits)
qed (use assms(1) in \<open>auto simp: vfs_unlink_def Let_def\<close>)

lemma vfs_rmdir_heap:
  assumes "vfs_rmdir path v m = Ret (r, v', m')" and "mem_rep m L" and inv: "vfs_inv v L"
  shows "heap_step\<^sup>*\<^sup>* m m'"
proof (cases "resolve_path v path \<le> 0")
  case False
  have "tree_ok v" using inv by (simp add: vfs_inv_def)
  then have "is_node v (resolve_path v path)" using resolve_path_node False by force
  from node_content [OF inv this] have "content_ok (node_at v (resolve_path v path)) L" .
  then have "content_ok (node_at (v\<lparr>cwd_node := c\<rparr>) (resolve_path v path)) L" for c by (simp add: node_at_def)
  with drop_node_heap [OF _ assms(2)] \<open>content_ok (node_at v (resolve_path v path)) L\<close> assms(1) False show ?thesis
    by (auto simp: vfs_rmdir_def Let_def split: if_splits)
qed (use assms(1) in \<open>auto simp: vfs_rmdir_def Let_def\<close>)

lemma ensure_capacity_heap:
  assumes run: "ensure_capacity n need m = Ret (r, n', m')" and rep: "mem_rep m L"
    and c: "content_ok n L" and need: "unat need \<le> 2 ^ 61"
  shows "heap_step\<^sup>*\<^sup>* m m'"
proof (cases "need \<le> capacity n")
  case True
  with run show ?thesis by (simp add: ensure_capacity_def)
next
  case False
  let ?c0 = "if capacity n \<noteq> 0 then capacity n else 64"
  have "0 < unat ?c0" by (auto simp flip: unat_gt_0)
  from grow_cap_ok [OF this need] obtain cap where cap: "grow_cap ?c0 need = Some cap" "need \<le> cap"
    "cap = ?c0 \<or> unat cap < 2 * unat need" by blast
  have small: "unat cap \<le> 2 ^ 62" using cap(2,3) False need by (auto split: if_splits)
  from kheap.alloc_law [OF rep small] obtain p m1 where r: "mem_alloc cap m = Ret (p, m1)" "mem_ram m1 = mem_ram m"
    "if p = 0 then mem_rep m1 L else \<exists>k. cap \<le> k \<and> L p = None \<and> mem_rep m1 (L(p \<mapsto> k))" by blast
  have s1: "heap_step m m1" by (rule heap_step.alloc [OF r(1) small])
  show ?thesis
  proof (cases "p = 0")
    case True
    with run False cap(1) r(1) s1 show ?thesis by (auto simp: ensure_capacity_def)
  next
    case p: False
    with r obtain k where k: "cap \<le> k" "L p = None" "mem_rep m1 (L(p \<mapsto> k))" by auto
    define m2 where "m2 = (if n_data n \<noteq> 0 \<and> n_size n \<noteq> 0
       then m1\<lparr>mem_ram := memcpy p (n_data n) (n_size n) (mem_ram m1)\<rparr> else m1)"
    have "n_size n \<le> k" using c cap(2) k(1) False by (auto simp: content_ok_def)
    then have "region p (n_size n) \<subseteq> region p k" by (auto simp: region_def)
    with heap_step_memcpy [OF k(3), of p k p "n_size n"] have s2: "heap_step\<^sup>*\<^sup>* m1 m2" by (auto simp: m2_def)
    have rep2: "mem_rep m2 (L(p \<mapsto> k))" using k(3) kheap.rep_set_ram by (simp add: m2_def)
    have "L \<subseteq>\<^sub>m L(p \<mapsto> k)" using k(2) by (auto simp: map_le_def)
    then have "content_ok n (L(p \<mapsto> k))" using c by (auto simp: content_ok_def map_le_def dom_def split: if_splits)
    from free_data_heap [OF rep2 this] run False cap(1) r(1) p have "heap_step\<^sup>*\<^sup>* m2 m'"
      unfolding ensure_capacity_def m2_def by (auto simp: Let_def bind_outcome_Ret_iff split: if_splits)
    with s1 s2 show ?thesis by (meson converse_rtranclp_into_rtranclp rtranclp_trans)
  qed
qed

lemma vfs_write_heap:
  assumes run: "vfs_write fd buf n v m = Ret (r, v', m')" and rep: "mem_rep m L" and inv: "vfs_inv v L"
    and bound: "unat (write_off v fd) + unat n \<le> 2 ^ 61"
  shows "heap_step\<^sup>*\<^sup>* m m'"
proof (cases "fd_ok v fd \<and> buf \<noteq> 0 \<and> n_type (node_at v (fd_node v fd)) = VFS_TYPE_FILE")
  case False
  then have "vfs_write fd buf n v m = Ret (- 1, v, m)" by (auto simp: vfs_write_def fd_node_def Let_def)
  with run show ?thesis by simp
next
  case True
  let ?x = "node_at v (fd_node v fd)" and ?off = "write_off v fd"
  have fd: "fd_ok v fd" "buf \<noteq> 0" "n_type ?x = VFS_TYPE_FILE" using True by auto
  have ok: "tree_ok v" using inv by (simp add: vfs_inv_def)
  have node: "is_node v (fd_node v fd)" by (rule file_is_node [OF ok fd(1,3)])
  have len: "nat (fd_node v fd) < length (nodes v)" "nat fd < length (open_files v)"
    using node fd(1) tree_okD(2,3) [OF ok] by (auto simp: is_node_def fd_ok_def)
  note c = node_content [OF inv node]
  have u: "unat (?off + n) = unat ?off + unat n" by (rule unat_add64) (use bound in simp)
  then have small: "unat (?off + n) \<le> 2 ^ 61" using bound by simp
  from ensure_capacity_ok [OF rep c fd(3) small] obtain e x m1 L' where
    ec: "ensure_capacity ?x (?off + n) m = Ret (e, x, m1)" and g: "grown ?x m L x m1 L'"
    and e: "e = 0 \<and> ?off + n \<le> capacity x \<or> e = - 1 \<and> x = ?x \<and> L' = L \<and> mem_ram m1 = mem_ram m" by blast
  note s1 = ensure_capacity_heap [OF ec rep c small]
  from e show ?thesis
  proof
    assume "e = - 1 \<and> x = ?x \<and> L' = L \<and> mem_ram m1 = mem_ram m"
    with vfs_write_fail [OF fd len] ec run have "m' = m1" by fastforce
    with s1 show ?thesis by simp
  next
    assume e: "e = 0 \<and> ?off + n \<le> capacity x"
    with vfs_write_run [OF fd len] ec run have m': "m' = m1\<lparr>mem_ram := memcpy (n_data x + ?off) buf n (mem_ram m1)\<rparr>" by auto
    have g1: "mem_rep m1 L'" "content_ok x L'" using g by (simp_all add: grown_def)
    show ?thesis
    proof (cases "n = 0")
      case True
      have "memcpy (n_data x + ?off) buf 0 (mem_ram m1) = mem_ram m1" by (rule ext, rule memcpy_outside) (simp add: region_def)
      with True m' s1 show ?thesis by simp
    next
      case False
      then have "capacity x \<noteq> 0" using e u by (auto simp: word_le_nat_alt unat_eq_0 [symmetric])
      with g1(2) obtain k where k: "L' (n_data x) = Some k" "capacity x \<le> k" by (auto simp: content_ok_def split: if_splits)
      have "?off + n \<le> k" using e k(2) order_trans by blast
      then have "region (n_data x + ?off) n \<subseteq> region (n_data x) k" using u by (rule region_offset)
      from heap_step_memcpy [OF g1(1) k(1) this, of buf] s1 show ?thesis unfolding m' by simp
    qed
  qed
qed

section \<open>Memory contexts\<close>

lemma memctx_alloc_heap:
  assumes "memctx_alloc cid sz cs m = Ret (p, cs', m')" and "unat sz \<le> 2 ^ 62"
  shows "heap_step\<^sup>*\<^sup>* m m'"
  using assms heap_step.alloc [of sz m]
  by (fastforce simp: memctx_alloc_def memctx_alloc_with_def Let_def bind_outcome_Ret_iff split: if_splits option.splits)

lemma memctx_free_heap:
  assumes run: "memctx_free cid p cs m = Ret (r, cs', m')" and rep: "mem_rep m L" and inv: "memctx_inv cs L"
  shows "heap_step\<^sup>*\<^sup>* m m'"
proof (cases "p = 0 \<or> find_ctx cid cs = None \<or> find_block cid p cs = None")
  case True
  with run show ?thesis by (auto simp: memctx_free_def memctx_free_with_def split: option.splits)
next
  case False
  then obtain i j where i: "find_ctx cid cs = Some i" and j: "find_block cid p cs = Some j" and p: "p \<noteq> 0" by auto
  have bok: "blocks_ok (ctx_blocks cs) L (active_ids (contexts cs))" using inv by (simp add: memctx_inv_def)
  have j': "j < length (ctx_blocks cs)" "mb_ptr (ctx_blocks cs ! j) = p"
    using j by (auto simp: find_block_def dest: find_slot_SomeD)
  from blocks_okD(2) [OF bok j'(1)] j'(2) p obtain k where k: "L p = Some k" "mb_size (ctx_blocks cs ! j) \<le> k" by auto
  from heap_step.release [OF rep k] run i j p show ?thesis
    by (auto simp: memctx_free_def memctx_free_with_def Let_def bind_outcome_Ret_iff)
qed

lemma free_ctx_blocks_heap:
  assumes "free_ctx_blocks_with mem_free cid is bs m = Ret (bs', m')" and "mem_rep m L" and "blocks_ok bs L A"
    and "set is \<subseteq> {..<length bs}"
  shows "heap_step\<^sup>*\<^sup>* m m'"
  using assms
proof (induction "is" arbitrary: bs m L)
  case (Cons i "is")
  show ?case
  proof (cases "mb_ptr (bs ! i) \<noteq> 0 \<and> mb_ctx (bs ! i) = cid")
    case True
    let ?p = "mb_ptr (bs ! i)"
    have i: "i < length bs" using Cons.prems(4) by simp
    from blocks_okD(2) [OF Cons.prems(3) i] True obtain k where k: "L ?p = Some k" "mb_size (bs ! i) \<le> k" by auto
    from kheap.release_law [OF Cons.prems(2) k] obtain m1 where
      m1: "mem_free ?p (mb_size (bs ! i)) m = Ret m1" "mem_rep m1 (L(?p := None))" by blast
    have ok: "blocks_ok (bs[i := no_block]) (L(?p := None)) A" by (rule blocks_ok_remove [OF Cons.prems(3) i]) (use True in auto)
    have run: "free_ctx_blocks_with mem_free cid is (bs[i := no_block]) m1 = Ret (bs', m')" using Cons.prems(1) True m1(1) by simp
    have "set is \<subseteq> {..<length (bs[i := no_block])}" using Cons.prems(4) by simp
    from Cons.IH [OF run m1(2) ok this] heap_step.release [OF Cons.prems(2) k m1(1)] show ?thesis
      by (rule converse_rtranclp_into_rtranclp [rotated])
  next
    case False
    with Cons.prems Cons.IH [of bs m L] show ?thesis by auto
  qed
qed simp

lemma memctx_destroy_heap:
  assumes run: "memctx_destroy cid cs m = Ret (r, cs', m')" and rep: "mem_rep m L" and inv: "memctx_inv cs L"
  shows "heap_step\<^sup>*\<^sup>* m m'"
proof (cases "find_ctx cid cs")
  case None
  with run show ?thesis by (simp add: memctx_destroy_def memctx_destroy_with_def)
next
  case (Some i)
  have bok: "blocks_ok (ctx_blocks cs) L (active_ids (contexts cs))" using inv by (simp add: memctx_inv_def)
  have "set [0..<MEMCTX_MAX_BLOCKS] \<subseteq> {..<length (ctx_blocks cs)}" using blocks_okD(1) [OF bok] by auto
  from free_ctx_blocks_heap [OF _ rep bok this] run Some show ?thesis
    by (auto simp: memctx_destroy_def memctx_destroy_with_def bind_outcome_Ret_iff)
qed

end
