(* ===== verification/Vfs_Props.thy ===== *)
theory Vfs_Props
  imports Heap_Steps
begin

text \<open>
  The properties of the file tree (\<^verbatim>\<open>kernel/vfs.c\<close>): every sequence of operations keeps the invariant,
  written bytes are read back, a created directory is found again, and the path of the working
  directory leads back to it.
\<close>

unbundle bit_operations_syntax

section \<open>The path of the working directory\<close>

lemma build_loop_total: "\<exists>r. build_loop v cur tmp = Some r"
proof (induction "VFS_MAX_PATH - length tmp" arbitrary: cur tmp rule: less_induct)
  case less
  show ?case
  proof (cases "cur = 0 \<or> VFS_MAX_PATH \<le> length (n_name (node_at v cur)) + length tmp + 2")
    case True
    then show ?thesis by (subst build_loop.simps) auto
  next
    case False
    then have "VFS_MAX_PATH - length (CHR ''/'' # n_name (node_at v cur) @ tmp) < VFS_MAX_PATH - length tmp"
      by (intro diff_less_mono2) auto
    from less [OF this] False show ?thesis by (subst build_loop.simps) simp
  qed
qed

text \<open>Names as the operations make them, and no two entries of a directory with the same name.\<close>

definition proper_name :: "string \<Rightarrow> bool" where
  "proper_name s \<longleftrightarrow> s \<noteq> [] \<and> s \<noteq> ''.'' \<and> s \<noteq> ''..'' \<and> CHR ''/'' \<notin> set s"

definition names_ok :: "vfs_state \<Rightarrow> bool" where
  "names_ok v \<longleftrightarrow> (\<forall>i<length (nodes v). n_used (nodes v ! i) \<and> i \<noteq> 0 \<longrightarrow> proper_name (n_name (nodes v ! i)) \<and>
     (\<forall>j<length (nodes v). n_used (nodes v ! j) \<and> j \<noteq> 0 \<and> parent (nodes v ! i) = parent (nodes v ! j) \<and>
        n_name (nodes v ! i) = n_name (nodes v ! j) \<longrightarrow> i = j))"

lemma next_segment_name:
  assumes "proper_name s" and "t = [] \<or> hd t = CHR ''/''"
  shows "next_segment (CHR ''/'' # s @ t) = (s, t)"
proof -
  have n: "\<forall>c\<in>set s. c \<noteq> CHR ''/''" "s \<noteq> []" using assms(1) by (auto simp: proper_name_def)
  then have "dropWhile (\<lambda>c. c = CHR ''/'') (CHR ''/'' # s @ t) = s @ t" by (cases s) auto
  moreover have "takeWhile (\<lambda>c. c \<noteq> CHR ''/'') (s @ t) = s" "dropWhile (\<lambda>c. c \<noteq> CHR ''/'') (s @ t) = t"
    using n assms(2) by (cases t; simp add: takeWhile_append2 dropWhile_append2)+
  ultimately show ?thesis by (simp add: next_segment_def)
qed

lemma names_okD:
  assumes "names_ok v" and "is_node v n" and "n \<noteq> 0" and "length (nodes v) = VFS_MAX_NODES"
  shows "proper_name (n_name (node_at v n))"
    and "is_node v k \<Longrightarrow> k \<noteq> 0 \<Longrightarrow> parent (node_at v k) = parent (node_at v n) \<Longrightarrow>
      n_name (node_at v k) = n_name (node_at v n) \<Longrightarrow> k = n"
proof -
  have n: "nat n < length (nodes v)" "n_used (nodes v ! nat n)" "nat n \<noteq> 0" "0 \<le> n"
    using assms(2-4) by (auto simp: is_node_def node_at_def)
  show "proper_name (n_name (node_at v n))" using assms(1) n by (simp add: names_ok_def node_at_def)
  show "k = n" if k: "is_node v k" "k \<noteq> 0" "parent (node_at v k) = parent (node_at v n)"
    "n_name (node_at v k) = n_name (node_at v n)"
  proof -
    have "nat k < length (nodes v)" "n_used (nodes v ! nat k)" "nat k \<noteq> 0" "0 \<le> k"
      using k(1,2) assms(4) by (auto simp: is_node_def node_at_def)
    with assms(1) n k(3,4) have "nat k = nat n" unfolding names_ok_def node_at_def by blast
    with n(4) \<open>0 \<le> k\<close> show ?thesis by simp
  qed
qed

lemma find_child_self:
  assumes ok: "tree_ok v" and names: "names_ok v" and n: "is_node v n" "n \<noteq> 0" and root: "n_name (node_at v 0) = []"
  shows "find_child v (parent (node_at v n)) (n_name (node_at v n)) = n"
proof -
  note len = tree_okD(2) [OF ok]
  let ?k = "find_child v (parent (node_at v n)) (n_name (node_at v n))"
  have k: "is_node v ?k" by (rule find_child_found [OF len tree_okD(8) [OF ok n(1)] n(1)]) simp_all
  then have "?k \<noteq> - 1" by (auto simp: is_node_def)
  with find_child_cases [OF len] have c: "parent (node_at v ?k) = parent (node_at v n)" "n_name (node_at v ?k) = n_name (node_at v n)"
    by blast+
  have "proper_name (n_name (node_at v n))" by (rule names_okD(1) [OF names n len])
  then have "?k \<noteq> 0" using c(2) root by (auto simp: proper_name_def)
  from names_okD(2) [OF names n len k this c] show ?thesis .
qed

lemma build_loop_resolves:
  "build_loop v cur tmp = Some (Some p) \<Longrightarrow> tree_ok v \<Longrightarrow> names_ok v \<Longrightarrow> n_name (node_at v 0) = [] \<Longrightarrow> is_node v cur \<Longrightarrow>
   tmp = [] \<or> hd tmp = CHR ''/'' \<Longrightarrow>
   resolve_loop v 0 p = resolve_loop v cur tmp \<and> (p = [] \<or> hd p = CHR ''/'') \<and> (p = [] \<longrightarrow> tmp = [] \<and> cur = 0)"
proof (induction "VFS_MAX_PATH - length tmp" arbitrary: cur tmp rule: less_induct)
  case less
  show ?case
  proof (cases "cur = 0")
    case True
    with less.prems show ?thesis by (subst (asm) build_loop.simps) auto
  next
    case False
    let ?n = "node_at v cur" and ?t = "CHR ''/'' # n_name (node_at v cur) @ tmp"
    have small: "length (n_name ?n) + length tmp + 2 < VFS_MAX_PATH" and run: "build_loop v (parent ?n) ?t = Some (Some p)"
      using less.prems(1) False by (subst (asm) build_loop.simps, simp split: if_splits)+
    have "is_node v (parent ?n)" using tree_okD(8) [OF less.prems(2,5)] by (rule is_dir_node)
    have dec: "VFS_MAX_PATH - length ?t < VFS_MAX_PATH - length tmp" using small by (intro diff_less_mono2) auto
    from less.hyps [OF dec run less.prems(2-4) \<open>is_node v (parent ?n)\<close>]
    have "resolve_loop v 0 p = resolve_loop v (parent ?n) ?t \<and> (p = [] \<or> hd p = CHR ''/'') \<and> p \<noteq> []" by auto
    then have ih: "resolve_loop v 0 p = resolve_loop v (parent ?n) ?t" "p \<noteq> []" "hd p = CHR ''/''" by blast+
    have nm: "proper_name (n_name ?n)" by (rule names_okD(1) [OF less.prems(3,5) False tree_okD(2) [OF less.prems(2)]])
    have "resolve_loop v (parent ?n) ?t = resolve_loop v cur tmp"
      unfolding resolve_loop_step [OF next_segment_name [OF nm less.prems(6)]]
      using nm find_child_self [OF less.prems(2,3,5) False less.prems(4)] less.prems(5)
      by (auto simp: proper_name_def is_node_def resolve_loop_step [of "[]" "[]" "[]"] next_segment_def)
    with ih show ?thesis by simp
  qed
qed

text \<open>
  The calls a client makes on the file tree, and the rest of the kernel on the heap. The kernel trusts its
  callers with pointers: a read fills the buffer it is given, so a client hands it a buffer inside a live
  block. Writes end below the offset 2^61 and allocations ask for at most 2^62 bytes; beyond, the loop that
  doubles the capacity and the size of a block wrap around.
\<close>

inductive vfs_step :: "vfs_state \<times> mem_state \<Rightarrow> vfs_state \<times> mem_state \<Rightarrow> bool" where
  mkdir: "vfs_mkdir path v = (r, v') \<Longrightarrow> vfs_step (v, m) (v', m)"
| unlink: "vfs_unlink path v m = Ret (r, v', m') \<Longrightarrow> vfs_step (v, m) (v', m')"
| rename: "vfs_rename old new v = (r, v') \<Longrightarrow> vfs_step (v, m) (v', m)"
| chdir: "vfs_chdir path v = (r, v') \<Longrightarrow> vfs_step (v, m) (v', m)"
| opened: "vfs_open path flags v m = Ret (fd, v', m') \<Longrightarrow> vfs_step (v, m) (v', m')"
| reading: "vfs_read fd buf n v m = (r, v', m') \<Longrightarrow> heap_buffer m buf n \<Longrightarrow> vfs_step (v, m) (v', m')"
| writing: "vfs_write fd buf n v m = Ret (r, v', m') \<Longrightarrow> unat (write_off v fd) + unat n \<le> 2 ^ 61 \<Longrightarrow>
    vfs_step (v, m) (v', m')"
| lseek: "vfs_lseek fd off whence v = (r, v') \<Longrightarrow> vfs_step (v, m) (v', m)"
| closing: "vfs_close fd v = (r, v') \<Longrightarrow> vfs_step (v, m) (v', m)"
| getdents: "vfs_getdents fd ents k v = (r, es, v') \<Longrightarrow> vfs_step (v, m) (v', m)"
| rmdir: "vfs_rmdir path v m = Ret (r, v', m') \<Longrightarrow> vfs_step (v, m) (v', m')"
| alloc: "mem_alloc n m = Ret (p, m') \<Longrightarrow> n \<le> 2 ^ 62 \<Longrightarrow> vfs_step (v, m) (v, m')"

lemma content_ok_mono: "content_ok n L \<Longrightarrow> L \<subseteq>\<^sub>m L' \<Longrightarrow> content_ok n L'"
  by (auto simp: content_ok_def map_le_def dom_def split: if_splits)

lemma vfs_inv_mono: "vfs_inv v L \<Longrightarrow> L \<subseteq>\<^sub>m L' \<Longrightarrow> vfs_inv v L'"
  by (auto simp: vfs_inv_def data_ok_def intro: content_ok_mono)

lemma vfs_step_inv:
  assumes "vfs_step s s'" and "mem_rep (snd s) L" and "vfs_inv (fst s) L"
  shows "\<exists>L'. mem_rep (snd s') L' \<and> vfs_inv (fst s') L'"
  using assms
proof cases
  case (mkdir path v r v' m)
  with assms vfs_mkdir_inv [of v L path r v'] show ?thesis by auto
next
  case (unlink path v m r v' m')
  with assms vfs_unlink_ok [of v L m path] show ?thesis by auto
next
  case (rename old new v r v' m)
  with assms vfs_rename_inv [of v L old new r v'] show ?thesis by auto
next
  case (chdir path v r v' m)
  with assms vfs_chdir_inv [of v L path r v'] show ?thesis by auto
next
  case (opened path flags v m fd v' m')
  with assms vfs_open_ok [of v L path flags m] show ?thesis by auto
next
  case (reading fd buf n v m r v' m')
  with assms vfs_read_inv [of v L m fd buf n r v' m'] show ?thesis by auto
next
  case (writing fd buf n v m r v' m')
  with assms vfs_write_ok [of v L m fd n buf] show ?thesis by auto
next
  case (lseek fd off whence v r v' m)
  with assms vfs_lseek_inv [of v L fd off whence r v'] show ?thesis by auto
next
  case (closing fd v r v' m)
  with assms vfs_close_inv [of v L fd r v'] show ?thesis by auto
next
  case (getdents fd ents k v r es v' m)
  with assms vfs_getdents_inv [of v L fd ents k r es v'] show ?thesis by auto
next
  case (rmdir path v m r v' m')
  with assms vfs_rmdir_ok [of v L m path] show ?thesis by auto
next
  case (alloc n m p m' v)
  then have "unat n \<le> 2 ^ 62" by (simp add: word_le_nat_alt)
  from kheap.alloc_law [OF _ this, of m L] alloc assms obtain k where
    "if p = 0 then mem_rep m' L else n \<le> k \<and> L p = None \<and> mem_rep m' (L(p \<mapsto> k))" by (auto split: if_splits)
  moreover have "L \<subseteq>\<^sub>m L(p \<mapsto> k)" if "L p = None" using that by (auto simp: map_le_def)
  ultimately show ?thesis using alloc assms vfs_inv_mono [of v L "L(p \<mapsto> k)"] by (cases "p = 0") auto
qed

lemma vfs_step_heap:
  assumes "vfs_step s s'" and "mem_rep (snd s) L" and "vfs_inv (fst s) L"
  shows "heap_step\<^sup>*\<^sup>* (snd s) (snd s')"
  using assms(1)
proof cases
  case (unlink path v m r v' m')
  with assms(2,3) vfs_unlink_heap [of path v m r v' m' L] show ?thesis by simp
next
  case (opened path flags v m fd v' m')
  with assms(3) vfs_open_ok [of v L path flags m] show ?thesis by auto
next
  case (reading fd buf n v m r v' m')
  with vfs_read_heap [of fd buf n v m r v' m'] show ?thesis by simp
next
  case (writing fd buf n v m r v' m')
  with assms(2,3) vfs_write_heap [of fd buf n v m r v' m' L] show ?thesis by simp
next
  case (rmdir path v m r v' m')
  with assms(2,3) vfs_rmdir_heap [of path v m r v' m' L] show ?thesis by simp
next
  case (alloc n m p m' v)
  with heap_step.alloc [of n m p m'] show ?thesis by (simp add: word_le_nat_alt r_into_rtranclp)
qed auto

lemma vfs_steps_inv:
  assumes "vfs_step\<^sup>*\<^sup>* s s'" and "mem_rep (snd s) L" and "vfs_inv (fst s) L"
  shows "(\<exists>L'. mem_rep (snd s') L' \<and> vfs_inv (fst s') L') \<and> heap_step\<^sup>*\<^sup>* (snd s) (snd s')"
  using assms
proof (induction rule: rtranclp_induct)
  case (step t u)
  then obtain L' where L': "mem_rep (snd t) L'" "vfs_inv (fst t) L'" and h: "heap_step\<^sup>*\<^sup>* (snd s) (snd t)" by blast
  from vfs_step_inv [OF step(2) L'] vfs_step_heap [OF step(2) L'] h show ?case by (meson rtranclp_trans)
qed blast

section \<open>Reading back what was written\<close>

lemma uint_unat64: "uint (x :: u64) = int (unat x)"
  by simp

lemma vfs_read_back:
  assumes w: "written fd buf n v m L v1 m1 L1" and inv: "vfs_inv v1 L1" "mem_rep m1 L1" "tree_ok v" and n: "n \<noteq> 0"
    and small: "unat (write_off v fd) + unat n \<le> 2 ^ 61"
    and src: "L q = Some j" "q \<noteq> n_data (node_at v (fd_node v fd))" "region buf n \<subseteq> region q j"
    and dst: "L q' = Some j'" "q' \<noteq> n_data (node_at v (fd_node v fd))" "region dst n \<subseteq> region q' j'" "dst \<noteq> 0"
  shows "\<exists>v2 v3 m3. vfs_lseek fd (uint (write_off v fd)) 0 v1 = (uint (write_off v fd), v2) \<and>
    vfs_read fd dst n v2 m1 = (uint n, v3, m3) \<and>
    (\<forall>i<unat n. mem_ram m3 (dst + of_nat i) = mem_ram m (buf + of_nat i))"
proof -
  let ?off = "write_off v fd" and ?k = "fd_node v fd"
  let ?x = "node_at v1 (fd_node v fd)"
  have W: "fd_ok v1 fd" "fd_node v1 fd = ?k" "n_type ?x = VFS_TYPE_FILE"
    "unat ?off + unat n \<le> unat (n_size ?x)"
    "L1 q' = Some j'" "q' \<noteq> n_data ?x" "\<And>i. i < unat n \<Longrightarrow> file_byte ?x m1 (unat ?off + i) = mem_ram m (buf + of_nat i)"
    using w src dst unfolding written_def Let_def by (auto simp: max_def)
  have ok: "tree_ok v1" and dok: "data_ok (nodes v1) L1" using inv by (auto simp: vfs_inv_def)
  have node: "is_node v1 ?k" using file_is_node [OF ok W(1)] W(2,3) by simp
  then have k: "nat ?k < length (nodes v1)" using tree_okD(2) [OF ok] by (auto simp: is_node_def)
  have c: "content_ok ?x L1" using data_okD(1) [OF dok k] by (simp add: node_at_def)
  have npos: "0 < unat n" using n by (simp add: unat_gt_0)
  obtain d j2 where d: "n_data ?x = d" "L1 d = Some j2" "unat ?off + unat n \<le> unat j2"
    using c W(4) npos by (auto simp: content_ok_def word_le_nat_alt split: if_splits)
  let ?g = "\<lambda>f. f\<lparr>offset := ?off\<rparr>"
  define v2 where "v2 = upd_open fd ?g v1"
  have seek: "vfs_lseek fd (uint ?off) 0 v1 = (uint ?off, v2)" using W(1) by (simp add: vfs_lseek_def v2_def)
  have fdlen: "nat fd < length (open_files v1)" using W(1) tree_okD(3) [OF ok] by (auto simp: fd_ok_def)
  have v2: "fd_ok v2 fd" "offset (open_files v2 ! nat fd) = ?off" "o_node (open_files v2 ! nat fd) = ?k" "node_at v2 ?k = ?x"
    using W(1,2) fdlen by (simp_all add: v2_def fd_ok_def upd_open_def fd_node_def node_at_def)
  have e: "unat (?off + n) = unat ?off + unat n" using small by (intro unat_add64) simp
  have lens: "\<not> n_size ?x \<le> ?off" "\<not> n_size ?x < ?off + n" using W(4) npos e by (auto simp: word_le_nat_alt word_less_nat_alt)
  have sn: "sint n = uint n" by (rule sint_small64) (use small in simp)
  have read: "vfs_read fd dst n v2 m1 = (uint n, upd_open fd (\<lambda>f. f\<lparr>offset := ?off + n\<rparr>) v2,
     m1\<lparr>mem_ram := memcpy dst (d + ?off) n (mem_ram m1)\<rparr>)"
    using v2 dst(4) lens W(3) sn d(1) by (simp add: vfs_read_def Let_def)
  have "region d j2 \<inter> region q' j' = {}" using kheap.live_disjoint [OF inv(2) d(2) W(5)] W(6) d(1) by blast
  moreover have "region (d + ?off) n \<subseteq> region d j2"
  proof
    fix x assume "x \<in> region (d + ?off) n"
    then obtain i where i: "i < unat n" "x = d + ?off + of_nat i" by (auto simp: in_region_iff)
    then have "x = d + of_nat (unat ?off + i)" by (simp add: add.assoc)
    moreover have "unat ?off + i < unat j2" using i(1) d(3) by simp
    ultimately show "x \<in> region d j2" by (simp only: region_memI)
  qed
  ultimately have "region dst n \<inter> region (d + ?off) n = {}" using dst(3) by blast
  from memcpy_apply [OF this] have "memcpy dst (d + ?off) n (mem_ram m1) (dst + of_nat i) = mem_ram m (buf + of_nat i)"
    if "i < unat n" for i
    using that W(7) [OF that] d(1) by (simp add: region_memI file_byte_def add.assoc)
  with seek read show ?thesis by auto
qed

section \<open>Looking up a created entry\<close>

text \<open>A new node is the only change in the children of every directory.\<close>

lemma find_slot_upd_other:
  assumes "i < length xs" and "\<not> P (xs ! i)" and "\<not> P x"
  shows "find_slot P (xs[i := x]) = find_slot P xs"
  using assms
proof (induction xs arbitrary: i)
  case (Cons y ys)
  then show ?case by (cases i) auto
qed simp

lemma find_slot_upd_new:
  assumes "i < length xs" and "find_slot P xs = None" and "P x"
  shows "find_slot P (xs[i := x]) = Some i"
  using assms
proof (induction xs arbitrary: i)
  case (Cons y ys)
  then show ?case by (cases i) (auto split: if_splits)
qed simp

lemma find_child_alt: "find_child v par seg = (if is_dir v par then
    case find_slot (\<lambda>n. n_used n \<and> parent n = par \<and> n_name n = seg) (nodes v) of Some i \<Rightarrow> int i | None \<Rightarrow> - 1 else - 1)"
  by (auto simp: find_child_def is_dir_def is_node_def)

lemma alloc_node_children:
  assumes ok: "tree_ok v" and par: "is_dir v par" and run: "alloc_node ty par name v = (k, v')" and k: "0 \<le> k"
    and free: "find_child v par name < 0" and len: "length name \<le> VFS_MAX_NAME"
  shows "find_child v' a s = (if a = par \<and> s = name then k else find_child v a s)"
    and "\<not> is_node v k" and "k < int VFS_MAX_NODES"
    and "node_at v' k = no_node\<lparr>n_used := True, inode := next_inode v, n_type := ty, parent := par, n_name := name\<rparr>"
    and "\<And>j. 0 \<le> j \<Longrightarrow> j \<noteq> k \<Longrightarrow> node_at v' j = node_at v j" and "cwd_node v' = cwd_node v" and "ready v' = ready v"
proof -
  note D = tree_okD [OF ok]
  let ?x = "no_node\<lparr>n_used := True, inode := next_inode v, n_type := ty, parent := par, n_name := name\<rparr>"
  obtain i where i: "find_slot (\<lambda>n. \<not> n_used n) (nodes v) = Some i" "k = int i"
    "v' = v\<lparr>nodes := (nodes v)[i := ?x], next_inode := next_inode v + 1\<rparr>"
    using run k len by (auto simp: alloc_node_def copy_name_def split: option.splits)
  have il: "i < length (nodes v)" "\<not> n_used (nodes v ! i)" using find_slot_SomeD [OF i(1)] by auto
  show nk: "\<not> is_node v k" using il i(2) by (simp add: is_node_def node_at_def)
  show "k < int VFS_MAX_NODES" using il i(2) D(2) by simp
  show x: "node_at v' k = ?x" using i il by (simp add: node_at_def)
  show other: "\<And>j. 0 \<le> j \<Longrightarrow> j \<noteq> k \<Longrightarrow> node_at v' j = node_at v j" using i(2,3) by (auto simp: node_at_def)
  show "cwd_node v' = cwd_node v" "ready v' = ready v" using i(3) by simp_all
  have pk: "par \<noteq> k" using par nk is_dir_node by blast
  have nok: "find_slot (\<lambda>n. n_used n \<and> parent n = k \<and> n_name n = s) (nodes v') = None"
  proof -
    have "parent (nodes v ! j) \<noteq> k" if "j < length (nodes v)" "n_used (nodes v ! j)" for j
    proof
      assume "parent (nodes v ! j) = k"
      moreover have "is_node v (int j)" using that D(2) by (simp add: is_node_def node_at_def)
      ultimately show False using D(8) [of "int j"] nk by (auto simp: node_at_def dest: is_dir_node)
    qed
    then show ?thesis using i(3) il pk by (auto simp: find_slot_None_nth nth_list_update)
  qed
  show "find_child v' a s = (if a = par \<and> s = name then k else find_child v a s)"
  proof (cases "a = k")
    case True
    have "\<not> is_dir v k" using nk is_dir_node by blast
    then show ?thesis using True nok pk by (simp add: find_child_alt)
  next
    case False
    have dir: "is_dir v' a = is_dir v a" using other [of a] False by (auto simp: is_dir_def is_node_def)
    have nodes': "nodes v' = (nodes v)[i := ?x]" using i(3) by simp
    show ?thesis
    proof (cases "a = par \<and> s = name")
      case True
      then have "find_slot (\<lambda>n. n_used n \<and> parent n = a \<and> n_name n = s) (nodes v) = None"
        using free par by (simp add: find_child_alt split: option.splits)
      from find_slot_upd_new [OF il(1) this, of ?x] True show ?thesis
        using par dir i(2) by (simp add: find_child_alt nodes')
    next
      case neq: False
      have "find_slot (\<lambda>n. n_used n \<and> parent n = a \<and> n_name n = s) (nodes v') =
        find_slot (\<lambda>n. n_used n \<and> parent n = a \<and> n_name n = s) (nodes v)"
        unfolding nodes' by (rule find_slot_upd_other) (use il neq in auto)
      then show ?thesis unfolding if_not_P [OF neq] find_child_alt dir by simp
    qed
  qed
qed

text \<open>What is left to resolve after \<open>parent_loop\<close> has read the segment \<open>l\<close>.\<close>

definition pending :: "vfs_state \<Rightarrow> int \<Rightarrow> string option \<Rightarrow> string \<Rightarrow> int" where
  "pending v n l p =
     (case l of
        None \<Rightarrow> resolve_loop v n p
      | Some s \<Rightarrow>
          if s = ''..'' then resolve_loop v (up v n) p
          else if find_child v n s < 0 then - 1 else resolve_loop v (find_child v n s) p)"

lemma parent_loop_pending:
  assumes ok: "tree_ok v" and free: "find_child v par leaf < 0" and k: "0 \<le> k"
    and fc: "\<And>a s. find_child v' a s = (if a = par \<and> s = leaf then k else find_child v a s)"
    and up: "\<And>a. is_node v a \<Longrightarrow> up v' a = up v a"
  shows "is_dir v n \<Longrightarrow> parent_loop v n l p = Some (par, leaf) \<Longrightarrow> l \<noteq> Some [] \<Longrightarrow> pending v' n l p = k"
proof (induction p arbitrary: n l rule: length_induct)
  case (1 p)
  obtain seg p' where sp: "next_segment p = (seg, p')" by fastforce
  have ih: "pending v' m l' p' = k" if "p' \<noteq> []" "is_dir v m" "parent_loop v m l' p' = Some (par, leaf)" "l' \<noteq> Some []" for m l'
    using 1(1) that next_segment_shorter [of p] sp by (metis snd_conv)
  have ent: "pending v' n l p = resolve_loop v' n' p" if "enter v n l = Some n'" for n'
  proof (cases l)
    case (Some s)
    then show ?thesis using that free up [OF is_dir_node [OF 1(2)]]
      by (cases "s = ''..''") (auto simp: pending_def enter_def fc Let_def split: if_splits)
  qed (use that in \<open>simp add: pending_def enter_def\<close>)
  have step: "pending v' n l p = pending v' n' (Some seg) p'"
    if "enter v n l = Some n'" "seg \<noteq> []" "seg \<noteq> ''.''" "p' \<noteq> []" for n'
    using ent [OF that(1)] that(2-4) by (simp add: resolve_loop_step [OF sp] pending_def [of v' n' "Some seg"])
  have skip: "pending v' n l p = pending v' n l p'" if "seg = [] \<or> seg = ''.''" "p' \<noteq> []"
    using that by (auto simp: pending_def resolve_loop_step [OF sp] split: option.splits)
  have endp: "pending v' n l p = find_child v' n' seg"
    if "enter v n l = Some n'" "seg \<noteq> []" "seg \<noteq> ''.''" "seg \<noteq> ''..''" "p' = []" for n'
    using ent [OF that(1)] that(2-5) by (simp add: resolve_loop_step [OF sp])
  show ?case
  proof (cases "p' = [] \<and> seg = []")
    case True
    then have "leaf_result n l = Some (par, leaf)" using 1(3) unfolding parent_loop_step [OF sp] by simp
    from leaf_resultD [OF this] True k show ?thesis by (auto simp: pending_def fc resolve_loop_step [OF sp])
  next
    case False
    show ?thesis
    proof (cases "p' \<noteq> [] \<and> (seg = [] \<or> seg = ''.'')")
      case True
      then show ?thesis using 1(2-4) ih [of n l] skip unfolding parent_loop_step [OF sp] by auto
    next
      case nskip: False
      then obtain n' where n': "enter v n l = Some n'"
        using 1(3) False unfolding parent_loop_step [OF sp] by (auto split: option.splits if_splits)
      show ?thesis
      proof (cases "p' = []")
        case True
        then have "leaf_result n' (Some seg) = Some (par, leaf)"
          using 1(3) False n' unfolding parent_loop_step [OF sp] by simp
        from leaf_resultD [OF this] endp [OF n'] True False fc show ?thesis by auto
      next
        case p': False
        then show ?thesis using nskip n' 1(3) ih [OF p' enter_dir [OF ok 1(2) n'], of "Some seg"] step [OF n']
          unfolding parent_loop_step [OF sp] by auto
      qed
    qed
  qed
qed

section \<open>Properties\<close>

text \<open>A file tree with the directories \<^verbatim>\<open>/a\<close> and \<^verbatim>\<open>/a/b\<close>, for the witnesses.\<close>

definition boot_vfs :: vfs_state where
  "boot_vfs = snd (vfs_init no_vfs)"

definition dir_node :: "u32 \<Rightarrow> int \<Rightarrow> string \<Rightarrow> vfs_node" where
  "dir_node ino par name = no_node\<lparr>n_used := True, inode := ino, n_type := VFS_TYPE_DIR, parent := par, n_name := name\<rparr>"

lemma boot_vfs_eq: "boot_vfs = \<lparr>nodes = dir_node 1 0 [] # replicate 63 no_node, open_files = replicate 32 no_open,
    next_inode = 2, cwd_node = 0, ready = True\<rparr>"
proof -
  have "replicate VFS_MAX_NODES no_node = no_node # replicate 63 no_node"
    by (simp add: VFS_MAX_NODES_def numeral_eq_Suc)
  then show ?thesis
    by (simp add: boot_vfs_def vfs_init_def Let_def alloc_node_def no_node_def dir_node_def copy_name_def VFS_MAX_OPEN_def)
qed

lemma boot_vfs_inv: "vfs_inv boot_vfs L"
  using vfs_init_inv [of no_vfs] by (cases "vfs_init no_vfs") (auto simp: boot_vfs_def)

definition tree_of :: "vfs_node list \<Rightarrow> u32 \<Rightarrow> int \<Rightarrow> vfs_state" where
  "tree_of ns ino cwd = \<lparr>nodes = ns @ replicate (64 - length ns) no_node, open_files = replicate 32 no_open,
     next_inode = ino, cwd_node = cwd, ready = True\<rparr>"

lemma boot_tree_of: "boot_vfs = tree_of [dir_node 1 0 []] 2 0"
  by (simp add: boot_vfs_eq tree_of_def)

lemma find_slot_append:
  "find_slot P (xs @ ys) = (case find_slot P xs of Some i \<Rightarrow> Some i | None \<Rightarrow> map_option ((+) (length xs)) (find_slot P ys))"
  by (induction xs; cases "find_slot P ys") (auto split: option.splits)

lemmas vfs_eval = resolve_parent_def parent_loop.simps resolve_path_def resolve_loop.simps enter_def leaf_result_def
  up_def next_segment_def Let_def find_child_def find_slot_append node_at_def dir_node_def no_node_def
  copy_name_def VFS_MAX_NODES_def VFS_MAX_NAME_def VFS_MAX_OPEN_def VFS_TYPE_DIR_def VFS_TYPE_FILE_def

lemma mkdir_a: "vfs_mkdir (Some ''/a'') boot_vfs = (0, tree_of [dir_node 1 0 [], dir_node 2 0 ''a''] 3 0)"
  by (simp add: vfs_mkdir_def boot_tree_of tree_of_def alloc_node_def vfs_eval numeral_eq_Suc)

lemma mkdir_b: "vfs_mkdir (Some ''/a/b'') (tree_of [dir_node 1 0 [], dir_node 2 0 ''a''] 3 0) =
    (0, tree_of [dir_node 1 0 [], dir_node 2 0 ''a'', dir_node 3 1 ''b''] 4 0)"
  by (simp add: vfs_mkdir_def tree_of_def alloc_node_def vfs_eval numeral_eq_Suc)

lemma chdir_b: "vfs_chdir (Some ''/a/b'') (tree_of [dir_node 1 0 [], dir_node 2 0 ''a'', dir_node 3 1 ''b''] 4 0) =
    (0, tree_of [dir_node 1 0 [], dir_node 2 0 ''a'', dir_node 3 1 ''b''] 4 2)"
  by (simp add: vfs_chdir_def tree_of_def vfs_eval numeral_eq_Suc)

lemma tree_a_inv: "vfs_inv (tree_of [dir_node 1 0 [], dir_node 2 0 ''a''] 3 0) L"
  by (rule vfs_mkdir_inv [OF boot_vfs_inv mkdir_a])

lemma tree_b_inv: "vfs_inv (tree_of [dir_node 1 0 [], dir_node 2 0 ''a'', dir_node 3 1 ''b''] 4 2) L"
  by (rule vfs_chdir_inv [OF vfs_mkdir_inv [OF tree_a_inv mkdir_b] chdir_b])

text \<open>C16: From a freshly initialised tree and any well-formed heap, every sequence of file operations, interleaved
  with allocations by other parts of the kernel, leads to a state in which the allocator's invariant
  holds and the tree is well formed: every node below a directory, every file's bytes in a live block
  of the heap that no other file shares. Reads go to buffers inside live blocks, writes end below the offset 2^61,
  allocations ask for at most 2^62 bytes. On the way the heap was changed only by calls of the allocator and
  by writes inside live blocks, which hold no byte of a block header.\<close>

theorem vfs_reachable_inv:
  assumes "mem_rep m L" and "vfs_step\<^sup>*\<^sup>* (snd (vfs_init v0), m) (v, m')"
  shows "(\<exists>L'. mem_rep m' L' \<and> vfs_inv v L') \<and> heap_step\<^sup>*\<^sup>* m m'"
proof -
  have "vfs_inv (snd (vfs_init v0)) L" using vfs_init_inv [of v0] by (cases "vfs_init v0") auto
  with vfs_steps_inv [OF assms(2), of L] assms(1) show ?thesis by simp
qed

theorem vfs_reachable_inv_witness:
  "\<exists>p m. mem_alloc 8 boot_heap = Ret (p, m) \<and>
     (\<exists>L. mem_rep m L \<and> vfs_inv (tree_of [dir_node 1 0 [], dir_node 2 0 ''a''] 3 0) L) \<and> heap_step\<^sup>*\<^sup>* boot_heap m"
proof -
  from kheap.alloc_law [OF boot_heap_rep, of 8] obtain p m where m: "mem_alloc 8 boot_heap = Ret (p, m)" by auto
  have "vfs_step (boot_vfs, boot_heap) (tree_of [dir_node 1 0 [], dir_node 2 0 ''a''] 3 0, boot_heap)"
    by (rule vfs_step.mkdir [OF mkdir_a])
  moreover have "vfs_step (tree_of [dir_node 1 0 [], dir_node 2 0 ''a''] 3 0, boot_heap) (tree_of [dir_node 1 0 [], dir_node 2 0 ''a''] 3 0, m)"
    by (rule vfs_step.alloc [OF m]) simp
  ultimately have "vfs_step\<^sup>*\<^sup>* (snd (vfs_init no_vfs), boot_heap) (tree_of [dir_node 1 0 [], dir_node 2 0 ''a''] 3 0, m)"
    unfolding boot_vfs_def by (meson r_into_rtranclp rtranclp.rtrancl_into_rtrancl)
  from vfs_reachable_inv [OF boot_heap_rep this] m show ?thesis by blast
qed

text \<open>C18: In a well-formed state every file operation returns, without a panic and without looping: opening,
  unlinking and removing a directory, writing up to the offset 2^61, and building the path of the
  working directory, whatever the tree looks like.\<close>

theorem vfs_ops_return:
  assumes "vfs_inv v L" and "mem_rep m L" and "unat (write_off v fd) + unat n \<le> 2 ^ 61"
  shows "(\<exists>r v' m'. vfs_open path flags v m = Ret (r, v', m')) \<and> (\<exists>r v' m'. vfs_unlink path v m = Ret (r, v', m')) \<and>
    (\<exists>r v' m'. vfs_rmdir path v m = Ret (r, v', m')) \<and>
    (\<exists>r v' m'. vfs_write fd buf n v m = Ret (r, v', m') \<and> (r = - 1 \<or> r = uint n)) \<and>
    (\<exists>r s. vfs_getcwd pbuf len v = Some (r, s))"
proof -
  obtain r where "build_loop v (cwd_node v) [] = Some r" using build_loop_total by blast
  then have "\<exists>r s. vfs_getcwd pbuf len v = Some (r, s)"
    by (auto simp: vfs_getcwd_def build_path_def split: option.splits)
  then show ?thesis
    using vfs_open_ok [OF assms(1), of path flags m] vfs_unlink_ok [OF assms(1,2), of path]
      vfs_rmdir_ok [OF assms(1,2), of path] vfs_write_ok [OF assms, of buf] by blast
qed

theorem vfs_ops_return_witness:
  "\<exists>r v' m'. vfs_unlink (Some ''/a'') (tree_of [dir_node 1 0 [], dir_node 2 0 ''a''] 3 0) boot_heap = Ret (r, v', m')"
proof -
  have "write_off (tree_of [dir_node 1 0 [], dir_node 2 0 ''a''] 3 0) 0 = 0"
    by (simp add: write_off_def tree_of_def fd_node_def no_open_def VFS_O_APPEND_def)
  with vfs_ops_return [OF tree_a_inv boot_heap_rep, where path = "Some ''/a''" and fd = 0 and n = 1] show ?thesis by simp
qed

text \<open>C19: A directory made by \<open>vfs_mkdir\<close> with a name of at most 31 characters is a new, empty directory that the
  same path then resolves to, and it is the only change in what every directory contains.\<close>

theorem vfs_mkdir_lookup:
  assumes inv: "vfs_inv v L" and par: "resolve_parent v (Some p) = Some (par, leaf)" and len: "length leaf \<le> VFS_MAX_NAME"
    and run: "vfs_mkdir (Some p) v = (0, v')"
  shows "\<exists>k. resolve_path v' (Some p) = k \<and> is_dir v' k \<and> \<not> is_node v k \<and> n_size (node_at v' k) = 0 \<and>
    (\<forall>d s. find_child v' d s = (if d = par \<and> s = leaf then k else find_child v d s))"
proof -
  have ok: "tree_ok v" using inv by (simp add: vfs_inv_def)
  have dir: "is_dir v par" by (rule resolve_parent_dir(1) [OF ok par])
  obtain k where k: "alloc_node VFS_TYPE_DIR par leaf v = (k, v')" "0 \<le> k" and free: "find_child v par leaf < 0"
    using run par by (auto simp: vfs_mkdir_def not_le split: if_splits prod.splits)
  note A = alloc_node_children [OF ok dir k free len]
  have up: "up v' a = up v a" if "is_node v a" for a
  proof -
    have "a \<noteq> k" using that A(2) by blast
    then show ?thesis using that A(5) [of a] by (simp add: up_def is_node_def)
  qed
  have p: "p \<noteq> []" and loop: "parent_loop v (if hd p = CHR ''/'' then 0 else cwd_node v) None p = Some (par, leaf)"
    using par by (auto simp: resolve_parent_def split: if_splits)
  have "pending v' (if hd p = CHR ''/'' then 0 else cwd_node v) None p = k"
    by (rule parent_loop_pending [OF ok free k(2) A(1) up _ loop]) (use tree_okD(4,6) [OF ok] in auto)
  then have "resolve_path v' (Some p) = k" using A(6,7) p tree_okD(1) [OF ok] by (auto simp: resolve_path_def pending_def split: if_splits)
  moreover have "is_dir v' k" "n_size (node_at v' k) = 0" using A(3,4) k(2) by (simp_all add: is_dir_def is_node_def no_node_def)
  ultimately show ?thesis using A(1,2) by blast
qed

theorem vfs_mkdir_lookup_witness:
  "\<exists>k. resolve_path (tree_of [dir_node 1 0 [], dir_node 2 0 ''a'', dir_node 3 1 ''b''] 4 0) (Some ''/a/b'') = k \<and>
     is_dir (tree_of [dir_node 1 0 [], dir_node 2 0 ''a'', dir_node 3 1 ''b''] 4 0) k"
proof -
  have "resolve_parent (tree_of [dir_node 1 0 [], dir_node 2 0 ''a''] 3 0) (Some ''/a/b'') = Some (1, ''b'')"
    by (simp add: tree_of_def vfs_eval numeral_eq_Suc)
  from vfs_mkdir_lookup [OF tree_a_inv this _ mkdir_b] show ?thesis by (auto simp: VFS_MAX_NAME_def)
qed

text \<open>C21: A name of more than 31 characters is cut when its directory is made: \<open>vfs_mkdir\<close> reports success and
  uses up a node, and the name that was asked for is still not found.\<close>

theorem vfs_mkdir_long_name:
  assumes inv: "vfs_inv v L" and par: "resolve_parent v (Some p) = Some (par, leaf)" and len: "VFS_MAX_NAME < length leaf"
    and run: "vfs_mkdir (Some p) v = (0, v')"
  shows "find_child v' par leaf = - 1 \<and> (\<exists>k. is_dir v' k \<and> \<not> is_node v k \<and> n_name (node_at v' k) = take 31 leaf)"
proof -
  have ok: "tree_ok v" using inv by (simp add: vfs_inv_def)
  have inv': "vfs_inv v' L" by (rule vfs_mkdir_inv [OF inv run])
  then have ok': "tree_ok v'" by (simp add: vfs_inv_def)
  have "n_name (node_at v' (find_child v' par leaf)) \<noteq> leaf" if "is_node v' (find_child v' par leaf)"
    using tree_okD(9) [OF ok' that] len by auto
  then have fc: "find_child v' par leaf = - 1" using find_child_cases [OF tree_okD(2) [OF ok'], of par leaf] by blast
  obtain k where k: "alloc_node VFS_TYPE_DIR par leaf v = (k, v')" "0 \<le> k"
    using run par by (auto simp: vfs_mkdir_def not_le split: if_splits prod.splits)
  then obtain i where i: "find_slot (\<lambda>n. \<not> n_used n) (nodes v) = Some i" "k = int i"
    "v' = v\<lparr>nodes := (nodes v)[i := no_node\<lparr>n_used := True, inode := next_inode v, n_type := VFS_TYPE_DIR,
       parent := par, n_name := take 31 leaf\<rparr>], next_inode := next_inode v + 1\<rparr>"
    by (auto simp: alloc_node_def copy_name_def VFS_MAX_NAME_def split: option.splits)
  have il: "i < length (nodes v)" "\<not> n_used (nodes v ! i)" using find_slot_SomeD [OF i(1)] by auto
  have "is_dir v' k \<and> \<not> is_node v k \<and> n_name (node_at v' k) = take 31 leaf"
    using i(2,3) il tree_okD(2) [OF ok] by (auto simp: is_dir_def is_node_def node_at_def)
  with fc show ?thesis by blast
qed

definition long_name :: string where
  "long_name = replicate 32 (CHR ''x'')"

lemma long_name_step: "next_segment (CHR ''/'' # long_name) = (long_name, [])"
  using next_segment_name [of long_name "[]"] by (simp add: proper_name_def long_name_def numeral_eq_Suc)

lemma long_name_parent: "resolve_parent boot_vfs (Some (CHR ''/'' # long_name)) = Some (0, long_name)"
  unfolding resolve_parent_def using parent_loop_step [OF long_name_step, of boot_vfs 0 None]
  by (simp add: long_name_def enter_def leaf_result_def numeral_eq_Suc)

theorem vfs_mkdir_long_name_witness:
  "\<exists>v'. vfs_mkdir (Some (CHR ''/'' # long_name)) boot_vfs = (0, v') \<and> find_child v' 0 long_name = - 1"
proof -
  have "\<exists>v'. vfs_mkdir (Some (CHR ''/'' # long_name)) boot_vfs = (0, v')"
    unfolding vfs_mkdir_def long_name_parent
    by (simp add: boot_tree_of tree_of_def alloc_node_def vfs_eval long_name_def numeral_eq_Suc)
  then obtain v' where run: "vfs_mkdir (Some (CHR ''/'' # long_name)) boot_vfs = (0, v')" by blast
  have "VFS_MAX_NAME < length long_name" by (simp add: long_name_def VFS_MAX_NAME_def)
  from vfs_mkdir_long_name [OF boot_vfs_inv long_name_parent this run] run show ?thesis by blast
qed

text \<open>C20: The path \<open>vfs_getcwd\<close> writes leads back to the working directory, when no directory has two entries of
  one name.\<close>

theorem vfs_getcwd_resolves:
  assumes inv: "vfs_inv v L" and names: "names_ok v" "n_name (node_at v 0) = []"
    and run: "vfs_getcwd buf len v = Some (0, Some p)"
  shows "resolve_path v (Some p) = cwd_node v"
proof (cases "cwd_node v = 0")
  case True
  then have p: "p = ''/''" using run by (auto simp: vfs_getcwd_def build_path_def split: if_splits)
  have "next_segment ''/'' = ([], [])" by (simp add: next_segment_def)
  from resolve_loop_step [OF this] show ?thesis
    using p True inv by (simp add: resolve_path_def vfs_inv_def tree_ok_def)
next
  case False
  have ok: "tree_ok v" using inv by (simp add: vfs_inv_def)
  have loop: "build_loop v (cwd_node v) [] = Some (Some p)"
    using run False by (auto simp: vfs_getcwd_def build_path_def split: if_splits option.splits)
  have "next_segment [] = ([], [])" by (simp add: next_segment_def)
  from build_loop_resolves [OF loop ok names is_dir_node [OF tree_okD(6) [OF ok]]] resolve_loop_step [OF this] False
  show ?thesis using tree_okD(1) [OF ok] by (auto simp: resolve_path_def)
qed

theorem vfs_getcwd_resolves_witness:
  "vfs_getcwd 1 64 (tree_of [dir_node 1 0 [], dir_node 2 0 ''a'', dir_node 3 1 ''b''] 4 2) = Some (0, Some ''/a/b'') \<and>
   resolve_path (tree_of [dir_node 1 0 [], dir_node 2 0 ''a'', dir_node 3 1 ''b''] 4 2) (Some ''/a/b'') = 2"
proof -
  let ?v = "tree_of [dir_node 1 0 [], dir_node 2 0 ''a'', dir_node 3 1 ''b''] 4 2"
  have run: "vfs_getcwd 1 64 ?v = Some (0, Some ''/a/b'')"
    by (simp add: vfs_getcwd_def build_path_def build_loop.simps tree_of_def dir_node_def no_node_def node_at_def VFS_MAX_PATH_def)
  have at: "n_used (nodes ?v ! i) \<Longrightarrow> i \<noteq> 0 \<Longrightarrow> i < length (nodes ?v) \<Longrightarrow> i = 1 \<or> i = 2" for i
    by (auto simp: tree_of_def no_node_def nth_Cons' nth_append split: if_splits)
  have "names_ok ?v" unfolding names_ok_def
  proof (intro allI impI conjI)
    fix i j assume i: "i < length (nodes ?v)" "n_used (nodes ?v ! i) \<and> i \<noteq> 0"
    then show "proper_name (n_name (nodes ?v ! i))" using at [of i]
      by (auto simp: tree_of_def dir_node_def proper_name_def)
    assume j: "j < length (nodes ?v)" "n_used (nodes ?v ! j) \<and> j \<noteq> 0 \<and> parent (nodes ?v ! i) = parent (nodes ?v ! j) \<and>
      n_name (nodes ?v ! i) = n_name (nodes ?v ! j)"
    show "i = j" using at [of i] at [of j] i j by (auto simp: tree_of_def dir_node_def)
  qed
  from vfs_getcwd_resolves [OF tree_b_inv [of Map.empty] this _ run] run show ?thesis
    by (simp add: tree_of_def dir_node_def node_at_def)
qed

lemma build_loop_cycle:
  "cur \<in> C \<Longrightarrow> 0 \<notin> C \<Longrightarrow> (\<And>n. n \<in> C \<Longrightarrow> parent (node_at v n) \<in> C) \<Longrightarrow> build_loop v cur tmp = Some None"
proof (induction "VFS_MAX_PATH - length tmp" arbitrary: cur tmp rule: less_induct)
  case less
  show ?case
  proof (cases "VFS_MAX_PATH \<le> length (n_name (node_at v cur)) + length tmp + 2")
    case True
    with less.prems show ?thesis by (subst build_loop.simps) auto
  next
    case False
    then have "VFS_MAX_PATH - length (CHR ''/'' # n_name (node_at v cur) @ tmp) < VFS_MAX_PATH - length tmp"
      by (intro diff_less_mono2) auto
    from less.hyps [OF this less.prems(3) [OF less.prems(1)] less.prems(2,3)] False less.prems(1,2) show ?thesis
      by (subst build_loop.simps) auto
  qed
qed

text \<open>The nodes from which going up leads to the node \<open>n\<close>: the node itself and everything below it.\<close>

definition subtree :: "vfs_state \<Rightarrow> int \<Rightarrow> int set" where
  "subtree v n = {k. \<exists>i. ((\<lambda>k. parent (node_at v k)) ^^ i) k = n}"

lemma subtree_self: "n \<in> subtree v n"
  unfolding subtree_def by (auto intro: exI [of _ 0])

lemma subtree_up: "parent (node_at v k) \<in> subtree v n \<Longrightarrow> k \<in> subtree v n"
proof -
  assume "parent (node_at v k) \<in> subtree v n"
  then obtain i where "((\<lambda>k. parent (node_at v k)) ^^ i) (parent (node_at v k)) = n" by (auto simp: subtree_def)
  then have "((\<lambda>k. parent (node_at v k)) ^^ Suc i) k = n" by (simp only: funpow_Suc_right o_apply)
  then show ?thesis unfolding subtree_def by blast
qed

lemma subtree_parent: "k \<in> subtree v n \<Longrightarrow> k \<noteq> n \<Longrightarrow> parent (node_at v k) \<in> subtree v n"
proof -
  assume "k \<in> subtree v n" "k \<noteq> n"
  then obtain i where i: "((\<lambda>k. parent (node_at v k)) ^^ i) k = n" by (auto simp: subtree_def)
  with \<open>k \<noteq> n\<close> obtain j where "i = Suc j" by (cases i) auto
  with i have "((\<lambda>k. parent (node_at v k)) ^^ j) (parent (node_at v k)) = n" by (simp only: funpow_Suc_right o_apply)
  then show ?thesis unfolding subtree_def by blast
qed

lemma subtree_root:
  assumes "parent (node_at v 0) = 0" and "0 < n" and "k \<le> 0"
  shows "k \<notin> subtree v n"
proof -
  have "((\<lambda>k. parent (node_at v k)) ^^ i) k \<le> 0" for i
  proof (induction i)
    case (Suc i)
    then have "nat (((\<lambda>k. parent (node_at v k)) ^^ i) k) = 0" by simp
    then have "node_at v (((\<lambda>k. parent (node_at v k)) ^^ i) k) = node_at v 0" unfolding node_at_def by (simp only: nat_zero_as_int)
    then show ?case using assms(1) by simp
  qed (use assms(3) in simp)
  with assms(2) show ?thesis by (auto simp: subtree_def not_le [symmetric])
qed

text \<open>A set of nodes that is entered neither by going down nor by going up is reached by no path from outside.\<close>

lemma resolve_loop_avoids:
  assumes ok: "tree_ok v" and neg: "- 1 \<notin> C" and down: "\<And>k. k \<in> C \<Longrightarrow> parent (node_at v k) \<in> C" and up: "\<And>k. k \<notin> C \<Longrightarrow> up v k \<notin> C"
  shows "n \<notin> C \<Longrightarrow> resolve_loop v n p \<notin> C"
proof (induction p arbitrary: n rule: length_induct)
  case (1 p)
  obtain seg p' where sp: "next_segment p = (seg, p')" by fastforce
  have fc: "find_child v n seg \<notin> C"
    using find_child_cases [OF tree_okD(2) [OF ok], of n seg] neg down [of "find_child v n seg"] 1(2) by auto
  have ih: "resolve_loop v k p' \<notin> C" if "p' \<noteq> []" "k \<notin> C" for k
    using 1(1) that next_segment_shorter [of p] sp by simp
  show ?case unfolding resolve_loop_step [OF sp] using ih [of n] ih [of "up v n"] ih [of "find_child v n seg"] up [OF 1(2)] fc 1(2) neg by auto
qed

text \<open>C22: \<open>vfs_rename\<close> does not check that the new parent lies outside the moved directory. Moving a directory to a free name in a
  directory of its own subtree succeeds, and afterwards the whole subtree hangs in a cycle: going up from any of its nodes
  never leaves it, no absolute path leads to any of them, and with the working directory inside it, no path can be built for
  it, so that \<open>vfs_getcwd\<close> fails.\<close>

theorem vfs_rename_cycle:
  assumes inv: "vfs_inv v L" and node: "resolve_path v old = node" "0 < node" and par: "resolve_parent v new = Some (par, leaf)"
    and inside: "par \<in> subtree v node" and free: "find_child v par leaf < 0"
  shows "\<exists>v'. vfs_rename old new v = (0, v') \<and>
    (\<forall>k\<in>subtree v node. parent (node_at v' k) \<in> subtree v node \<and> (\<forall>p. resolve_path v' (Some (CHR ''/'' # p)) \<noteq> k)) \<and>
    (cwd_node v \<in> subtree v node \<longrightarrow> vfs_getcwd buf len v' = Some (- 1, None))"
proof -
  let ?C = "subtree v node" and ?v = "upd_node node (\<lambda>n. n\<lparr>parent := par, n_name := copy_name leaf\<rparr>) v"
  have ok: "tree_ok v" using inv by (simp add: vfs_inv_def)
  have run: "vfs_rename old new v = (0, ?v)" using node par free by (simp add: vfs_rename_def)
  have ok': "tree_ok ?v" using vfs_rename_inv [OF inv run] by (simp add: vfs_inv_def)
  have n: "is_node v node" using resolve_path_node [OF ok, of old] node by auto
  have parent: "parent (node_at ?v k) = (if k = node then par else parent (node_at v k))" for k
    using n node(2) tree_okD(2) [OF ok] by (auto simp: upd_node_def node_at_def nth_list_update_neq is_node_def)
  have C0: "k \<notin> ?C" if "k \<le> 0" for k by (rule subtree_root [OF tree_okD(5) [OF ok] node(2) that])
  have closed: "parent (node_at ?v k) \<in> ?C" if "k \<in> ?C" for k
    unfolding parent using inside subtree_parent [OF that] by auto
  have up: "up ?v k \<notin> ?C" if "k \<notin> ?C" for k
    using that subtree_up [of v k node] subtree_self [of node v] C0 [of 0] by (auto simp: up_def parent)
  have "resolve_path ?v (Some (CHR ''/'' # p)) \<notin> ?C" for p
    using resolve_loop_avoids [OF ok' _ closed up, of 0] C0 tree_okD(1) [OF ok'] by (auto simp: resolve_path_def)
  moreover have "vfs_getcwd buf len ?v = Some (- 1, None)" if "cwd_node v \<in> ?C"
    using build_loop_cycle [OF that C0 closed] that C0 [of 0] by (auto simp: vfs_getcwd_def build_path_def)
  ultimately show ?thesis using run closed by blast
qed

theorem vfs_rename_cycle_witness:
  "\<exists>v'. vfs_rename (Some ''/a'') (Some ''/a/b/c'') (tree_of [dir_node 1 0 [], dir_node 2 0 ''a'', dir_node 3 1 ''b''] 4 2) = (0, v') \<and>
     resolve_path v' (Some ''/a'') \<noteq> 1 \<and> vfs_getcwd 1 128 v' = Some (- 1, None)"
proof -
  let ?v = "tree_of [dir_node 1 0 [], dir_node 2 0 ''a'', dir_node 3 1 ''b''] 4 2"
  have "parent (node_at ?v 2) = 1" by (simp add: tree_of_def node_at_def dir_node_def)
  then have s: "1 \<in> subtree ?v 1" "2 \<in> subtree ?v 1" using subtree_self [of 1 ?v] subtree_up [of ?v 2 1] by simp_all
  have "resolve_path ?v (Some ''/a'') = 1" "resolve_parent ?v (Some ''/a/b/c'') = Some (2, ''c'')" "find_child ?v 2 ''c'' < 0"
    by (simp_all add: tree_of_def vfs_eval numeral_eq_Suc)
  from vfs_rename_cycle [OF tree_b_inv [of Map.empty] this(1) _ this(2) s(2) this(3), of 1 128] s show ?thesis
    by (force simp: tree_of_def)
qed

text \<open>C17: Bytes written to a file are the bytes read back: after a successful \<open>vfs_write\<close>, seeking to where it
  started and reading as many bytes returns exactly those, for a source and a destination in live
  blocks other than the file's own.\<close>

theorem vfs_write_read:
  assumes inv: "vfs_inv v L" "mem_rep m L" and small: "unat (write_off v fd) + unat n \<le> 2 ^ 61" and n: "n \<noteq> 0"
    and src: "L q = Some j" "q \<noteq> n_data (node_at v (fd_node v fd))" "region buf n \<subseteq> region q j"
    and dst: "L q' = Some j'" "q' \<noteq> n_data (node_at v (fd_node v fd))" "region dst n \<subseteq> region q' j'" "dst \<noteq> 0"
    and run: "vfs_write fd buf n v m = Ret (r, v1, m1)" "r \<noteq> - 1"
  shows "\<exists>v2 v3 m3. r = uint n \<and> vfs_lseek fd (uint (write_off v fd)) 0 v1 = (uint (write_off v fd), v2) \<and>
    vfs_read fd dst n v2 m1 = (uint n, v3, m3) \<and>
    (\<forall>i<unat n. mem_ram m3 (dst + of_nat i) = mem_ram m (buf + of_nat i))"
proof -
  from vfs_write_ok [OF inv small, of buf] run obtain L1 where
    "r = uint n" "written fd buf n v m L v1 m1 L1" "mem_rep m1 L1" "vfs_inv v1 L1" by auto
  moreover have "tree_ok v" using inv(1) by (simp add: vfs_inv_def)
  ultimately show ?thesis using vfs_read_back [OF _ _ _ _ n small src dst] by blast
qed

text \<open>An open, empty file and a heap with one live block of 100 bytes, for the witness.\<close>

definition open_vfs :: vfs_state where
  "open_vfs = (tree_of [dir_node 1 0 [], (dir_node 2 0 ''f'')\<lparr>n_type := VFS_TYPE_FILE\<rparr>] 3 0)
     \<lparr>open_files := \<lparr>o_used = True, o_node = 1, offset = 0, o_flags = 0x13\<rparr> # replicate 31 no_open\<rparr>"

lemma open_f: "vfs_open (Some ''/f'') 0x13 boot_vfs m = Ret (0, open_vfs, m)"
proof -
  have al: "alloc_node VFS_TYPE_FILE 0 ''f'' boot_vfs =
      (1, tree_of [dir_node 1 0 [], (dir_node 2 0 ''f'')\<lparr>n_type := VFS_TYPE_FILE\<rparr>] 3 0)"
    by (simp add: alloc_node_def boot_tree_of tree_of_def vfs_eval numeral_eq_Suc)
  have r: "resolve_path boot_vfs (Some ''/f'') = - 1" "resolve_parent boot_vfs (Some ''/f'') = Some (0, ''f'')"
    by (simp_all add: boot_tree_of tree_of_def vfs_eval numeral_eq_Suc)
  have "open_files (tree_of ns i c) = no_open # replicate 31 no_open" for ns i c by (simp add: tree_of_def numeral_eq_Suc)
  then have "open_slot 1 0x13 (tree_of [dir_node 1 0 [], (dir_node 2 0 ''f'')\<lparr>n_type := VFS_TYPE_FILE\<rparr>] 3 0) = (0, open_vfs)"
    by (simp add: open_slot_def open_vfs_def no_open_def VFS_O_APPEND_def)
  then show ?thesis
    by (simp add: vfs_open_def r al VFS_O_CREAT_def VFS_O_TRUNC_def)
       (simp add: tree_of_def node_at_def VFS_TYPE_FILE_def VFS_TYPE_DIR_def)
qed

lemma open_vfs_inv: "vfs_inv open_vfs L"
  using vfs_open_ok [OF boot_vfs_inv, of "Some ''/f''" "0x13" boot_heap L] open_f [of boot_heap] by auto

lemma open_vfs_at:
  "fd_ok open_vfs 0" "fd_node open_vfs 0 = 1" "node_at open_vfs 1 = (dir_node 2 0 ''f'')\<lparr>n_type := VFS_TYPE_FILE\<rparr>"
  "write_off open_vfs 0 = 0" "length (nodes open_vfs) = 64" "length (open_files open_vfs) = 32"
  by (simp_all add: open_vfs_def tree_of_def fd_ok_def fd_node_def node_at_def write_off_def VFS_MAX_OPEN_def VFS_O_APPEND_def)

lemma boot_heap_two:
  obtains m k m' where "mem_rep m [0x200028 \<mapsto> k]" "100 \<le> k" "mem_alloc 64 m = Ret (0x2000B8, m')"
proof -
  have "free_list boot_heap = 0" "heap_ptr boot_heap = 0x200000" "heap_committed_end boot_heap = 0x280000"
    by (simp_all add: boot_heap_def mem_init_def mem_vram_init_def Let_def)
  from mem_alloc_fresh [of boot_heap 100 144] this obtain m where
    m: "mem_alloc 100 boot_heap = Ret (0x200028, m)" "free_list m = 0" "heap_ptr m = 0x200090" "heap_committed_end m = 0x280000"
    by (auto simp: align8_def)
  from mem_alloc_fresh [of m 64 104] this obtain m' where "mem_alloc 64 m = Ret (0x2000B8, m')" by (auto simp: align8_def)
  moreover from kheap.alloc_law [OF boot_heap_rep, of 100] m(1) obtain k where "100 \<le> k" "mem_rep m [0x200028 \<mapsto> k]" by auto
  ultimately show ?thesis using that by blast
qed

theorem vfs_write_read_witness:
  "\<exists>m v1 m1 v2 v3 m3. vfs_write 0 0x200028 5 open_vfs m = Ret (5, v1, m1) \<and> vfs_lseek 0 0 0 v1 = (0, v2) \<and>
     vfs_read 0 0x200060 5 v2 m1 = (5, v3, m3) \<and> (\<forall>i<5. mem_ram m3 (0x200060 + of_nat i) = mem_ram m (0x200028 + of_nat i))"
proof -
  obtain m k m' where m: "mem_rep m [0x200028 \<mapsto> k]" "100 \<le> k" "mem_alloc 64 m = Ret (0x2000B8, m')" by (rule boot_heap_two)
  have "ensure_capacity (node_at open_vfs 1) 5 m = Ret (0, (node_at open_vfs 1)\<lparr>n_data := 0x2000B8, capacity := 64\<rparr>, m')"
    by (simp add: ensure_capacity_def open_vfs_at dir_node_def no_node_def m(3) grow_cap.simps)
  then have "\<exists>v1 m1. vfs_write 0 0x200028 5 open_vfs m = Ret (5, v1, m1)"
    using vfs_write_run [where v = open_vfs and fd = 0 and buf = "0x200028" and n = 5 and m = m] open_vfs_at by (simp add: VFS_TYPE_FILE_def)
  then obtain v1 m1 where run: "vfs_write 0 0x200028 5 open_vfs m = Ret (5, v1, m1)" by blast
  have reg: "region 0x200028 5 \<subseteq> region 0x200028 k" "region 0x200060 5 \<subseteq> region 0x200028 k"
    using m(2) by (auto simp: region_def word_le_nat_alt word_less_nat_alt unat_sub_if')
  have "n_data (node_at open_vfs (fd_node open_vfs 0)) = 0" by (simp add: open_vfs_at dir_node_def no_node_def)
  with vfs_write_read [OF open_vfs_inv m(1) _ _ _ _ reg(1) _ _ reg(2) _ run] open_vfs_at(4)
  have "\<exists>v2 v3 m3. vfs_lseek 0 0 0 v1 = (0, v2) \<and> vfs_read 0 0x200060 5 v2 m1 = (5, v3, m3) \<and>
    (\<forall>i<5. mem_ram m3 (0x200060 + of_nat i) = mem_ram m (0x200028 + of_nat i))" by simp
  with run show ?thesis by blast
qed

text \<open>C23: The doubling of the capacity wraps around to 0 for an end offset beyond 2^63: a write that asks for it on
  an empty file never returns.\<close>

theorem vfs_write_diverges:
  assumes "fd_ok v fd" and "buf \<noteq> 0" and "n_type (node_at v (fd_node v fd)) = VFS_TYPE_FILE"
    and "capacity (node_at v (fd_node v fd)) = 0" and "2 ^ 63 < unat (write_off v fd + n)" and "length (open_files v) = VFS_MAX_OPEN"
  shows "vfs_write fd buf n v m = Diverge"
proof -
  have "ensure_capacity (node_at v (fd_node v fd)) (write_off v fd + n) m = Diverge"
    using assms(4,5) grow_cap_diverges [of "write_off v fd + n"] by (auto simp: ensure_capacity_def)
  moreover have "nat fd < length (open_files v)" using assms(1,6) by (auto simp: fd_ok_def)
  ultimately show ?thesis using assms(1-3)
    by (auto simp: vfs_write_def Let_def fd_node_def [symmetric] write_off_def upd_open_def split: if_splits)
qed

theorem vfs_write_diverges_witness: "vfs_write 0 1 0x8000000000000001 open_vfs boot_heap = Diverge"
  by (rule vfs_write_diverges)
     (simp_all add: open_vfs_at dir_node_def no_node_def VFS_MAX_OPEN_def)

end
