(* ===== verification/Proc_Props.thy ===== *)
theory Proc_Props
  imports Proc_Steps Proc_Exec Vfs_Props
begin

text \<open>
  The properties of the process table: the invariant in every reachable state, the life cycle from exit
  to reaping, the protection of the init process, and what sharing an open file between two descriptors
  of a process means.
\<close>

section \<open>Reachable states\<close>

text \<open>
  The operations of the process table. A read goes to a buffer inside a live block, a write ends below
  the offset 2^61, an allocation asks for at most 2^62 bytes. Loading a program from a file and running
  its machine code are not steps: they write to memory what the file and the program say.
\<close>

inductive proc_step :: "kernel \<Rightarrow> kernel \<Rightarrow> bool" where
  create: "proc_create name ppid k = (r, k') \<Longrightarrow> proc_step k k'"
| set_current: "proc_set_current pid k = (r, k') \<Longrightarrow> proc_step k k'"
| exits: "proc_exit pid status k = Ret (r, k') \<Longrightarrow> proc_step k k'"
| wait: "proc_wait ppid pid ptr k = Ret (r, st, k') \<Longrightarrow> proc_step k k'"
| kill: "proc_kill pid status k = Ret (r, k') \<Longrightarrow> proc_step k k'"
| palloc: "proc_alloc pid sz k = Ret (p, k') \<Longrightarrow> unat sz \<le> 2 ^ 62 \<Longrightarrow> proc_step k k'"
| pfree: "proc_free pid p k = Ret (r, k') \<Longrightarrow> proc_step k k'"
| popen: "proc_open pid path flags k = Ret (r, k') \<Longrightarrow> proc_step k k'"
| pread: "proc_read pid fd buf n k = (r, k') \<Longrightarrow> heap_buffer (kmem k) buf n \<Longrightarrow> proc_step k k'"
| pwrite: "proc_write pid fd buf n k = Ret (r, k') \<Longrightarrow>
    unat (write_off (kvfs k) (real_fd (find_proc pid k) fd k)) + unat n \<le> 2 ^ 61 \<Longrightarrow> proc_step k k'"
| plseek: "proc_lseek pid fd off whence k = (r, k') \<Longrightarrow> proc_step k k'"
| pclose: "proc_close pid fd k = (r, k') \<Longrightarrow> proc_step k k'"
| dup: "proc_dup pid fd k = (r, k') \<Longrightarrow> proc_step k k'"
| dup2: "proc_dup2 pid fd fd' k = (r, k') \<Longrightarrow> proc_step k k'"
| attach: "proc_attach_image pid path img k = Ret (r, k') \<Longrightarrow> proc_step k k'"

text \<open>Changes of a process's information that leave its identity and its state.\<close>

definition keeps_state :: "(proc_info_t \<Rightarrow> proc_info_t) \<Rightarrow> bool" where
  "keeps_state f \<longleftrightarrow> (\<forall>x. pi_pid (f x) = pi_pid x \<and> pi_memctx (f x) = pi_memctx x \<and> pi_state (f x) = pi_state x)"

lemma upd_info_inv:
  assumes inv: "kernel_inv k L" and i: "i < length (procs k)" and f: "keeps_state f"
  shows "kernel_inv (upd_info i f k) L"
proof -
  let ?ps = "(procs k)[i := (procs k ! i)\<lparr>info := f (info (procs k ! i))\<rparr>]"
  note D = kernel_invD [OF inv] and F = f [unfolded keeps_state_def, rule_format]
  have nth: "?ps ! j = (if j = i then (procs k ! i)\<lparr>info := f (info (procs k ! i))\<rparr> else procs k ! j)"
    if "j < length (procs k)" for j using that by (simp add: nth_list_update)
  have ids: "same_ids (procs k) ?ps" by (rule same_ids_upd [OF i]) (simp_all add: F)
  have run: "run_ok ?ps (current_pid k)" by (rule run_ok_same [OF D(4)]) (simp_all add: nth F)
  have init: "init_ok ?ps (next_pid k)" by (rule init_ok_same [OF D(5)]) (auto simp: nth F)
  have "kernel_inv (k\<lparr>procs := ?ps, current_pid := current_pid k\<rparr>) L"
    by (rule kernel_inv_states [OF inv ids _ run init]) (simp add: nth)
  then show ?thesis by (simp add: upd_info_def upd_proc_def)
qed

lemma upd_info_fields [simp]:
  "kmem (upd_info i f k) = kmem k" "kctx (upd_info i f k) = kctx k" "length (procs (upd_info i f k)) = length (procs k)"
  by (simp_all add: upd_info_def)

text \<open>Attaching an image is one allocation, for the stack, between two such changes.\<close>

lemma proc_attach_image_run:
  assumes "proc_attach_image pid path img k = Ret (r, k')"
  shows "k' = k \<or> (\<exists>i f g p k2. i < length (procs k) \<and> keeps_state f \<and> keeps_state g \<and>
    proc_alloc pid PROC_STACK_SIZE (upd_info i f k) = Ret (p, k2) \<and> (k' = k2 \<or> k' = upd_info i g k2))"
proof (cases "\<exists>i im. find_proc pid k = Some i \<and> img = Some im \<and> im_load_base im \<noteq> 0 \<and> im_entry im \<noteq> 0")
  case False
  with assms show ?thesis by (auto simp: proc_attach_image_def split: option.splits if_splits)
next
  case True
  then obtain i im where i: "find_proc pid k = Some i" and im: "img = Some im" "im_load_base im \<noteq> 0" "im_entry im \<noteq> 0" by blast
  let ?f = "\<lambda>x. x\<lparr>entry_point := im_entry im, image_base := im_load_base im, image_size := im_load_size im,
    requested_base := im_requested_base im, requested_end := im_requested_end im,
    pi_exe_path := copy_text PROC_EXEC_PATH_MAX path\<rparr>"
  define k1 where "k1 = upd_info i ?f k"
  from assms i im obtain p k2 where k2: "proc_alloc pid PROC_STACK_SIZE k1 = Ret (p, k2)"
    "(if p = 0 then Ret (- 1, k2) else Ret (0, upd_info i (\<lambda>x. x\<lparr>stack_pointer := p + PROC_STACK_SIZE\<rparr>) k2)) = Ret (r, k')"
    by (auto simp: proc_attach_image_def Let_def k1_def bind_outcome_Ret_iff)
  have "keeps_state ?f" "keeps_state (\<lambda>x. x\<lparr>stack_pointer := p + PROC_STACK_SIZE\<rparr>)" by (simp_all add: keeps_state_def)
  moreover have "k' = k2 \<or> k' = upd_info i (\<lambda>x. x\<lparr>stack_pointer := p + PROC_STACK_SIZE\<rparr>) k2" using k2(2) by (cases "p = 0") auto
  ultimately show ?thesis using k2(1) find_procD(1) [OF i] unfolding k1_def by blast
qed

lemma proc_attach_image_inv:
  assumes inv: "kernel_inv k L" and run: "proc_attach_image pid path img k = Ret (r, k')"
  shows "\<exists>L'. kernel_inv k' L'"
  using proc_attach_image_run [OF run]
proof (elim disjE exE conjE)
  fix i f g p k2
  assume i: "i < length (procs k)" "keeps_state f" "keeps_state g" and a: "proc_alloc pid PROC_STACK_SIZE (upd_info i f k) = Ret (p, k2)"
  have sz: "unat PROC_STACK_SIZE \<le> 2 ^ 62" by (simp add: PROC_STACK_SIZE_def)
  from proc_alloc_inv [OF upd_info_inv [OF inv i(1,2)] sz, of pid] a obtain L' where
    L': "kernel_inv k2 L'" "procs k2 = procs (upd_info i f k)" by auto
  then have "i < length (procs k2)" using i(1) by simp
  note upd = upd_info_inv [OF L'(1) this i(3)]
  show "k' = k2 \<Longrightarrow> ?thesis" "k' = upd_info i g k2 \<Longrightarrow> ?thesis" using L'(1) upd by blast+
qed (use inv in blast)

lemma proc_exit_not_init:
  assumes "proc_exit 1 status k = Ret (r, k')"
  shows "k' = k"
  using assms by (auto simp: proc_exit_def proc_exit_locked_def split: option.splits if_splits)

lemma proc_step_inv:
  assumes "proc_step k k'" and inv: "kernel_inv k L"
  shows "\<exists>L'. kernel_inv k' L'"
  using assms(1)
proof cases
  case (create name ppid r)
  with proc_create_inv [OF inv, of name ppid] show ?thesis by auto
next
  case (set_current pid r)
  with proc_set_current_inv [OF inv] show ?thesis by blast
next
  case (exits pid status r)
  with proc_exit_locked_inv [OF inv, of pid status] proc_exit_not_init [of status k r k'] inv show ?thesis
    by (cases "pid = 1") (auto simp: proc_exit_def)
next
  case (wait ppid pid ptr r st)
  with proc_wait_inv [OF inv, of ppid pid ptr] show ?thesis by auto
next
  case (kill pid status r)
  with proc_kill_inv [OF inv, of pid status] show ?thesis by auto
next
  case (palloc pid sz p)
  with proc_alloc_inv [OF inv, of sz pid] show ?thesis by auto
next
  case (pfree pid p r)
  with proc_free_inv [OF inv, of pid p] show ?thesis by auto
next
  case (popen pid path flags r)
  with proc_open_inv [OF inv, of pid path flags] show ?thesis by auto
next
  case (pwrite pid fd buf n r)
  with proc_write_inv [OF inv, of pid fd n buf] show ?thesis by auto
next
  case (pread pid fd buf n r)
  with proc_read_inv [OF inv] show ?thesis by blast
next
  case (attach pid path img r)
  with proc_attach_image_inv [OF inv] show ?thesis by blast
qed (use inv in \<open>blast intro: proc_lseek_inv proc_close_inv proc_dup_inv proc_dup2_inv\<close>)+

lemma proc_alloc_heap: "proc_alloc pid sz k = Ret (p, k') \<Longrightarrow> unat sz \<le> 2 ^ 62 \<Longrightarrow> heap_step\<^sup>*\<^sup>* (kmem k) (kmem k')"
  using memctx_alloc_heap by (auto simp: proc_alloc_def bind_outcome_Ret_iff split: option.splits)

lemma proc_exit_heap: "proc_exit_locked pid status k = Ret (r, k') \<Longrightarrow> kmem k' = kmem k"
  by (auto simp: proc_exit_locked_def Let_def split: option.splits if_splits)

lemma proc_attach_image_heap:
  assumes "proc_attach_image pid path img k = Ret (r, k')"
  shows "heap_step\<^sup>*\<^sup>* (kmem k) (kmem k')"
  using proc_attach_image_run [OF assms] proc_alloc_heap [of pid PROC_STACK_SIZE] by (fastforce simp: PROC_STACK_SIZE_def)

lemma proc_step_heap:
  assumes "proc_step k k'" and inv: "kernel_inv k L"
  shows "heap_step\<^sup>*\<^sup>* (kmem k) (kmem k')"
proof -
  have M: "mem_rep (kmem k) L" "memctx_inv (kctx k) L" "vfs_inv (kvfs k) L"
    using kernel_invD(1) [OF inv] by (simp_all add: mem_ok_def)
  from assms(1) show ?thesis
  proof cases
    case (exits pid status r)
    then show ?thesis using proc_exit_heap by (auto simp: proc_exit_def)
  next
    case (wait ppid pid ptr r st)
    with memctx_destroy_heap [OF _ M(1,2)] show ?thesis
      by (auto simp: proc_wait_def Let_def bind_outcome_Ret_iff split: option.splits if_splits)
  next
    case (kill pid status r)
    then show ?thesis using proc_exit_heap by (auto simp: proc_kill_def split: option.splits if_splits)
  next
    case (palloc pid sz p)
    then show ?thesis by (rule proc_alloc_heap)
  next
    case (pfree pid p r)
    with memctx_free_heap [OF _ M(1,2)] show ?thesis
      by (auto simp: proc_free_def bind_outcome_Ret_iff split: option.splits)
  next
    case (popen pid path flags r)
    with vfs_open_ok [OF M(3), of path flags "kmem k"] show ?thesis
      by (auto simp: proc_open_def Let_def split: option.splits if_splits)
  next
    case (pread pid fd buf n r)
    with vfs_read_heap [of "real_fd (find_proc pid k) fd k" buf n "kvfs k" "kmem k"] show ?thesis
      by (auto simp: proc_read_def split: prod.splits)
  next
    case (pwrite pid fd buf n r)
    with vfs_write_heap [OF _ M(1,3)] show ?thesis by (auto simp: proc_write_def bind_outcome_Ret_iff)
  next
    case (attach pid path img r)
    then show ?thesis by (rule proc_attach_image_heap)
  qed (auto simp: proc_create_def proc_set_current_def proc_lseek_def proc_close_def proc_dup_def proc_dup2_def Let_def
      split: option.splits if_splits prod.splits)
qed

lemma proc_steps_inv:
  assumes "proc_step\<^sup>*\<^sup>* k k'" and "kernel_inv k L"
  shows "(\<exists>L'. kernel_inv k' L') \<and> heap_step\<^sup>*\<^sup>* (kmem k) (kmem k')"
  using assms
proof (induction rule: rtranclp_induct)
  case (step k1 k2)
  then obtain L' where L': "kernel_inv k1 L'" and h: "heap_step\<^sup>*\<^sup>* (kmem k) (kmem k1)" by blast
  from proc_step_inv [OF step(2) L'] proc_step_heap [OF step(2) L'] h show ?case by (meson rtranclp_trans)
qed blast

text \<open>The state in which the other components have been initialised: no memory context, no process.\<close>

lemma proc_init_inv:
  assumes mem: "mem_rep (kmem k) L" and v: "vfs_inv (kvfs k) L"
  shows "kernel_inv (proc_init k) L"
proof -
  have "ctx_ptrs (memctx_init cs) = {}" "active_ids (contexts (memctx_init cs)) = {}" for cs
    by (auto simp: ctx_ptrs_def memctx_init_def active_ids_def no_block_def no_ctx_def)
  with mem v memctx_init_inv [of "kctx k" L] show ?thesis
    by (auto simp: kernel_inv_def proc_init_def mem_ok_def table_ok_def fds_ok_def run_ok_def init_ok_def live_procs_def no_proc_def)
qed

text \<open>C24: From the initialised process table on, whatever sequence of creations, switches, exits, waits, kills,
  allocations, file operations and attachments of loaded images is carried out, the heap, the contexts, the file
  tree and the process table stay consistent: ids are distinct, the running process is the current one, every
  process owns exactly one memory context, no block belongs to a context and to a file at once, and init is alive
  once it was created. Reads go to buffers inside live blocks, writes end below the offset 2^61, allocations ask for
  at most 2^62 bytes; loading a program and running it are not among the steps. On the way the heap was changed
  only by calls of the allocator and by writes inside live blocks, which hold no byte of a block header.\<close>

theorem proc_reachable_inv:
  assumes "mem_rep (kmem k) L" and "vfs_inv (kvfs k) L" and "proc_step\<^sup>*\<^sup>* (proc_init k) k'"
  shows "(\<exists>L'. kernel_inv k' L') \<and> heap_step\<^sup>*\<^sup>* (kmem k) (kmem k')"
  using proc_steps_inv [OF assms(3) proc_init_inv [OF assms(1,2)]] by (simp add: proc_init_def)

section \<open>The state after boot\<close>

definition boot_kernel :: kernel where
  "boot_kernel = proc_init \<lparr>kmem = boot_heap, kctx = ctx_boot, kvfs = open_vfs, procs = [], next_pid = 0, current_pid = 0\<rparr>"

lemma boot_kernel_inv: "kernel_inv boot_kernel Map.empty"
  unfolding boot_kernel_def by (rule proc_init_inv) (simp_all add: boot_heap_rep open_vfs_inv)

definition init_kernel :: kernel where
  "init_kernel = snd (proc_create (Some ''init'') 0 boot_kernel)"

definition child_kernel :: kernel where
  "child_kernel = snd (proc_create (Some ''sh'') 1 init_kernel)"

lemma boot_procs: "procs boot_kernel = replicate PROC_MAX no_proc" "next_pid boot_kernel = 1"
  by (simp_all add: boot_kernel_def proc_init_def)

lemma init_kernel_run:
  "\<exists>c. proc_create (Some ''init'') 0 boot_kernel = (1, init_kernel) \<and> kernel_inv init_kernel Map.empty \<and>
     procs init_kernel = new_proc (Some ''init'') 0 1 c # replicate 15 no_proc \<and> next_pid init_kernel = 2"
proof -
  have max: "PROC_MAX = Suc 15" by (simp add: PROC_MAX_def)
  have ps: "procs boot_kernel = no_proc # replicate 15 no_proc" unfolding boot_procs max by (rule replicate_Suc)
  then have "find_slot (\<lambda>p. \<not> p_used p) (procs boot_kernel) = Some 0" by (simp add: no_proc_def)
  from proc_create_run [OF boot_kernel_inv _ _ this, of 0 "Some ''init''"] show ?thesis
    by (auto simp: boot_procs(2) ps init_kernel_def)
qed

lemma child_kernel_run:
  "\<exists>c d. proc_create (Some ''sh'') 1 init_kernel = (2, child_kernel) \<and> kernel_inv child_kernel Map.empty \<and>
     procs child_kernel = new_proc (Some ''init'') 0 1 c # new_proc (Some ''sh'') 1 2 d # replicate 14 no_proc"
proof -
  from init_kernel_run obtain c where c: "kernel_inv init_kernel Map.empty"
    "procs init_kernel = new_proc (Some ''init'') 0 1 c # replicate 15 no_proc" "next_pid init_kernel = 2" by blast
  have "(15::nat) = Suc 14" by simp
  then have ps: "procs init_kernel = new_proc (Some ''init'') 0 1 c # no_proc # replicate 14 no_proc"
    unfolding c(2) by (metis replicate_Suc)
  then have s: "find_slot (\<lambda>p. \<not> p_used p) (procs init_kernel) = Some 1" by (simp add: no_proc_def)
  have "find_proc 1 init_kernel = Some 0" by (simp add: find_proc_def ps)
  with proc_create_run [OF c(1) _ _ s, of 1 "Some ''sh''"] show ?thesis
    by (auto simp: c(3) ps child_kernel_def)
qed

theorem proc_reachable_inv_witness: "(\<exists>L. kernel_inv child_kernel L) \<and> heap_step\<^sup>*\<^sup>* boot_heap (kmem child_kernel)"
proof -
  let ?k = "\<lparr>kmem = boot_heap, kctx = ctx_boot, kvfs = open_vfs, procs = [], next_pid = 0, current_pid = 0\<rparr>"
  have m: "mem_rep (kmem ?k) Map.empty" "vfs_inv (kvfs ?k) Map.empty" by (simp_all add: boot_heap_rep open_vfs_inv)
  have "proc_step boot_kernel init_kernel" "proc_step init_kernel child_kernel"
    using init_kernel_run child_kernel_run by (blast intro: proc_step.create)+
  then have "proc_step\<^sup>*\<^sup>* (proc_init ?k) child_kernel" unfolding boot_kernel_def by simp
  from proc_reachable_inv [OF m this] show ?thesis by simp
qed

section \<open>From exit to reaping\<close>

text \<open>C25: A live process other than init that exits with a status can be waited for by its parent exactly then: the wait
  delivers the status, the process is gone from the table, and of the heap precisely the blocks its memory context owned are released.\<close>

theorem proc_exit_wait:
  assumes inv: "kernel_inv k L" and i: "find_proc pid k = Some i" and st: "\<not> proc_is_terminal_state (pi_state (info (procs k ! i)))"
    and pid: "pid \<noteq> 1" and ppid: "ppid = pi_parent_pid (info (procs k ! i))" "ppid \<noteq> pid"
  shows "\<exists>k1 k2. proc_wait ppid pid ptr k = Ret (- 1, None, k) \<and> proc_exit pid status k = Ret (0, k1) \<and>
    proc_wait ppid pid ptr k1 = Ret (pid, if ptr \<noteq> 0 then Some status else None, k2) \<and> find_proc pid k2 = None \<and>
    kernel_inv k2 (L |` (- owned (pi_memctx (info (procs k ! i))) [0..<MEMCTX_MAX_BLOCKS] (ctx_blocks (kctx k))))"
proof -
  note P = find_procD [OF i]
  from proc_exit_run [OF i st pid, of status] obtain k1 where
    k1: "proc_exit_locked pid status k = Ret (0, k1)" "kctx k1 = kctx k" "length (procs k1) = length (procs k)"
      "\<forall>j<length (procs k). procs k1 ! j = exit_entry pid status (j = i) (procs k ! j)" by blast
  with proc_exit_locked_inv [OF inv pid, of status] have inv1: "kernel_inv k1 L" by auto
  have e: "procs k1 ! i = exit_entry pid status True (procs k ! i)" using k1(4) P(1) by simp
  have i1: "find_proc pid k1 = Some i" by (rule find_proc_eq [OF kernel_invD(2) [OF inv1]]) (simp_all add: e P k1(3))
  have par: "pi_parent_pid (info (procs k1 ! i)) = ppid" using e ppid by simp
  have ex: "pi_state (info (procs k1 ! i)) = PROC_STATE_EXITED" "pi_exit_status (info (procs k1 ! i)) = status" using e by simp_all
  from proc_wait_run [OF inv1 i1 par ex(1), of ptr] obtain k2 where
    k2: "proc_wait ppid pid ptr k1 = Ret (pid, if ptr \<noteq> 0 then Some status else None, k2)"
      "kernel_inv k2 (L |` (- owned (pi_memctx (info (procs k1 ! i))) [0..<MEMCTX_MAX_BLOCKS] (ctx_blocks (kctx k1))))"
      "procs k2 = (procs k1)[i := no_proc]" unfolding ex(2) by blast
  have "j = i" if "j < length (procs k1)" "p_used (procs k1 ! j)" "pi_pid (info (procs k1 ! j)) = pid" for j
    using find_proc_eq [OF kernel_invD(2) [OF inv1] that] i1 by simp
  then have "find_proc pid k2 = None" unfolding find_proc_None k2(3)
    using nth_clear [of no_proc _ "procs k1" i] by (auto simp: no_proc_def)
  moreover have "proc_wait ppid pid ptr k = Ret (- 1, None, k)"
    using i st by (auto simp: proc_wait_def Let_def proc_is_terminal_state_def)
  ultimately show ?thesis using k1(1,2) k2(1,2) e by (auto simp: proc_exit_def)
qed

theorem proc_exit_wait_witness:
  "\<exists>k1 k2 c. proc_wait 1 2 0x1000 child_kernel = Ret (- 1, None, child_kernel) \<and> proc_exit 2 7 child_kernel = Ret (0, k1) \<and>
    proc_wait 1 2 0x1000 k1 = Ret (2, Some 7, k2) \<and> find_proc 2 k2 = None \<and> kernel_inv k2 (Map.empty |` (- owned c [0..<MEMCTX_MAX_BLOCKS] (ctx_blocks (kctx child_kernel))))"
proof -
  from child_kernel_run obtain c d where c: "kernel_inv child_kernel Map.empty"
     "procs child_kernel = new_proc (Some ''init'') 0 1 c # new_proc (Some ''sh'') 1 2 d # replicate 14 no_proc" by blast
  have f: "find_proc 2 child_kernel = Some 1" by (simp add: find_proc_def c(2))
  show ?thesis using proc_exit_wait [OF c(1) f, of 1 "0x1000" 7]
    by (simp add: c(2) proc_is_terminal_state_def proc_consts)
qed

section \<open>The init process\<close>

text \<open>C26: Once it was created, init can be ended neither by a kill, which is refused and changes nothing, nor by an exit,
  which stops the kernel.\<close>

theorem init_protected:
  assumes inv: "kernel_inv k L" and boot: "1 < next_pid k"
  shows "proc_kill 1 status k = Ret (PROC_ERR_PROTECTED, k) \<and> proc_exit 1 status k = Panic ''init process exited''"
proof -
  from kernel_invD(5) [OF inv] boot obtain i where i: "i < length (procs k)" "p_used (procs k ! i)" "pi_pid (info (procs k ! i)) = 1"
    "\<not> proc_is_terminal_state (pi_state (info (procs k ! i)))" by (auto simp: init_ok_def)
  from find_proc_eq [OF kernel_invD(2) [OF inv] i(1-3)] i(4) show ?thesis
    by (simp add: proc_kill_def proc_exit_def proc_exit_locked_def)
qed

theorem init_protected_witness:
  "proc_kill 1 9 init_kernel = Ret (PROC_ERR_PROTECTED, init_kernel) \<and> proc_exit 1 9 init_kernel = Panic ''init process exited''"
proof -
  from init_kernel_run have "kernel_inv init_kernel Map.empty" "1 < next_pid init_kernel" by auto
  then show ?thesis by (rule init_protected)
qed

section \<open>Duplicated descriptors\<close>

lemma find_proc_fds:
  assumes i: "find_proc pid k = Some i" and tab: "table_ok (procs k) n"
  shows "find_proc pid (upd_proc i (\<lambda>p. p\<lparr>fds := f p\<rparr>) k) = Some i"
proof -
  note P = find_procD [OF i]
  have "table_ok (procs (upd_proc i (\<lambda>p. p\<lparr>fds := f p\<rparr>) k)) n"
    using same_ids_table [OF same_ids_upd tab, of i "(procs k ! i)\<lparr>fds := f (procs k ! i)\<rparr>"] P(1) by simp
  then show ?thesis by (rule find_proc_eq) (use P in simp_all)
qed

text \<open>C27: \<open>proc_dup\<close> gives a second descriptor for the same open file without counting it: closing the copy closes the
  file under the original, which then can no longer be read.\<close>

theorem proc_dup_close_breaks_original:
  assumes inv: "kernel_inv k L" and dup: "proc_dup pid fd k = (fd', k1)" and ok: "0 \<le> fd'"
    and cl: "proc_close pid fd' k1 = (0, k2)"
  shows "fst (proc_read pid fd buf n k2) = - 1"
proof -
  from dup ok obtain i where i: "find_proc pid k = Some i" by (cases "find_proc pid k") (auto simp: proc_dup_def Let_def)
  define b where "b = real_fd (Some i) fd k"
  from dup ok i obtain j where b: "0 \<le> b" and j: "find_slot (\<lambda>fd. fd < 0) (fds (procs k ! i)) = Some j" "fd' = int j"
    and k1: "k1 = upd_proc i (\<lambda>p. p\<lparr>fds := (fds p)[j := b]\<rparr>) k"
    by (auto simp: proc_dup_def Let_def b_def split: if_splits option.splits)
  note P = find_procD [OF i]
  have len: "length (fds (procs k ! i)) = PROC_MAX_FDS" using fds_okD(1) [OF kernel_invD(3) [OF inv] P(1,2)] .
  have jl: "j < PROC_MAX_FDS" "fds (procs k ! i) ! j < 0" using find_slot_SomeD [OF j(1)] len by auto
  have bfd: "b = fds (procs k ! i) ! nat fd" "0 \<le> fd" "fd < int PROC_MAX_FDS" "nat fd < PROC_MAX_FDS" "nat fd \<noteq> j"
    using b jl(2) by (auto simp: b_def real_fd_def split: if_splits)
  have i1: "find_proc pid k1 = Some i" unfolding k1 by (rule find_proc_fds [OF i kernel_invD(2) [OF inv]])
  have p1: "procs k1 ! i = (procs k ! i)\<lparr>fds := (fds (procs k ! i))[j := b]\<rparr>" using P(1) by (simp add: k1)
  have "kernel_inv k1 L" by (rule proc_dup_inv [OF inv dup])
  note t1 = kernel_invD(2) [OF this]
  have rb: "real_fd (Some i) fd' k1 = b" using jl(1) len by (simp add: real_fd_def j(2) p1)
  from cl i1 rb b have k2: "k2 = (upd_proc i (\<lambda>p. p\<lparr>fds := (fds p)[nat fd' := - 1]\<rparr>) k1)\<lparr>kvfs := snd (vfs_close b (kvfs k1))\<rparr>"
    "fst (vfs_close b (kvfs k1)) = 0"
    by (auto simp: proc_close_def Let_def split: prod.splits)
  have i2: "find_proc pid k2 = Some i" using find_proc_fds [OF i1 t1, of "\<lambda>p. (fds p)[nat fd' := - 1]"] by (simp add: k2 find_proc_def)
  have "real_fd (Some i) fd k2 = b" using bfd len P(1) jl(1) by (simp add: real_fd_def k2 p1 k1 j(2))
  moreover have "\<not> fd_ok (kvfs k2) b"
  proof -
    have v: "length (open_files (kvfs k1)) = VFS_MAX_OPEN"
      using kernel_invD(1) [OF proc_dup_inv [OF inv dup]] by (auto simp: mem_ok_def vfs_inv_def tree_ok_def)
    show ?thesis using k2 v by (auto simp: vfs_close_def fd_ok_def upd_open_def no_open_def split: if_splits)
  qed
  ultimately show ?thesis by (simp add: proc_read_def i2 vfs_read_def)
qed

text \<open>The child process with the open file of \<open>open_vfs\<close> as its descriptor 0.\<close>

definition file_kernel :: kernel where
  "file_kernel = upd_proc 1 (\<lambda>p. p\<lparr>fds := 0 # replicate 15 (- 1)\<rparr>) child_kernel"

lemma file_kernel_inv: "kernel_inv file_kernel Map.empty"
proof -
  from child_kernel_run have inv: "kernel_inv child_kernel Map.empty" by blast
  show ?thesis by (rule kernel_inv_fds [OF inv, of 1 file_kernel Map.empty "0 # replicate 15 (- 1)"])
    (use inv in \<open>auto simp: file_kernel_def kernel_inv_def table_ok_def PROC_MAX_def PROC_MAX_FDS_def VFS_MAX_OPEN_def\<close>)
qed

lemma file_kernel_kvfs: "kvfs file_kernel = open_vfs"
proof -
  have create_vfs: "kvfs (snd (proc_create name ppid k)) = kvfs k" for name ppid k
    by (simp add: proc_create_def Let_def split: prod.splits option.splits)
  show ?thesis by (simp add: file_kernel_def child_kernel_def init_kernel_def create_vfs boot_kernel_def proc_init_def)
qed

theorem proc_dup_close_breaks_original_witness:
  "\<exists>k1 k2. proc_dup 2 0 file_kernel = (1, k1) \<and> proc_close 2 1 k1 = (0, k2) \<and> fst (proc_read 2 0 0x1000 8 k2) = - 1"
proof -
  from child_kernel_run obtain c d where
    c: "procs child_kernel = new_proc (Some ''init'') 0 1 c # new_proc (Some ''sh'') 1 2 d # replicate 14 no_proc" by blast
  let ?p = "(new_proc (Some ''sh'') 1 2 d)\<lparr>fds := 0 # replicate 15 (- 1)\<rparr>"
  have ps: "procs file_kernel = new_proc (Some ''init'') 0 1 c # ?p # replicate 14 no_proc"
    by (simp add: file_kernel_def c)
  have r: "replicate 15 (- 1) = (- 1 :: int) # replicate 14 (- 1)" by (simp flip: replicate_Suc)
  have f: "find_proc 2 file_kernel = Some 1" by (simp add: find_proc_def ps)
  define k1 where "k1 = upd_proc 1 (\<lambda>p. p\<lparr>fds := (fds p)[1 := 0]\<rparr>) file_kernel"
  have d: "proc_dup 2 0 file_kernel = (1, k1)"
    by (simp add: proc_dup_def Let_def f real_fd_def PROC_MAX_FDS_def ps r k1_def)
  have f1: "find_proc 2 k1 = Some 1" unfolding k1_def by (rule find_proc_fds [OF f kernel_invD(2) [OF file_kernel_inv]])
  have rf: "real_fd (Some 1) 1 k1 = 0" by (simp add: real_fd_def PROC_MAX_FDS_def k1_def ps r)
  have "vfs_close 0 (kvfs k1) = (0, upd_open 0 (\<lambda>_. no_open) (kvfs k1))"
    using open_vfs_at(1) by (simp add: k1_def file_kernel_kvfs vfs_close_def)
  then obtain k2 where k2: "proc_close 2 1 k1 = (0, k2)"
    by (simp add: proc_close_def Let_def f1 rf [simplified])
  from proc_dup_close_breaks_original [OF file_kernel_inv d _ k2] d k2 show ?thesis by simp
qed

end
