(* ===== verification/Elf_Props.thy ===== *)
theory Elf_Props
  imports Elf
begin

unbundle bit_operations_syntax

text \<open>
  What the checks of the ELF loader amount to. The code compares machine words, with explicit tests for sums
  that wrap around, and tests powers of two and alignments by masks. The specification speaks of natural
  numbers: offsets and lengths that add up within the file, addresses within the address space, an
  alignment that is a power of two and by which address and offset are congruent.
\<close>

section \<open>Words\<close>

lemma add_overflow_iff: "fst (add_overflow_u64 a b) \<longleftrightarrow> 18446744073709551616 \<le> unat a + unat b"
proof -
  have "fst (add_overflow_u64 a b) \<longleftrightarrow> unat (a + b) < unat a" by (simp add: add_overflow_u64_def Let_def word_less_nat_alt)
  moreover have "unat (a + b) = (if unat a + unat b < 18446744073709551616 then unat a + unat b else unat a + unat b - 18446744073709551616)"
    by (simp add: unat_plus_if')
  ultimately show ?thesis using unat_lt_2p64 [of b] by (cases "unat a + unat b < 18446744073709551616") (simp_all only: if_True if_False, linarith+)
qed

lemma add_overflow_sum: "snd (add_overflow_u64 a b) = a + b"
  by (simp add: add_overflow_u64_def Let_def)

lemma range_inside_iff: "range_inside off len sz \<longleftrightarrow> unat off + unat len \<le> unat sz"
proof (cases "unat off + unat len < 18446744073709551616")
  case True
  then have "unat (off + len) = unat off + unat len" by (rule unat_add64)
  with True show ?thesis
    by (auto simp: range_inside_def add_overflow_u64_def Let_def word_le_nat_alt word_less_nat_alt)
next
  case False
  then have "fst (add_overflow_u64 off len)" by (simp add: add_overflow_iff)
  then have "\<not> range_inside off len sz" by (simp add: range_inside_def split_beta)
  moreover have "\<not> unat off + unat len \<le> unat sz" using False unat_lt_2p64 [of sz] by linarith
  ultimately show ?thesis by simp
qed

lemma valid_flags_iff: "valid_flags f \<longleftrightarrow> unat f < 8"
proof -
  have "NOT (ELF_PF_R OR ELF_PF_W OR ELF_PF_X) = NOT (mask 3)" by (simp add: elf_consts mask_eq_exp_minus_1)
  then have "valid_flags f \<longleftrightarrow> unat (f AND NOT (mask 3)) = 0" by (simp only: valid_flags_def unat_eq_0)
  also have "\<dots> \<longleftrightarrow> unat f - unat f mod 8 = 0" by (simp add: unat_and_not_mask)
  also have "\<dots> \<longleftrightarrow> unat f < 8" by (metis diff_is_0_eq mod_less_eq_dividend mod_if mod_less_divisor le_antisym zero_less_numeral)
  finally show ?thesis .
qed

text \<open>A number and its predecessor have no common bit exactly if it is a power of two.\<close>

lemma and_pred_odd: "odd (m :: nat) \<Longrightarrow> m AND (m - 1) = m - 1"
proof -
  assume "odd m"
  then obtain b where b: "m = 1 + 2 * b" by (auto elim: oddE)
  have "(1 + 2 * b) AND (2 * b) = 2 * b" by (rule bit_eqI) (simp only: bit_and_iff even_bit_succ_iff even_mult_iff even_numeral simp_thms, blast)
  then show ?thesis by (simp add: b)
qed

lemma and_pred_power: "0 < n \<Longrightarrow> n AND (n - 1) = 0 \<Longrightarrow> \<exists>k. n = 2 ^ k" for n :: nat
proof (induction n rule: less_induct)
  case (less n)
  show ?case
  proof (cases "odd n")
    case True
    with less.prems and_pred_odd [of n] have "n = 2 ^ 0" by simp
    then show ?thesis by blast
  next
    case False
    then obtain j where j: "n = 2 * j" by auto
    have "j AND (j - 1) = drop_bit 1 n AND drop_bit 1 (n - 1)"
    proof -
      have "(2 * j - 1) div 2 = j - 1" using less.prems(1) j by presburger
      then show ?thesis by (simp add: j drop_bit_eq_div)
    qed
    also have "\<dots> = drop_bit 1 (n AND (n - 1))" by (simp only: drop_bit_and)
    finally have "j AND (j - 1) = 0" by (simp only: less.prems(2) drop_bit_of_0)
    with less.IH [of j] less.prems(1) j obtain k where "j = 2 ^ k" by auto
    then have "n = 2 ^ Suc k" by (simp add: j)
    then show ?thesis by blast
  qed
qed

lemma power_and_pred: "(2 :: u64) ^ k AND (2 ^ k - 1) = 0"
proof -
  have "(2 :: u64) ^ k AND mask k = take_bit k (2 ^ k)" by (simp only: take_bit_eq_mask)
  also have "\<dots> = 0" by (simp add: take_bit_eq_mod)
  finally show ?thesis by (simp add: mask_eq_exp_minus_1)
qed

lemma power_of_two_iff:
  assumes "a \<noteq> (0 :: u64)"
  shows "a AND (a - 1) = 0 \<longleftrightarrow> (\<exists>k. unat a = 2 ^ k)"
proof
  assume "a AND (a - 1) = 0"
  then have "unat a AND unat (a - 1) = 0" by (metis unsigned_and_eq unsigned_0)
  moreover have "unat (a - 1) = unat a - 1" using assms by (metis unat_minus_one)
  moreover have "0 < unat a" using assms by (simp add: unat_gt_0)
  ultimately show "\<exists>k. unat a = 2 ^ k" by (simp add: and_pred_power)
next
  assume "\<exists>k. unat a = 2 ^ k"
  then obtain k where "unat a = 2 ^ k" ..
  then have "a = of_nat (2 ^ k)" by (metis of_nat_unat ucast_id)
  then show "a AND (a - 1) = 0" using power_and_pred [of k] by simp
qed

text \<open>The mask test of an alignment is congruence.\<close>

lemma diff_mod_0:
  fixes a b :: u64
  assumes "k < 64"
  shows "unat (a - b) mod 2 ^ k = 0 \<longleftrightarrow> unat a mod 2 ^ k = unat b mod 2 ^ k"
proof -
  have "(2 :: int) ^ k dvd 2 ^ 64" using assms by (intro le_imp_power_dvd) simp
  then have "(2 :: int) ^ k dvd 18446744073709551616" by simp
  then have "uint (a - b) mod 2 ^ k = (uint a - uint b) mod 2 ^ k"
    by (simp add: uint_word_ariths mod_mod_cancel)
  also have "\<dots> = 0 \<longleftrightarrow> uint a mod 2 ^ k = uint b mod 2 ^ k" by (simp add: mod_eq_dvd_iff mod_eq_0_iff_dvd)
  finally have "int (unat (a - b) mod 2 ^ k) = 0 \<longleftrightarrow> int (unat a mod 2 ^ k) = int (unat b mod 2 ^ k)" by (simp add: zmod_int)
  then show ?thesis by (simp only: of_nat_eq_iff of_nat_eq_0_iff)
qed

lemma aligned_iff:
  fixes a b al :: u64
  assumes "unat al = 2 ^ k"
  shows "(a - b) AND (al - 1) = 0 \<longleftrightarrow> unat a mod unat al = unat b mod unat al"
proof -
  have "(2 :: nat) ^ k < 2 ^ 64" using unat_lt_2p64 [of al] assms by simp
  then have k: "k < 64" by (simp only: power_strict_increasing_iff)
  have "al = of_nat (2 ^ k)" using assms by (metis of_nat_unat ucast_id)
  then have "(a - b) AND (al - 1) = take_bit k (a - b)" by (simp add: take_bit_eq_mask mask_eq_exp_minus_1)
  moreover have "unat (take_bit k x) = unat x mod 2 ^ k" for x :: u64
    by (metis take_bit_eq_mod unsigned_take_bit_eq)
  ultimately have "(a - b) AND (al - 1) = 0 \<longleftrightarrow> unat (a - b) mod 2 ^ k = 0" by (metis unat_eq_0)
  then show ?thesis by (simp only: diff_mod_0 [OF k] assms)
qed

section \<open>Segments\<close>

text \<open>What a loadable segment has to satisfy.\<close>

definition segment_ok :: "nat \<Rightarrow> elf_phdr_t \<Rightarrow> bool" where
  "segment_ok file_len p \<longleftrightarrow> unat (p_flags p) < 8 \<and> 0 < p_memsz p \<and> p_filesz p \<le> p_memsz p \<and>
     unat (p_offset p) + unat (p_filesz p) \<le> file_len \<and> unat (p_vaddr p) + unat (p_memsz p) < 2 ^ 64 \<and>
     (p_align p \<noteq> 0 \<longrightarrow> (\<exists>k. unat (p_align p) = 2 ^ k) \<and> unat (p_vaddr p) mod unat (p_align p) = unat (p_offset p) mod unat (p_align p))"

definition is_load :: "elf_phdr_t \<Rightarrow> bool" where
  "is_load p \<longleftrightarrow> p_type p = ELF_PT_LOAD"

definition seg_end :: "elf_phdr_t \<Rightarrow> u64" where
  "seg_end p = p_vaddr p + p_memsz p"

lemma align_test:
  "(\<not> (p_align p \<noteq> 0 \<and> p_align p AND (p_align p - 1) \<noteq> 0) \<and> \<not> (1 < p_align p \<and> (p_vaddr p - p_offset p) AND (p_align p - 1) \<noteq> 0)) \<longleftrightarrow>
   (p_align p \<noteq> 0 \<longrightarrow> (\<exists>k. unat (p_align p) = 2 ^ k) \<and> unat (p_vaddr p) mod unat (p_align p) = unat (p_offset p) mod unat (p_align p))"
proof (cases "p_align p = 0")
  case False
  then have "0 < unat (p_align p)" by (simp add: unat_gt_0)
  then have "unat (p_align p) = unat (1 :: u64) \<or> unat (1 :: u64) < unat (p_align p)" by (simp, linarith)
  then consider "p_align p = 1" | "1 < p_align p" unfolding word_less_nat_alt word_unat_eq_iff by blast
  then show ?thesis
  proof cases
    case 1
    then show ?thesis by (auto intro: exI [of _ 0])
  next
    case 2
    with False show ?thesis by (auto simp: power_of_two_iff aligned_iff)
  qed
qed simp

lemma file_test: "(fst (add_overflow_u64 a b) \<or> sz < a + b) \<longleftrightarrow> \<not> unat a + unat b \<le> unat sz"
proof (cases "unat a + unat b < 18446744073709551616")
  case True
  then show ?thesis by (auto simp: add_overflow_iff word_less_nat_alt unat_add64)
next
  case False
  then have "fst (add_overflow_u64 a b)" by (simp add: add_overflow_iff)
  moreover have "\<not> unat a + unat b \<le> unat sz" using False unat_lt_2p64 [of sz] by linarith
  ultimately show ?thesis by simp
qed

lemma inspect_segment_eq:
  "inspect_segment p sz (mn, mx, n) =
     (if \<not> is_load p then Some (mn, mx, n)
      else if segment_ok (unat sz) p then Some (min (p_vaddr p) mn, max (seg_end p) mx, n + 1) else None)"
proof (cases "is_load p")
  case True
  let ?flags = "\<not> valid_flags (p_flags p) \<or> p_memsz p = 0 \<or> p_memsz p < p_filesz p"
    and ?range = "fst (add_overflow_u64 (p_offset p) (p_filesz p)) \<or> sz < p_offset p + p_filesz p"
    and ?over = "fst (add_overflow_u64 (p_vaddr p) (p_memsz p))"
    and ?pow = "p_align p \<noteq> 0 \<and> p_align p AND (p_align p - 1) \<noteq> 0"
    and ?mod = "1 < p_align p \<and> (p_vaddr p - p_offset p) AND (p_align p - 1) \<noteq> 0"
  have "segment_ok (unat sz) p \<longleftrightarrow> \<not> ?flags \<and> \<not> ?range \<and> \<not> ?over \<and> (\<not> ?pow \<and> \<not> ?mod)"
    unfolding align_test file_test by (auto simp: segment_ok_def valid_flags_iff add_overflow_iff word_neq_0_conv)
  then have "(if segment_ok (unat sz) p then Some x else None) =
      (if ?flags then None else if ?range then None else if ?over then None else if ?pow then None else if ?mod then None else Some x)" for x :: "u64 \<times> u64 \<times> int"
    by (simp only: if_True if_False simp_thms split: if_split) blast
  moreover have "(if p_vaddr p < mn then p_vaddr p else mn) = min (p_vaddr p) mn" "(if mx < seg_end p then seg_end p else mx) = max (seg_end p) mx"
    by (auto simp: min_def max_def)
  ultimately show ?thesis using True
    unfolding inspect_segment_def is_load_def seg_end_def by (simp add: split_beta add_overflow_sum)
qed (simp add: inspect_segment_def is_load_def)

lemma inspect_loop_eq:
  "inspect_loop ps sz (mn, mx, n) =
     (let ls = filter is_load ps in
      if \<forall>p\<in>set ls. segment_ok (unat sz) p
      then Some (fold min (map p_vaddr ls) mn, fold max (map seg_end ls) mx, n + int (length ls)) else None)"
  by (induction ps arbitrary: mn mx n) (auto simp: inspect_segment_eq Let_def)

text \<open>The lowest address and the highest end, and the tests made with them.\<close>

lemma lowest_le:
  assumes "ls \<noteq> []"
  shows "fold min (map p_vaddr ls) (- 1) \<le> x \<longleftrightarrow> (\<exists>p\<in>set ls. p_vaddr p \<le> x)"
proof -
  have "fold min (map p_vaddr ls) (- 1) = Min (set (- 1 # map p_vaddr ls))" by (rule Min.set_eq_fold [symmetric])
  then have "fold min (map p_vaddr ls) (- 1) \<le> x \<longleftrightarrow> (\<exists>y\<in>insert (- 1) (p_vaddr ` set ls). y \<le> x)" by (simp add: Min_le_iff)
  moreover have "\<exists>p\<in>set ls. p_vaddr p \<le> x" if "- 1 \<le> x"
  proof -
    have "x = - 1" using that by (simp add: word_order.extremum_unique)
    then have "p_vaddr (hd ls) \<le> x" by simp
    then show ?thesis using assms by auto
  qed
  ultimately show ?thesis by auto
qed

lemma highest_gt: "x < fold max (map seg_end ls) 0 \<longleftrightarrow> (\<exists>p\<in>set ls. x < seg_end p)"
proof -
  have "fold max (map seg_end ls) 0 = Max (set (0 # map seg_end ls))" by (rule Max.set_eq_fold [symmetric])
  then have "x < fold max (map seg_end ls) 0 \<longleftrightarrow> (\<exists>y\<in>insert 0 (seg_end ` set ls). x < y)" by (simp add: Max_gr_iff)
  then show ?thesis by auto
qed

lemma lowest_mem:
  assumes "ls \<noteq> []"
  shows "fold min (map p_vaddr ls) (- 1) \<in> p_vaddr ` set ls"
proof -
  let ?m = "fold min (map p_vaddr ls) (- 1)"
  obtain p where p: "p \<in> set ls" "p_vaddr p \<le> ?m" using lowest_le [OF assms, of ?m] by auto
  have "?m \<le> p_vaddr p" using lowest_le [OF assms, of "p_vaddr p"] p(1) by auto
  with p have "?m = p_vaddr p" by simp
  with p(1) show ?thesis by (rule image_eqI [rotated])
qed

lemma highest_mem:
  assumes "x < fold max (map seg_end ls) 0"
  shows "fold max (map seg_end ls) 0 \<in> seg_end ` set ls"
proof -
  have "fold max (map seg_end ls) 0 = Max (set (0 # map seg_end ls))" by (rule Max.set_eq_fold [symmetric])
  also have "\<dots> \<in> set (0 # map seg_end ls)" by (rule Max_in) simp_all
  finally show ?thesis using assms by auto
qed

lemma extent_le:
  assumes "ls \<noteq> []" and "fold min (map p_vaddr ls) (- 1) \<le> x" and "x < fold max (map seg_end ls) 0"
  shows "fold max (map seg_end ls) 0 - fold min (map p_vaddr ls) (- 1) \<le> b \<longleftrightarrow>
    (\<forall>p\<in>set ls. \<forall>q\<in>set ls. unat (seg_end q) \<le> unat (p_vaddr p) + unat b)" (is "?hi - ?lo \<le> b \<longleftrightarrow> ?rhs")
proof -
  have "?lo \<le> ?hi" using assms(2,3) by simp
  then have "?hi - ?lo \<le> b \<longleftrightarrow> unat ?hi \<le> unat ?lo + unat b" by (simp add: word_le_nat_alt unat_sub le_diff_conv add.commute)
  also have "\<dots> \<longleftrightarrow> ?rhs"
  proof
    assume le: "unat ?hi \<le> unat ?lo + unat b"
    have lo: "unat ?lo \<le> unat (p_vaddr p)" if "p \<in> set ls" for p
      using that lowest_le [OF assms(1), of "p_vaddr p"] by (auto simp: word_le_nat_alt)
    have hi: "unat (seg_end q) \<le> unat ?hi" if "q \<in> set ls" for q
      using that highest_gt [of ?hi ls] by (auto simp: word_le_nat_alt word_less_nat_alt not_less)
    show ?rhs using le lo hi by (meson add_le_mono1 le_trans)
  next
    assume ?rhs
    then show "unat ?hi \<le> unat ?lo + unat b" using lowest_mem [OF assms(1)] highest_mem [OF assms(3)] by auto
  qed
  finally show ?thesis .
qed

section \<open>The file\<close>

definition elf_loads :: "ram \<Rightarrow> addr \<Rightarrow> elf_phdr_t list" where
  "elf_loads r fl = filter is_load (map (elf_phdr r (fl + e_phoff (elf_header r fl))) [0..<unat (e_phnum (elf_header r fl))])"

definition elf_ident_ok :: "elf_header_t \<Rightarrow> bool" where
  "elf_ident_ok eh \<longleftrightarrow> e_magic eh = ELF_MAGIC \<and> e_class eh = ELF_CLASS_64 \<and> e_data eh = ELF_DATA_LSB \<and> e_version eh = 1 \<and>
     e_version2 eh = 1 \<and> e_type eh = ELF_TYPE_EXEC \<and> e_machine eh = ELF_MACHINE_X86_64 \<and> e_ehsize eh = 64 \<and> e_phentsize eh = 56"

text \<open>
  The file is acceptable: its identification is the expected one, the program headers lie in the file, every loadable segment
  is in order, the entry point lies between the lowest address and the highest end of the segments, and these are at most
  16 MiB apart.
\<close>

definition elf_ok :: "addr \<Rightarrow> u64 \<Rightarrow> ram \<Rightarrow> bool" where
  "elf_ok fl sz r \<longleftrightarrow>
     (let eh = elf_header r fl; ls = elf_loads r fl in
      fl \<noteq> 0 \<and> 64 \<le> unat sz \<and> elf_ident_ok eh \<and> 0 < e_phnum eh \<and> unat (e_phoff eh) + 56 * unat (e_phnum eh) \<le> unat sz \<and>
      (\<forall>p\<in>set ls. segment_ok (unat sz) p) \<and> (\<exists>p\<in>set ls. p_vaddr p \<le> e_entry eh) \<and> (\<exists>p\<in>set ls. e_entry eh < seg_end p) \<and>
      (\<forall>p\<in>set ls. \<forall>q\<in>set ls. unat (seg_end q) \<le> unat (p_vaddr p) + 16 * 1024 * 1024))"

lemma inspect_load_range_iff:
  fixes fl :: addr and r :: ram
  defines "eh \<equiv> elf_header r fl" and "ls \<equiv> elf_loads r fl"
  shows "inspect_load_range r eh (fl + e_phoff eh) sz \<noteq> None \<longleftrightarrow>
     (\<forall>p\<in>set ls. segment_ok (unat sz) p) \<and> (\<exists>p\<in>set ls. p_vaddr p \<le> e_entry eh) \<and> (\<exists>p\<in>set ls. e_entry eh < seg_end p) \<and>
     (\<forall>p\<in>set ls. \<forall>q\<in>set ls. unat (seg_end q) \<le> unat (p_vaddr p) + 16 * 1024 * 1024)"
proof (cases "(\<forall>p\<in>set ls. segment_ok (unat sz) p) \<and> ls \<noteq> []")
  case True
  let ?lo = "fold min (map p_vaddr ls) (- 1)" and ?hi = "fold max (map seg_end ls) 0"
  have "inspect_loop (map (elf_phdr r (fl + e_phoff eh)) [0..<unat (e_phnum eh)]) sz (- 1, 0, 0) = Some (?lo, ?hi, int (length ls))"
    using True by (simp add: inspect_loop_eq Let_def ls_def elf_loads_def eh_def)
  then have "inspect_load_range r eh (fl + e_phoff eh) sz \<noteq> None \<longleftrightarrow> ?lo \<le> e_entry eh \<and> e_entry eh < ?hi \<and> ?hi - ?lo \<le> ELF_MAX_LOAD_SIZE"
    using True by (auto simp: inspect_load_range_def not_less)
  also have "\<dots> \<longleftrightarrow> ?lo \<le> e_entry eh \<and> e_entry eh < ?hi \<and> (\<forall>p\<in>set ls. \<forall>q\<in>set ls. unat (seg_end q) \<le> unat (p_vaddr p) + unat ELF_MAX_LOAD_SIZE)"
    using extent_le [OF conjunct2 [OF True]] by blast
  finally show ?thesis using True by (simp add: lowest_le highest_gt ELF_MAX_LOAD_SIZE_def)
next
  case False
  then have "inspect_load_range r eh (fl + e_phoff eh) sz = None"
    by (auto simp: inspect_load_range_def inspect_loop_eq Let_def ls_def elf_loads_def eh_def split: if_splits)
  with False show ?thesis by auto
qed

text \<open>C29: The validation of a file accepts it exactly if it is acceptable in terms of natural numbers: with no sum that wraps
  around, every loadable segment inside the file and the address space, alignments that are powers of two, the
  entry point inside the loaded range and this range no larger than 16 MiB.\<close>

theorem elf_validate_spec: "elf_validate fl sz r = (if elf_ok fl sz r then 0 else - 1)"
proof -
  let ?eh = "elf_header r fl"
  have "unat (56 * ucast n :: u64) = 56 * unat n" for n :: u16
  proof -
    have "56 * unat n < 18446744073709551616" using unat_lt_2p16 [of n] by linarith
    then show ?thesis by (simp add: unat_word_ariths)
  qed
  then have "range_inside (e_phoff ?eh) (56 * ucast (e_phnum ?eh)) sz \<longleftrightarrow> unat (e_phoff ?eh) + 56 * unat (e_phnum ?eh) \<le> unat sz"
    by (simp add: range_inside_iff)
  moreover have "(ucast (56 :: u16) :: u64) = 56" by simp
  moreover have "\<not> sz < 64 \<longleftrightarrow> 64 \<le> unat sz" by (simp add: word_less_nat_alt not_less)
  ultimately show ?thesis using inspect_load_range_iff [of r fl sz]
    by (auto simp: elf_validate_def elf_ok_def elf_ident_ok_def Let_def sizeof_elf_header_def sizeof_elf_phdr_def ELF_VERSION_CURRENT_def word_neq_0_conv)
qed

end
