(* ===== verification/Font.thy ===== *)
theory Font
  imports Kernel_Prelude
begin

text \<open>
  The 8x8 glyphs of \<^verbatim>\<open>include/font_petme128_8x8.h\<close> for the characters 32 to 127: eight bytes each, one
  per column, the lowest bit on top.
\<close>

definition font_petme128_8x8 :: "u8 list" where
  "font_petme128_8x8 =
    [0x00, 0x00, 0x00, 0x00, 0x00, 0x00, 0x00, 0x00,
     0x00, 0x00, 0x00, 0x4f, 0x4f, 0x00, 0x00, 0x00,
     0x00, 0x07, 0x07, 0x00, 0x00, 0x07, 0x07, 0x00,
     0x14, 0x7f, 0x7f, 0x14, 0x14, 0x7f, 0x7f, 0x14,
     0x00, 0x24, 0x2e, 0x6b, 0x6b, 0x3a, 0x12, 0x00,
     0x00, 0x63, 0x33, 0x18, 0x0c, 0x66, 0x63, 0x00,
     0x00, 0x32, 0x7f, 0x4d, 0x4d, 0x77, 0x72, 0x50,
     0x00, 0x00, 0x00, 0x04, 0x06, 0x03, 0x01, 0x00,
     0x00, 0x00, 0x1c, 0x3e, 0x63, 0x41, 0x00, 0x00,
     0x00, 0x00, 0x41, 0x63, 0x3e, 0x1c, 0x00, 0x00,
     0x08, 0x2a, 0x3e, 0x1c, 0x1c, 0x3e, 0x2a, 0x08,
     0x00, 0x08, 0x08, 0x3e, 0x3e, 0x08, 0x08, 0x00,
     0x00, 0x00, 0x80, 0xe0, 0x60, 0x00, 0x00, 0x00,
     0x00, 0x08, 0x08, 0x08, 0x08, 0x08, 0x08, 0x00,
     0x00, 0x00, 0x00, 0x60, 0x60, 0x00, 0x00, 0x00,
     0x00, 0x40, 0x60, 0x30, 0x18, 0x0c, 0x06, 0x02,
     0x00, 0x3e, 0x7f, 0x49, 0x45, 0x7f, 0x3e, 0x00,
     0x00, 0x40, 0x44, 0x7f, 0x7f, 0x40, 0x40, 0x00,
     0x00, 0x62, 0x73, 0x51, 0x49, 0x4f, 0x46, 0x00,
     0x00, 0x22, 0x63, 0x49, 0x49, 0x7f, 0x36, 0x00,
     0x00, 0x18, 0x18, 0x14, 0x16, 0x7f, 0x7f, 0x10,
     0x00, 0x27, 0x67, 0x45, 0x45, 0x7d, 0x39, 0x00,
     0x00, 0x3e, 0x7f, 0x49, 0x49, 0x7b, 0x32, 0x00,
     0x00, 0x03, 0x03, 0x79, 0x7d, 0x07, 0x03, 0x00,
     0x00, 0x36, 0x7f, 0x49, 0x49, 0x7f, 0x36, 0x00,
     0x00, 0x26, 0x6f, 0x49, 0x49, 0x7f, 0x3e, 0x00,
     0x00, 0x00, 0x00, 0x24, 0x24, 0x00, 0x00, 0x00,
     0x00, 0x00, 0x80, 0xe4, 0x64, 0x00, 0x00, 0x00,
     0x00, 0x08, 0x1c, 0x36, 0x63, 0x41, 0x41, 0x00,
     0x00, 0x14, 0x14, 0x14, 0x14, 0x14, 0x14, 0x00,
     0x00, 0x41, 0x41, 0x63, 0x36, 0x1c, 0x08, 0x00,
     0x00, 0x02, 0x03, 0x51, 0x59, 0x0f, 0x06, 0x00,
     0x00, 0x3e, 0x7f, 0x41, 0x4d, 0x4f, 0x2e, 0x00,
     0x00, 0x7c, 0x7e, 0x0b, 0x0b, 0x7e, 0x7c, 0x00,
     0x00, 0x7f, 0x7f, 0x49, 0x49, 0x7f, 0x36, 0x00,
     0x00, 0x3e, 0x7f, 0x41, 0x41, 0x63, 0x22, 0x00,
     0x00, 0x7f, 0x7f, 0x41, 0x63, 0x3e, 0x1c, 0x00,
     0x00, 0x7f, 0x7f, 0x49, 0x49, 0x41, 0x41, 0x00,
     0x00, 0x7f, 0x7f, 0x09, 0x09, 0x01, 0x01, 0x00,
     0x00, 0x3e, 0x7f, 0x41, 0x49, 0x7b, 0x3a, 0x00,
     0x00, 0x7f, 0x7f, 0x08, 0x08, 0x7f, 0x7f, 0x00,
     0x00, 0x00, 0x41, 0x7f, 0x7f, 0x41, 0x00, 0x00,
     0x00, 0x20, 0x60, 0x41, 0x7f, 0x3f, 0x01, 0x00,
     0x00, 0x7f, 0x7f, 0x1c, 0x36, 0x63, 0x41, 0x00,
     0x00, 0x7f, 0x7f, 0x40, 0x40, 0x40, 0x40, 0x00,
     0x00, 0x7f, 0x7f, 0x06, 0x0c, 0x06, 0x7f, 0x7f,
     0x00, 0x7f, 0x7f, 0x0e, 0x1c, 0x7f, 0x7f, 0x00,
     0x00, 0x3e, 0x7f, 0x41, 0x41, 0x7f, 0x3e, 0x00,
     0x00, 0x7f, 0x7f, 0x09, 0x09, 0x0f, 0x06, 0x00,
     0x00, 0x1e, 0x3f, 0x21, 0x61, 0x7f, 0x5e, 0x00,
     0x00, 0x7f, 0x7f, 0x19, 0x39, 0x6f, 0x46, 0x00,
     0x00, 0x26, 0x6f, 0x49, 0x49, 0x7b, 0x32, 0x00,
     0x00, 0x01, 0x01, 0x7f, 0x7f, 0x01, 0x01, 0x00,
     0x00, 0x3f, 0x7f, 0x40, 0x40, 0x7f, 0x3f, 0x00,
     0x00, 0x1f, 0x3f, 0x60, 0x60, 0x3f, 0x1f, 0x00,
     0x00, 0x7f, 0x7f, 0x30, 0x18, 0x30, 0x7f, 0x7f,
     0x00, 0x63, 0x77, 0x1c, 0x1c, 0x77, 0x63, 0x00,
     0x00, 0x07, 0x0f, 0x78, 0x78, 0x0f, 0x07, 0x00,
     0x00, 0x61, 0x71, 0x59, 0x4d, 0x47, 0x43, 0x00,
     0x00, 0x00, 0x7f, 0x7f, 0x41, 0x41, 0x00, 0x00,
     0x00, 0x02, 0x06, 0x0c, 0x18, 0x30, 0x60, 0x40,
     0x00, 0x00, 0x41, 0x41, 0x7f, 0x7f, 0x00, 0x00,
     0x00, 0x08, 0x0c, 0x06, 0x06, 0x0c, 0x08, 0x00,
     0xc0, 0xc0, 0xc0, 0xc0, 0xc0, 0xc0, 0xc0, 0xc0,
     0x00, 0x00, 0x01, 0x03, 0x06, 0x04, 0x00, 0x00,
     0x00, 0x20, 0x74, 0x54, 0x54, 0x7c, 0x78, 0x00,
     0x00, 0x7f, 0x7f, 0x44, 0x44, 0x7c, 0x38, 0x00,
     0x00, 0x38, 0x7c, 0x44, 0x44, 0x6c, 0x28, 0x00,
     0x00, 0x38, 0x7c, 0x44, 0x44, 0x7f, 0x7f, 0x00,
     0x00, 0x38, 0x7c, 0x54, 0x54, 0x5c, 0x58, 0x00,
     0x00, 0x08, 0x7e, 0x7f, 0x09, 0x03, 0x02, 0x00,
     0x00, 0x98, 0xbc, 0xa4, 0xa4, 0xfc, 0x7c, 0x00,
     0x00, 0x7f, 0x7f, 0x04, 0x04, 0x7c, 0x78, 0x00,
     0x00, 0x00, 0x00, 0x7d, 0x7d, 0x00, 0x00, 0x00,
     0x00, 0x40, 0xc0, 0x80, 0x80, 0xfd, 0x7d, 0x00,
     0x00, 0x7f, 0x7f, 0x30, 0x38, 0x6c, 0x44, 0x00,
     0x00, 0x00, 0x41, 0x7f, 0x7f, 0x40, 0x00, 0x00,
     0x00, 0x7c, 0x7c, 0x18, 0x30, 0x18, 0x7c, 0x7c,
     0x00, 0x7c, 0x7c, 0x04, 0x04, 0x7c, 0x78, 0x00,
     0x00, 0x38, 0x7c, 0x44, 0x44, 0x7c, 0x38, 0x00,
     0x00, 0xfc, 0xfc, 0x24, 0x24, 0x3c, 0x18, 0x00,
     0x00, 0x18, 0x3c, 0x24, 0x24, 0xfc, 0xfc, 0x00,
     0x00, 0x7c, 0x7c, 0x04, 0x04, 0x0c, 0x08, 0x00,
     0x00, 0x48, 0x5c, 0x54, 0x54, 0x74, 0x20, 0x00,
     0x04, 0x04, 0x3f, 0x7f, 0x44, 0x64, 0x20, 0x00,
     0x00, 0x3c, 0x7c, 0x40, 0x40, 0x7c, 0x3c, 0x00,
     0x00, 0x1c, 0x3c, 0x60, 0x60, 0x3c, 0x1c, 0x00,
     0x00, 0x1c, 0x7c, 0x30, 0x18, 0x30, 0x7c, 0x1c,
     0x00, 0x44, 0x6c, 0x38, 0x38, 0x6c, 0x44, 0x00,
     0x00, 0x9c, 0xbc, 0xa0, 0xa0, 0xfc, 0x7c, 0x00,
     0x00, 0x44, 0x64, 0x74, 0x5c, 0x4c, 0x44, 0x00,
     0x00, 0x08, 0x08, 0x3e, 0x77, 0x41, 0x41, 0x00,
     0x00, 0x00, 0x00, 0xff, 0xff, 0x00, 0x00, 0x00,
     0x00, 0x41, 0x41, 0x77, 0x3e, 0x08, 0x08, 0x00,
     0x00, 0x02, 0x03, 0x01, 0x03, 0x02, 0x03, 0x01,
     0xaa, 0x55, 0xaa, 0x55, 0xaa, 0x55, 0xaa, 0x55]"

lemma length_font: "length font_petme128_8x8 = 768"
  by (simp add: font_petme128_8x8_def)

end
