(* ===== verification/Framebuffer.thy ===== *)
theory Framebuffer
  imports Bytes Font
begin

unbundle bit_operations_syntax

text \<open>
  The linear framebuffer of \<^verbatim>\<open>kernel/framebuffer.c\<close>: its configuration, the packing of colours, the
  access to single pixels, the blitting of images and the drawing of text cells. The static structure
  \<open>fb\<close> is a record; drawing does not change it, so a drawing operation is a function of RAM. A loop
  \<^verbatim>\<open>for (i = 0; i < n; ++i)\<close> over 32-bit counters is a fold over \<open>[0..<unat n]\<close>.

  Shifts by 32 or more bits, undefined in C, give 0 here; they occur only for colour fields the
  hardware cannot have and for pixels of more than four bytes.
\<close>

section \<open>State\<close>

definition VGA_BLACK :: u8 where "VGA_BLACK = 0"
definition VGA_LIGHT_GREY :: u8 where "VGA_LIGHT_GREY = 7"
definition VGA_WHITE :: u8 where "VGA_WHITE = 15"

definition VGA_ATTR :: "u8 \<Rightarrow> u8 \<Rightarrow> u8" where
  "VGA_ATTR fg bg = push_bit 4 bg OR (fg AND 0x0F)"

record fb_state =
  fb_base :: addr
  fb_width :: u32
  fb_height :: u32
  fb_pitch :: u32
  fb_bpp :: u8
  bytes_per_pixel :: u8
  red_position :: u8
  red_size :: u8
  green_position :: u8
  green_size :: u8
  blue_position :: u8
  blue_size :: u8
  reserved_position :: u8
  reserved_size :: u8
  palette :: "u32 list"
  logical_width :: u32
  logical_height :: u32
  rotate_90_cw :: bool
  fb_available :: bool
  fb_enabled :: bool

definition vga_palette :: "(u8 \<times> u8 \<times> u8) list" where
  "vga_palette =
    [(0x00, 0x00, 0x00), (0x00, 0x00, 0xAA), (0x00, 0xAA, 0x00), (0x00, 0xAA, 0xAA),
     (0xAA, 0x00, 0x00), (0xAA, 0x00, 0xAA), (0xAA, 0x55, 0x00), (0xAA, 0xAA, 0xAA),
     (0x55, 0x55, 0x55), (0x55, 0x55, 0xFF), (0x55, 0xFF, 0x55), (0x55, 0xFF, 0xFF),
     (0xFF, 0x55, 0x55), (0xFF, 0x55, 0xFF), (0xFF, 0xFF, 0x55), (0xFF, 0xFF, 0xFF)]"

section \<open>Colours\<close>

definition scale_component :: "u8 \<Rightarrow> u8 \<Rightarrow> u32" where
  "scale_component v sz =
     (if sz = 0 then 0
      else if 8 \<le> sz then ucast v
      else let mx = push_bit (unat sz) 1 - 1 in (ucast v * mx + 127) div 255)"

definition pack_color :: "fb_state \<Rightarrow> u8 \<Rightarrow> u8 \<Rightarrow> u8 \<Rightarrow> u32" where
  "pack_color fb r g b =
     (let color = push_bit (unat (red_position fb)) (scale_component r (red_size fb));
          color = color OR push_bit (unat (green_position fb)) (scale_component g (green_size fb));
          color = color OR push_bit (unat (blue_position fb)) (scale_component b (blue_size fb))
      in if 0 < reserved_size fb
         then color OR push_bit (unat (reserved_position fb)) (scale_component 0xFF (reserved_size fb)) else color)"

definition refresh_palette :: "fb_state \<Rightarrow> fb_state" where
  "refresh_palette fb = fb\<lparr>palette := map (\<lambda>(r, g, b). pack_color fb r g b) vga_palette\<rparr>"

definition unpack_component :: "u32 \<Rightarrow> u8 \<Rightarrow> u8 \<Rightarrow> u8" where
  "unpack_component color pos sz =
     (if sz = 0 then 0
      else let mx = push_bit (unat sz) 1 - 1; v = drop_bit (unat pos) color AND mx
           in ucast ((v * 255 + mx div 2) div mx))"

section \<open>Configuration\<close>

definition framebuffer_configure ::
  "u64 \<Rightarrow> u32 \<Rightarrow> u32 \<Rightarrow> u32 \<Rightarrow> u8 \<Rightarrow> u8 \<Rightarrow> u8 \<Rightarrow> u8 \<Rightarrow> u8 \<Rightarrow> u8 \<Rightarrow> u8 \<Rightarrow> u8 \<Rightarrow> u8 \<Rightarrow> u8 \<Rightarrow> fb_state \<Rightarrow> fb_state" where
  "framebuffer_configure address pitch width height bpp type rpos rsize gpos gsize bpos bsize xpos xsize fb =
     (if address = 0 \<or> width = 0 \<or> height = 0 \<or> bpp = 0 then fb\<lparr>fb_available := False, fb_enabled := False\<rparr>
      else
        let bytes = of_nat ((unat bpp + 7) div 8);
            fb = fb\<lparr>fb_base := address, fb_pitch := pitch, fb_width := width, fb_height := height, fb_bpp := bpp,
                   bytes_per_pixel := bytes, red_position := rpos, red_size := rsize, green_position := gpos,
                   green_size := gsize, blue_position := bpos, blue_size := bsize, reserved_position := xpos,
                   reserved_size := xsize, fb_available := (type = 1 \<and> 2 \<le> bytes)\<rparr>
        in if fb_available fb then
             let stride_pixels = (if bytes_per_pixel fb \<noteq> 0 then fb_pitch fb div ucast (bytes_per_pixel fb) else 0);
                 fb = fb\<lparr>rotate_90_cw := (stride_pixels = fb_height fb \<and> fb_width fb \<noteq> fb_height fb)\<rparr>;
                 fb = (if rotate_90_cw fb then fb\<lparr>logical_width := fb_height fb, logical_height := fb_width fb\<rparr>
                       else fb\<lparr>logical_width := fb_width fb, logical_height := fb_height fb\<rparr>)
             in refresh_palette fb
           else fb\<lparr>fb_enabled := False, rotate_90_cw := False, logical_width := 0, logical_height := 0\<rparr>)"

definition framebuffer_enable :: "bool \<Rightarrow> fb_state \<Rightarrow> fb_state" where
  "framebuffer_enable en fb = fb\<lparr>fb_enabled := (en \<and> fb_available fb)\<rparr>"

definition framebuffer_enabled :: "fb_state \<Rightarrow> bool" where
  "framebuffer_enabled fb = fb_enabled fb"

definition framebuffer_width :: "fb_state \<Rightarrow> u32" where
  "framebuffer_width fb = logical_width fb"

definition framebuffer_height :: "fb_state \<Rightarrow> u32" where
  "framebuffer_height fb = logical_height fb"

definition framebuffer_pitch :: "fb_state \<Rightarrow> u32" where
  "framebuffer_pitch fb = fb_pitch fb"

definition framebuffer_bpp :: "fb_state \<Rightarrow> u8" where
  "framebuffer_bpp fb = fb_bpp fb"

definition framebuffer_text_rows :: "fb_state \<Rightarrow> u32" where
  "framebuffer_text_rows fb = (let rows = logical_height fb div 10 in if rows \<noteq> 0 then rows else 1)"

section \<open>Pixels\<close>

text \<open>The address of a logical pixel; None when it is outside the logical or the physical screen.\<close>

definition pixel_addr :: "fb_state \<Rightarrow> u32 \<Rightarrow> u32 \<Rightarrow> addr option" where
  "pixel_addr fb x y =
     (if \<not> fb_enabled fb then None
      else if logical_width fb \<le> x \<or> logical_height fb \<le> y then None
      else let (px, py) = (if rotate_90_cw fb then (y, fb_width fb - 1 - x) else (x, y)) in
        if fb_width fb \<le> px \<or> fb_height fb \<le> py then None
        else Some (fb_base fb + ucast (py * fb_pitch fb) + ucast (px * ucast (bytes_per_pixel fb))))"

definition read_pixel :: "fb_state \<Rightarrow> u32 \<Rightarrow> u32 \<Rightarrow> ram \<Rightarrow> u32" where
  "read_pixel fb x y r =
     (case pixel_addr fb x y of
        None \<Rightarrow> 0
      | Some src \<Rightarrow> fold (\<lambda>i color. color OR push_bit (8 * i) (ucast (r (src + of_nat i)))) [0..<min (unat (bytes_per_pixel fb)) 4] 0)"

definition write_pixel :: "fb_state \<Rightarrow> u32 \<Rightarrow> u32 \<Rightarrow> u32 \<Rightarrow> ram \<Rightarrow> ram" where
  "write_pixel fb x y color r =
     (case pixel_addr fb x y of
        None \<Rightarrow> r
      | Some dst \<Rightarrow> fold (\<lambda>i r. r(dst + of_nat i := ucast (drop_bit (8 * i) color))) [0..<unat (bytes_per_pixel fb)] r)"

definition framebuffer_draw_pixel_rgb :: "fb_state \<Rightarrow> u32 \<Rightarrow> u32 \<Rightarrow> u8 \<Rightarrow> u8 \<Rightarrow> u8 \<Rightarrow> ram \<Rightarrow> bool \<times> ram" where
  "framebuffer_draw_pixel_rgb fb x y r g b m =
     (if \<not> fb_enabled fb then (False, m) else (True, write_pixel fb x y (pack_color fb r g b) m))"

definition framebuffer_clear_rgb :: "fb_state \<Rightarrow> u8 \<Rightarrow> u8 \<Rightarrow> u8 \<Rightarrow> ram \<Rightarrow> ram" where
  "framebuffer_clear_rgb fb r g b m =
     (if \<not> fb_enabled fb then m
      else let color = pack_color fb r g b in
        fold (\<lambda>y. fold (\<lambda>x. write_pixel fb (of_nat x) (of_nat y) color) [0..<unat (logical_width fb)])
          [0..<unat (logical_height fb)] m)"

section \<open>Images\<close>

definition blend :: "u8 \<Rightarrow> u8 \<Rightarrow> u8 \<Rightarrow> u8" where
  "blend a p d = ucast ((ucast p * ucast a + ucast d * (255 - ucast a)) div (255 :: u32))"

text \<open>One pixel of an image with an alpha channel, at \<open>p\<close>, onto the pixel \<open>(x, y)\<close>.\<close>

definition blend_pixel :: "fb_state \<Rightarrow> u32 \<Rightarrow> u32 \<Rightarrow> addr \<Rightarrow> ram \<Rightarrow> ram" where
  "blend_pixel fb x y p m =
     (let a = m (p + 3) in
      if a = 0 then m
      else if a = 255 then write_pixel fb x y (pack_color fb (m p) (m (p + 1)) (m (p + 2))) m
      else
        let dst = read_pixel fb x y m;
            dr = unpack_component dst (red_position fb) (red_size fb);
            dg = unpack_component dst (green_position fb) (green_size fb);
            db = unpack_component dst (blue_position fb) (blue_size fb)
        in write_pixel fb x y (pack_color fb (blend a (m p) dr) (blend a (m (p + 1)) dg) (blend a (m (p + 2)) db)) m)"

definition framebuffer_blit_rgba8888 :: "fb_state \<Rightarrow> u32 \<Rightarrow> u32 \<Rightarrow> u32 \<Rightarrow> u32 \<Rightarrow> addr \<Rightarrow> u32 \<Rightarrow> ram \<Rightarrow> bool \<times> ram" where
  "framebuffer_blit_rgba8888 fb x y width height rgba stride_bytes m =
     (if \<not> fb_enabled fb \<or> rgba = 0 \<or> width = 0 \<or> height = 0 \<or> fb_bpp fb \<noteq> 32 then (False, m)
      else if logical_width fb \<le> x \<or> logical_height fb \<le> y then (False, m)
      else
        let stride_bytes = (if stride_bytes = 0 then width * 4 else stride_bytes) in
        if stride_bytes < width * 4 then (False, m)
        else
          let width = (if logical_width fb - x < width then logical_width fb - x else width);
              height = (if logical_height fb - y < height then logical_height fb - y else height)
          in (True,
              fold (\<lambda>row. let src = rgba + ucast (of_nat row * stride_bytes) in
                  fold (\<lambda>col. blend_pixel fb (x + of_nat col) (y + of_nat row) (src + ucast (of_nat col * 4 :: u32))) [0..<unat width])
                [0..<unat height] m))"

definition copy_pixel :: "fb_state \<Rightarrow> u32 \<Rightarrow> u32 \<Rightarrow> addr \<Rightarrow> ram \<Rightarrow> ram" where
  "copy_pixel fb x y px m = write_pixel fb x y (pack_color fb (m px) (m (px + 1)) (m (px + 2))) m"

definition framebuffer_blit_rgb24 :: "fb_state \<Rightarrow> u32 \<Rightarrow> u32 \<Rightarrow> u32 \<Rightarrow> u32 \<Rightarrow> addr \<Rightarrow> u32 \<Rightarrow> ram \<Rightarrow> bool \<times> ram" where
  "framebuffer_blit_rgb24 fb x y width height rgb24 stride_bytes m =
     (if \<not> fb_enabled fb \<or> rgb24 = 0 \<or> width = 0 \<or> height = 0 then (False, m)
      else if logical_width fb \<le> x \<or> logical_height fb \<le> y then (False, m)
      else
        let max_width = logical_width fb - x; max_height = logical_height fb - y;
            width = (if max_width < width then max_width else width);
            height = (if max_height < height then max_height else height);
            stride_bytes = (if stride_bytes = 0 then width * 3 else stride_bytes)
        in if stride_bytes < width * 3 then (False, m)
           else (True,
                 fold (\<lambda>row. let src = rgb24 + ucast (of_nat row * stride_bytes) in
                     fold (\<lambda>col. copy_pixel fb (x + of_nat col) (y + of_nat row) (src + ucast (of_nat col * 3 :: u32))) [0..<unat width])
                   [0..<unat height] m))"

definition framebuffer_blit_rgb24_scaled ::
  "fb_state \<Rightarrow> u32 \<Rightarrow> u32 \<Rightarrow> u32 \<Rightarrow> u32 \<Rightarrow> addr \<Rightarrow> u32 \<Rightarrow> u32 \<Rightarrow> u32 \<Rightarrow> ram \<Rightarrow> bool \<times> ram" where
  "framebuffer_blit_rgb24_scaled fb x y width height rgb24 src_width src_height stride_bytes m =
     (if \<not> fb_enabled fb \<or> rgb24 = 0 \<or> width = 0 \<or> height = 0 \<or> src_width = 0 \<or> src_height = 0 then (False, m)
      else if logical_width fb \<le> x \<or> logical_height fb \<le> y then (False, m)
      else
        let max_width = logical_width fb - x; max_height = logical_height fb - y;
            width = (if max_width < width then max_width else width);
            height = (if max_height < height then max_height else height);
            stride_bytes = (if stride_bytes = 0 then src_width * 3 else stride_bytes)
        in if stride_bytes < src_width * 3 then (False, m)
           else (True,
                 fold (\<lambda>row. let src_row = (of_nat row * src_height) div height; src = rgb24 + ucast (src_row * stride_bytes) in
                     fold (\<lambda>col. let src_col = (of_nat col * src_width) div width
                                in copy_pixel fb (x + of_nat col) (y + of_nat row) (src + ucast (src_col * 3))) [0..<unat width])
                   [0..<unat height] m))"

section \<open>Text\<close>

definition glyph_byte :: "u8 \<Rightarrow> nat \<Rightarrow> u8" where
  "glyph_byte ch i = font_petme128_8x8 ! ((unat ch - 32) * 8 + i)"

definition glyph_pixel_on :: "u8 \<Rightarrow> nat \<Rightarrow> nat \<Rightarrow> bool" where
  "glyph_pixel_on ch x y \<longleftrightarrow> glyph_byte ch x AND push_bit y 1 \<noteq> 0"

text \<open>A cell is split into its character, made printable, and the two colours of the palette.\<close>

definition cell_char :: "u16 \<Rightarrow> u8" where
  "cell_char cell = (let ch = ucast (cell AND 0xFF) in if ch < 32 \<or> 127 < ch then of_char CHR ''?'' else ch)"

definition cell_fg :: "u16 \<Rightarrow> u8" where
  "cell_fg cell = (let attr = ucast (drop_bit 8 cell AND 0xFF) :: u8; fg = attr AND 0x0F in if 15 < fg then VGA_WHITE else fg)"

definition cell_bg :: "u16 \<Rightarrow> u8" where
  "cell_bg cell = (let attr = ucast (drop_bit 8 cell AND 0xFF) :: u8; bg = drop_bit 4 attr AND 0x0F in if 15 < bg then VGA_BLACK else bg)"

definition framebuffer_draw_cell :: "fb_state \<Rightarrow> u32 \<Rightarrow> u32 \<Rightarrow> u16 \<Rightarrow> ram \<Rightarrow> ram" where
  "framebuffer_draw_cell fb col row cell m =
     (if \<not> fb_enabled fb then m
      else
        let ch = cell_char cell; base_x = col * 8; base_y = row * 10;
            fg_color = palette fb ! unat (cell_fg cell); bg_color = palette fb ! unat (cell_bg cell);
            m = fold (\<lambda>y. fold (\<lambda>x. write_pixel fb (base_x + of_nat x) (base_y + of_nat y)
                    (if glyph_pixel_on ch x y then fg_color else bg_color)) [0..<8]) [0..<8] m
        in fold (\<lambda>y. fold (\<lambda>x. write_pixel fb (base_x + of_nat x) (base_y + of_nat y) bg_color) [0..<8]) [8..<10] m)"

text \<open>The geometry of a grid of cells on the screen: columns and rows that fit, scale and offsets.\<close>

definition grid_geometry :: "fb_state \<Rightarrow> u32 \<Rightarrow> u32 \<Rightarrow> u32 \<times> u32 \<times> u32 \<times> u32 \<times> u32" where
  "grid_geometry fb cols rows =
     (let cols = (if logical_width fb < cols * 8 then logical_width fb div 8 else cols);
          rows = (if logical_height fb < rows * 8 then logical_height fb div 8 else rows);
          src_width = cols * 8; src_height = rows * 8;
          scale_x = (if 0 < src_width then logical_width fb div src_width else 1);
          scale_y = (if 0 < src_height then logical_height fb div src_height else 1);
          scale = (if scale_x < scale_y then scale_x else scale_y);
          scale = (if scale = 0 then 1 else scale);
          draw_width = src_width * scale; draw_height = src_height * scale
      in (cols, rows, scale, (logical_width fb - draw_width) div 2, (logical_height fb - draw_height) div 2))"

definition present_cell :: "fb_state \<Rightarrow> u32 \<Rightarrow> u32 \<Rightarrow> u32 \<Rightarrow> u32 \<Rightarrow> u32 \<Rightarrow> u16 \<Rightarrow> ram \<Rightarrow> ram" where
  "present_cell fb scale offset_x offset_y row col cell m =
     (let ch = cell_char cell;
          base_x = offset_x + col * 8 * scale; base_y = offset_y + row * 8 * scale;
          fg_color = palette fb ! unat (cell_fg cell); bg_color = palette fb ! unat (cell_bg cell)
      in fold (\<lambda>gy. let bits = glyph_byte ch gy in
           fold (\<lambda>gx.
             let mask = push_bit (7 - gx) 1 :: u32;
                 color = (if ucast bits AND mask \<noteq> 0 then fg_color else bg_color);
                 px0 = base_x + of_nat gx * scale; py0 = base_y + of_nat gy * scale
             in fold (\<lambda>sy. fold (\<lambda>sx. write_pixel fb (px0 + of_nat sx) (py0 + of_nat sy) color) [0..<unat scale]) [0..<unat scale])
           [0..<8]) [0..<8] m)"

definition cell_at :: "addr \<Rightarrow> u32 \<Rightarrow> ram \<Rightarrow> u16" where
  "cell_at cells idx m = rd16 m (cells + 2 * ucast idx)"

definition framebuffer_present_text_grid :: "fb_state \<Rightarrow> addr \<Rightarrow> u32 \<Rightarrow> u32 \<Rightarrow> ram \<Rightarrow> ram" where
  "framebuffer_present_text_grid fb cells cols rows m =
     (if \<not> fb_enabled fb \<or> cells = 0 \<or> cols = 0 \<or> rows = 0 then m
      else
        let (cols, rows, scale, offset_x, offset_y) = grid_geometry fb cols rows in
        fold (\<lambda>row. fold (\<lambda>col m.
            present_cell fb scale offset_x offset_y (of_nat row) (of_nat col) (cell_at cells (of_nat row * cols + of_nat col) m) m)
          [0..<unat cols]) [0..<unat rows] m)"

definition framebuffer_present_text_grid_dirty :: "fb_state \<Rightarrow> addr \<Rightarrow> addr \<Rightarrow> u32 \<Rightarrow> u32 \<Rightarrow> ram \<Rightarrow> ram" where
  "framebuffer_present_text_grid_dirty fb new_cells old_cells cols rows m =
     (if \<not> fb_enabled fb \<or> new_cells = 0 \<or> old_cells = 0 \<or> cols = 0 \<or> rows = 0 then m
      else
        let (cols, rows, scale, offset_x, offset_y) = grid_geometry fb cols rows in
        fold (\<lambda>row. fold (\<lambda>col m.
            let idx = of_nat row * cols + of_nat col; cell = cell_at new_cells idx m in
            if cell = cell_at old_cells idx m then m
            else present_cell fb scale offset_x offset_y (of_nat row) (of_nat col) cell m)
          [0..<unat cols]) [0..<unat rows] m)"

end
