(* ===== verification/Bootmode.thy ===== *)
theory Bootmode
  imports Framebuffer
begin

text \<open>
  The boot options of \<^verbatim>\<open>kernel/bootmode.c\<close>: visibility of logs and progress, the colour theme, and their
  setting from the command line.
\<close>

definition BOOT_THEME_DARK :: u32 where "BOOT_THEME_DARK = 0"
definition BOOT_THEME_WHITE :: u32 where "BOOT_THEME_WHITE = 1"

record boot_state =
  logs_visible :: bool
  progress_visible :: bool
  theme :: u32

fun token_eq :: "string \<Rightarrow> string \<Rightarrow> bool" where
  "token_eq p [] \<longleftrightarrow> p = [] \<or> hd p = CHR '' '' \<or> hd p = CHR 0x09"
| "token_eq [] (t # ts) \<longleftrightarrow> False"
| "token_eq (c # p) (t # ts) \<longleftrightarrow> c = t \<and> token_eq p ts"

definition bootmode_init :: "boot_state \<Rightarrow> boot_state" where
  "bootmode_init b = b\<lparr>logs_visible := True, progress_visible := True, theme := BOOT_THEME_DARK\<rparr>"

text \<open>The loop over the positions of the command line, from the current one to its end.\<close>

fun cmdline_loop :: "string \<Rightarrow> boot_state \<Rightarrow> boot_state" where
  "cmdline_loop [] b = b"
| "cmdline_loop (c # cs) b =
     (let p = c # cs;
          b = (if token_eq p ''nologs'' \<or> token_eq p ''no-logs'' then b\<lparr>logs_visible := False\<rparr> else b);
          b = (if token_eq p ''bootprogress'' \<or> token_eq p ''progress'' \<or> token_eq p ''splashprogress''
               then b\<lparr>progress_visible := True\<rparr> else b);
          b = (if token_eq p ''white'' \<or> token_eq p ''theme=white'' then b\<lparr>theme := BOOT_THEME_WHITE\<rparr> else b);
          b = (if token_eq p ''dark'' \<or> token_eq p ''theme=dark'' then b\<lparr>theme := BOOT_THEME_DARK\<rparr> else b)
      in cmdline_loop cs b)"

definition bootmode_parse_cmdline :: "string option \<Rightarrow> boot_state \<Rightarrow> boot_state" where
  "bootmode_parse_cmdline cmd b = (case cmd of None \<Rightarrow> b | Some s \<Rightarrow> cmdline_loop s b)"

definition bootmode_logs_visible :: "boot_state \<Rightarrow> bool" where
  "bootmode_logs_visible b = logs_visible b"

definition bootmode_set_logs_visible :: "bool \<Rightarrow> boot_state \<Rightarrow> boot_state" where
  "bootmode_set_logs_visible visible b = b\<lparr>logs_visible := visible\<rparr>"

definition bootmode_progress_visible :: "boot_state \<Rightarrow> bool" where
  "bootmode_progress_visible b = progress_visible b"

definition bootmode_set_progress_visible :: "bool \<Rightarrow> boot_state \<Rightarrow> boot_state" where
  "bootmode_set_progress_visible visible b = b\<lparr>progress_visible := visible\<rparr>"

definition bootmode_theme :: "boot_state \<Rightarrow> u32" where
  "bootmode_theme b = theme b"

definition bootmode_set_theme :: "u32 \<Rightarrow> boot_state \<Rightarrow> boot_state" where
  "bootmode_set_theme t b = b\<lparr>theme := (if t = BOOT_THEME_WHITE then BOOT_THEME_WHITE else BOOT_THEME_DARK)\<rparr>"

definition bootmode_fg :: "boot_state \<Rightarrow> u8" where
  "bootmode_fg b = (if theme b = BOOT_THEME_WHITE then VGA_BLACK else VGA_WHITE)"

definition bootmode_bg :: "boot_state \<Rightarrow> u8" where
  "bootmode_bg b = (if theme b = BOOT_THEME_WHITE then VGA_WHITE else VGA_BLACK)"

end
