(* ===== verification/Hardware.thy ===== *)
theory Hardware
  imports Bytes
begin

unbundle bit_operations_syntax

text \<open>
  Port input and output of \<^verbatim>\<open>linkdep/io.c\<close>, the disk driver of \<^verbatim>\<open>linkdep/ata_pio.c\<close> and the keyboard of
  \<^verbatim>\<open>linkdep/ps2kbd.c\<close>. The devices are a parameter: \<open>port_in\<close> gives what the n-th input instruction
  reads from a port, \<open>clock\<close> what the n-th read of the time stamp counter returns, \<open>cpuid\<close> what the processor
  answers; the output instructions are recorded in order. A loop that waits for a device is a partial
  function, None when the device is never ready.
\<close>

section \<open>Ports\<close>

datatype port_out = Outb u16 u8 | Outw u16 u16 | Outl u16 u32

record hw =
  port_in :: "nat \<Rightarrow> u16 \<Rightarrow> u32"
  clock :: "nat \<Rightarrow> u64"
  cpuid :: "u32 \<Rightarrow> u32 \<times> u32 \<times> u32 \<times> u32"
  inputs :: nat
  clocks :: nat
  outputs :: "port_out list"

definition io_outb :: "u16 \<Rightarrow> u8 \<Rightarrow> hw \<Rightarrow> hw" where
  "io_outb port val h = h\<lparr>outputs := outputs h @ [Outb port val]\<rparr>"

definition io_inb :: "u16 \<Rightarrow> hw \<Rightarrow> u8 \<times> hw" where
  "io_inb port h = (ucast (port_in h (inputs h) port), h\<lparr>inputs := inputs h + 1\<rparr>)"

definition io_outw :: "u16 \<Rightarrow> u16 \<Rightarrow> hw \<Rightarrow> hw" where
  "io_outw port val h = h\<lparr>outputs := outputs h @ [Outw port val]\<rparr>"

definition io_inw :: "u16 \<Rightarrow> hw \<Rightarrow> u16 \<times> hw" where
  "io_inw port h = (ucast (port_in h (inputs h) port), h\<lparr>inputs := inputs h + 1\<rparr>)"

definition io_outl :: "u16 \<Rightarrow> u32 \<Rightarrow> hw \<Rightarrow> hw" where
  "io_outl port val h = h\<lparr>outputs := outputs h @ [Outl port val]\<rparr>"

definition io_inl :: "u16 \<Rightarrow> hw \<Rightarrow> u32 \<times> hw" where
  "io_inl port h = (port_in h (inputs h) port, h\<lparr>inputs := inputs h + 1\<rparr>)"

definition io_wait :: "hw \<Rightarrow> hw" where
  "io_wait h = h\<lparr>outputs := outputs h @ [Outb 0x80 0]\<rparr>"

definition io_rdtsc :: "hw \<Rightarrow> u64 \<times> hw" where
  "io_rdtsc h = (clock h (clocks h), h\<lparr>clocks := clocks h + 1\<rparr>)"

definition io_cpuid :: "u32 \<Rightarrow> hw \<Rightarrow> u32 \<times> u32 \<times> u32 \<times> u32" where
  "io_cpuid leaf h = cpuid h leaf"

text \<open>The loops \<^verbatim>\<open>while (!P(inb(port))) {}\<close>.\<close>

partial_function (option) wait_port :: "u16 \<Rightarrow> (u8 \<Rightarrow> bool) \<Rightarrow> hw \<Rightarrow> hw option" where
  "wait_port port P h = (let (v, h) = io_inb port h in if P v then Some h else wait_port port P h)"

lemma wait_port_returns:
  assumes "inputs h \<le> n" and "P (ucast (port_in h n port))"
  shows "\<exists>k. inputs h < k \<and> k \<le> Suc n \<and> wait_port port P h = Some (h\<lparr>inputs := k\<rparr>)"
  using assms
proof (induction "n - inputs h" arbitrary: h)
  case 0
  then have "n = inputs h" by simp
  with 0 show ?case by (subst wait_port.simps) (auto simp: io_inb_def)
next
  case (Suc d)
  show ?case
  proof (cases "P (ucast (port_in h (inputs h) port))")
    case True
    with Suc.prems show ?thesis by (subst wait_port.simps) (auto simp: io_inb_def)
  next
    case False
    let ?h = "h\<lparr>inputs := inputs h + 1\<rparr>"
    from Suc.hyps(1) [of ?h] Suc.hyps(2) Suc.prems obtain k where
      "inputs ?h < k" "k \<le> Suc n" "wait_port port P ?h = Some (?h\<lparr>inputs := k\<rparr>)" by force
    then show ?thesis by (intro exI [of _ k], subst wait_port.simps) (use False in \<open>simp add: io_inb_def\<close>)
  qed
qed

section \<open>Disk\<close>

definition ATA_IO_BASE :: u16 where "ATA_IO_BASE = 0x1F0"
definition ATA_CTRL_BASE :: u16 where "ATA_CTRL_BASE = 0x3F6"

definition ata_wait_bsy :: "hw \<Rightarrow> hw option" where
  "ata_wait_bsy = wait_port (ATA_IO_BASE + 7) (\<lambda>v. v AND 0x80 = 0)"

definition ata_wait_drq :: "hw \<Rightarrow> hw option" where
  "ata_wait_drq = wait_port (ATA_IO_BASE + 7) (\<lambda>v. v AND 0x08 \<noteq> 0)"

definition ata_pio_init :: "hw \<Rightarrow> hw" where
  "ata_pio_init = io_outb ATA_CTRL_BASE 0x02"

text \<open>The address and the command of one sector.\<close>

definition ata_command :: "u32 \<Rightarrow> u8 \<Rightarrow> hw \<Rightarrow> hw" where
  "ata_command lba cmd h =
     (let h = io_outb (ATA_IO_BASE + 6) (0xE0 OR ucast (drop_bit 24 lba AND 0x0F)) h;
          h = io_outb (ATA_IO_BASE + 2) 1 h;
          h = io_outb (ATA_IO_BASE + 3) (ucast lba) h;
          h = io_outb (ATA_IO_BASE + 4) (ucast (drop_bit 8 lba)) h;
          h = io_outb (ATA_IO_BASE + 5) (ucast (drop_bit 16 lba)) h
      in io_outb (ATA_IO_BASE + 7) cmd h)"

definition ata_start :: "u32 \<Rightarrow> u8 \<Rightarrow> hw \<Rightarrow> hw option" where
  "ata_start lba cmd h =
     Option.bind (ata_wait_bsy h) (\<lambda>h. Option.bind (ata_wait_bsy (ata_command lba cmd h)) ata_wait_drq)"

definition ata_read_words :: "addr \<Rightarrow> hw \<Rightarrow> ram \<Rightarrow> hw \<times> ram" where
  "ata_read_words buffer h r =
     fold (\<lambda>w (h, r). let (v, h) = io_inw ATA_IO_BASE h in (h, wr16 (buffer + 2 * of_nat w) v r)) [0..<256] (h, r)"

fun ata_read_loop :: "nat \<Rightarrow> u32 \<Rightarrow> addr \<Rightarrow> hw \<Rightarrow> ram \<Rightarrow> (hw \<times> ram) option" where
  "ata_read_loop 0 lba buffer h r = Some (h, r)"
| "ata_read_loop (Suc n) lba buffer h r =
     Option.bind (ata_start lba 0x20 h) (\<lambda>h.
       let (h, r) = ata_read_words buffer h r in ata_read_loop n (lba + 1) (buffer + 512) h r)"

definition ata_pio_read :: "u32 \<Rightarrow> addr \<Rightarrow> u64 \<Rightarrow> hw \<Rightarrow> ram \<Rightarrow> (int \<times> hw \<times> ram) option" where
  "ata_pio_read lba buf count h r = map_option (\<lambda>(h, r). (0, h, r)) (ata_read_loop (unat count) lba buf h r)"

definition ata_write_words :: "addr \<Rightarrow> ram \<Rightarrow> hw \<Rightarrow> hw" where
  "ata_write_words buffer r = fold (\<lambda>w. io_outw ATA_IO_BASE (rd16 r (buffer + 2 * of_nat w))) [0..<256]"

fun ata_write_loop :: "nat \<Rightarrow> u32 \<Rightarrow> addr \<Rightarrow> ram \<Rightarrow> hw \<Rightarrow> hw option" where
  "ata_write_loop 0 lba buffer r h = Some h"
| "ata_write_loop (Suc n) lba buffer r h =
     Option.bind (ata_start lba 0x30 h) (\<lambda>h. ata_write_loop n (lba + 1) (buffer + 512) r (ata_write_words buffer r h))"

definition ata_pio_write :: "u32 \<Rightarrow> addr \<Rightarrow> u64 \<Rightarrow> ram \<Rightarrow> hw \<Rightarrow> (int \<times> hw) option" where
  "ata_pio_write lba buf count r h = map_option (\<lambda>h. (0, h)) (ata_write_loop (unat count) lba buf r h)"

section \<open>Keyboard\<close>

definition KBD_DATA :: u16 where "KBD_DATA = 0x60"
definition KBD_STATUS :: u16 where "KBD_STATUS = 0x64"

definition kbd_has_data :: "hw \<Rightarrow> bool \<times> hw" where
  "kbd_has_data h = (let (v, h) = io_inb KBD_STATUS h in (v AND 1 \<noteq> 0, h))"

definition ps2kbd_try_read_scancode :: "hw \<Rightarrow> u8 option \<times> hw" where
  "ps2kbd_try_read_scancode h =
     (let (ready, h) = kbd_has_data h in
      if \<not> ready then (None, h) else let (v, h) = io_inb KBD_DATA h in (Some v, h))"

partial_function (option) ps2kbd_read_scancode :: "hw \<Rightarrow> (u8 \<times> hw) option" where
  "ps2kbd_read_scancode h =
     (case ps2kbd_try_read_scancode h of
        (Some v, h) \<Rightarrow> Some (v, h)
      | (None, h) \<Rightarrow> ps2kbd_read_scancode h)"

end
