(* ===== verification/Fs.thy ===== *)
theory Fs
  imports Bytes
begin

unbundle bit_operations_syntax

text \<open>
  The file system of \<^verbatim>\<open>kernel/fs.c\<close>: a storage in RAM that is accessed as raw bytes, or, when it
  holds a FAT32 volume, through files of the root directory. The static variables are the fields of
  \<open>fs_state\<close>; the volume itself is the part of RAM that starts at \<open>fs_data\<close>.

  Two loops follow the cluster chains of the volume and end only if the chains do: they are partial
  functions, None when the loop never ends. A division by a cluster size of 0 is a panic.
\<close>

section \<open>State\<close>

definition FS_MODE_NONE :: int where "FS_MODE_NONE = 0"
definition FS_MODE_RAW :: int where "FS_MODE_RAW = 1"
definition FS_MODE_FAT32 :: int where "FS_MODE_FAT32 = 2"
definition FS_O_RDONLY :: int where "FS_O_RDONLY = 0x01"
definition FS_O_WRONLY :: int where "FS_O_WRONLY = 0x02"
definition FS_O_RDWR :: int where "FS_O_RDWR = 0x03"
definition FS_O_CREAT :: int where "FS_O_CREAT = 0x10"
definition FS_O_TRUNC :: int where "FS_O_TRUNC = 0x20"
definition FS_O_APPEND :: int where "FS_O_APPEND = 0x40"
definition FS_SEEK_SET :: int where "FS_SEEK_SET = 0"
definition FS_SEEK_CUR :: int where "FS_SEEK_CUR = 1"
definition FS_SEEK_END :: int where "FS_SEEK_END = 2"
definition FAT32_EOC :: u32 where "FAT32_EOC = 0x0FFFFFF8"
definition FAT32_EOC_MARK :: u32 where "FAT32_EOC_MARK = 0x0FFFFFFF"
definition FAT32_ATTR_DIRECTORY :: u8 where "FAT32_ATTR_DIRECTORY = 0x10"
definition FAT32_ATTR_ARCHIVE :: u8 where "FAT32_ATTR_ARCHIVE = 0x20"
definition FS_MAX_OPEN :: nat where "FS_MAX_OPEN = 16"

lemmas fs_consts = FS_MODE_NONE_def FS_MODE_RAW_def FS_MODE_FAT32_def FS_O_RDONLY_def FS_O_WRONLY_def FS_O_RDWR_def
  FS_O_CREAT_def FS_O_TRUNC_def FS_O_APPEND_def FS_SEEK_SET_def FS_SEEK_CUR_def FS_SEEK_END_def FAT32_EOC_def
  FAT32_EOC_MARK_def FAT32_ATTR_DIRECTORY_def FAT32_ATTR_ARCHIVE_def

record fat32_info_t =
  bytes_per_sector :: u16
  sectors_per_cluster :: u8
  reserved_sectors :: u16
  fat_count :: u8
  sectors_per_fat :: u32
  total_sectors :: u32
  root_cluster :: u32
  first_data_sector :: u32
  total_clusters :: u32

record fs_open_t =
  of_used :: bool
  dir_entry_offset :: u32
  first_cluster :: u32
  of_size :: u32
  of_pos :: u32
  of_flags :: int

record fs_state =
  fs_data :: addr
  fs_size :: u64
  fs_mode :: int
  fat :: fat32_info_t
  fs_files :: "fs_open_t list"
  fs_out :: "con_call list"

definition no_fat :: fat32_info_t where
  "no_fat = \<lparr>bytes_per_sector = 0, sectors_per_cluster = 0, reserved_sectors = 0, fat_count = 0, sectors_per_fat = 0,
     total_sectors = 0, root_cluster = 0, first_data_sector = 0, total_clusters = 0\<rparr>"

definition no_file :: fs_open_t where
  "no_file = \<lparr>of_used = False, dir_entry_offset = 0, first_cluster = 0, of_size = 0, of_pos = 0, of_flags = 0\<rparr>"

definition upd_file :: "int \<Rightarrow> (fs_open_t \<Rightarrow> fs_open_t) \<Rightarrow> fs_state \<Rightarrow> fs_state" where
  "upd_file fd f s = s\<lparr>fs_files := (fs_files s)[nat fd := f (fs_files s ! nat fd)]\<rparr>"

section \<open>The volume\<close>

definition range_ok :: "fs_state \<Rightarrow> u64 \<Rightarrow> u64 \<Rightarrow> bool" where
  "range_ok s off len \<longleftrightarrow> fs_data s \<noteq> 0 \<and> off \<le> fs_size s \<and> len \<le> fs_size s - off"

definition fat32_parse :: "fs_state \<Rightarrow> ram \<Rightarrow> int \<times> fs_state" where
  "fat32_parse s r =
     (let b = fs_data s in
      if \<not> range_ok s 0 512 then (- 1, s)
      else if r (b + 510) \<noteq> 0x55 \<or> r (b + 511) \<noteq> 0xAA then (- 1, s)
      else
        let bps = rd16 r (b + 11); spc = r (b + 13); reserved = rd16 r (b + 14); fats = r (b + 16);
            root_entries = rd16 r (b + 17); total16 = rd16 r (b + 19); fat16 = rd16 r (b + 22);
            total32 = rd32 r (b + 32); fat32 = rd32 r (b + 36); root = rd32 r (b + 44)
        in if bps = 0 \<or> bps AND (bps - 1) \<noteq> 0 \<or> bps < 512 \<or> spc = 0 \<or> reserved = 0 \<or> fats = 0 \<or> root_entries \<noteq> 0 \<or>
              total16 \<noteq> 0 \<or> fat16 \<noteq> 0 \<or> fat32 = 0 \<or> root < 2 then (- 1, s)
        else
          let first_data = ucast reserved + ucast fats * fat32 in
          if total32 \<le> first_data then (- 1, s)
          else if fs_size s < ucast total32 * ucast bps then (- 1, s)
          else
            let clusters = (total32 - first_data) div ucast spc in
            if clusters = 0 \<or> r (b + 82) \<noteq> of_char CHR ''F'' \<or> r (b + 83) \<noteq> of_char CHR ''A'' \<or> r (b + 84) \<noteq> of_char CHR ''T'' \<or>
               r (b + 85) \<noteq> of_char CHR ''3'' \<or> r (b + 86) \<noteq> of_char CHR ''2'' then (- 1, s)
            else (0, s\<lparr>fat := \<lparr>bytes_per_sector = bps, sectors_per_cluster = spc, reserved_sectors = reserved, fat_count = fats,
                         sectors_per_fat = fat32, total_sectors = total32, root_cluster = root,
                         first_data_sector = first_data, total_clusters = clusters\<rparr>\<rparr>))"

definition cluster_offset :: "fs_state \<Rightarrow> u32 \<Rightarrow> u64" where
  "cluster_offset s cluster =
     (if cluster < 2 \<or> total_clusters (fat s) + 2 \<le> cluster then fs_size s
      else let sector = first_data_sector (fat s) + (cluster - 2) * ucast (sectors_per_cluster (fat s))
           in ucast sector * ucast (bytes_per_sector (fat s)))"

definition cluster_size :: "fs_state \<Rightarrow> u64" where
  "cluster_size s = ucast (bytes_per_sector (fat s)) * ucast (sectors_per_cluster (fat s))"

definition fat_entry_offset :: "fs_state \<Rightarrow> u32 \<Rightarrow> u32 \<Rightarrow> u64" where
  "fat_entry_offset s cluster fat_index =
     (ucast (reserved_sectors (fat s)) + ucast fat_index * ucast (sectors_per_fat (fat s))) * ucast (bytes_per_sector (fat s)) +
     ucast cluster * 4"

definition fat_get :: "fs_state \<Rightarrow> u32 \<Rightarrow> ram \<Rightarrow> u32" where
  "fat_get s cluster r =
     (let off = fat_entry_offset s cluster 0 in
      if \<not> range_ok s off 4 then FAT32_EOC_MARK else rd32 r (fs_data s + off) AND 0x0FFFFFFF)"

fun fat_set_loop :: "fs_state \<Rightarrow> u32 \<Rightarrow> u32 \<Rightarrow> nat list \<Rightarrow> ram \<Rightarrow> int \<times> ram" where
  "fat_set_loop s cluster value [] r = (0, r)"
| "fat_set_loop s cluster value (i # is) r =
     (let off = fat_entry_offset s cluster (of_nat i) in
      if \<not> range_ok s off 4 then (- 1, r)
      else fat_set_loop s cluster value is (wr32 (fs_data s + off) (value AND 0x0FFFFFFF) r))"

definition fat_set :: "fs_state \<Rightarrow> u32 \<Rightarrow> u32 \<Rightarrow> ram \<Rightarrow> int \<times> ram" where
  "fat_set s cluster value r = fat_set_loop s cluster value [0..<unat (fat_count (fat s))] r"

definition is_eoc :: "u32 \<Rightarrow> bool" where
  "is_eoc value \<longleftrightarrow> FAT32_EOC \<le> value"

fun alloc_loop :: "fs_state \<Rightarrow> nat list \<Rightarrow> ram \<Rightarrow> u32 \<times> ram" where
  "alloc_loop s [] r = (0, r)"
| "alloc_loop s (i # is) r =
     (let c = of_nat i in
      if fat_get s c r = 0 then
        let (e, r) = fat_set s c FAT32_EOC_MARK r in
        if e \<noteq> 0 then (0, r)
        else let off = cluster_offset s c in
          if \<not> range_ok s off (cluster_size s) then (0, r)
          else (c, memset (fs_data s + off) 0 (cluster_size s) r)
      else alloc_loop s is r)"

definition alloc_cluster :: "fs_state \<Rightarrow> ram \<Rightarrow> u32 \<times> ram" where
  "alloc_cluster s r = alloc_loop s [2..<unat (total_clusters (fat s) + 2)] r"

fun chain_loop :: "fs_state \<Rightarrow> bool \<Rightarrow> nat \<Rightarrow> u32 \<Rightarrow> ram \<Rightarrow> u32 \<times> ram" where
  "chain_loop s grow 0 cur r = (cur, r)"
| "chain_loop s grow (Suc n) cur r =
     (let nxt = fat_get s cur r in
      if is_eoc nxt \<and> \<not> grow then (0, r)
      else
        let (ok, nxt, r) = (if is_eoc nxt then
              let (nxt, r) = alloc_cluster s r in
              if nxt = 0 then (False, nxt, r)
              else let (e, r) = fat_set s cur nxt r in (e = 0, nxt, r)
            else (True, nxt, r))
        in if \<not> ok then (0, r)
           else if nxt < 2 \<or> total_clusters (fat s) + 2 \<le> nxt then (0, r)
           else chain_loop s grow n nxt r)"

definition chain_cluster :: "fs_state \<Rightarrow> u32 \<Rightarrow> u32 \<Rightarrow> bool \<Rightarrow> ram \<Rightarrow> u32 \<times> ram" where
  "chain_cluster s first index grow r = (if first < 2 then (0, r) else chain_loop s grow (unat index) first r)"

partial_function (option) free_chain :: "fs_state \<Rightarrow> u32 \<Rightarrow> ram \<Rightarrow> ram option" where
  "free_chain s cur r =
     (if 2 \<le> cur \<and> cur < total_clusters (fat s) + 2 then
        let nxt = fat_get s cur r; r = snd (fat_set s cur 0 r)
        in if is_eoc nxt then Some r else free_chain s nxt r
      else Some r)"

section \<open>Names and directory entries\<close>

definition upper_char :: "int \<Rightarrow> int" where
  "upper_char c = (if 97 \<le> c \<and> c \<le> 122 then c - (97 - 65) else c)"

text \<open>The characters that may not occur in a name: up to the space, and the listed ones.\<close>

definition bad_char :: "char \<Rightarrow> bool" where
  "bad_char c \<longleftrightarrow> (of_char c :: nat) \<le> 32 \<or>
     c \<in> {CHR 0x22, CHR ''*'', CHR ''+'', CHR '','', CHR '':'', CHR '';'', CHR ''<'', CHR ''='', CHR ''>'', CHR ''?'',
           CHR ''['', CHR 0x5C, CHR '']'', CHR ''|''}"

fun short_name_loop :: "string \<Rightarrow> nat \<Rightarrow> nat \<Rightarrow> bool \<Rightarrow> u8 list \<Rightarrow> u8 list option" where
  "short_name_loop [] name_len ext_len in_ext out = (if 0 < name_len then Some out else None)"
| "short_name_loop (ch # cs) name_len ext_len in_ext out =
     (if ch = CHR ''/'' then None
      else if ch = CHR ''.'' then (if in_ext then None else short_name_loop cs name_len ext_len True out)
      else if bad_char ch then None
      else if \<not> in_ext then
        (if 8 \<le> name_len then None
         else short_name_loop cs (name_len + 1) ext_len in_ext (out[name_len := word_of_int (upper_char (of_char ch))]))
      else
        (if 3 \<le> ext_len then None
         else short_name_loop cs name_len (ext_len + 1) in_ext (out[8 + ext_len := word_of_int (upper_char (of_char ch))])))"

definition make_short_name :: "string option \<Rightarrow> u8 list option" where
  "make_short_name path =
     (case path of
        None \<Rightarrow> None
      | Some p \<Rightarrow>
          if p = [] then None
          else let p = dropWhile (\<lambda>c. c = CHR ''/'') p in
            if p = [] then None else short_name_loop p 0 0 False (replicate 11 32))"

definition short_name_eq :: "ram \<Rightarrow> addr \<Rightarrow> u8 list \<Rightarrow> bool" where
  "short_name_eq r entry name = list_all (\<lambda>i. r (entry + of_nat i) = name ! i) [0..<11]"

text \<open>
  The directory search. Its out-parameters are never null at its only call: the offset of the entry found
  and that of the first free entry, 0 when there is none, are returned. A scan of one cluster finds the entry,
  meets the end marker, or goes on with the next cluster.
\<close>

datatype dir_scan = Found u32 | End_Of_Dir u32 | Go_On u32

fun scan_entries :: "fs_state \<Rightarrow> ram \<Rightarrow> u8 list \<Rightarrow> u64 \<Rightarrow> nat list \<Rightarrow> u32 \<Rightarrow> dir_scan" where
  "scan_entries s r name off [] free_off = Go_On free_off"
| "scan_entries s r name off (i # is) free_off =
     (let pos = of_nat (32 * i); e = fs_data s + off + pos in
      if r e = 0x00 then End_Of_Dir (if free_off = 0 then ucast (off + pos) else free_off)
      else if r e = 0xE5 then scan_entries s r name off is (if free_off = 0 then ucast (off + pos) else free_off)
      else if r (e + 11) AND 0x0F = 0x0F then scan_entries s r name off is free_off
      else if r (e + 11) AND FAT32_ATTR_DIRECTORY \<noteq> 0 then scan_entries s r name off is free_off
      else if short_name_eq r e name then Found (ucast (off + pos))
      else scan_entries s r name off is free_off)"

partial_function (option) find_dir_loop :: "fs_state \<Rightarrow> ram \<Rightarrow> u8 list \<Rightarrow> u32 \<Rightarrow> u32 \<Rightarrow> (u32 option \<times> u32) option" where
  "find_dir_loop s r name c free_off =
     (if 2 \<le> c \<and> c < total_clusters (fat s) + 2 then
        let off = cluster_offset s c in
        if \<not> range_ok s off (cluster_size s) then Some (None, free_off)
        else case scan_entries s r name off [0..<unat (cluster_size s) div 32] free_off of
          Found e \<Rightarrow> Some (Some e, free_off)
        | End_Of_Dir f \<Rightarrow> Some (None, f)
        | Go_On f \<Rightarrow>
            let nxt = fat_get s c r
            in if is_eoc nxt then Some (None, f) else find_dir_loop s r name nxt f
      else Some (None, free_off))"

definition find_dir_entry :: "fs_state \<Rightarrow> ram \<Rightarrow> u8 list \<Rightarrow> (u32 option \<times> u32) option" where
  "find_dir_entry s r name = find_dir_loop s r name (root_cluster (fat s)) 0"

definition entry_first_cluster :: "addr \<Rightarrow> ram \<Rightarrow> u32" where
  "entry_first_cluster e r = push_bit 16 (ucast (rd16 r (e + 20))) OR ucast (rd16 r (e + 26))"

definition entry_set_first_cluster :: "addr \<Rightarrow> u32 \<Rightarrow> ram \<Rightarrow> ram" where
  "entry_set_first_cluster e c r = wr16 (e + 26) (ucast c) (wr16 (e + 20) (ucast (drop_bit 16 c)) r)"

section \<open>Mounting and raw access\<close>

definition fs_mount :: "addr \<Rightarrow> u64 \<Rightarrow> fs_state \<Rightarrow> ram \<Rightarrow> fs_state" where
  "fs_mount storage sz s r =
     (let s = s\<lparr>fs_data := storage, fs_size := sz, fs_mode := (if storage \<noteq> 0 then FS_MODE_RAW else FS_MODE_NONE),
            fat := no_fat, fs_files := replicate FS_MAX_OPEN no_file\<rparr>;
          (e, s) = (if fs_data s \<noteq> 0 then fat32_parse s r else (- 1, s));
          s = (if e = 0 then s\<lparr>fs_mode := FS_MODE_FAT32, fs_out := fs_out s @ [Con_puts ''fs_mount FAT32 bytes='']\<rparr>
               else s\<lparr>fs_out := fs_out s @ [Con_puts ''fs_mount raw bytes='']\<rparr>)
      in s\<lparr>fs_out := fs_out s @ [Con_udec (ucast sz), Con_putc (CHR 0x0A)]\<rparr>)"

definition fs_read :: "u64 \<Rightarrow> addr \<Rightarrow> u64 \<Rightarrow> fs_state \<Rightarrow> ram \<Rightarrow> u64 \<times> ram" where
  "fs_read off buf len s r =
     (if buf = 0 \<or> \<not> range_ok s off 0 then (0, r)
      else let len = (if fs_size s < off + len then fs_size s - off else len)
           in (len, memcpy buf (fs_data s + off) len r))"

definition fs_write :: "u64 \<Rightarrow> addr \<Rightarrow> u64 \<Rightarrow> fs_state \<Rightarrow> ram \<Rightarrow> u64 \<times> ram" where
  "fs_write off src len s r =
     (if src = 0 \<or> \<not> range_ok s off 0 then (0, r)
      else let len = (if fs_size s < off + len then fs_size s - off else len)
           in (len, memcpy (fs_data s + off) src len r))"

definition fs_is_mounted :: "fs_state \<Rightarrow> bool" where
  "fs_is_mounted s \<longleftrightarrow> fs_mode s \<noteq> FS_MODE_NONE"

definition fs_is_fat32 :: "fs_state \<Rightarrow> bool" where
  "fs_is_fat32 s \<longleftrightarrow> fs_mode s = FS_MODE_FAT32"

definition fs_capacity :: "fs_state \<Rightarrow> u64" where
  "fs_capacity s = fs_size s"

section \<open>Files of a FAT32 volume\<close>

fun put_bytes :: "addr \<Rightarrow> u8 list \<Rightarrow> ram \<Rightarrow> ram" where
  "put_bytes p [] r = r"
| "put_bytes p (b # bs) r = put_bytes (p + 1) bs (r(p := b))"

definition file_slot :: "int \<Rightarrow> u32 \<Rightarrow> fs_state \<Rightarrow> ram \<Rightarrow> int \<times> fs_state" where
  "file_slot flags entry_off s r =
     (case find_slot (\<lambda>f. \<not> of_used f) (fs_files s) of
        None \<Rightarrow> (- 1, s)
      | Some fd \<Rightarrow>
          let e = fs_data s + ucast entry_off; sz = rd32 r (e + 28) in
          (int fd, s\<lparr>fs_files := (fs_files s)[fd := \<lparr>of_used = True, dir_entry_offset = entry_off,
             first_cluster = entry_first_cluster e r, of_size = sz,
             of_pos = (if flags AND FS_O_APPEND \<noteq> 0 then sz else 0), of_flags = flags\<rparr>]\<rparr>))"

definition fs_open :: "string option \<Rightarrow> int \<Rightarrow> fs_state \<Rightarrow> ram \<Rightarrow> (int \<times> fs_state \<times> ram) outcome" where
  "fs_open path flags s r =
     (if fs_mode s \<noteq> FS_MODE_FAT32 then Ret (- 1, s, r)
      else case make_short_name path of
        None \<Rightarrow> Ret (- 1, s, r)
      | Some name \<Rightarrow>
          bind_outcome (of_option (find_dir_entry s r name)) (\<lambda>(found, free_off).
            case found of
              None \<Rightarrow>
                if flags AND FS_O_CREAT = 0 \<or> free_off = 0 then Ret (- 1, s, r)
                else
                  let e = fs_data s + ucast free_off;
                      r = put_bytes e name (memset e 0 32 r);
                      r = r(e + 11 := FAT32_ATTR_ARCHIVE);
                      r = entry_set_first_cluster e 0 (wr32 (e + 28) 0 r);
                      (fd, s) = file_slot flags free_off s r
                  in Ret (fd, s, r)
            | Some entry_off \<Rightarrow>
                let e = fs_data s + ucast entry_off in
                bind_outcome
                  (if flags AND FS_O_TRUNC \<noteq> 0 then
                     let first = entry_first_cluster e r in
                     bind_outcome (if first \<noteq> 0 then of_option (free_chain s first r) else Ret r) (\<lambda>r.
                       Ret (wr32 (e + 28) 0 (entry_set_first_cluster e 0 r)))
                   else Ret r)
                  (\<lambda>r. let (fd, s) = file_slot flags entry_off s r in Ret (fd, s, r))))"

definition fs_fd_ok :: "fs_state \<Rightarrow> int \<Rightarrow> bool" where
  "fs_fd_ok s fd \<longleftrightarrow> 0 \<le> fd \<and> fd < int FS_MAX_OPEN \<and> of_used (fs_files s ! nat fd)"

text \<open>The length of the next piece to be copied: to the end of the cluster, at most what is left.\<close>

definition next_chunk :: "fs_state \<Rightarrow> u32 \<Rightarrow> u64 \<Rightarrow> u64" where
  "next_chunk s cluster_pos left = (let chunk = cluster_size s - ucast cluster_pos in if left < chunk then left else chunk)"

lemma cluster_size_nat:
  "unat (cluster_size s) = unat (bytes_per_sector (fat s)) * unat (sectors_per_cluster (fat s))" "unat (cluster_size s) < 2 ^ 24"
proof -
  have "unat (bytes_per_sector (fat s)) < 2 ^ LENGTH(16)" "unat (sectors_per_cluster (fat s)) < 2 ^ LENGTH(8)"
    by (rule unsigned_less)+
  then have "unat (bytes_per_sector (fat s)) * unat (sectors_per_cluster (fat s)) < 2 ^ 16 * 2 ^ 8"
    by (intro mult_strict_mono) auto
  then have b: "unat (bytes_per_sector (fat s)) * unat (sectors_per_cluster (fat s)) < 2 ^ 24" by simp
  then show e: "unat (cluster_size s) = unat (bytes_per_sector (fat s)) * unat (sectors_per_cluster (fat s))"
    by (simp add: cluster_size_def unat_word_ariths)
  with b show "unat (cluster_size s) < 2 ^ 24" by simp
qed

lemma cluster_pos_nat:
  assumes "cluster_size s \<noteq> 0"
  shows "unat (ucast ((ucast pos :: u64) mod cluster_size s) :: u32) = unat (pos :: u32) mod unat (cluster_size s)"
proof -
  have "0 < unat (cluster_size s)" using assms by (simp add: unat_gt_0)
  then have "unat pos mod unat (cluster_size s) < unat (cluster_size s)" by simp
  then have "unat pos mod unat (cluster_size s) < 2 ^ 32" using cluster_size_nat(2) [of s] by simp
  then show ?thesis by (simp add: unsigned_ucast_eq take_bit_nat_eq_self unat_mod_distrib)
qed

lemma next_chunk_bounds:
  assumes c: "cluster_size s \<noteq> 0" and l: "left \<noteq> 0"
  shows "0 < unat (next_chunk s (ucast ((ucast pos :: u64) mod cluster_size s)) left)"
    "unat (next_chunk s (ucast ((ucast pos :: u64) mod cluster_size s)) left) \<le> unat left"
    "unat (next_chunk s (ucast ((ucast (pos :: u32) :: u64) mod cluster_size s)) left) \<le> unat (cluster_size s) - unat pos mod unat (cluster_size s)"
proof -
  have "0 < unat (cluster_size s)" using c by (simp add: unat_gt_0)
  then have m: "unat pos mod unat (cluster_size s) < unat (cluster_size s)" for pos :: u32 by simp
  have u: "unat (cluster_size s - ucast (ucast ((ucast pos :: u64) mod cluster_size s) :: u32)) =
    unat (cluster_size s) - unat pos mod unat (cluster_size s)" for pos :: u32
    using m [of pos] by (simp add: unat_sub_if' cluster_pos_nat [OF c])
  have "0 < unat left" using l by (simp add: unat_gt_0)
  then show "0 < unat (next_chunk s (ucast ((ucast pos :: u64) mod cluster_size s)) left)"
    "unat (next_chunk s (ucast ((ucast pos :: u64) mod cluster_size s)) left) \<le> unat left"
    "unat (next_chunk s (ucast ((ucast pos :: u64) mod cluster_size s)) left) \<le> unat (cluster_size s) - unat pos mod unat (cluster_size s)"
    using u [of pos] m [of pos] by (auto simp: next_chunk_def Let_def word_less_nat_alt)
qed

lemma chunk_step:
  assumes c: "cluster_size s \<noteq> 0" and d: "dn < len"
  shows "unat (len - (dn + next_chunk s (ucast ((ucast (pos :: u32) :: u64) mod cluster_size s)) (len - dn))) < unat (len - dn)"
proof -
  let ?c = "next_chunk s (ucast ((ucast pos :: u64) mod cluster_size s)) (len - dn)"
  have l: "len - dn \<noteq> 0" using d by auto
  have "unat (len - (dn + ?c)) = unat ((len - dn) - ?c)" by (simp add: diff_diff_eq)
  also have "\<dots> = unat (len - dn) - unat ?c"
    using next_chunk_bounds(2) [OF c l, of pos] by (intro unat_sub) (simp add: word_le_nat_alt)
  finally show ?thesis using next_chunk_bounds(1,2) [OF c l, of pos] by linarith
qed

function read_loop :: "int \<Rightarrow> addr \<Rightarrow> u64 \<Rightarrow> u64 \<Rightarrow> fs_state \<Rightarrow> ram \<Rightarrow> (u64 \<times> fs_state \<times> ram) outcome" where
  "read_loop fd buf len dn s r =
     (if dn < len then
        let csz = cluster_size s; f = fs_files s ! nat fd in
        if csz = 0 then Panic ''divide error''
        else
          let cluster_index = ucast (ucast (of_pos f) div csz);
              cluster_pos = ucast (ucast (of_pos f) mod csz);
              (c, r) = chain_cluster s (first_cluster f) cluster_index False r
          in if c = 0 then Ret (dn, s, r)
             else
               let off = cluster_offset s c + ucast cluster_pos;
                   chunk = next_chunk s cluster_pos (len - dn)
               in if \<not> range_ok s off chunk then Ret (dn, s, r)
                  else read_loop fd buf len (dn + chunk) (upd_file fd (\<lambda>f. f\<lparr>of_pos := of_pos f + ucast chunk\<rparr>) s)
                         (memcpy (buf + dn) (fs_data s + off) chunk r)
      else Ret (dn, s, r))"
  by pat_completeness auto
termination
  by (relation "measure (\<lambda>(fd, buf, len, dn, s, r). unat (len - dn))") (simp_all add: chunk_step)

function write_loop :: "int \<Rightarrow> addr \<Rightarrow> u64 \<Rightarrow> u64 \<Rightarrow> fs_state \<Rightarrow> ram \<Rightarrow> (u64 \<times> fs_state \<times> ram) outcome" where
  "write_loop fd buf len dn s r =
     (if dn < len then
        let csz = cluster_size s; f = fs_files s ! nat fd in
        if csz = 0 then Panic ''divide error''
        else
          let cluster_index = ucast (ucast (of_pos f) div csz);
              cluster_pos = ucast (ucast (of_pos f) mod csz);
              (c, r) = chain_cluster s (first_cluster f) cluster_index True r
          in if c = 0 then Ret (dn, s, r)
             else
               let off = cluster_offset s c + ucast cluster_pos;
                   chunk = next_chunk s cluster_pos (len - dn)
               in if \<not> range_ok s off chunk then Ret (dn, s, r)
                  else write_loop fd buf len (dn + chunk)
                         (upd_file fd (\<lambda>f. let pos = of_pos f + ucast chunk
                                       in f\<lparr>of_pos := pos, of_size := (if of_size f < pos then pos else of_size f)\<rparr>) s)
                         (memcpy (fs_data s + off) (buf + dn) chunk r)
      else Ret (dn, s, r))"
  by pat_completeness auto
termination
  by (relation "measure (\<lambda>(fd, buf, len, dn, s, r). unat (len - dn))") (simp_all add: chunk_step)

declare read_loop.simps [simp del] write_loop.simps [simp del]

definition fs_read_fd :: "int \<Rightarrow> addr \<Rightarrow> u64 \<Rightarrow> fs_state \<Rightarrow> ram \<Rightarrow> (int \<times> fs_state \<times> ram) outcome" where
  "fs_read_fd fd buf len s r =
     (if fs_mode s \<noteq> FS_MODE_FAT32 \<or> \<not> fs_fd_ok s fd \<or> buf = 0 then Ret (- 1, s, r)
      else let f = fs_files s ! nat fd in
        if of_size f \<le> of_pos f \<or> len = 0 then Ret (0, s, r)
        else let len = (if ucast (of_size f - of_pos f) < len then ucast (of_size f - of_pos f) else len)
          in bind_outcome (read_loop fd buf len 0 s r) (\<lambda>(dn, s, r). Ret (sint dn, s, r)))"

definition fs_write_fd :: "int \<Rightarrow> addr \<Rightarrow> u64 \<Rightarrow> fs_state \<Rightarrow> ram \<Rightarrow> (int \<times> fs_state \<times> ram) outcome" where
  "fs_write_fd fd buf len s r =
     (if fs_mode s \<noteq> FS_MODE_FAT32 \<or> \<not> fs_fd_ok s fd \<or> buf = 0 then Ret (- 1, s, r)
      else if of_flags (fs_files s ! nat fd) AND FS_O_WRONLY = 0 \<and> of_flags (fs_files s ! nat fd) AND FS_O_RDWR \<noteq> FS_O_RDWR
      then Ret (- 1, s, r)
      else
        let (s, r) = (if first_cluster (fs_files s ! nat fd) = 0 then
                        let (c, r) = alloc_cluster s r in (upd_file fd (\<lambda>f. f\<lparr>first_cluster := c\<rparr>) s, r)
                      else (s, r))
        in if first_cluster (fs_files s ! nat fd) = 0 then Ret (- 1, s, r)
           else bind_outcome (write_loop fd buf len 0 s r) (\<lambda>(dn, s, r).
             let f = fs_files s ! nat fd; e = fs_data s + ucast (dir_entry_offset f)
             in Ret (sint dn, s, wr32 (e + 28) (of_size f) (entry_set_first_cluster e (first_cluster f) r))))"

definition fs_lseek_fd :: "int \<Rightarrow> int \<Rightarrow> int \<Rightarrow> fs_state \<Rightarrow> int \<times> fs_state" where
  "fs_lseek_fd fd off whence s =
     (if fs_mode s \<noteq> FS_MODE_FAT32 \<or> \<not> fs_fd_ok s fd then (- 1, s)
      else let f = fs_files s ! nat fd in
        if whence \<noteq> FS_SEEK_SET \<and> whence \<noteq> FS_SEEK_CUR \<and> whence \<noteq> FS_SEEK_END then (- 1, s)
        else
          let b = (if whence = FS_SEEK_SET then 0 else if whence = FS_SEEK_CUR then uint (of_pos f) else uint (of_size f));
              nxt = b + off
          in if nxt < 0 then (- 1, s) else (nxt, upd_file fd (\<lambda>f. f\<lparr>of_pos := word_of_int nxt\<rparr>) s))"

definition fs_close :: "int \<Rightarrow> fs_state \<Rightarrow> int \<times> fs_state" where
  "fs_close fd s = (if \<not> fs_fd_ok s fd then (- 1, s) else (0, upd_file fd (\<lambda>_. no_file) s))"

definition fs_file_size :: "int \<Rightarrow> fs_state \<Rightarrow> int" where
  "fs_file_size fd s = (if fs_mode s \<noteq> FS_MODE_FAT32 \<or> \<not> fs_fd_ok s fd then - 1 else uint (of_size (fs_files s ! nat fd)))"

end
