(* ===== verification/Console.thy ===== *)
theory Console
  imports Bootmode Hardware Fs Mem
begin

unbundle bit_operations_syntax

text \<open>
  The console of \<^verbatim>\<open>kernel/console.c\<close> with the two components it is entangled with, the serial line of
  \<^verbatim>\<open>kernel/serial.c\<close> and the debug log of \<^verbatim>\<open>kernel/debuglog.c\<close>: a character put on the console goes
  to the serial line, to the scroll-back buffer and to the log, and the log reports on the console. The
  static variables of the three files are the fields of \<open>console\<close>, together with the components they
  call: the devices, the boot options, the framebuffer and the kernel heap, whose RAM holds the log and
  the text screen. The code is that of the freestanding kernel build, which has the debug log.

  Waiting for the serial line may never end: an operation that writes to it is None then.
\<close>

section \<open>State\<close>

definition BUF_LINES :: nat where "BUF_LINES = 512"
definition MAX_COLS :: nat where "MAX_COLS = 160"

record console =
  chw :: hw
  cboot :: boot_state
  cfb :: fb_state
  cmem :: mem_state
  debug_mode :: bool
  log_buf :: addr
  log_pos :: u64
  log_size :: u64
  log_start :: u64
  video :: addr
  cattr :: u8
  vga_enabled :: bool
  cbuf :: "u16 list list"
  line_len :: "u8 list"
  chead :: u32
  ccount :: u32
  cur_line :: u32
  cur_col :: u32
  cview :: u32
  display_hold :: bool
  kbd_shift :: bool
  kbd_extended :: bool
  pending_input :: "char list"
  pending_len :: int
  pending_pos :: int

abbreviation cram :: "console \<Rightarrow> ram" where
  "cram c \<equiv> mem_ram (cmem c)"

definition upd_cram :: "(ram \<Rightarrow> ram) \<Rightarrow> console \<Rightarrow> console" where
  "upd_cram f c = c\<lparr>cmem := (cmem c)\<lparr>mem_ram := f (cram c)\<rparr>\<rparr>"

section \<open>Serial line and log\<close>

definition COM1 :: u16 where "COM1 = 0x3F8"

definition serial_raw_putc :: "char \<Rightarrow> console \<Rightarrow> console option" where
  "serial_raw_putc ch c =
     Option.bind (wait_port (COM1 + 5) (\<lambda>v. v AND 0x20 \<noteq> 0) (chw c)) (\<lambda>h.
       Some (c\<lparr>chw := io_outb COM1 (of_char ch) h\<rparr>))"

definition debuglog_char :: "char \<Rightarrow> console \<Rightarrow> console" where
  "debuglog_char ch c =
     (if log_buf c = 0 \<or> log_size c \<le> log_pos c then c
      else (upd_cram (\<lambda>r. r(log_buf c + log_pos c := of_char ch)) c)\<lparr>log_pos := log_pos c + 1\<rparr>)"

definition serial_putc :: "char \<Rightarrow> console \<Rightarrow> console option" where
  "serial_putc ch c = Option.bind (serial_raw_putc ch c) (\<lambda>c. Some (debuglog_char ch c))"

fun serial_write :: "string \<Rightarrow> console \<Rightarrow> console option" where
  "serial_write [] c = Some c"
| "serial_write (ch # cs) c = Option.bind (serial_putc ch c) (serial_write cs)"

fun serial_raw_write :: "string \<Rightarrow> console \<Rightarrow> console option" where
  "serial_raw_write [] c = Some c"
| "serial_raw_write (ch # cs) c = Option.bind (serial_raw_putc ch c) (serial_raw_write cs)"

text \<open>
  The conversion loops of \<^verbatim>\<open>serial_udec\<close>, \<^verbatim>\<open>serial_uhex\<close>, \<^verbatim>\<open>console_udec\<close> and \<^verbatim>\<open>console_uhex\<close> fill a buffer from
  its end; the string is what lies between the cursor and the end.
\<close>

function udec_loop :: "u32 \<Rightarrow> string \<Rightarrow> string" where
  "udec_loop v out = (if v \<noteq> 0 then udec_loop (v div 10) (char_of (48 + unat (v mod 10)) # out) else out)"
  by pat_completeness auto
termination
  by (relation "measure (\<lambda>(v, out). unat v)") (auto simp: unat_div_distrib unat_gt_0)

definition udec_string :: "u32 \<Rightarrow> string" where
  "udec_string v = udec_loop v (if v = 0 then ''0'' else [])"

function uhex_loop :: "u64 \<Rightarrow> string \<Rightarrow> string" where
  "uhex_loop v out = (if v \<noteq> 0 then uhex_loop (drop_bit 4 v) (''0123456789ABCDEF'' ! unat (v AND 0xF) # out) else out)"
  by pat_completeness auto
termination
  by (relation "measure (\<lambda>(v, out). unat v)") (auto simp: drop_bit_eq_div unat_div_distrib unat_gt_0)

declare udec_loop.simps [simp del] uhex_loop.simps [simp del]

definition uhex_string :: "u64 \<Rightarrow> string" where
  "uhex_string v = uhex_loop v (if v = 0 then ''0'' else [])"

definition serial_udec :: "u32 \<Rightarrow> console \<Rightarrow> console option" where
  "serial_udec v = serial_write (udec_string v)"

definition serial_uhex :: "u64 \<Rightarrow> console \<Rightarrow> console option" where
  "serial_uhex v = serial_write (uhex_string v)"

definition serial_raw_uhex :: "u64 \<Rightarrow> console \<Rightarrow> console option" where
  "serial_raw_uhex v = serial_raw_write (uhex_string v)"

definition serial_read_ready :: "console \<Rightarrow> bool \<times> console" where
  "serial_read_ready c = (let (v, h) = io_inb (COM1 + 5) (chw c) in (v AND 0x01 \<noteq> 0, c\<lparr>chw := h\<rparr>))"

definition serial_getc :: "console \<Rightarrow> (int \<times> console) option" where
  "serial_getc c =
     Option.bind (wait_port (COM1 + 5) (\<lambda>v. v AND 0x01 \<noteq> 0) (chw c)) (\<lambda>h.
       let (v, h) = io_inb COM1 h in Some (uint v, c\<lparr>chw := h\<rparr>))"

definition debuglog_buffer :: "console \<Rightarrow> addr" where
  "debuglog_buffer c = log_buf c"

definition debuglog_length :: "console \<Rightarrow> u64" where
  "debuglog_length c = log_pos c"

section \<open>Screen\<close>

definition console_display_enabled :: "console \<Rightarrow> bool" where
  "console_display_enabled c \<longleftrightarrow> bootmode_logs_visible (cboot c) \<and> (vga_enabled c \<or> framebuffer_enabled (cfb c))"

definition visible_cols :: "console \<Rightarrow> u32" where
  "visible_cols c =
     (if framebuffer_enabled (cfb c) then
        let cols = framebuffer_width (cfb c) div 8;
            cols = (if of_nat MAX_COLS < cols then of_nat MAX_COLS else cols)
        in if cols \<noteq> 0 then cols else 1
      else 80)"

definition visible_rows :: "console \<Rightarrow> u32" where
  "visible_rows c =
     (if framebuffer_enabled (cfb c) then
        let rows = framebuffer_text_rows (cfb c);
            rows = (if of_nat BUF_LINES < rows then of_nat BUF_LINES else rows)
        in if rows \<noteq> 0 then rows else 1
      else 25)"

definition pack :: "console \<Rightarrow> char \<Rightarrow> u16" where
  "pack c ch = push_bit 8 (ucast (cattr c)) OR of_char ch"

definition line_idx :: "console \<Rightarrow> u32 \<Rightarrow> u32" where
  "line_idx c off = (chead c + off) mod of_nat BUF_LINES"

definition clear_line :: "nat \<Rightarrow> console \<Rightarrow> console" where
  "clear_line l c = c\<lparr>cbuf := (cbuf c)[l := replicate MAX_COLS (pack c (CHR '' ''))], line_len := (line_len c)[l := 0]\<rparr>"

definition set_cell :: "nat \<Rightarrow> nat \<Rightarrow> u16 \<Rightarrow> console \<Rightarrow> console" where
  "set_cell l i cell c = c\<lparr>cbuf := (cbuf c)[l := (cbuf c ! l)[i := cell]]\<rparr>"

definition erase_prev_char :: "console \<Rightarrow> console" where
  "erase_prev_char c =
     (if cur_col c = 0 then c
      else
        let l = unat (cur_line c);
            c = set_cell l (unat (cur_col c - 1)) (pack c (CHR '' '')) c;
            c = c\<lparr>cur_col := cur_col c - 1\<rparr>
        in if cur_col c < ucast (line_len c ! l) then c\<lparr>line_len := (line_len c)[l := ucast (cur_col c)]\<rparr> else c)"

definition follow_tail :: "console \<Rightarrow> bool" where
  "follow_tail c = (let rows = visible_rows c in if ccount c \<le> rows then True else ccount c \<le> cview c + rows)"

text \<open>One character of the screen, on the framebuffer or as the two bytes of a text cell.\<close>

definition put_screen :: "console \<Rightarrow> u32 \<Rightarrow> u32 \<Rightarrow> u16 \<Rightarrow> u8 \<Rightarrow> u8 \<Rightarrow> ram \<Rightarrow> ram" where
  "put_screen c col row cell lo hi r =
     (if framebuffer_enabled (cfb c) then framebuffer_draw_cell (cfb c) col row cell r
      else r(video c + ucast ((row * 80 + col) * 2) := lo, video c + ucast ((row * 80 + col) * 2 + 1) := hi))"

definition draw_row :: "console \<Rightarrow> u32 \<Rightarrow> u32 \<Rightarrow> ram \<Rightarrow> ram" where
  "draw_row c start row =
     (let off = start + row in
      if ccount c \<le> off then
        fold (\<lambda>col. put_screen c (of_nat col) row (pack c (CHR '' '')) (of_char (CHR '' '')) (cattr c)) [0..<unat (visible_cols c)]
      else
        let line = cbuf c ! unat (line_idx c off) in
        fold (\<lambda>col. let v = line ! col in put_screen c (of_nat col) row v (ucast v) (ucast (drop_bit 8 v))) [0..<unat (visible_cols c)])"

definition draw_screen :: "console \<Rightarrow> console" where
  "draw_screen c =
     (if display_hold c then c
      else if \<not> console_display_enabled c then c
      else
        let rows = visible_rows c;
            start = (if rows < ccount c \<and> ccount c < cview c + rows then ccount c - rows else cview c);
            start = (if ccount c \<le> rows then 0 else start)
        in upd_cram (fold (\<lambda>row. draw_row c start (of_nat row)) [0..<unat rows]) c)"

definition newline :: "console \<Rightarrow> console" where
  "newline c =
     (let l = unat (cur_line c);
          cols = visible_cols c;
          clear_from = (if cols < ucast (line_len c ! l) then cols else ucast (line_len c ! l));
          c = fold (\<lambda>i c. set_cell l i (pack c (CHR '' '')) c) [unat clear_from..<unat cols] c;
          c = c\<lparr>line_len := (line_len c)[l := ucast clear_from], cur_col := 0, cur_line := (cur_line c + 1) mod of_nat BUF_LINES\<rparr>;
          c = (if ccount c < of_nat BUF_LINES then c\<lparr>ccount := ccount c + 1\<rparr>
               else let c = c\<lparr>chead := (chead c + 1) mod of_nat BUF_LINES\<rparr>
                    in if 0 < cview c then c\<lparr>cview := cview c - 1\<rparr> else c)
      in clear_line (unat (cur_line c)) c)"

text \<open>What a printable character does to the buffer.\<close>

definition put_char :: "char \<Rightarrow> console \<Rightarrow> console" where
  "put_char ch c =
     (let c = (if visible_cols c \<le> cur_col c then newline c else c);
          l = unat (cur_line c);
          c = set_cell l (unat (cur_col c)) (pack c ch) c;
          c = c\<lparr>cur_col := cur_col c + 1\<rparr>;
          c = (if ucast (line_len c ! l) < cur_col c then c\<lparr>line_len := (line_len c)[l := ucast (cur_col c)]\<rparr> else c)
      in if visible_cols c \<le> cur_col c then newline c else c)"

definition tail_view :: "console \<Rightarrow> console" where
  "tail_view c = (let rows = visible_rows c in c\<lparr>cview := (if rows < ccount c then ccount c - rows else 0)\<rparr>)"

definition console_emit_char :: "char \<Rightarrow> console \<Rightarrow> console option" where
  "console_emit_char ch c =
     (let follow = follow_tail c in
      Option.bind (serial_raw_putc ch c) (\<lambda>c.
        let c = (if ch = CHR 0x0A then newline c
                 else if ch = CHR 0x0D then c\<lparr>cur_col := 0\<rparr>
                 else if ch = CHR 0x08 then erase_prev_char c
                 else put_char ch c);
            c = debuglog_char ch c;
            c = (if follow \<and> console_display_enabled c then tail_view c else c)
        in Some (if \<not> follow then draw_screen c else c)))"

definition console_flush :: "console \<Rightarrow> console" where
  "console_flush = draw_screen"

definition console_putc :: "char \<Rightarrow> console \<Rightarrow> console option" where
  "console_putc ch c = map_option console_flush (console_emit_char ch c)"

fun emit_chars :: "string \<Rightarrow> console \<Rightarrow> console option" where
  "emit_chars [] c = Some c"
| "emit_chars (ch # cs) c = Option.bind (console_emit_char ch c) (emit_chars cs)"

text \<open>The buffer is given by its characters.\<close>

definition console_write :: "string option \<Rightarrow> console \<Rightarrow> console option" where
  "console_write s c =
     (case s of
        None \<Rightarrow> Some c
      | Some s \<Rightarrow> if s = [] then Some c else map_option console_flush (emit_chars s c))"

definition console_puts :: "string option \<Rightarrow> console \<Rightarrow> console option" where
  "console_puts s c = (case s of None \<Rightarrow> Some c | Some t \<Rightarrow> console_write (Some t) c)"

definition console_udec :: "u32 \<Rightarrow> console \<Rightarrow> console option" where
  "console_udec v = console_puts (Some (udec_string v))"

definition console_uhex :: "u64 \<Rightarrow> console \<Rightarrow> console option" where
  "console_uhex v = console_puts (Some (uhex_string v))"

definition console_set_attr :: "u8 \<Rightarrow> u8 \<Rightarrow> console \<Rightarrow> console" where
  "console_set_attr fg bg c = c\<lparr>cattr := VGA_ATTR fg bg\<rparr>"

definition console_backspace :: "console \<Rightarrow> console" where
  "console_backspace c =
     (let c = erase_prev_char c;
          c = (if follow_tail c \<and> console_display_enabled c then tail_view c else c)
      in draw_screen c)"

text \<open>The reset of the buffer that \<open>console_init\<close> and \<open>console_clear\<close> share.\<close>

definition reset_lines :: "console \<Rightarrow> console" where
  "reset_lines c = (fold clear_line [0..<BUF_LINES] c)\<lparr>chead := 0, ccount := 1, cur_line := 0, cur_col := 0, cview := 0\<rparr>"

definition console_clear :: "console \<Rightarrow> console" where
  "console_clear c = draw_screen (reset_lines (c\<lparr>display_hold := False\<rparr>))"

definition console_scroll_up :: "console \<Rightarrow> console" where
  "console_scroll_up c =
     (if console_display_enabled c \<and> 0 < cview c then draw_screen (c\<lparr>cview := cview c - 1\<rparr>) else c)"

definition console_scroll_down :: "console \<Rightarrow> console" where
  "console_scroll_down c =
     (if console_display_enabled c \<and> cview c + visible_rows c < ccount c then draw_screen (c\<lparr>cview := cview c + 1\<rparr>) else c)"

definition console_set_vga_enabled :: "bool \<Rightarrow> console \<Rightarrow> console" where
  "console_set_vga_enabled en c = c\<lparr>vga_enabled := en\<rparr>"

definition console_vga_enabled :: "console \<Rightarrow> bool" where
  "console_vga_enabled c = vga_enabled c"

definition console_set_logs_visible :: "bool \<Rightarrow> console \<Rightarrow> console" where
  "console_set_logs_visible visible c =
     (let c = c\<lparr>cboot := bootmode_set_logs_visible visible (cboot c)\<rparr> in if visible then draw_screen c else c)"

definition console_logs_visible :: "console \<Rightarrow> bool" where
  "console_logs_visible c = bootmode_logs_visible (cboot c)"

definition console_apply_boot_theme :: "console \<Rightarrow> console" where
  "console_apply_boot_theme c = c\<lparr>cattr := VGA_ATTR (bootmode_fg (cboot c)) (bootmode_bg (cboot c))\<rparr>"

definition console_hold_display_until_input :: "console \<Rightarrow> console" where
  "console_hold_display_until_input c = c\<lparr>display_hold := True\<rparr>"

definition console_release_display_hold :: "console \<Rightarrow> console" where
  "console_release_display_hold c = (if \<not> display_hold c then c else draw_screen (c\<lparr>display_hold := False\<rparr>))"

section \<open>Keyboard\<close>

definition ps2_try_read_scancode :: "hw \<Rightarrow> u8 option \<times> hw" where
  "ps2_try_read_scancode h =
     (let (status, h) = io_inb 0x64 h in
      if status AND 1 = 0 then (None, h)
      else if status AND 0x20 \<noteq> 0 then (None, snd (io_inb 0x60 h))
      else let (v, h) = io_inb 0x60 h in (Some v, h))"

definition queue_escape_sequence :: "char \<Rightarrow> console \<Rightarrow> char \<times> console" where
  "queue_escape_sequence final c =
     (CHR 0x1B, c\<lparr>pending_input := [CHR 0x1B, CHR ''['', final], pending_len := 3, pending_pos := 1\<rparr>)"

text \<open>The scan codes that stand for a character, plain and with the shift key.\<close>

definition scancode_table :: "(u8 \<times> char \<times> char) list" where
  "scancode_table =
    [(0x01, CHR 0x1B, CHR 0x1B), (0x02, CHR ''1'', CHR ''!''), (0x03, CHR ''2'', CHR ''@''), (0x04, CHR ''3'', CHR ''#''),
     (0x05, CHR ''4'', CHR ''$''), (0x06, CHR ''5'', CHR ''%''), (0x07, CHR ''6'', CHR ''^''), (0x08, CHR ''7'', CHR ''&''),
     (0x09, CHR ''8'', CHR ''*''), (0x0A, CHR ''9'', CHR ''(''), (0x0B, CHR ''0'', CHR '')''), (0x0C, CHR ''-'', CHR ''_''),
     (0x0D, CHR ''='', CHR ''+''), (0x0E, CHR 0x08, CHR 0x08), (0x0F, CHR 0x09, CHR 0x09), (0x10, CHR ''q'', CHR ''Q''),
     (0x11, CHR ''w'', CHR ''W''), (0x12, CHR ''e'', CHR ''E''), (0x13, CHR ''r'', CHR ''R''), (0x14, CHR ''t'', CHR ''T''),
     (0x15, CHR ''y'', CHR ''Y''), (0x16, CHR ''u'', CHR ''U''), (0x17, CHR ''i'', CHR ''I''), (0x18, CHR ''o'', CHR ''O''),
     (0x19, CHR ''p'', CHR ''P''), (0x1A, CHR ''['', CHR ''{''), (0x1B, CHR '']'', CHR ''}''), (0x1C, CHR 0x0A, CHR 0x0A),
     (0x1E, CHR ''a'', CHR ''A''), (0x1F, CHR ''s'', CHR ''S''), (0x20, CHR ''d'', CHR ''D''), (0x21, CHR ''f'', CHR ''F''),
     (0x22, CHR ''g'', CHR ''G''), (0x23, CHR ''h'', CHR ''H''), (0x24, CHR ''j'', CHR ''J''), (0x25, CHR ''k'', CHR ''K''),
     (0x26, CHR ''l'', CHR ''L''), (0x27, CHR '';'', CHR '':''), (0x28, CHR 0x27, CHR 0x22), (0x29, CHR 0x60, CHR ''~''),
     (0x2B, CHR 0x5C, CHR ''|''), (0x2C, CHR ''z'', CHR ''Z''), (0x2D, CHR ''x'', CHR ''X''), (0x2E, CHR ''c'', CHR ''C''),
     (0x2F, CHR ''v'', CHR ''V''), (0x30, CHR ''b'', CHR ''B''), (0x31, CHR ''n'', CHR ''N''), (0x32, CHR ''m'', CHR ''M''),
     (0x33, CHR '','', CHR ''<''), (0x34, CHR ''.'', CHR ''>''), (0x35, CHR ''/'', CHR ''?''), (0x39, CHR '' '', CHR '' '')]"

text \<open>The character 0 stands for none.\<close>

definition scancode_to_ascii :: "u8 \<Rightarrow> console \<Rightarrow> char \<times> console" where
  "scancode_to_ascii sc c =
     (if sc = 0xE0 then (CHR 0x00, c\<lparr>kbd_extended := True\<rparr>)
      else
        let ext = kbd_extended c; c = c\<lparr>kbd_extended := False\<rparr> in
        if sc AND 0x80 \<noteq> 0 then
          let released = sc AND 0x7F
          in (CHR 0x00, if released = 0x2A \<or> released = 0x36 then c\<lparr>kbd_shift := False\<rparr> else c)
        else if sc = 0x2A \<or> sc = 0x36 then (CHR 0x00, c\<lparr>kbd_shift := True\<rparr>)
        else case map_of scancode_table sc of
          Some (normal, shifted) \<Rightarrow> (if kbd_shift c then shifted else normal, c)
        | None \<Rightarrow>
            if sc = 0x48 then (if ext then queue_escape_sequence (CHR ''A'') c else (CHR 0x00, c))
            else if sc = 0x50 then (if ext then queue_escape_sequence (CHR ''B'') c else (CHR 0x00, c))
            else if sc = 0x4B then (if ext then queue_escape_sequence (CHR ''D'') c else (CHR 0x00, c))
            else if sc = 0x4D then (if ext then queue_escape_sequence (CHR ''C'') c else (CHR 0x00, c))
            else (CHR 0x00, c))"

partial_function (option) console_getc :: "console \<Rightarrow> (char \<times> console) option" where
  "console_getc c =
     (if pending_pos c < pending_len c then
        let c = console_release_display_hold c
        in Some (pending_input c ! nat (pending_pos c), c\<lparr>pending_pos := pending_pos c + 1\<rparr>)
      else
        let c = c\<lparr>pending_len := 0, pending_pos := 0\<rparr>;
            (ready, c) = serial_read_ready c
        in Option.bind (if ready then map_option (\<lambda>(ch, c). let ch = (if ch = 0x0D then 0x0A else ch) in (if 0 \<le> ch then Some ch else None, c)) (serial_getc c) else Some (None, c))
          (\<lambda>(got, c).
            case got of
              Some ch \<Rightarrow> Some (char_of (nat ch), console_release_display_hold c)
            | None \<Rightarrow>
                let (sc, h) = ps2_try_read_scancode (chw c); c = c\<lparr>chw := h\<rparr> in
                case sc of
                  None \<Rightarrow> console_getc c
                | Some v \<Rightarrow>
                    let (translated, c) = scancode_to_ascii v c in
                    if translated \<noteq> CHR 0x00 then Some (translated, console_release_display_hold c) else console_getc c))"

section \<open>Reports of other components\<close>

text \<open>Carrying out the console calls a component recorded.\<close>

fun run_con :: "con_call list \<Rightarrow> console \<Rightarrow> console option" where
  "run_con [] c = Some c"
| "run_con (Con_puts s # ks) c = Option.bind (console_puts (Some s) c) (run_con ks)"
| "run_con (Con_putc ch # ks) c = Option.bind (console_putc ch c) (run_con ks)"
| "run_con (Con_udec v # ks) c = Option.bind (console_udec v c) (run_con ks)"
| "run_con (Con_uhex v # ks) c = Option.bind (console_uhex v c) (run_con ks)"

section \<open>The debug log\<close>

definition debuglog_init :: "fs_state \<Rightarrow> console \<Rightarrow> (fs_state \<times> console) outcome" where
  "debuglog_init fs c =
     (let c = c\<lparr>log_size := 64 * 1024\<rparr> in
      bind_outcome (mem_alloc (log_size c) (cmem c)) (\<lambda>(p, m).
        let c = c\<lparr>cmem := m, log_buf := p\<rparr>;
            c = (if log_buf c = 0 then c\<lparr>log_size := 0\<rparr> else c);
            c = c\<lparr>log_pos := 0\<rparr>;
            fs = fs_mount (log_buf c) (log_size c) (fs\<lparr>fs_out := []\<rparr>) (cram c)
        in bind_outcome (of_option (run_con (fs_out fs) c)) (\<lambda>c.
             let (t, h) = io_rdtsc (chw c) in Ret (fs, c\<lparr>log_start := t, chw := h\<rparr>))))"

definition debuglog_flush :: "fs_state \<Rightarrow> console \<Rightarrow> console" where
  "debuglog_flush fs c = (if log_buf c = 0 then c else upd_cram (\<lambda>r. snd (fs_write 0 (log_buf c) (log_pos c) fs r)) c)"

definition debuglog_save_file :: "fs_state \<Rightarrow> console \<Rightarrow> console" where
  "debuglog_save_file fs c = (if log_buf c \<noteq> 0 then upd_cram (\<lambda>r. snd (fs_write 0 (log_buf c) (log_pos c) fs r)) c else c)"

text \<open>A character on the console and on the serial line.\<close>

definition put_both :: "char \<Rightarrow> console \<Rightarrow> console option" where
  "put_both ch c = Option.bind (console_putc ch c) (serial_raw_putc ch)"

definition puts_both :: "string \<Rightarrow> console \<Rightarrow> console option" where
  "puts_both s c = Option.bind (console_puts (Some s) c) (serial_raw_write s)"

definition uhex_both :: "u64 \<Rightarrow> console \<Rightarrow> console option" where
  "uhex_both v c = Option.bind (console_uhex v c) (serial_raw_uhex v)"

definition log_char_at :: "u64 \<Rightarrow> console \<Rightarrow> char" where
  "log_char_at i c = char_of (unat (cram c (log_buf c + i)))"

partial_function (option) dump_loop :: "u64 \<Rightarrow> console \<Rightarrow> console option" where
  "dump_loop i c =
     (if i < log_pos c then
        Option.bind (console_putc (log_char_at i c) c) (\<lambda>c.
          Option.bind (serial_raw_putc (log_char_at i c) c) (dump_loop (i + 1)))
      else Some c)"

definition debuglog_dump_console :: "console \<Rightarrow> console option" where
  "debuglog_dump_console c = (if log_buf c = 0 \<or> \<not> debug_mode c then Some c else dump_loop 0 c)"

definition hex_digits :: string where
  "hex_digits = ''0123456789ABCDEF''"

fun hexdump_loop :: "addr \<Rightarrow> nat list \<Rightarrow> console \<Rightarrow> console option" where
  "hexdump_loop p [] c = Some c"
| "hexdump_loop p (i # is) c =
     (let b = cram c (p + of_nat i) in
      Option.bind (put_both (hex_digits ! unat (drop_bit 4 b)) c) (\<lambda>c.
        Option.bind (put_both (hex_digits ! unat (b AND 0xF)) c) (\<lambda>c.
          Option.bind (put_both (CHR '' '') c) (\<lambda>c.
            Option.bind (if i mod 16 = 15 then put_both (CHR 0x0A) c else Some c) (hexdump_loop p is)))))"

definition debuglog_hexdump :: "addr \<Rightarrow> u64 \<Rightarrow> console \<Rightarrow> console option" where
  "debuglog_hexdump p len c =
     (if \<not> debug_mode c then Some c
      else Option.bind (hexdump_loop p [0..<unat len] c) (\<lambda>c.
        if len AND 15 \<noteq> 0 then put_both (CHR 0x0A) c else Some c))"

text \<open>The counter of the dump steps by 16 and wraps around for a length within 15 bytes of the end of the address space.\<close>

partial_function (option) memdump_loop :: "addr \<Rightarrow> u64 \<Rightarrow> u64 \<Rightarrow> console \<Rightarrow> console option" where
  "memdump_loop p len i c =
     (if i < len then
        Option.bind (uhex_both (p + i) c) (\<lambda>c.
          Option.bind (puts_both '': '' c) (\<lambda>c.
            Option.bind (debuglog_hexdump (p + i) (if len - i < 16 then len - i else 16) c) (memdump_loop p len (i + 16))))
      else Some c)"

definition debuglog_memdump :: "addr \<Rightarrow> u64 \<Rightarrow> console \<Rightarrow> console option" where
  "debuglog_memdump p len c = (if \<not> debug_mode c then Some c else memdump_loop p len 0 c)"

definition debuglog_print_timestamp :: "console \<Rightarrow> console option" where
  "debuglog_print_timestamp c =
     (if \<not> debug_mode c then Some c
      else
        let (t, h) = io_rdtsc (chw c); c = c\<lparr>chw := h\<rparr>; delta = t - log_start c in
        Option.bind (puts_both ''['' c) (\<lambda>c.
          Option.bind (puts_both ''ts=0x'' c) (\<lambda>c.
            Option.bind (uhex_both delta c) (puts_both ''] ''))))"

section \<open>Initialisation\<close>

definition serial_init :: "console \<Rightarrow> console option" where
  "serial_init c =
     (let h = fold (\<lambda>(port, v). io_outb port v)
            [(COM1 + 1, 0), (COM1 + 3, 0x80), (COM1 + 0, 0x01), (COM1 + 1, 0), (COM1 + 3, 0x03), (COM1 + 2, 0xC7), (COM1 + 4, 0x0B)] (chw c)
      in Option.bind (debuglog_print_timestamp (c\<lparr>chw := h\<rparr>)) (serial_write (''serial_init complete'' @ [CHR 0x0A])))"

definition console_init :: "console \<Rightarrow> console outcome" where
  "console_init c =
     (let c = console_apply_boot_theme c in
      bind_outcome
        (if \<not> framebuffer_enabled (cfb c)
         then bind_outcome (mem_vram_lock (Some ''console'') (cmem c)) (\<lambda>(_, m). Ret (c\<lparr>cmem := m, video := mem_vram_base m\<rparr>))
         else Ret c)
        (\<lambda>c. of_option
          (Option.bind (debuglog_print_timestamp (draw_screen (reset_lines c)))
             (console_puts (Some (''console_init complete'' @ [CHR 0x0A]))))))"

end
