(* ===== verification/Panic_Screen.thy ===== *)
theory Panic_Screen
  imports Console
begin

unbundle bit_operations_syntax

text \<open>
  The last report of the kernel, \<^verbatim>\<open>kernel/panic.c\<close> in its freestanding build. The static variables are the
  fields of \<open>panic_info\<close>, together with the two variables of \<^verbatim>\<open>runstate.h\<close> that name the running program.
  A character buffer is the string it holds, cut at the capacity of the buffer. The registers are read by the
  machine and are an argument; the result is the state in which the processor is halted for good, None
  when the report waits for a device that is never ready.
\<close>

section \<open>State and strings\<close>

record panic_micropython_info_t =
  has_data :: bool
  mp_type :: string
  mp_message :: string
  mp_file :: string
  mp_function_name :: string
  mp_line :: u64

record panic_info =
  mp_info :: panic_micropython_info_t
  panic_error_code :: string
  current_program :: string
  current_user_app :: bool

record cpu_regs =
  r_rax :: u64
  r_rbx :: u64
  r_rcx :: u64
  r_rdx :: u64
  r_rsi :: u64
  r_rdi :: u64
  r_rbp :: u64
  r_rsp :: u64
  r_rflags :: u64
  r_cr2 :: u64

definition clamp_strlen :: "string option \<Rightarrow> nat \<Rightarrow> nat" where
  "clamp_strlen s max_len = (case s of None \<Rightarrow> 0 | Some t \<Rightarrow> min max_len (length t))"

definition copy_trimmed :: "nat \<Rightarrow> string option \<Rightarrow> string" where
  "copy_trimmed dst_size src = (case src of None \<Rightarrow> [] | Some s \<Rightarrow> take (dst_size - 1) s)"

fun append_loop :: "nat \<Rightarrow> string \<Rightarrow> string \<Rightarrow> string" where
  "append_loop dst_size [] dst = dst"
| "append_loop dst_size (ch # cs) dst = (if length dst + 1 < dst_size then append_loop dst_size cs (dst @ [ch]) else dst)"

definition append_trimmed :: "nat \<Rightarrow> string option \<Rightarrow> string \<Rightarrow> string" where
  "append_trimmed dst_size src dst =
     (if dst_size \<le> clamp_strlen (Some dst) dst_size then dst
      else case src of None \<Rightarrow> dst | Some s \<Rightarrow> append_loop dst_size s dst)"

text \<open>The digits of a number from the highest on; leading zeros are left out. The flag says whether a digit was written.\<close>

fun hex_fill :: "nat \<Rightarrow> u64 \<Rightarrow> nat list \<Rightarrow> bool \<Rightarrow> string \<Rightarrow> bool \<times> string" where
  "hex_fill dst_size v [] started dst = (started, dst)"
| "hex_fill dst_size v (sh # shs) started dst =
     (if \<not> length dst + 1 < dst_size then (started, dst)
      else
        let digit = hex_digits ! unat (drop_bit sh v AND 0xF) in
        if \<not> started \<and> digit = CHR ''0'' \<and> 0 < sh then hex_fill dst_size v shs started dst
        else hex_fill dst_size v shs True (dst @ [digit]))"

definition hex_shifts :: "nat list" where
  "hex_shifts = map (\<lambda>i. 4 * i) (rev [0..<16])"

definition append_hex :: "nat \<Rightarrow> u64 \<Rightarrow> string \<Rightarrow> string" where
  "append_hex dst_size v dst =
     (if dst_size \<le> clamp_strlen (Some dst) dst_size + 3 then dst
      else
        let (started, dst) = hex_fill dst_size v hex_shifts False (dst @ ''0x'')
        in if \<not> started \<and> length dst + 1 < dst_size then dst @ ''0'' else dst)"

section \<open>Output\<close>

definition print_both :: "string \<Rightarrow> console \<Rightarrow> console option" where
  "print_both s c = Option.bind (console_puts (Some s) c) (serial_write s)"

definition print_hex_both :: "u64 \<Rightarrow> console \<Rightarrow> console option" where
  "print_hex_both v c = Option.bind (console_uhex v c) (serial_uhex v)"

text \<open>The decimal printers take 32 bits.\<close>

definition print_dec_both :: "u64 \<Rightarrow> console \<Rightarrow> console option" where
  "print_dec_both v c = Option.bind (console_udec (ucast v) c) (serial_udec (ucast v))"

text \<open>Reports one after the other.\<close>

fun run_all :: "(console \<Rightarrow> console option) list \<Rightarrow> console \<Rightarrow> console option" where
  "run_all [] c = Some c"
| "run_all (f # fs) c = Option.bind (f c) (run_all fs)"

definition hex_pair :: "u8 \<Rightarrow> string" where
  "hex_pair b = [hex_digits ! unat (drop_bit 4 b), hex_digits ! unat (b AND 0xF)]"

fun dump_bytes :: "addr \<Rightarrow> nat list \<Rightarrow> console \<Rightarrow> console option" where
  "dump_bytes p [] c = Some c"
| "dump_bytes p (j # js) c = Option.bind (print_both (hex_pair (cram c (p + of_nat j)) @ '' '') c) (dump_bytes p js)"

definition dump_stack_bytes :: "u64 \<Rightarrow> console \<Rightarrow> console option" where
  "dump_stack_bytes rsp =
     run_all (concat (map (\<lambda>i. let pos = rsp + of_nat i in
       [print_hex_both pos, print_both '': '', dump_bytes pos [0..<16], print_both [CHR 0x0A]]) [0, 16, 32, 48]))"

definition print_register_line :: "string \<Rightarrow> u64 \<Rightarrow> console \<Rightarrow> console option" where
  "print_register_line name v =
     run_all [print_both ''  '', print_both name, print_both '': 0x'', print_hex_both v, print_both [CHR 0x0A]]"

fun memdump_bytes :: "addr \<Rightarrow> nat list \<Rightarrow> console \<Rightarrow> console option" where
  "memdump_bytes p [] c = Some c"
| "memdump_bytes p (j # js) c =
     (let b = hex_pair (cram c (p + of_nat j)) in
      Option.bind (run_all [put_both (b ! 0), put_both (b ! 1), put_both (CHR '' '')] c) (memdump_bytes p js))"

text \<open>Lines of 16 bytes; the line with the instruction pointer is marked.\<close>

definition memdump_direct :: "addr \<Rightarrow> nat \<Rightarrow> u64 \<Rightarrow> console \<Rightarrow> console option" where
  "memdump_direct p len rip =
     run_all (concat (map (\<lambda>i. let pos = p + of_nat i; line_len = (if len - i < 16 then len - i else 16) in
       [\<lambda>c. Option.bind (console_uhex pos c) (console_puts (Some '': '')),
        \<lambda>c. Option.bind (serial_uhex pos c) (serial_write '': ''),
        memdump_bytes pos [0..<line_len],
        if pos \<le> rip \<and> rip < pos + of_nat line_len then print_both (''<- RIP'' @ [CHR 0x0A]) else put_both (CHR 0x0A)])
       (filter (\<lambda>i. i mod 16 = 0) [0..<len])))"

section \<open>Error codes\<close>

definition sizeof_error_code :: nat where "sizeof_error_code = 96"

definition panic_set_error_code :: "string option \<Rightarrow> panic_info \<Rightarrow> panic_info" where
  "panic_set_error_code code p = p\<lparr>panic_error_code := copy_trimmed sizeof_error_code code\<rparr>"

definition set_default_kernel_code :: "u64 \<Rightarrow> panic_info \<Rightarrow> panic_info" where
  "set_default_kernel_code rip p =
     (let buffer = ''KERN_PANIC@'' in
      panic_set_error_code (Some (if current_program p \<noteq> [] then append_trimmed sizeof_error_code (Some (current_program p)) buffer
        else append_hex sizeof_error_code rip buffer)) p)"

definition mpy_code :: "panic_info \<Rightarrow> string" where
  "mpy_code p = append_trimmed sizeof_error_code (Some (if mp_file (mp_info p) \<noteq> [] then mp_file (mp_info p) else ''<mpy>'')) ''MPYFAULT@''"

definition known_messages :: "(string \<times> string) list" where
  "known_messages =
    [(''Fatal exception'', ''CPU_EXCEPTION''), (''Unhandled IRQ'', ''IRQ_FAILURE''), (''Invalid multiboot magic'', ''BOOT_HEADER''),
     (''No modules found'', ''MISSING_MODULES''), (''no user stack'', ''EXHAUSTED_RESOURCES''), (''init not found'', ''KERN_PANIC@init'')]"

definition ensure_error_code :: "string \<Rightarrow> u64 \<Rightarrow> panic_info \<Rightarrow> panic_info" where
  "ensure_error_code msg rip p =
     (if panic_error_code p \<noteq> [] then p
      else if has_data (mp_info p) then panic_set_error_code (Some (mpy_code p)) p
      else case find (\<lambda>(text, code). first_occ text msg \<noteq> None) known_messages of
        Some (text, code) \<Rightarrow> panic_set_error_code (Some code) p
      | None \<Rightarrow> set_default_kernel_code rip p)"

definition panic_set_micropython_details ::
  "string option \<Rightarrow> string option \<Rightarrow> string option \<Rightarrow> u64 \<Rightarrow> string option \<Rightarrow> panic_info \<Rightarrow> panic_info" where
  "panic_set_micropython_details type msg fl line function_name p =
     (let p = p\<lparr>mp_info := \<lparr>has_data = True, mp_type = copy_trimmed 64 type, mp_message = copy_trimmed 192 msg, mp_file = copy_trimmed 128 fl,
                mp_function_name = copy_trimmed 96 function_name, mp_line = line\<rparr>\<rparr>
      in panic_set_error_code (Some (mpy_code p)) p)"

section \<open>The report\<close>

abbreviation nl :: string where "nl \<equiv> [CHR 0x0A]"

definition VGA_RED :: u8 where "VGA_RED = 4"

definition render_rsof_banner :: "string \<Rightarrow> panic_info \<Rightarrow> console \<Rightarrow> console option" where
  "render_rsof_banner msg p c =
     run_all ([print_both (''RSOF - Red Screen of Failure'' @ nl), print_both ''Error: '',
        print_both (if panic_error_code p \<noteq> [] then panic_error_code p else ''KERN_PANIC''), print_both nl] @
        (if msg \<noteq> [] then [print_both ''Reason: '', print_both msg, print_both nl] else []) @
        [print_both (''System halted to protect the kernel. Press '' @ [CHR 0x27] @ ''D'' @ [CHR 0x27] @ '' for details.'' @ nl @ nl)])
       (console_clear (console_set_attr VGA_WHITE VGA_RED c))"

definition register_lines :: "(string \<times> u64) list \<Rightarrow> (console \<Rightarrow> console option) list" where
  "register_lines = map (\<lambda>(name, v). print_register_line name v)"

definition print_heap_free :: "console \<Rightarrow> console option" where
  "print_heap_free c = Option.bind (mem_heap_free (cmem c)) (\<lambda>n. print_dec_both n c)"

definition or_unknown :: "string \<Rightarrow> string" where
  "or_unknown s = (if s \<noteq> [] then s else ''<unknown>'')"

definition short_report :: "string \<Rightarrow> u64 \<Rightarrow> cpu_regs \<Rightarrow> panic_info \<Rightarrow> (console \<Rightarrow> console option) list" where
  "short_report msg rip r p =
     (let i = mp_info p in
      [print_both (''--- KERNEL PANIC ---'' @ nl)] @
      (if has_data i then
         [print_both (''MicroPython Exception:'' @ nl), print_both ''  '', print_both (mp_type i), print_both '': '', print_both (mp_message i), print_both nl,
          print_both (''  File '' @ [CHR 0x22]), print_both (or_unknown (mp_file i)), print_both ([CHR 0x22] @ '', line ''), print_dec_both (mp_line i), print_both nl]
       else [print_both ''Message: '', print_both msg, print_both nl]) @
      [print_both (''Registers:'' @ nl)] @
      register_lines [(''RIP'', rip), (''RSP'', r_rsp r), (''RBP'', r_rbp r), (''RAX'', r_rax r), (''RBX'', r_rbx r), (''RCX'', r_rcx r),
        (''RDX'', r_rdx r), (''RSI'', r_rsi r), (''RDI'', r_rdi r)] @
      [print_both (nl @ ''Stack (64 bytes):'' @ nl), dump_stack_bytes (r_rsp r),
       print_both (nl @ ''Call Trace:'' @ nl), print_both (''  mp_exec_file()'' @ nl), print_both (''  mp_init()'' @ nl), print_both (''  kernel_main()'' @ nl),
       print_both (nl @ ''Memory:'' @ nl @ ''  Heap free: ''), print_heap_free, print_both ('' bytes'' @ nl @ ''  Current program: ''),
       print_both (current_program p), print_both (nl @ nl @ ''Press '' @ [CHR 0x27] @ ''D'' @ [CHR 0x27] @ '' for detailed report or any other key to halt.'' @ nl)])"

definition detailed_report :: "u64 \<Rightarrow> bool \<Rightarrow> cpu_regs \<Rightarrow> panic_info \<Rightarrow> (console \<Rightarrow> console option) list" where
  "detailed_report rip user r p =
     (let i = mp_info p in
      [print_both (nl @ ''=== DETAILED CRASH REPORT ==='' @ nl @ nl)] @
      (if has_data i then
         [print_both (''MicroPython Exception Details:'' @ nl), print_both ''  Type: '', print_both (mp_type i), print_both nl,
          print_both ''  Message: '', print_both (mp_message i), print_both nl, print_both ''  File: '', print_both (or_unknown (mp_file i)), print_both nl,
          print_both ''  Line: '', print_dec_both (mp_line i), print_both nl, print_both ''  Last MicroPython function: '',
          print_both (or_unknown (mp_function_name i)), print_both (nl @ nl)]
       else []) @
      [print_both (''Registers:'' @ nl)] @
      register_lines [(''RIP '', rip), (''RSP '', r_rsp r), (''RBP '', r_rbp r), (''RAX '', r_rax r), (''RBX '', r_rbx r), (''RCX '', r_rcx r),
        (''RDX '', r_rdx r), (''RSI '', r_rsi r), (''RDI '', r_rdi r), (''RFLAGS'', r_rflags r)] @
      [print_both (nl @ ''Stack Dump (64 bytes @ RSP):'' @ nl), dump_stack_bytes (r_rsp r),
       print_both (nl @ ''Call Trace:'' @ nl), print_both (''  0: mp_task_exec()'' @ nl), print_both (''  1: mp_init()'' @ nl),
       print_both (''  2: py_exec_file()'' @ nl), print_both (''  3: kernel_main()'' @ nl @ nl),
       print_both (''System Status:'' @ nl), print_both ''  Source: '', print_both (if user then ''user'' else ''kernel''), print_both nl,
       print_both ''  Current program: '', print_both (current_program p), print_both nl,
       print_both ''  Heap: '', print_heap_free, print_both ('' bytes free'' @ nl),
       print_both (nl @ ''=== END OF DETAILED REPORT ==='' @ nl)])"

text \<open>The end of the report after the key of the user.\<close>

definition finish_report :: "u64 \<Rightarrow> fs_state \<Rightarrow> console \<Rightarrow> console option" where
  "finish_report rip fs c =
     run_all [console_puts (Some (''Code around RIP:'' @ nl)), serial_write (''Code around RIP:'' @ nl),
       memdump_direct (rip AND NOT 0xF) 64 rip, \<lambda>c. Some (debuglog_flush fs c), debuglog_dump_console] (debuglog_save_file fs c)"

definition panic_with_context :: "cpu_regs \<Rightarrow> string \<Rightarrow> u64 \<Rightarrow> bool \<Rightarrow> fs_state \<Rightarrow> panic_info \<Rightarrow> console \<Rightarrow> (panic_info \<times> console) option" where
  "panic_with_context r msg rip user fs p c =
     Option.bind (run_all [serial_init, debuglog_print_timestamp] c) (\<lambda>c.
       let p = ensure_error_code msg rip p in
       Option.bind (render_rsof_banner (if has_data (mp_info p) then mp_message (mp_info p) else msg) p c) (\<lambda>c.
         Option.bind (run_all (short_report msg rip r p) c) (\<lambda>c.
           Option.bind (console_getc c) (\<lambda>(choice, c).
             Option.bind (run_all [serial_putc choice, serial_write nl] c) (\<lambda>c.
               Option.bind (if choice = CHR ''d'' \<or> choice = CHR ''D'' then run_all (detailed_report rip user r p) c else Some c) (\<lambda>c.
                 map_option (Pair p) (finish_report rip fs c)))))))"

text \<open>The address of the caller, which the compiler provides, is the argument \<open>rip\<close>.\<close>

definition panic :: "cpu_regs \<Rightarrow> u64 \<Rightarrow> string \<Rightarrow> fs_state \<Rightarrow> panic_info \<Rightarrow> console \<Rightarrow> (panic_info \<times> console) option" where
  "panic r rip msg = panic_with_context r msg rip False"

end
