(* ===== verification/Syscall.thy ===== *)
theory Syscall
  imports Proc_Exec Console
begin

unbundle bit_operations_syntax

text \<open>
  The system calls of \<^verbatim>\<open>kernel/syscall.c\<close> over the whole kernel: the processes with their memory and
  files, the FAT volume and the console. The components share one kernel heap and its RAM, the one of
  the process table; a call on the console works on it and gives it back.

  What is outside the kernel is the record \<open>sys_env\<close>: the end of the kernel image, which the linker
  chooses, the machine code of user programs, and the MicroPython runtime. A structure that a component
  fills for the caller is part of the result; strings and plain fields are stored in RAM. Paths are read
  from RAM when the call starts.
\<close>

section \<open>State and numbers\<close>

datatype sysno =
    SYS_WRITE | SYS_EXIT | SYS_MEM_ALLOC | SYS_MEM_FREE | SYS_FS_READ | SYS_FS_WRITE | SYS_PROC_SPAWN
  | SYS_FS_OPEN | SYS_FS_READ_FD | SYS_FS_WRITE_FD | SYS_FS_LSEEK_FD | SYS_FS_CLOSE | SYS_FS_FILE_SIZE
  | SYS_READ | SYS_GETPID | SYS_GETPPID | SYS_PROC_INFO | SYS_PROC_LIST | SYS_PROC_WAIT | SYS_PROC_KILL
  | SYS_WRITE_FD | SYS_DUP | SYS_DUP2 | SYS_UPTIME_MS | SYS_SLEEP_MS | SYS_PIPE | SYS_EXECVE
  | SYS_PROC_SPAWN_EX | SYS_DMESG_READ | SYS_MEM_INFO | SYS_SYNC | SYS_IOCTL
  | SYS_VFS_OPEN | SYS_VFS_READ | SYS_VFS_WRITE | SYS_VFS_LSEEK | SYS_VFS_CLOSE | SYS_VFS_MKDIR | SYS_VFS_UNLINK
  | SYS_VFS_RENAME | SYS_VFS_CHDIR | SYS_VFS_GETCWD | SYS_VFS_STAT | SYS_VFS_FSTAT | SYS_VFS_GETDENTS
  | SYS_VFS_RMDIR | SYS_VFS_ACCESS | SYS_MOUNT_INFO | SYS_DISK_LIST | SYS_DISK_INFO | SYS_REBOOT | SYS_POWEROFF
  | SYS_MPY_EXEC_FILE | SYS_FB_INFO | SYS_DISPLAY_MODE | SYS_FB_CLEAR | SYS_FB_DRAW_PIXEL

text \<open>The calls in the order of their numbers, from 0 on.\<close>

definition sysno_list :: "sysno list" where
  "sysno_list =
    [SYS_WRITE, SYS_EXIT, SYS_MEM_ALLOC, SYS_MEM_FREE, SYS_FS_READ, SYS_FS_WRITE, SYS_PROC_SPAWN,
     SYS_FS_OPEN, SYS_FS_READ_FD, SYS_FS_WRITE_FD, SYS_FS_LSEEK_FD, SYS_FS_CLOSE, SYS_FS_FILE_SIZE,
     SYS_READ, SYS_GETPID, SYS_GETPPID, SYS_PROC_INFO, SYS_PROC_LIST, SYS_PROC_WAIT, SYS_PROC_KILL,
     SYS_WRITE_FD, SYS_DUP, SYS_DUP2, SYS_UPTIME_MS, SYS_SLEEP_MS, SYS_PIPE, SYS_EXECVE,
     SYS_PROC_SPAWN_EX, SYS_DMESG_READ, SYS_MEM_INFO, SYS_SYNC, SYS_IOCTL,
     SYS_VFS_OPEN, SYS_VFS_READ, SYS_VFS_WRITE, SYS_VFS_LSEEK, SYS_VFS_CLOSE, SYS_VFS_MKDIR, SYS_VFS_UNLINK,
     SYS_VFS_RENAME, SYS_VFS_CHDIR, SYS_VFS_GETCWD, SYS_VFS_STAT, SYS_VFS_FSTAT, SYS_VFS_GETDENTS,
     SYS_VFS_RMDIR, SYS_VFS_ACCESS, SYS_MOUNT_INFO, SYS_DISK_LIST, SYS_DISK_INFO, SYS_REBOOT, SYS_POWEROFF,
     SYS_MPY_EXEC_FILE, SYS_FB_INFO, SYS_DISPLAY_MODE, SYS_FB_CLEAR, SYS_FB_DRAW_PIXEL]"

definition sysno_of :: "u64 \<Rightarrow> sysno option" where
  "sysno_of num = (if unat num < length sysno_list then Some (sysno_list ! unat num) else None)"

record sys_rest =
  s_con :: console
  s_fs :: fs_state

type_synonym system = "sys_rest \<times> kernel"

datatype sys_out =
    No_out | Out_proc proc_info_t | Out_procs "proc_info_t list" | Out_status int | Out_mem mem_info
  | Out_stat vfs_stat_t | Out_dents "vfs_dirent list"

type_synonym sys_res = "(u64 \<times> sys_out \<times> system) outcome"

record sys_env =
  k_end :: addr
  user_code :: "addr \<Rightarrow> addr \<Rightarrow> system \<Rightarrow> system outcome"
  mp_runtime_exec :: "addr \<Rightarrow> u64 \<Rightarrow> string option \<Rightarrow> system \<Rightarrow> system outcome"

definition sizeof_proc_info :: u64 where "sizeof_proc_info = 360"
definition sizeof_vfs_stat :: u64 where "sizeof_vfs_stat = 24"
definition sizeof_vfs_dirent :: u64 where "sizeof_vfs_dirent = 48"
definition sizeof_mem_info :: u64 where "sizeof_mem_info = 48"
definition sizeof_fb_info :: u64 where "sizeof_fb_info = 24"
definition SYS_DISPLAY_ENABLE_LOGS :: u64 where "SYS_DISPLAY_ENABLE_LOGS = 1"
definition SYS_DISPLAY_DISABLE_LOGS :: u64 where "SYS_DISPLAY_DISABLE_LOGS = 2"
definition SYS_DISPLAY_DARK_MODE :: u64 where "SYS_DISPLAY_DARK_MODE = 3"
definition SYS_DISPLAY_WHITE_MODE :: u64 where "SYS_DISPLAY_WHITE_MODE = 4"

section \<open>Arguments\<close>

definition user_ptr_valid :: "sys_env \<Rightarrow> addr \<Rightarrow> u64 \<Rightarrow> kernel \<Rightarrow> bool" where
  "user_ptr_valid env p len k =
     (let e = p + len in
      if e < p then False
      else if k_end env \<le> p then True
      else case proc_info (proc_current_pid k) 1 k of
        (r, None) \<Rightarrow> False
      | (r, Some pinfo) \<Rightarrow>
          if r \<noteq> 0 then False
          else if 4096 \<le> stack_pointer pinfo \<and> stack_pointer pinfo - 4096 \<le> p \<and> e \<le> stack_pointer pinfo then True
          else if image_base pinfo \<noteq> 0 \<and> image_base pinfo \<le> p \<and> e \<le> image_base pinfo + image_size pinfo then True
          else False)"

text \<open>An argument as a C \<open>int\<close>, and the result of a component as the value of the call.\<close>

definition int_arg :: "u64 \<Rightarrow> int" where
  "int_arg a = sint (ucast a :: u32)"

definition ret_int :: "int \<Rightarrow> system \<Rightarrow> sys_res" where
  "ret_int r s = Ret (word_of_int r, No_out, s)"

definition sys_ram :: "system \<Rightarrow> ram" where
  "sys_ram s = kram (snd s)"

definition upd_sys_ram :: "(ram \<Rightarrow> ram) \<Rightarrow> system \<Rightarrow> system" where
  "upd_sys_ram f s = (fst s, upd_ram f (snd s))"

definition user_chars :: "addr \<Rightarrow> u64 \<Rightarrow> system \<Rightarrow> string option" where
  "user_chars p len s = (if p = 0 then None else Some (map (\<lambda>i. char_of (unat (sys_ram s (p + of_nat i)))) [0..<unat len]))"

text \<open>A path of the caller, after the check of its first byte.\<close>

definition with_path :: "sys_env \<Rightarrow> addr \<Rightarrow> (string option \<Rightarrow> system \<Rightarrow> sys_res) \<Rightarrow> system \<Rightarrow> sys_res" where
  "with_path env p f s =
     (if \<not> user_ptr_valid env p 1 (snd s) then ret_int (- 1) s
      else if p = 0 then f None s
      else bind_outcome (of_option (strlen (sys_ram s) p)) (\<lambda>n. f (user_chars p n s) s))"

definition with_buffer :: "sys_env \<Rightarrow> addr \<Rightarrow> u64 \<Rightarrow> (system \<Rightarrow> sys_res) \<Rightarrow> system \<Rightarrow> sys_res" where
  "with_buffer env p len f s = (if \<not> user_ptr_valid env p len (snd s) then ret_int (- 1) s else f s)"

section \<open>Calls on the components\<close>

definition on_console :: "(console \<Rightarrow> ('a \<times> console) option) \<Rightarrow> system \<Rightarrow> ('a \<times> system) outcome" where
  "on_console f s =
     (let (w, k) = s in
      bind_outcome (of_option (f ((s_con w)\<lparr>cmem := kmem k\<rparr>))) (\<lambda>(x, c).
        Ret (x, w\<lparr>s_con := c\<rparr>, k\<lparr>kmem := cmem c\<rparr>)))"

definition run_console :: "(console \<Rightarrow> console option) \<Rightarrow> system \<Rightarrow> system outcome" where
  "run_console f s = bind_outcome (on_console (\<lambda>c. map_option (Pair ()) (f c)) s) (\<lambda>(_, s). Ret s)"

definition on_kernel :: "(kernel \<Rightarrow> (int \<times> kernel) outcome) \<Rightarrow> system \<Rightarrow> sys_res" where
  "on_kernel f s = bind_outcome (f (snd s)) (\<lambda>(r, k). ret_int r (fst s, k))"

definition on_vfs :: "(vfs_state \<Rightarrow> mem_state \<Rightarrow> (int \<times> vfs_state \<times> mem_state) outcome) \<Rightarrow> system \<Rightarrow> sys_res" where
  "on_vfs f = on_kernel (\<lambda>k. bind_outcome (f (kvfs k) (kmem k)) (\<lambda>(r, v, m). Ret (r, k\<lparr>kvfs := v, kmem := m\<rparr>)))"

definition on_tree :: "(vfs_state \<Rightarrow> int \<times> vfs_state) \<Rightarrow> system \<Rightarrow> sys_res" where
  "on_tree f = on_vfs (\<lambda>v m. let (r, v) = f v in Ret (r, v, m))"

definition on_fs :: "(fs_state \<Rightarrow> ram \<Rightarrow> (int \<times> fs_state \<times> ram) outcome) \<Rightarrow> system \<Rightarrow> sys_res" where
  "on_fs f s =
     bind_outcome (f (s_fs (fst s)) (sys_ram s)) (\<lambda>(r, fs, m).
       ret_int r ((fst s)\<lparr>s_fs := fs\<rparr>, upd_ram (\<lambda>_. m) (snd s)))"

section \<open>The longer calls\<close>

definition console_print :: "addr \<Rightarrow> u64 \<Rightarrow> system \<Rightarrow> sys_res" where
  "console_print p len s = bind_outcome (run_console (console_write (user_chars p len s)) s) (\<lambda>s. Ret (len, No_out, s))"

definition sys_write_fd :: "sys_env \<Rightarrow> u64 \<Rightarrow> u64 \<Rightarrow> u64 \<Rightarrow> system \<Rightarrow> sys_res" where
  "sys_write_fd env a1 a2 a3 =
     with_buffer env a2 a3 (\<lambda>s.
       let fd = int_arg a1 in
       if fd = 1 \<or> fd = 2 then console_print a2 a3 s
       else if 3 \<le> fd then on_kernel (\<lambda>k. proc_write (proc_current_pid k) fd a2 a3 k) s
       else ret_int (- 1) s)"

fun read_keys :: "addr \<Rightarrow> nat list \<Rightarrow> system \<Rightarrow> system outcome" where
  "read_keys b [] s = Ret s"
| "read_keys b (i # is) s =
     bind_outcome (on_console console_getc s) (\<lambda>(ch, s). read_keys b is (upd_sys_ram (\<lambda>r. r(b + of_nat i := of_char ch)) s))"

definition sys_read :: "sys_env \<Rightarrow> u64 \<Rightarrow> u64 \<Rightarrow> u64 \<Rightarrow> system \<Rightarrow> sys_res" where
  "sys_read env a1 a2 a3 =
     with_buffer env a2 a3 (\<lambda>s.
       if int_arg a1 = 0 then bind_outcome (read_keys a2 [0..<unat a3] s) (\<lambda>s. Ret (a3, No_out, s))
       else on_kernel (\<lambda>k. Ret (proc_read (proc_current_pid k) (int_arg a1) a2 a3 k)) s)"

definition sys_spawn :: "sys_env \<Rightarrow> u64 \<Rightarrow> system \<Rightarrow> sys_res" where
  "sys_spawn env a1 =
     with_path env a1 (\<lambda>path s.
       bind_outcome (proc_spawn_exec (user_code env) (proc_current_pid (snd s)) path s) (\<lambda>(r, s). ret_int r s))"

partial_function (option) sleep_loop :: "u64 \<Rightarrow> console \<Rightarrow> console option" where
  "sleep_loop e c = (let (t, h) = io_rdtsc (chw c); c = c\<lparr>chw := h\<rparr> in if t < e then sleep_loop e c else Some c)"

definition sys_sleep :: "u64 \<Rightarrow> system \<Rightarrow> sys_res" where
  "sys_sleep a1 s =
     bind_outcome (run_console (\<lambda>c. let (t, h) = io_rdtsc (chw c) in sleep_loop (t + a1 * 1000000) (c\<lparr>chw := h\<rparr>)) s)
       (\<lambda>s. Ret (0, No_out, s))"

definition sys_dmesg_read :: "sys_env \<Rightarrow> u64 \<Rightarrow> u64 \<Rightarrow> u64 \<Rightarrow> system \<Rightarrow> sys_res" where
  "sys_dmesg_read env a1 a2 a3 =
     with_buffer env a1 a2 (\<lambda>s.
       let c = s_con (fst s); len = debuglog_length c in
       if len \<le> a3 then Ret (0, No_out, s)
       else let n = (if a2 < len - a3 then a2 else len - a3)
            in Ret (n, No_out, upd_sys_ram (memcpy a1 (debuglog_buffer c + a3) n) s))"

definition sys_fb_info :: "sys_env \<Rightarrow> u64 \<Rightarrow> system \<Rightarrow> sys_res" where
  "sys_fb_info env a1 =
     with_buffer env a1 sizeof_fb_info (\<lambda>s.
       let c = s_con (fst s);
           fields = [framebuffer_width (cfb c), framebuffer_height (cfb c), framebuffer_pitch (cfb c), ucast (framebuffer_bpp (cfb c)),
                     bootmode_theme (cboot c), if bootmode_logs_visible (cboot c) then 1 else 0]
       in Ret (0, No_out, upd_sys_ram (fold (\<lambda>i. wr32 (a1 + of_nat (4 * i)) (fields ! i)) [0..<6]) s))"

definition set_theme_mode :: "u32 \<Rightarrow> console \<Rightarrow> console" where
  "set_theme_mode t c = console_clear (console_apply_boot_theme (c\<lparr>cboot := bootmode_set_theme t (cboot c)\<rparr>))"

definition sys_display_mode :: "u64 \<Rightarrow> system \<Rightarrow> sys_res" where
  "sys_display_mode a1 s =
     (if a1 = SYS_DISPLAY_ENABLE_LOGS then bind_outcome (run_console (\<lambda>c. Some (console_set_logs_visible True c)) s) (ret_int 0)
      else if a1 = SYS_DISPLAY_DISABLE_LOGS then bind_outcome (run_console (\<lambda>c. Some (console_set_logs_visible False c)) s) (ret_int 0)
      else if a1 = SYS_DISPLAY_DARK_MODE then bind_outcome (run_console (\<lambda>c. Some (set_theme_mode BOOT_THEME_DARK c)) s) (ret_int 0)
      else if a1 = SYS_DISPLAY_WHITE_MODE then bind_outcome (run_console (\<lambda>c. Some (set_theme_mode BOOT_THEME_WHITE c)) s) (ret_int 0)
      else ret_int (- 1) s)"

definition sys_draw_pixel :: "u64 \<Rightarrow> u64 \<Rightarrow> u64 \<Rightarrow> system \<Rightarrow> sys_res" where
  "sys_draw_pixel a1 a2 a3 s =
     (let (ok, m) = framebuffer_draw_pixel_rgb (cfb (s_con (fst s))) (ucast a1) (ucast a2) (ucast (drop_bit 16 a3)) (ucast (drop_bit 8 a3))
            (ucast a3) (sys_ram s)
      in ret_int (if ok then 0 else - 1) (upd_sys_ram (\<lambda>_. m) s))"

definition upd_kmem :: "system \<Rightarrow> mem_state \<Rightarrow> system" where
  "upd_kmem s m = (fst s, (snd s)\<lparr>kmem := m\<rparr>)"

definition sys_mpy_exec_file :: "sys_env \<Rightarrow> u64 \<Rightarrow> system \<Rightarrow> sys_res" where
  "sys_mpy_exec_file env a1 =
     with_path env a1 (\<lambda>path s.
       case vfs_stat path 1 (kvfs (snd s)) of
         (r, None) \<Rightarrow> ret_int (- 1) s
       | (r, Some st) \<Rightarrow>
           if r \<noteq> 0 \<or> stat_type st \<noteq> VFS_TYPE_FILE \<or> stat_size st = 0 then ret_int (- 1) s
           else
             let sz = stat_size st;
                 release = (\<lambda>b r s. bind_outcome (mem_free b (sz + 1) (kmem (snd s))) (\<lambda>m. ret_int r (upd_kmem s m)))
             in bind_outcome (mem_alloc (sz + 1) (kmem (snd s))) (\<lambda>(b, m).
               let s = upd_kmem s m in
               if b = 0 then ret_int (- 1) s
               else bind_outcome (read_vfs_file path b sz (snd s)) (\<lambda>(e, k).
                 let s = (fst s, k) in
                 if e \<noteq> 0 then release b (- 1) s
                 else bind_outcome (mp_runtime_exec env b sz path (upd_sys_ram (\<lambda>r. r(b + sz := 0)) s)) (release b 0))))"

section \<open>Dispatch\<close>

text \<open>The calls that need no valid current process.\<close>

definition current_required :: "sysno option \<Rightarrow> bool" where
  "current_required n \<longleftrightarrow> n \<notin> Some ` {SYS_GETPID, SYS_PROC_INFO, SYS_PROC_LIST, SYS_UPTIME_MS, SYS_MEM_INFO, SYS_SYNC, SYS_FB_INFO,
     SYS_DISPLAY_MODE, SYS_FB_CLEAR, SYS_FB_DRAW_PIXEL}"

definition syscall_dispatch :: "sys_env \<Rightarrow> u64 \<Rightarrow> u64 \<Rightarrow> u64 \<Rightarrow> u64 \<Rightarrow> system \<Rightarrow> sys_res" where
  "syscall_dispatch env num a1 a2 a3 s =
     (let k = snd s; cur = proc_current_pid k; fs = s_fs (fst s) in
      if current_required (sysno_of num) \<and> \<not> proc_current_valid k then ret_int (- 1) s
      else case sysno_of num of
        None \<Rightarrow> ret_int (- 1) s
      | Some n \<Rightarrow> (case n of
          SYS_WRITE \<Rightarrow> with_buffer env a1 a2 (console_print a1 a2) s
        | SYS_WRITE_FD \<Rightarrow> sys_write_fd env a1 a2 a3 s
        | SYS_READ \<Rightarrow> sys_read env a1 a2 a3 s
        | SYS_EXIT \<Rightarrow> bind_outcome (on_kernel (proc_exit cur (int_arg a1)) s) (\<lambda>(_, _, s). ret_int 0 s)
        | SYS_MEM_ALLOC \<Rightarrow> bind_outcome (mem_alloc a1 (kmem k)) (\<lambda>(p, m). Ret (p, No_out, upd_kmem s m))
        | SYS_MEM_FREE \<Rightarrow> with_buffer env a1 a2 (\<lambda>s. bind_outcome (mem_free a1 a2 (kmem (snd s))) (\<lambda>m. ret_int 0 (upd_kmem s m))) s
        | SYS_FS_READ \<Rightarrow> with_buffer env a2 a3 (\<lambda>s. let (n, m) = fs_read a1 a2 a3 fs (sys_ram s) in Ret (n, No_out, upd_sys_ram (\<lambda>_. m) s)) s
        | SYS_FS_WRITE \<Rightarrow> with_buffer env a2 a3 (\<lambda>s. let (n, m) = fs_write a1 a2 a3 fs (sys_ram s) in Ret (n, No_out, upd_sys_ram (\<lambda>_. m) s)) s
        | SYS_PROC_SPAWN \<Rightarrow> sys_spawn env a1 s
        | SYS_GETPID \<Rightarrow> ret_int (if proc_current_valid k then cur else - 1) s
        | SYS_GETPPID \<Rightarrow> (case proc_info cur 1 k of
              (r, Some pinfo) \<Rightarrow> ret_int (if proc_current_valid k \<and> r = 0 then pi_parent_pid pinfo else - 1) s
            | (r, None) \<Rightarrow> ret_int (- 1) s)
        | SYS_PROC_INFO \<Rightarrow> with_buffer env a2 sizeof_proc_info (\<lambda>s.
              let (r, out) = proc_info (int_arg a1) a2 k in Ret (word_of_int r, case out of None \<Rightarrow> No_out | Some x \<Rightarrow> Out_proc x, s)) s
        | SYS_PROC_LIST \<Rightarrow> with_buffer env a1 (a2 * sizeof_proc_info) (\<lambda>s.
              let (r, out) = proc_list a1 a2 k in Ret (word_of_int r, Out_procs out, s)) s
        | SYS_PROC_WAIT \<Rightarrow> (if a2 \<noteq> 0 \<and> \<not> user_ptr_valid env a2 4 k then ret_int (- 1) s
            else bind_outcome (proc_wait cur (int_arg a1) a2 k) (\<lambda>(r, st, k).
              Ret (word_of_int r, case st of None \<Rightarrow> No_out | Some x \<Rightarrow> Out_status x, (fst s, k))))
        | SYS_PROC_KILL \<Rightarrow> on_kernel (proc_kill (int_arg a1) (int_arg a2)) s
        | SYS_DUP \<Rightarrow> on_kernel (\<lambda>k. Ret (proc_dup cur (int_arg a1) k)) s
        | SYS_DUP2 \<Rightarrow> on_kernel (\<lambda>k. Ret (proc_dup2 cur (int_arg a1) (int_arg a2) k)) s
        | SYS_UPTIME_MS \<Rightarrow> bind_outcome (on_console (\<lambda>c. let (t, h) = io_rdtsc (chw c) in Some (t div 1000000, c\<lparr>chw := h\<rparr>)) s)
            (\<lambda>(t, s). Ret (t, No_out, s))
        | SYS_SLEEP_MS \<Rightarrow> sys_sleep a1 s
        | SYS_PIPE \<Rightarrow> ret_int (- 1) s
        | SYS_EXECVE \<Rightarrow> sys_spawn env a1 s
        | SYS_PROC_SPAWN_EX \<Rightarrow> sys_spawn env a1 s
        | SYS_DMESG_READ \<Rightarrow> sys_dmesg_read env a1 a2 a3 s
        | SYS_MEM_INFO \<Rightarrow> with_buffer env a1 sizeof_mem_info (\<lambda>s.
              if a1 = 0 then ret_int 0 s
              else bind_outcome (of_option (mem_get_info (kmem k))) (\<lambda>i. Ret (0, Out_mem i, s))) s
        | SYS_SYNC \<Rightarrow> bind_outcome (run_console (\<lambda>c. Some (debuglog_flush fs c)) s) (ret_int 0)
        | SYS_IOCTL \<Rightarrow> (if a1 = 1 then bind_outcome (run_console (\<lambda>c. Some (console_clear c)) s) (ret_int 0) else ret_int 0 s)
        | SYS_FS_OPEN \<Rightarrow> with_path env a1 (\<lambda>path. on_fs (fs_open path (int_arg a2))) s
        | SYS_FS_READ_FD \<Rightarrow> with_buffer env a2 a3 (on_fs (fs_read_fd (int_arg a1) a2 a3)) s
        | SYS_FS_WRITE_FD \<Rightarrow> with_buffer env a2 a3 (on_fs (fs_write_fd (int_arg a1) a2 a3)) s
        | SYS_FS_LSEEK_FD \<Rightarrow> on_fs (\<lambda>f m. let (r, f) = fs_lseek_fd (int_arg a1) (sint a2) (int_arg a3) f in Ret (r, f, m)) s
        | SYS_FS_CLOSE \<Rightarrow> on_fs (\<lambda>f m. let (r, f) = fs_close (int_arg a1) f in Ret (r, f, m)) s
        | SYS_FS_FILE_SIZE \<Rightarrow> ret_int (fs_file_size (int_arg a1) fs) s
        | SYS_VFS_OPEN \<Rightarrow> with_path env a1 (\<lambda>path. on_vfs (vfs_open path (int_arg a2))) s
        | SYS_VFS_READ \<Rightarrow> with_buffer env a2 a3 (on_vfs (\<lambda>v m. Ret (vfs_read (int_arg a1) a2 a3 v m))) s
        | SYS_VFS_WRITE \<Rightarrow> with_buffer env a2 a3 (on_vfs (vfs_write (int_arg a1) a2 a3)) s
        | SYS_VFS_LSEEK \<Rightarrow> on_tree (vfs_lseek (int_arg a1) (sint a2) (int_arg a3)) s
        | SYS_VFS_CLOSE \<Rightarrow> on_tree (vfs_close (int_arg a1)) s
        | SYS_VFS_MKDIR \<Rightarrow> with_path env a1 (\<lambda>path. on_tree (vfs_mkdir path)) s
        | SYS_VFS_UNLINK \<Rightarrow> with_path env a1 (\<lambda>path. on_vfs (vfs_unlink path)) s
        | SYS_VFS_RMDIR \<Rightarrow> with_path env a1 (\<lambda>path. on_vfs (vfs_rmdir path)) s
        | SYS_VFS_ACCESS \<Rightarrow> with_path env a1 (\<lambda>path. on_tree (\<lambda>v. (vfs_access path (int_arg a2) v, v))) s
        | SYS_VFS_RENAME \<Rightarrow> (if \<not> user_ptr_valid env a1 1 k \<or> \<not> user_ptr_valid env a2 1 k then ret_int (- 1) s
            else with_path env a1 (\<lambda>old. with_path env a2 (\<lambda>new. on_tree (vfs_rename old new))) s)
        | SYS_VFS_CHDIR \<Rightarrow> with_path env a1 (\<lambda>path. on_tree (vfs_chdir path)) s
        | SYS_VFS_GETCWD \<Rightarrow> with_buffer env a1 a2 (\<lambda>s. bind_outcome (of_option (vfs_getcwd a1 a2 (kvfs k))) (\<lambda>(r, cwd).
              ret_int r (case cwd of None \<Rightarrow> s | Some d \<Rightarrow> upd_sys_ram (put_bytes a1 (map of_char d @ [0])) s))) s
        | SYS_VFS_STAT \<Rightarrow> (if \<not> user_ptr_valid env a1 1 k \<or> \<not> user_ptr_valid env a2 sizeof_vfs_stat k then ret_int (- 1) s
            else with_path env a1 (\<lambda>path s.
              let (r, st) = vfs_stat path a2 (kvfs k) in Ret (word_of_int r, case st of None \<Rightarrow> No_out | Some x \<Rightarrow> Out_stat x, s)) s)
        | SYS_VFS_FSTAT \<Rightarrow> with_buffer env a2 sizeof_vfs_stat (\<lambda>s.
              let (r, st) = vfs_fstat (int_arg a1) a2 (kvfs k) in Ret (word_of_int r, case st of None \<Rightarrow> No_out | Some x \<Rightarrow> Out_stat x, s)) s
        | SYS_VFS_GETDENTS \<Rightarrow> with_buffer env a2 (a3 * sizeof_vfs_dirent) (\<lambda>s.
              let (r, es, v) = vfs_getdents (int_arg a1) a2 a3 (kvfs k) in Ret (word_of_int r, Out_dents es, (fst s, (snd s)\<lparr>kvfs := v\<rparr>))) s
        | SYS_MOUNT_INFO \<Rightarrow> ret_int 0 s
        | SYS_DISK_LIST \<Rightarrow> ret_int 0 s
        | SYS_DISK_INFO \<Rightarrow> ret_int 0 s
        | SYS_FB_INFO \<Rightarrow> sys_fb_info env a1 s
        | SYS_DISPLAY_MODE \<Rightarrow> sys_display_mode a1 s
        | SYS_FB_CLEAR \<Rightarrow> bind_outcome (run_console (\<lambda>c. Some (console_clear c)) s) (ret_int 0)
        | SYS_FB_DRAW_PIXEL \<Rightarrow> sys_draw_pixel a1 a2 a3 s
        | SYS_MPY_EXEC_FILE \<Rightarrow> sys_mpy_exec_file env a1 s
        | SYS_REBOOT \<Rightarrow> ret_int 0 s
        | SYS_POWEROFF \<Rightarrow> ret_int 0 s))"

text \<open>The saved registers lie on the stack of the interrupt; the result replaces the saved \<^verbatim>\<open>rax\<close>.\<close>

definition saved_reg :: "addr \<Rightarrow> nat \<Rightarrow> system \<Rightarrow> u64" where
  "saved_reg rsp i s = rd64 (sys_ram s) (rsp + of_nat (8 * i))"

definition syscall_irq_handler :: "sys_env \<Rightarrow> u32 \<Rightarrow> u32 \<Rightarrow> u64 \<Rightarrow> system \<Rightarrow> (sys_out \<times> system) outcome" where
  "syscall_irq_handler env num err rsp s =
     bind_outcome (syscall_dispatch env (saved_reg rsp 0 s) (saved_reg rsp 6 s) (saved_reg rsp 5 s) (saved_reg rsp 3 s) s)
       (\<lambda>(v, out, s). Ret (out, upd_sys_ram (wr64 rsp v) s))"

end
