(* ===== verification/Idt.thy ===== *)
theory Idt
  imports Panic_Screen Syscall
begin

unbundle bit_operations_syntax

text \<open>
  The interrupt table of \<^verbatim>\<open>kernel/idt.c\<close> and its use by \<open>syscall_init\<close> of \<^verbatim>\<open>kernel/syscall.c\<close>. The entry code
  of the interrupts is assembly: the array \<open>isr_stub_table\<close> of its addresses is an argument. The
  state of the machine is that of the system calls with the table, the registered handlers and what the
  panic screen reports on. An interrupt is resumed, or it ends in the panic screen with the processor halted.
\<close>

section \<open>The table\<close>

record idt_entry_t =
  offset_low :: u16
  selector :: u16
  ist :: u8
  type_attr :: u8
  offset_mid :: u16
  offset_high :: u32
  idt_zero :: u32

type_synonym irq_handler = "u32 \<Rightarrow> u32 \<Rightarrow> u64 \<Rightarrow> system \<Rightarrow> system outcome"

text \<open>The third field is the limit and the address the processor was told by \<^verbatim>\<open>idt_load\<close>.\<close>

record idt_state =
  idt :: "idt_entry_t list"
  handlers :: "irq_handler option list"
  idtr :: "u16 \<times> addr"

definition idt_set_gate :: "u8 \<Rightarrow> u64 \<Rightarrow> u16 \<Rightarrow> u8 \<Rightarrow> u8 \<Rightarrow> idt_state \<Rightarrow> idt_state" where
  "idt_set_gate num target sel flags st t =
     t\<lparr>idt := (idt t)[unat num := \<lparr>offset_low = ucast (target AND 0xFFFF), selector = sel, ist = st, type_attr = flags,
         offset_mid = ucast (drop_bit 16 target AND 0xFFFF), offset_high = ucast (drop_bit 32 target AND 0xFFFFFFFF), idt_zero = 0\<rparr>]\<rparr>"

definition idt_set_user_gate :: "u8 \<Rightarrow> addr \<Rightarrow> idt_state \<Rightarrow> idt_state" where
  "idt_set_user_gate num target = idt_set_gate num target 0x08 0xEE 0"

definition register_irq_handler :: "u8 \<Rightarrow> irq_handler option \<Rightarrow> idt_state \<Rightarrow> idt_state" where
  "register_irq_handler num handler t = t\<lparr>handlers := (handlers t)[unat num := handler]\<rparr>"

definition idt_init :: "(nat \<Rightarrow> addr) \<Rightarrow> addr \<Rightarrow> idt_state \<Rightarrow> idt_state" where
  "idt_init isr_stub_table idt_addr t =
     (fold (\<lambda>i t. let st = (if i = 8 then 1 else 0); t = idt_set_gate (of_nat i) (isr_stub_table i) 0x08 0x8E st t
                in t\<lparr>handlers := (handlers t)[i := None]\<rparr>) [0..<256] t)\<lparr>idtr := (16 * 256 - 1, idt_addr)\<rparr>"

text \<open>The handler of the system calls, without the structures it returns to the caller.\<close>

definition syscall_handler :: "sys_env \<Rightarrow> irq_handler" where
  "syscall_handler env num err rsp s = bind_outcome (syscall_irq_handler env num err rsp s) (\<lambda>(_, s). Ret s)"

definition syscall_init :: "sys_env \<Rightarrow> (nat \<Rightarrow> addr) \<Rightarrow> idt_state \<Rightarrow> idt_state" where
  "syscall_init env isr_stub_table t =
     register_irq_handler 0x80 (Some (syscall_handler env)) (idt_set_user_gate 0x80 (isr_stub_table 0x80) t)"

section \<open>Error codes of exceptions\<close>

definition set_code_literal :: "nat \<Rightarrow> string \<Rightarrow> string" where
  "set_code_literal sz text = take (sz - 1) text"

text \<open>The same loop as in \<^verbatim>\<open>kernel/panic.c\<close>, on the length of the whole string.\<close>

definition idt_append_hex :: "nat \<Rightarrow> u64 \<Rightarrow> string \<Rightarrow> string" where
  "idt_append_hex sz v dst =
     (if sz \<le> length dst + 3 then dst
      else
        let (started, dst) = hex_fill sz v hex_shifts False (dst @ ''0x'')
        in if \<not> started \<and> length dst + 1 < sz then dst @ ''0'' else dst)"

definition set_exception_error_code :: "u64 \<Rightarrow> u32 \<Rightarrow> u32 \<Rightarrow> u64 \<Rightarrow> panic_info \<Rightarrow> panic_info" where
  "set_exception_error_code cr2 num err rip =
     panic_set_error_code (Some (
       if num = 14 then idt_append_hex 64 cr2 (set_code_literal 64 ''PAGE_FAULT@'')
       else if num = 13 then idt_append_hex 64 (ucast err) (set_code_literal 64 ''GPROT_FAULT@'')
       else if num = 8 then set_code_literal 64 ''DOUBLE_FAULT''
       else if num = 12 then set_code_literal 64 ''STACK_FAULT''
       else if num = 6 then set_code_literal 64 ''INVALID_OPCODE''
       else if num = 0 then set_code_literal 64 ''DIVIDE_BY_ZERO''
       else idt_append_hex 64 rip (set_code_literal 64 ''CPU_EXCEPTION@'')))"

section \<open>Interrupts\<close>

definition wait_keypress :: "hw \<Rightarrow> hw option" where
  "wait_keypress h = Option.bind (wait_port 0x64 (\<lambda>v. v AND 1 \<noteq> 0) h) (\<lambda>h. Some (snd (io_inb 0x60 h)))"

text \<open>The command to the keyboard controller; the processor halts after it.\<close>

definition reboot :: "hw \<Rightarrow> hw" where
  "reboot = io_outb 0x64 0xFE"

record machine =
  m_sys :: system
  m_idt :: idt_state
  m_panic :: panic_info

datatype irq_end = Resumed machine | Halted machine

definition exc_msgs :: "string list" where
  "exc_msgs = [''Divide by zero'', ''Debug'', ''Non-maskable interrupt'', ''Breakpoint'', ''Overflow'', ''Bound range exceeded'', ''Invalid opcode'',
     ''Device not available'', ''Double fault'', ''Coprocessor segment overrun'', ''Invalid TSS'', ''Segment not present'', ''Stack segment fault'',
     ''General protection fault'', ''Page fault'', ''Reserved'', ''Floating point error'', ''Alignment check'', ''Machine check'',
     ''SIMD floating point'', ''Virtualization''] @ replicate 11 ''Reserved''"

definition exception_report :: "u32 \<Rightarrow> u32 \<Rightarrow> u64 \<Rightarrow> (console \<Rightarrow> console option) list" where
  "exception_report num err rip =
     (let m = exc_msgs ! unat num in
      [console_puts (Some ''EXCEPTION: ''), console_puts (Some m), console_puts (Some '' at 0x''), console_uhex rip,
       console_puts (Some '' err=0x''), console_uhex (ucast err), console_puts (Some nl),
       serial_write ''EXCEPTION: '', serial_write m, serial_write '' at 0x'', serial_uhex rip, serial_write '' err=0x'',
       serial_uhex (ucast err), serial_write nl])"

definition crash_report :: "panic_info \<Rightarrow> (console \<Rightarrow> console option) list" where
  "crash_report p =
     (let type = (if current_user_app p then ''User app'' else ''Kernel process'') in
      [console_puts (Some type), console_puts (Some '' crashed: ''), console_puts (Some (current_program p)), console_putc (CHR 0x0A),
       serial_write type, serial_write '' crashed: '', serial_write (current_program p), serial_write nl])"

text \<open>The panic screen on the console of the machine, which shares its heap.\<close>

definition halt_with :: "cpu_regs \<Rightarrow> string \<Rightarrow> u64 \<Rightarrow> bool \<Rightarrow> machine \<Rightarrow> irq_end outcome" where
  "halt_with regs msg rip user m =
     bind_outcome (on_console (panic_with_context regs msg rip user (s_fs (fst (m_sys m))) (m_panic m)) (m_sys m)) (\<lambda>(p, s).
       Ret (Halted (m\<lparr>m_sys := s, m_panic := p\<rparr>)))"

definition report :: "(console \<Rightarrow> console option) list \<Rightarrow> machine \<Rightarrow> machine outcome" where
  "report fs m = bind_outcome (run_console (run_all fs) (m_sys m)) (\<lambda>s. Ret (m\<lparr>m_sys := s\<rparr>))"

text \<open>The entry code passes numbers below 256, for which the table of handlers has an entry.\<close>

definition idt_handle_interrupt :: "cpu_regs \<Rightarrow> u32 \<Rightarrow> u32 \<Rightarrow> u64 \<Rightarrow> machine \<Rightarrow> irq_end outcome" where
  "idt_handle_interrupt regs num err rsp m =
     (let rip = rd64 (sys_ram (m_sys m)) (rsp + 8 * 17) in
      case handlers (m_idt m) ! unat num of
        Some handler \<Rightarrow> bind_outcome (handler num err rsp (m_sys m)) (\<lambda>s. Ret (Resumed (m\<lparr>m_sys := s\<rparr>)))
      | None \<Rightarrow>
          if num < 32 then
            bind_outcome (report (exception_report num err rip) m) (\<lambda>m.
              if num = 3 \<or> num = 1 then Ret (Resumed m)
              else bind_outcome (report (crash_report (m_panic m)) m) (\<lambda>m.
                let p = set_exception_error_code (r_cr2 regs) num err rip (m_panic m)
                in halt_with regs ''Fatal exception'' rip (current_user_app p) (m\<lparr>m_panic := p\<rparr>)))
          else
            bind_outcome (report [console_puts (Some ''Unhandled IRQ ''), console_udec num, console_puts (Some nl),
                serial_write ''Unhandled IRQ '', serial_udec num, serial_write nl] m) (\<lambda>m.
              let p = panic_set_error_code (Some (idt_append_hex 32 (ucast num) (set_code_literal 32 ''IRQ@''))) (m_panic m)
              in halt_with regs ''Unhandled IRQ'' rip False (m\<lparr>m_panic := p\<rparr>)))"

definition idt_size :: u64 where "idt_size = 16 * 256"

end
