(* ===== verification/Launchd.thy ===== *)
theory Launchd
  imports Syscall
begin

unbundle bit_operations_syntax

text \<open>
  The start of the first user program in \<^verbatim>\<open>kernel/launchd.c\<close>: its files come from a FAT32 image that the boot
  loader passed as a module, or else from files embedded in the kernel; they are copied into the file tree, and
  \<^verbatim>\<open>/launchd.elf\<close> is loaded and run as process 1. The information of the boot loader is read from RAM as
  laid out in \<^verbatim>\<open>multiboot.h\<close>. The embedded files, which the build generates, are given by their addresses
  and lengths, and the local buffer of a copy by its address on the stack.
\<close>

section \<open>Boot information\<close>

record multiboot_module_t =
  mod_start :: u32
  mod_end :: u32
  mod_string :: u32

record multiboot_info_t =
  mb_flags :: u32
  mb_mem_lower :: u32
  mb_mem_upper :: u32
  mb_cmdline :: u32
  mb_mods_count :: u32
  mb_mods_addr :: u32
  mb_fb_addr :: u64
  mb_fb_pitch :: u32
  mb_fb_width :: u32
  mb_fb_height :: u32
  mb_fb_bpp :: u8
  mb_fb_type :: u8
  mb_fb_fields :: "u8 list"

definition multiboot_module :: "ram \<Rightarrow> addr \<Rightarrow> nat \<Rightarrow> multiboot_module_t" where
  "multiboot_module r mods i =
     (let p = mods + of_nat (16 * i) in \<lparr>mod_start = rd32 r p, mod_end = rd32 r (p + 4), mod_string = rd32 r (p + 8)\<rparr>)"

text \<open>The last list holds position and size of the fields for red, green, blue and reserved bits.\<close>

definition multiboot_info :: "ram \<Rightarrow> addr \<Rightarrow> multiboot_info_t" where
  "multiboot_info r p = \<lparr>mb_flags = rd32 r p, mb_mem_lower = rd32 r (p + 4), mb_mem_upper = rd32 r (p + 8), mb_cmdline = rd32 r (p + 16),
     mb_mods_count = rd32 r (p + 20), mb_mods_addr = rd32 r (p + 24), mb_fb_addr = rd64 r (p + 88), mb_fb_pitch = rd32 r (p + 96),
     mb_fb_width = rd32 r (p + 100), mb_fb_height = rd32 r (p + 104), mb_fb_bpp = r (p + 108), mb_fb_type = r (p + 109),
     mb_fb_fields = map (\<lambda>i. r (p + of_nat i)) [112..<120]\<rparr>"

text \<open>The C string at an address; a null pointer is None, a string without an end never returns.\<close>

definition string_at :: "ram \<Rightarrow> addr \<Rightarrow> string option outcome" where
  "string_at r p =
     (if p = 0 then Ret None
      else bind_outcome (of_option (strlen r p)) (\<lambda>n. Ret (Some (map (\<lambda>i. char_of (unat (r (p + of_nat i)))) [0..<unat n]))))"

section \<open>Files\<close>

definition LAUNCHD_IMAGE_NAME :: string where "LAUNCHD_IMAGE_NAME = ''userland.img''"
definition LAUNCHD_BINARY_PATH :: string where "LAUNCHD_BINARY_PATH = ''/launchd.elf''"
definition LAUNCHD_CONFIG_PATH :: string where "LAUNCHD_CONFIG_PATH = ''/launchd.cfg''"
definition SHELLD_BINARY_PATH :: string where "SHELLD_BINARY_PATH = ''/shelld.elf''"
definition LAUNCHD_MAX_FILE :: int where "LAUNCHD_MAX_FILE = 1024 * 1024"

record embedded =
  embedded_launchd_elf :: addr
  embedded_launchd_elf_len :: u32
  embedded_launchd_cfg :: addr
  embedded_launchd_cfg_len :: u32
  embedded_shelld_elf :: addr
  embedded_shelld_elf_len :: u32

text \<open>Calls on the parts of the system, with the result of the C function.\<close>

definition call_kernel :: "(kernel \<Rightarrow> ('a \<times> kernel) outcome) \<Rightarrow> system \<Rightarrow> ('a \<times> system) outcome" where
  "call_kernel f s = bind_outcome (f (snd s)) (\<lambda>(x, k). Ret (x, fst s, k))"

definition call_vfs :: "(vfs_state \<Rightarrow> mem_state \<Rightarrow> ('a \<times> vfs_state \<times> mem_state) outcome) \<Rightarrow> system \<Rightarrow> ('a \<times> system) outcome" where
  "call_vfs f = call_kernel (\<lambda>k. bind_outcome (f (kvfs k) (kmem k)) (\<lambda>(x, v, m). Ret (x, k\<lparr>kvfs := v, kmem := m\<rparr>)))"

definition call_fs :: "(fs_state \<Rightarrow> ram \<Rightarrow> ('a \<times> fs_state \<times> ram) outcome) \<Rightarrow> system \<Rightarrow> ('a \<times> system) outcome" where
  "call_fs f s =
     bind_outcome (f (s_fs (fst s)) (sys_ram s)) (\<lambda>(x, fs, r). Ret (x, (fst s)\<lparr>s_fs := fs\<rparr>, upd_ram (\<lambda>_. r) (snd s)))"

definition close_vfs :: "int \<Rightarrow> system \<Rightarrow> system" where
  "close_vfs fd s = (fst s, (snd s)\<lparr>kvfs := snd (vfs_close fd (kvfs (snd s)))\<rparr>)"

definition close_fs :: "int \<Rightarrow> system \<Rightarrow> system" where
  "close_fs fd s = ((fst s)\<lparr>s_fs := snd (fs_close fd (s_fs (fst s)))\<rparr>, snd s)"

definition launchd_log :: "string \<Rightarrow> system \<Rightarrow> system outcome" where
  "launchd_log msg = run_console (console_puts (Some (msg @ [CHR 0x0A])))"

definition launchd_logs :: "string list \<Rightarrow> int \<Rightarrow> system \<Rightarrow> (int \<times> system) outcome" where
  "launchd_logs msgs r s = fold (\<lambda>m t. bind_outcome t (\<lambda>(r, s). bind_outcome (launchd_log m s) (\<lambda>s. Ret (r, s)))) msgs (Ret (r, s))"

fun last_part :: "string \<Rightarrow> string \<Rightarrow> string" where
  "last_part [] l = l"
| "last_part (ch # cs) l = last_part cs (if ch = CHR ''/'' \<or> ch = CHR '' '' then cs else l)"

definition module_name_matches :: "string option \<Rightarrow> string option \<Rightarrow> bool" where
  "module_name_matches module needle =
     (case (module, needle) of
        (Some m, Some n) \<Rightarrow> last_part m m = n \<or> first_occ n m \<noteq> None
      | _ \<Rightarrow> False)"

text \<open>The copy of a file in pieces of 512 bytes; a piece that is not read or written whole ends it with an error.\<close>

function copy_loop :: "int \<Rightarrow> int \<Rightarrow> addr \<Rightarrow> int \<Rightarrow> system \<Rightarrow> (int \<times> system) outcome" where
  "copy_loop src dst buf remaining s =
     (if 0 < remaining then
        let chunk = (if 512 < remaining then 512 else remaining);
            fail = (\<lambda>s. Ret (- 1, close_fs src (close_vfs dst s)))
        in bind_outcome (call_fs (fs_read_fd src buf (word_of_int chunk)) s) (\<lambda>(got, s).
             if got \<noteq> chunk then fail s
             else bind_outcome (call_vfs (vfs_write dst buf (word_of_int chunk)) s) (\<lambda>(n, s).
               if n \<noteq> chunk then fail s else copy_loop src dst buf (remaining - chunk) s))
      else Ret (0, close_fs src (close_vfs dst s)))"
  by pat_completeness auto
termination
  by (relation "measure (\<lambda>(src, dst, buf, remaining, s). nat remaining)") (auto split: if_splits)

declare copy_loop.simps [simp del]

definition copy_fat_file_to_vfs :: "addr \<Rightarrow> string \<Rightarrow> system \<Rightarrow> (int \<times> system) outcome" where
  "copy_fat_file_to_vfs buf path s =
     bind_outcome (call_fs (fs_open (Some path) 1) s) (\<lambda>(src, s).
       if src < 0 then Ret (- 1, s)
       else
         let file_size = fs_file_size src (s_fs (fst s)) in
         if file_size \<le> 0 \<or> LAUNCHD_MAX_FILE < file_size then Ret (- 1, close_fs src s)
         else bind_outcome (call_vfs (vfs_open (Some path) (VFS_O_CREAT OR VFS_O_RDWR OR VFS_O_TRUNC)) s) (\<lambda>(dst, s).
           if dst < 0 then Ret (- 1, close_fs src s)
           else copy_loop src dst buf file_size s))"

text \<open>The writing loop ends when everything is written or a write reports no progress; None if it never ends.\<close>

partial_function (option) install_loop :: "int \<Rightarrow> addr \<Rightarrow> u64 \<Rightarrow> u64 \<Rightarrow> system \<Rightarrow> (int \<times> system) outcome option" where
  "install_loop fd p sz wpos s =
     (if wpos < sz then
        case call_vfs (vfs_write fd (p + wpos) (sz - wpos)) s of
          Panic m \<Rightarrow> Some (Panic m)
        | Diverge \<Rightarrow> Some Diverge
        | Ret x \<Rightarrow> if fst x \<le> 0 then Some (Ret (- 1, close_vfs fd (snd x))) else install_loop fd p sz (wpos + word_of_int (fst x)) (snd x)
      else
        let (e, v) = vfs_close fd (kvfs (snd s))
        in Some (Ret (if e = 0 then 0 else - 1, fst s, (snd s)\<lparr>kvfs := v\<rparr>)))"

definition install_initramfs_file :: "string option \<Rightarrow> addr \<Rightarrow> u64 \<Rightarrow> system \<Rightarrow> (int \<times> system) outcome" where
  "install_initramfs_file path data sz s =
     (if path = None \<or> data = 0 \<or> sz = 0 then Ret (- 1, s)
      else bind_outcome (call_vfs (vfs_open path (VFS_O_CREAT OR VFS_O_RDWR OR VFS_O_TRUNC)) s) (\<lambda>(fd, s).
        if fd < 0 then Ret (- 1, s)
        else case install_loop fd data sz 0 s of None \<Rightarrow> Diverge | Some x \<Rightarrow> x))"

definition ready_vfs :: "system \<Rightarrow> int \<times> system" where
  "ready_vfs s =
     (if vfs_is_ready (kvfs (snd s)) then (0, s)
      else let (e, v) = vfs_init (kvfs (snd s)) in (e, fst s, (snd s)\<lparr>kvfs := v\<rparr>))"

fun install_files :: "(string \<times> string \<times> addr \<times> u32) list \<Rightarrow> system \<Rightarrow> (int \<times> system) outcome" where
  "install_files [] s = bind_outcome (launchd_log ''kernel: essential files installed to vfs!'' s) (\<lambda>s. Ret (0, s))"
| "install_files ((msg, path, data, len) # fs) s =
     bind_outcome (launchd_log msg s) (\<lambda>s.
       bind_outcome (install_initramfs_file (Some path) data (ucast len) s) (\<lambda>(r, s).
         if r \<noteq> 0 then Ret (- 1, s) else install_files fs s))"

definition install_embedded_initramfs :: "embedded \<Rightarrow> system \<Rightarrow> (int \<times> system) outcome" where
  "install_embedded_initramfs e s =
     (let (r, s) = ready_vfs s in
      if r \<noteq> 0 then Ret (- 1, s)
      else install_files
        [(''kernel: copying initramfs file 1/3: /launchd.elf'', LAUNCHD_BINARY_PATH, embedded_launchd_elf e, embedded_launchd_elf_len e),
         (''kernel: copying initramfs file 2/3: /launchd.cfg'', LAUNCHD_CONFIG_PATH, embedded_launchd_cfg e, embedded_launchd_cfg_len e),
         (''kernel: copying initramfs file 3/3: /shelld.elf'', SHELLD_BINARY_PATH, embedded_shelld_elf e, embedded_shelld_elf_len e)] s)"

text \<open>The file in memory of the process; None is the result -1.\<close>

definition read_vfs_file_to_process :: "int \<Rightarrow> string \<Rightarrow> system \<Rightarrow> ((addr \<times> u64) option \<times> system) outcome" where
  "read_vfs_file_to_process pid path s =
     (case vfs_stat (Some path) 1 (kvfs (snd s)) of
        (e, None) \<Rightarrow> Ret (None, s)
      | (e, Some st) \<Rightarrow>
          if e \<noteq> 0 \<or> stat_type st \<noteq> VFS_TYPE_FILE \<or> stat_size st = 0 then Ret (None, s)
          else bind_outcome (call_kernel (proc_alloc pid (stat_size st)) s) (\<lambda>(data, s).
            let give_back = (\<lambda>s. bind_outcome (call_kernel (proc_free pid data) s) (\<lambda>(_, s). Ret (None, s))) in
            if data = 0 then Ret (None, s)
            else bind_outcome (call_vfs (vfs_open (Some path) VFS_O_RDONLY) s) (\<lambda>(fd, s).
              if fd < 0 then give_back s
              else bind_outcome (call_vfs (\<lambda>v m. Ret (vfs_read fd data (stat_size st) v m)) s) (\<lambda>(got, s).
                let s = close_vfs fd s in
                if got \<noteq> sint (stat_size st) then give_back s else Ret (Some (data, stat_size st), s)))))"

section \<open>Boot\<close>

text \<open>The first module whose name matches: its address and length, 0 and 0 if there is none.\<close>

fun find_image :: "ram \<Rightarrow> addr \<Rightarrow> nat list \<Rightarrow> (addr \<times> u64) outcome" where
  "find_image r mods [] = Ret (0, 0)"
| "find_image r mods (i # is) =
     (let m = multiboot_module r mods i in
      bind_outcome (string_at r (ucast (mod_string m))) (\<lambda>name.
        if module_name_matches name (Some LAUNCHD_IMAGE_NAME) then Ret (ucast (mod_start m), ucast (mod_end m - mod_start m))
        else find_image r mods is))"

definition find_userland :: "addr \<Rightarrow> ram \<Rightarrow> (addr \<times> u64) outcome" where
  "find_userland mbi r =
     (let b = multiboot_info r mbi in
      if mbi \<noteq> 0 \<and> mb_flags b AND push_bit 3 1 \<noteq> 0 \<and> 0 < mb_mods_count b
      then find_image r (ucast (mb_mods_addr b)) [0..<unat (mb_mods_count b)] else Ret (0, 0))"

definition use_initramfs :: "embedded \<Rightarrow> string \<Rightarrow> system \<Rightarrow> (int \<times> system) outcome" where
  "use_initramfs e warning s =
     bind_outcome (launchd_log warning s) (\<lambda>s.
       bind_outcome (install_embedded_initramfs e s) (\<lambda>(r, s).
         if r \<noteq> 0 then launchd_logs [''kernel: error: failed to install initramfs into vfs'', ''kernel: panic: no usable userland''] (- 1) s
         else Ret (0, s)))"

definition mount_image :: "addr \<Rightarrow> u64 \<Rightarrow> system \<Rightarrow> system outcome" where
  "mount_image image_addr image_len s =
     (let fs = fs_mount image_addr image_len ((s_fs (fst s))\<lparr>fs_out := []\<rparr>) (sys_ram s)
      in run_console (run_con (fs_out fs)) ((fst s)\<lparr>s_fs := fs\<rparr>, snd s))"

fun mirror_files :: "addr \<Rightarrow> string list \<Rightarrow> system \<Rightarrow> (int \<times> system) outcome" where
  "mirror_files buf [] s = Ret (0, s)"
| "mirror_files buf (path # paths) s =
     bind_outcome (copy_fat_file_to_vfs buf path s) (\<lambda>(r, s).
       if r \<noteq> 0 then launchd_logs [''launchd: failed to mirror FAT32 userland into VFS''] (- 1) s else mirror_files buf paths s)"

definition install_userland :: "embedded \<Rightarrow> addr \<Rightarrow> addr \<times> u64 \<Rightarrow> system \<Rightarrow> (int \<times> system) outcome" where
  "install_userland e buf img s =
     (if fst img \<noteq> 0 \<and> 0 < snd img then
        bind_outcome (launchd_log ''kernel: mounting fat32 now'' s) (\<lambda>s.
          bind_outcome (mount_image (fst img) (snd img) s) (\<lambda>s.
            if fs_is_fat32 (s_fs (fst s)) then
              bind_outcome (launchd_log ''kernel: mounted fat32 successfully!'' s) (\<lambda>s.
                let (r, s) = ready_vfs s in
                if r \<noteq> 0 then Ret (- 1, s) else mirror_files buf [LAUNCHD_BINARY_PATH, LAUNCHD_CONFIG_PATH, SHELLD_BINARY_PATH] s)
            else use_initramfs e ''kernel: warn: userland FAT32 image unavailable, using initramfs instead'' s))
      else use_initramfs e (''kernel: warn: couldn'' @ [CHR 0x27] @ ''t find userland FAT32 image, using initramfs instead'') s)"

definition bad_launchd :: "system \<Rightarrow> (int \<times> system) outcome" where
  "bad_launchd = launchd_logs [''kernel: error: launchd.elf is missing or invalid'', ''kernel: panic: no usable init system''] (- 1)"

text \<open>The first process: created, filled with the program and started.\<close>

definition start_launchd :: "sys_env \<Rightarrow> system \<Rightarrow> (int \<times> system) outcome" where
  "start_launchd env s =
     (let (pid, k) = proc_create (Some ''launchd'') 0 (snd s);
          (e, k) = (if pid \<noteq> 1 then (- 1, k) else proc_set_current pid k);
          s = (fst s, k)
      in if pid \<noteq> 1 \<or> e \<noteq> 0 then launchd_logs [''launchd: failed to create pid 1''] (- 1) s
         else bind_outcome (launchd_log ''kernel: finding elf executable'' s) (\<lambda>s.
           bind_outcome (read_vfs_file_to_process pid LAUNCHD_BINARY_PATH s) (\<lambda>(fl, s).
             case fl of
               None \<Rightarrow> bad_launchd s
             | Some (data, sz) \<Rightarrow>
                 if elf_validate data sz (sys_ram s) \<noteq> 0 then bad_launchd s
                 else bind_outcome (launchd_log ''kernel: found elf magic header!'' s) (\<lambda>s.
                   bind_outcome (call_kernel (\<lambda>k. bind_outcome (elf_load_process_image pid data sz 1 k) (\<lambda>(r, img, k).
                       if r \<noteq> 0 then Ret (r, k) else proc_attach_image pid (Some LAUNCHD_BINARY_PATH) img k)) s) (\<lambda>(r, s).
                     if r \<noteq> 0 then launchd_logs [''launchd: failed to load executable image''] (- 1) s
                     else bind_outcome (launchd_log ''kernel: handing over to launchd as PID 1'' s) (proc_start_flat (user_code env) pid))))))"

definition launchd_boot :: "sys_env \<Rightarrow> embedded \<Rightarrow> addr \<Rightarrow> addr \<Rightarrow> system \<Rightarrow> (int \<times> system) outcome" where
  "launchd_boot env e buf mbi s =
     bind_outcome (find_userland mbi (sys_ram s)) (\<lambda>img.
       bind_outcome (install_userland e buf img s) (\<lambda>(r, s).
         if r \<noteq> 0 then Ret (- 1, s) else start_launchd env s))"

end
