(* ===== verification/Mpy_Loader.thy ===== *)
theory Mpy_Loader
  imports Launchd
begin

unbundle bit_operations_syntax

text \<open>
  The loaders of \<^verbatim>\<open>kernel/mpy_loader.c\<close> and \<^verbatim>\<open>kernel/modexec.c\<close>. The first wraps the source of every built-in module
  into a statement that stores it, in a buffer of the kernel heap, and hands it to the MicroPython
  runtime; the table of modules, which the build generates, is an argument. The second copies a module of the
  boot loader to the fixed module address and calls it; the machine code is the user code of the environment.
\<close>

section \<open>Built-in modules\<close>

text \<open>The name and the source of a module are C strings without NUL; a source is given by its characters.\<close>

type_synonym mpymod_entry_t = "string \<times> string"

definition needs_escape :: "char \<Rightarrow> bool" where
  "needs_escape ch \<longleftrightarrow> ch = CHR 0x5C \<or> ch = CHR 0x22 \<or> ch = CHR 0x0A \<or> ch = CHR 0x0D"

definition esc_len :: "string \<Rightarrow> nat" where
  "esc_len src = length (filter needs_escape src)"

text \<open>The size of the buffer, computed in \<open>size_t\<close>.\<close>

definition stmt_total :: "string \<Rightarrow> string \<Rightarrow> u64" where
  "stmt_total name src = of_nat (length name) * 2 + of_nat (length src) + of_nat (esc_len src) + 160"

fun escape :: "string \<Rightarrow> string" where
  "escape [] = []"
| "escape (ch # cs) =
     (if ch = CHR 0x0A then CHR 0x5C # CHR ''n'' # escape cs
      else if ch = CHR 0x0D then CHR 0x5C # CHR ''r'' # escape cs
      else if ch = CHR 0x5C \<or> ch = CHR 0x22 then CHR 0x5C # ch # escape cs
      else ch # escape cs)"

definition module_stmt :: "string \<Rightarrow> string \<Rightarrow> string" where
  "module_stmt name src =
     ''import env'' @ [CHR 0x0A] @ ''env._mpymod_exec('' @ [CHR 0x27] @ name @ [CHR 0x27] @ '', '' @ [CHR 0x22] @ escape src @
     [CHR 0x22] @ '')'' @ [CHR 0x0A]"

text \<open>One entry of the table: the buffer is filled, printed, run and given back.\<close>

definition mpymod_load :: "sys_env \<Rightarrow> mpymod_entry_t \<Rightarrow> system \<Rightarrow> system outcome" where
  "mpymod_load env entry s =
     (let (name, src) = entry; sz = stmt_total name src; stmt = module_stmt name src in
      bind_outcome (mem_alloc sz (kmem (snd s))) (\<lambda>(buf, m).
        let s = upd_kmem s m in
        if buf = 0 then Ret s
        else
          let s = upd_sys_ram (put_bytes buf (map of_char stmt @ [0])) s in
          bind_outcome (run_console (\<lambda>c. Option.bind (serial_write (''mpy:'' @ [CHR 0x0A]) c) (\<lambda>c. Option.bind (serial_write stmt c) (serial_write [CHR 0x0A]))) s) (\<lambda>s.
            bind_outcome (mp_runtime_exec env buf (of_nat (length stmt)) (Some name) s) (\<lambda>s.
              bind_outcome (mem_free buf sz (kmem (snd s))) (\<lambda>m. Ret (upd_kmem s m))))))"

fun mpymod_load_all :: "sys_env \<Rightarrow> mpymod_entry_t list \<Rightarrow> system \<Rightarrow> system outcome" where
  "mpymod_load_all env [] s = Ret s"
| "mpymod_load_all env (entry # table) s = bind_outcome (mpymod_load env entry s) (mpymod_load_all env table)"

section \<open>Modules of the boot loader\<close>

definition MODULE_BASE_ADDR :: addr where "MODULE_BASE_ADDR = 0x00200000"

text \<open>The registered boot information is the argument \<open>g_mbi\<close>, 0 before it is set.\<close>

fun modexec_loop :: "sys_env \<Rightarrow> string \<Rightarrow> addr \<Rightarrow> nat list \<Rightarrow> system \<Rightarrow> (int \<times> system) outcome" where
  "modexec_loop env name mods [] s =
     bind_outcome (run_console (console_puts (Some (''exec.o failed: not found'' @ [CHR 0x0A]))) s) (\<lambda>s. Ret (- 1, s))"
| "modexec_loop env name mods (i # is) s =
     (let m = multiboot_module (sys_ram s) mods i in
      bind_outcome (string_at (sys_ram s) (ucast (mod_string m))) (\<lambda>mstr.
        if mstr = Some name then
          let s = upd_sys_ram (memcpy MODULE_BASE_ADDR (ucast (mod_start m)) (ucast (mod_end m - mod_start m))) s in
          bind_outcome (run_console (\<lambda>c. Option.bind (console_puts (Some ''exec.o '') c) (\<lambda>c. Option.bind (console_puts (Some name) c) (console_putc (CHR 0x0A)))) s) (\<lambda>s.
            bind_outcome (user_code env MODULE_BASE_ADDR 0 s) (\<lambda>s. Ret (0, s)))
        else modexec_loop env name mods is s))"

definition modexec_run :: "sys_env \<Rightarrow> addr \<Rightarrow> string \<Rightarrow> system \<Rightarrow> (int \<times> system) outcome" where
  "modexec_run env g_mbi name s =
     (if g_mbi = 0 then Ret (- 1, s)
      else let b = multiboot_info (sys_ram s) g_mbi
           in modexec_loop env name (ucast (mb_mods_addr b)) [0..<unat (mb_mods_count b)] s)"

section \<open>The statement fits and can be read back\<close>

lemma escape_length: "length (escape src) = length src + esc_len src"
  by (induction src rule: escape.induct) (auto simp: esc_len_def needs_escape_def)

lemma module_stmt_length: "length (module_stmt name src) = 36 + length name + length src + esc_len src"
  by (simp add: module_stmt_def escape_length)

text \<open>How a string literal in double quotes is read: up to the closing quote, with the escapes undone.\<close>

fun read_literal :: "string \<Rightarrow> (string \<times> string) option" where
  "read_literal [] = None"
| "read_literal (ch # cs) =
     (if ch = CHR 0x22 then Some ([], cs)
      else if ch = CHR 0x0A then None
      else if ch = CHR 0x5C then
        (case cs of
           [] \<Rightarrow> None
         | e # ds \<Rightarrow> map_option (\<lambda>(s, rest). ((if e = CHR ''n'' then CHR 0x0A else if e = CHR ''r'' then CHR 0x0D else e) # s, rest)) (read_literal ds))
      else map_option (\<lambda>(s, rest). (ch # s, rest)) (read_literal cs))"

lemma read_literal_escape: "read_literal (escape src @ CHR 0x22 # rest) = Some (src, rest)"
  by (induction src rule: escape.induct) auto

text \<open>C35: The statement built for a module, with its terminating NUL, fits into the buffer allocated for it, as long as the lengths do
  not exceed the address space; and the string literal in it reads back as the source of the module.\<close>

theorem module_stmt_fits:
  assumes "2 * length name + 2 * length src + 160 < 2 ^ 64"
  shows "length (module_stmt name src) + 1 \<le> unat (stmt_total name src) \<and>
    (\<exists>pre. module_stmt name src = pre @ [CHR 0x22] @ escape src @ [CHR 0x22] @ '')'' @ [CHR 0x0A] \<and>
      read_literal (drop (length pre + 1) (module_stmt name src)) = Some (src, '')'' @ [CHR 0x0A]))"
proof -
  have "esc_len src \<le> length src" by (simp add: esc_len_def)
  then have n: "length name * 2 + length src + esc_len src + 160 < 18446744073709551616" using assms by simp
  have "stmt_total name src = of_nat (length name * 2 + length src + esc_len src + 160)" by (simp add: stmt_total_def)
  then have "unat (stmt_total name src) = length name * 2 + length src + esc_len src + 160" using n by (simp only: unat_of_nat64)
  then have fits: "length (module_stmt name src) + 1 \<le> unat (stmt_total name src)" by (simp add: module_stmt_length)
  let ?pre = "''import env'' @ [CHR 0x0A] @ ''env._mpymod_exec('' @ [CHR 0x27] @ name @ [CHR 0x27] @ '', ''"
  have e: "module_stmt name src = ?pre @ [CHR 0x22] @ escape src @ [CHR 0x22] @ '')'' @ [CHR 0x0A]" by (simp add: module_stmt_def)
  have "drop (length ?pre + 1) (module_stmt name src) = escape src @ CHR 0x22 # '')'' @ [CHR 0x0A]" unfolding e by simp
  then have "read_literal (drop (length ?pre + 1) (module_stmt name src)) = Some (src, '')'' @ [CHR 0x0A])"
    by (simp only: read_literal_escape)
  with e fits show ?thesis by blast
qed

theorem module_stmt_fits_witness:
  "length (module_stmt ''m'' ''a=1'') + 1 \<le> unat (stmt_total ''m'' ''a=1'')"
  using module_stmt_fits [of "''m''" "''a=1''"] by simp

end
