(* ===== verification/Exoimg.thy ===== *)
theory Exoimg
  imports Bytes
begin

unbundle bit_operations_syntax

text \<open>
  The check of image files in \<^verbatim>\<open>kernel/exoimg.c\<close>. The header is read from the bytes of RAM the file
  lies in. An accepted file is long enough for the pixels its header announces.
\<close>

definition EXOIMG_MAX_DIM :: u32 where "EXOIMG_MAX_DIM = 4096"
definition EXOIMG_MAX_BYTES :: u32 where "EXOIMG_MAX_BYTES = 32 * 1024 * 1024"
definition EXOIMG_FORMAT_RGBA8888 :: u32 where "EXOIMG_FORMAT_RGBA8888 = 1"
definition sizeof_exoimg_header :: u64 where "sizeof_exoimg_header = 24"

lemmas exoimg_consts = EXOIMG_MAX_DIM_def EXOIMG_MAX_BYTES_def EXOIMG_FORMAT_RGBA8888_def sizeof_exoimg_header_def

record exoimg_header_t =
  img_magic :: "u8 list"
  img_width :: u32
  img_height :: u32
  img_format :: u32
  img_data_size :: u32

definition exoimg_header :: "ram \<Rightarrow> addr \<Rightarrow> exoimg_header_t" where
  "exoimg_header r p = \<lparr>img_magic = map (\<lambda>i. r (p + of_nat i)) [0..<8], img_width = rd32 r (p + 8), img_height = rd32 r (p + 12),
     img_format = rd32 r (p + 16), img_data_size = rd32 r (p + 20)\<rparr>"

definition exoimg_magic :: "u8 list" where
  "exoimg_magic = map of_char ''EXOIMG1'' @ [0]"

text \<open>The four bytes of a number in memory order, put together again.\<close>

definition le32 :: "u32 \<Rightarrow> u32" where
  "le32 v = (let p = (\<lambda>i. ucast (ucast (drop_bit (8 * i) v) :: u8)) in
     p 0 OR push_bit 8 (p 1) OR push_bit 16 (p 2) OR push_bit 24 (p 3))"

definition exoimg_validate :: "addr \<Rightarrow> u64 \<Rightarrow> ram \<Rightarrow> int \<times> exoimg_header_t option" where
  "exoimg_validate data sz r =
     (if data = 0 \<or> sz < sizeof_exoimg_header then (- 1, None)
      else
        let h = exoimg_header r data in
        if img_magic h \<noteq> exoimg_magic then (- 1, None)
        else
          let h = h\<lparr>img_width := le32 (img_width h), img_height := le32 (img_height h), img_format := le32 (img_format h),
                    img_data_size := le32 (img_data_size h)\<rparr>
          in if img_width h = 0 \<or> img_height h = 0 \<or> EXOIMG_MAX_DIM < img_width h \<or> EXOIMG_MAX_DIM < img_height h then (- 1, None)
             else if img_format h \<noteq> EXOIMG_FORMAT_RGBA8888 then (- 1, None)
             else
               let expected = ucast (img_width h) * ucast (img_height h) * 4 :: u64 in
               if ucast EXOIMG_MAX_BYTES < expected \<or> img_data_size h \<noteq> ucast expected then (- 1, None)
               else if sz < sizeof_exoimg_header + ucast (img_data_size h) then (- 1, None)
               else (0, Some h))"

lemma le32_id [simp]: "le32 v = v"
proof (rule bit_word_eqI)
  fix n assume "n < LENGTH(32)"
  then consider "n < 8" | "8 \<le> n" "n < 16" | "16 \<le> n" "n < 24" | "24 \<le> n" "n < 32" by force
  then show "bit (le32 v) n = bit v n"
    by cases (auto simp: le32_def Let_def bit_simps)
qed

end
