(* ===== verification/Bootlogo.thy ===== *)
theory Bootlogo
  imports Exoimg Framebuffer Vfs
begin

unbundle bit_operations_syntax

text \<open>
  The boot picture of \<^verbatim>\<open>kernel/bootlogo.c\<close>: the embedded image is stored as a file, read back, checked and
  drawn in the middle of the screen, and a progress bar is painted below it. The static variables are the
  fields of \<open>bootlogo\<close>; the embedded image, which the build generates, is given by its address and length.
\<close>

definition LOGO_PATH :: string where "LOGO_PATH = ''/boot/logo.exoimg''"
definition BAR_WIDTH :: u32 where "BAR_WIDTH = 360"
definition BAR_HEIGHT :: u32 where "BAR_HEIGHT = 8"
definition BAR_GAP :: u32 where "BAR_GAP = 54"

record bootlogo =
  logo_x :: u32
  logo_y :: u32
  logo_w :: u32
  logo_h :: u32
  last_progress_percent :: u32
  logo_position_valid :: bool

definition px :: "fb_state \<Rightarrow> u32 \<Rightarrow> u32 \<Rightarrow> u8 \<Rightarrow> u8 \<Rightarrow> u8 \<Rightarrow> ram \<Rightarrow> ram" where
  "px fb x y r g b m = snd (framebuffer_draw_pixel_rgb fb x y r g b m)"

definition rect :: "fb_state \<Rightarrow> u32 \<Rightarrow> u32 \<Rightarrow> u32 \<Rightarrow> u32 \<Rightarrow> u8 \<Rightarrow> u8 \<Rightarrow> u8 \<Rightarrow> ram \<Rightarrow> ram" where
  "rect fb x y w h r g b =
     fold (\<lambda>yy. fold (\<lambda>xx. px fb (x + of_nat xx) (y + of_nat yy) r g b) [0..<unat w]) [0..<unat h]"

definition rounded :: "u32 \<Rightarrow> u32 \<Rightarrow> u32 \<Rightarrow> u32 \<Rightarrow> u32 \<Rightarrow> u32 \<Rightarrow> u32 \<Rightarrow> bool" where
  "rounded x y w h radius px0 py0 =
     (let rx = (if px0 < x + radius then x + radius - px0 else if x + w - radius \<le> px0 then px0 - (x + w - radius - 1) else 0);
          ry = (if py0 < y + radius then y + radius - py0 else if y + h - radius \<le> py0 then py0 - (y + h - radius - 1) else 0)
      in rx * rx + ry * ry \<le> radius * radius)"

definition bootlogo_install_to_vfs :: "addr \<Rightarrow> u32 \<Rightarrow> vfs_state \<Rightarrow> mem_state \<Rightarrow> (int \<times> vfs_state \<times> mem_state) outcome" where
  "bootlogo_install_to_vfs logo len v m =
     (if len = 0 then Ret (- 1, v, m)
      else
        let (e, v) = (if vfs_is_ready v then (0, v) else vfs_init v) in
        if e \<noteq> 0 then Ret (- 1, v, m)
        else
          let v = snd (vfs_mkdir (Some ''/boot'') v) in
          bind_outcome (vfs_open (Some LOGO_PATH) (VFS_O_CREAT OR VFS_O_RDWR OR VFS_O_TRUNC) v m) (\<lambda>(fd, v, m).
            if fd < 0 then Ret (- 1, v, m)
            else bind_outcome (vfs_write fd logo (ucast len) v m) (\<lambda>(n, v, m).
              Ret (if n = uint len then 0 else - 1, snd (vfs_close fd v), m))))"

text \<open>The picture in the middle of the screen, with room for the bar below it.\<close>

definition place_logo :: "fb_state \<Rightarrow> exoimg_header_t \<Rightarrow> bootlogo" where
  "place_logo fb h =
     (let total_h = img_height h + BAR_GAP + BAR_HEIGHT in
      \<lparr>logo_x = (if img_width h < framebuffer_width fb then (framebuffer_width fb - img_width h) div 2 else 0),
       logo_y = (if total_h < framebuffer_height fb then (framebuffer_height fb - total_h) div 2 else 0),
       logo_w = img_width h, logo_h = img_height h, last_progress_percent = 0, logo_position_valid = True\<rparr>)"

definition free_logo :: "addr \<Rightarrow> u64 \<Rightarrow> int \<Rightarrow> bootlogo \<Rightarrow> vfs_state \<Rightarrow> mem_state \<Rightarrow> (int \<times> bootlogo \<times> vfs_state \<times> mem_state) outcome" where
  "free_logo buf sz e b v m = bind_outcome (mem_free buf sz m) (\<lambda>m. Ret (e, b, v, m))"

definition bootlogo_draw_from_vfs :: "fb_state \<Rightarrow> bootlogo \<Rightarrow> vfs_state \<Rightarrow> mem_state \<Rightarrow> (int \<times> bootlogo \<times> vfs_state \<times> mem_state) outcome" where
  "bootlogo_draw_from_vfs fb b v m =
     (if \<not> framebuffer_enabled fb then Ret (- 1, b, v, m)
      else case vfs_stat (Some LOGO_PATH) 1 v of
        (e, None) \<Rightarrow> Ret (- 1, b, v, m)
      | (e, Some st) \<Rightarrow>
          if e \<noteq> 0 \<or> stat_type st \<noteq> VFS_TYPE_FILE \<or> stat_size st = 0 then Ret (- 1, b, v, m)
          else bind_outcome (mem_alloc (stat_size st) m) (\<lambda>(buf, m).
            if buf = 0 then Ret (- 1, b, v, m)
            else bind_outcome (vfs_open (Some LOGO_PATH) VFS_O_RDONLY v m) (\<lambda>(fd, v, m).
              if fd < 0 then free_logo buf (stat_size st) (- 1) b v m
              else
                let (got, v, m) = vfs_read fd buf (stat_size st) v m;
                    v = snd (vfs_close fd v)
                in if got \<noteq> sint (stat_size st) then free_logo buf (stat_size st) (- 1) b v m
                   else case exoimg_validate buf (stat_size st) (mem_ram m) of
                     (e, None) \<Rightarrow> free_logo buf (stat_size st) (- 1) b v m
                   | (e, Some h) \<Rightarrow>
                       if e \<noteq> 0 then free_logo buf (stat_size st) (- 1) b v m
                       else
                         let b = place_logo fb h;
                             (ok, r) = framebuffer_blit_rgba8888 fb (logo_x b) (logo_y b) (img_width h) (img_height h)
                                         (buf + sizeof_exoimg_header) (img_width h * 4) (mem_ram m)
                         in free_logo buf (stat_size st) (if ok then 0 else - 1) b v (m\<lparr>mem_ram := r\<rparr>))))"

definition bar_shade :: "u32 \<Rightarrow> u32 \<Rightarrow> u32 \<Rightarrow> u8" where
  "bar_shade fill xx yy = (if xx < fill then ucast (218 + (yy * 24) div BAR_HEIGHT) else ucast (28 + (yy * 20) div BAR_HEIGHT))"

definition bootlogo_paint_progress :: "fb_state \<Rightarrow> bootlogo \<Rightarrow> u32 \<Rightarrow> ram \<Rightarrow> ram" where
  "bootlogo_paint_progress fb b percent m =
     (let w = BAR_WIDTH;
          maxw = (if 40 < framebuffer_width fb then framebuffer_width fb - 40 else framebuffer_width fb);
          w = (if maxw < w then maxw else w);
          x = (if w < framebuffer_width fb then (framebuffer_width fb - w) div 2 else 0);
          y = (if logo_position_valid b then logo_y b + logo_h b + BAR_GAP
               else if BAR_HEIGHT + 72 < framebuffer_height fb then framebuffer_height fb - BAR_HEIGHT - 72
               else if BAR_HEIGHT < framebuffer_height fb then framebuffer_height fb - BAR_HEIGHT else 0);
          fill = (w * percent) div 100;
          radius = BAR_HEIGHT div 2;
          m = fold (\<lambda>yy. fold (\<lambda>xx m.
                let sx = x + of_nat xx; sy = y + of_nat yy; shade = bar_shade fill (of_nat xx) (of_nat yy)
                in if \<not> rounded x y w BAR_HEIGHT radius sx sy then m else px fb sx sy shade shade shade m)
              [0..<unat w]) [0..<unat BAR_HEIGHT] m
      in rect fb (x + 1) (y + 1) (if 2 < w then w - 2 else 0) 1 90 90 90 m)"

definition bootlogo_draw_progress :: "fb_state \<Rightarrow> u32 \<Rightarrow> bootlogo \<Rightarrow> ram \<Rightarrow> bootlogo \<times> ram" where
  "bootlogo_draw_progress fb percent b m =
     (if \<not> framebuffer_enabled fb then (b, m)
      else
        let percent = (if 100 < percent then 100 else percent);
            b = (if percent < last_progress_percent b then b\<lparr>last_progress_percent := percent\<rparr> else b)
        in (b\<lparr>last_progress_percent := percent\<rparr>,
            fold (\<lambda>p. bootlogo_paint_progress fb b (of_nat p)) [unat (last_progress_percent b)..<Suc (unat percent)] m))"

end
