(* ===== verification/Vga_Draw.thy ===== *)
theory Vga_Draw
  imports Framebuffer Mem
begin

unbundle bit_operations_syntax

text \<open>
  The character-cell drawing layer of \<^verbatim>\<open>kernel/vga_draw.c\<close>. Its two static cell buffers lie in RAM at
  addresses the linker chooses, fields of the state here; cells are filled and copied with 64-bit
  accesses, as the code does. The loop of the line drawing is a partial function.
\<close>

definition VGA_DRAW_COLS :: nat where "VGA_DRAW_COLS = 80"
definition VGA_DRAW_ROWS :: nat where "VGA_DRAW_ROWS = 25"

record vga_state =
  back_buffer :: addr
  prev_buffer :: addr
  vga_active :: bool
  initialised :: bool
  prev_valid :: bool
  prev_cols :: u32
  prev_rows :: u32
  front_buffer :: addr

definition pack_cell :: "char \<Rightarrow> u8 \<Rightarrow> u16" where
  "pack_cell ch attr = push_bit 8 (ucast attr) OR of_char ch"

definition fill_cells :: "addr \<Rightarrow> u32 \<Rightarrow> u16 \<Rightarrow> ram \<Rightarrow> ram" where
  "fill_cells dst count cell r =
     (if count = 0 then r
      else
        let pattern = ucast cell :: u64;
            pattern = pattern OR push_bit 16 pattern;
            pattern = pattern OR push_bit 32 pattern;
            blocks = count div 4;
            tail = count mod 4;
            r = fold (\<lambda>i. wr64 (dst + 8 * of_nat i) pattern) [0..<unat blocks] r;
            dst = dst + 2 * ucast (blocks * 4)
        in fold (\<lambda>i. wr16 (dst + 2 * of_nat i) cell) [0..<unat tail] r)"

definition vga_draw_init :: "fb_state \<Rightarrow> vga_state \<Rightarrow> mem_state \<Rightarrow> (vga_state \<times> mem_state) outcome" where
  "vga_draw_init fb v m =
     (let clear_cell = pack_cell (CHR '' '') (VGA_ATTR VGA_WHITE VGA_BLACK);
          cells = of_nat (VGA_DRAW_ROWS * VGA_DRAW_COLS);
          m = m\<lparr>mem_ram := fill_cells (prev_buffer v) cells clear_cell (fill_cells (back_buffer v) cells clear_cell (mem_ram m))\<rparr>;
          v = v\<lparr>vga_active := False, initialised := True, prev_valid := False, prev_cols := 0, prev_rows := 0\<rparr>
      in if \<not> framebuffer_enabled fb
         then bind_outcome (mem_vram_lock (Some ''vga_draw'') m) (\<lambda>(_, m). Ret (v\<lparr>front_buffer := mem_vram_base m\<rparr>, m))
         else Ret (v, m))"

definition vga_draw_begin :: "fb_state \<Rightarrow> vga_state \<Rightarrow> mem_state \<Rightarrow> (vga_state \<times> mem_state) outcome" where
  "vga_draw_begin fb v m =
     bind_outcome (if \<not> initialised v then vga_draw_init fb v m else Ret (v, m)) (\<lambda>(v, m). Ret (v\<lparr>vga_active := True\<rparr>, m))"

definition vga_draw_end :: "vga_state \<Rightarrow> vga_state" where
  "vga_draw_end v = v\<lparr>vga_active := False\<rparr>"

definition vga_draw_is_active :: "vga_state \<Rightarrow> bool" where
  "vga_draw_is_active v = vga_active v"

definition vga_draw_clear :: "vga_state \<Rightarrow> char \<Rightarrow> u8 \<Rightarrow> ram \<Rightarrow> ram" where
  "vga_draw_clear v ch attr r =
     (if \<not> vga_active v then r
      else fill_cells (back_buffer v) (of_nat (VGA_DRAW_ROWS * VGA_DRAW_COLS)) (pack_cell ch attr) r)"

text \<open>The address of a cell of the back buffer; the index is computed in \<open>uint32_t\<close>.\<close>

definition back_cell :: "vga_state \<Rightarrow> int \<Rightarrow> int \<Rightarrow> addr" where
  "back_cell v x y = back_buffer v + 2 * ucast (word_of_int y * of_nat VGA_DRAW_COLS + word_of_int x :: u32)"

definition vga_draw_set_cell :: "vga_state \<Rightarrow> int \<Rightarrow> int \<Rightarrow> char \<Rightarrow> u8 \<Rightarrow> ram \<Rightarrow> ram" where
  "vga_draw_set_cell v x y ch attr r =
     (if \<not> vga_active v then r
      else if x < 0 \<or> int VGA_DRAW_COLS \<le> x \<or> y < 0 \<or> int VGA_DRAW_ROWS \<le> y then r
      else wr16 (back_cell v x y) (pack_cell ch attr) r)"

text \<open>
  The coordinates are of type \<open>int32_t\<close>. The result of an operation on them is cut to 32 bits in two's complement; C leaves a
  result out of this range undefined, and the theorems are about coordinates for which none occurs.
\<close>

definition i32 :: "int \<Rightarrow> int" where
  "i32 = signed_take_bit 31"

partial_function (option) line_loop ::
  "vga_state \<Rightarrow> u16 \<Rightarrow> int \<Rightarrow> int \<Rightarrow> int \<Rightarrow> int \<Rightarrow> int \<Rightarrow> int \<Rightarrow> int \<Rightarrow> int \<Rightarrow> int \<Rightarrow> ram \<Rightarrow> ram option" where
  "line_loop v cell x1 y1 dx sx dy sy x0 y0 err r =
     (let r = (if 0 \<le> x0 \<and> x0 < int VGA_DRAW_COLS \<and> 0 \<le> y0 \<and> y0 < int VGA_DRAW_ROWS
               then wr16 (back_cell v x0 y0) cell r else r)
      in if x0 = x1 \<and> y0 = y1 then Some r
         else
           let e2 = i32 (err * 2);
               (err, x0) = (if i32 (- dy) < e2 then (i32 (err - dy), i32 (x0 + sx)) else (err, x0));
               (err, y0) = (if e2 < dx then (i32 (err + dx), i32 (y0 + sy)) else (err, y0))
           in line_loop v cell x1 y1 dx sx dy sy x0 y0 err r)"

definition vga_draw_line :: "vga_state \<Rightarrow> int \<Rightarrow> int \<Rightarrow> int \<Rightarrow> int \<Rightarrow> char \<Rightarrow> u8 \<Rightarrow> ram \<Rightarrow> ram option" where
  "vga_draw_line v x0 y0 x1 y1 ch attr r =
     (if \<not> vga_active v then Some r
      else
        let dx = (if x0 < x1 then i32 (x1 - x0) else i32 (x0 - x1));
            sx = (if x0 < x1 then 1 else - 1);
            dy = (if y0 < y1 then i32 (y1 - y0) else i32 (y0 - y1));
            sy = (if y0 < y1 then 1 else - 1)
        in line_loop v (pack_cell ch attr) x1 y1 dx sx dy sy x0 y0 (i32 (dx - dy)) r)"

definition vga_draw_rect :: "vga_state \<Rightarrow> int \<Rightarrow> int \<Rightarrow> int \<Rightarrow> int \<Rightarrow> char \<Rightarrow> u8 \<Rightarrow> bool \<Rightarrow> ram \<Rightarrow> ram" where
  "vga_draw_rect v x y w h ch attr fill r =
     (if \<not> vga_active v then r
      else if w \<le> 0 \<or> h \<le> 0 then r
      else if int VGA_DRAW_COLS \<le> x \<or> int VGA_DRAW_ROWS \<le> y then r
      else
        let (w, x) = (if x < 0 then (w + x, 0) else (w, x));
            (h, y) = (if y < 0 then (h + y, 0) else (h, y))
        in if w \<le> 0 \<or> h \<le> 0 then r
        else
          let w = (if int VGA_DRAW_COLS < i32 (x + w) then int VGA_DRAW_COLS - x else w);
              h = (if int VGA_DRAW_ROWS < i32 (y + h) then int VGA_DRAW_ROWS - y else h);
              cell = pack_cell ch attr
          in if fill then fold (\<lambda>row. fill_cells (back_cell v x (y + row)) (word_of_int w) cell) [0..h - 1] r
             else
               let r = fill_cells (back_cell v x y) (word_of_int w) cell r in
               if 1 < h then
                 let r = fill_cells (back_cell v x (i32 (y + h - 1))) (word_of_int w) cell r
                 in fold (\<lambda>row r.
                      let r = wr16 (back_cell v x row) cell r
                      in if 1 < w then wr16 (back_cell v x row + 2 * word_of_int (w - 1)) cell r else r) [y + 1..i32 (y + h - 1) - 1] r
               else r)"

text \<open>The copy of the whole buffer in 64-bit words.\<close>

definition copy_cells :: "addr \<Rightarrow> addr \<Rightarrow> ram \<Rightarrow> ram" where
  "copy_cells dst src = fold (\<lambda>i r. wr64 (dst + 8 * of_nat i) (rd64 r (src + 8 * of_nat i)) r) [0..<(VGA_DRAW_ROWS * VGA_DRAW_COLS) div 4]"

definition vga_draw_present :: "fb_state \<Rightarrow> vga_state \<Rightarrow> ram \<Rightarrow> vga_state \<times> ram" where
  "vga_draw_present fb v r =
     (let cols = of_nat VGA_DRAW_COLS; rows = of_nat VGA_DRAW_ROWS in
      if \<not> initialised v then (v, r)
      else if framebuffer_enabled fb then
        let r = (if \<not> prev_valid v \<or> prev_cols v \<noteq> cols \<or> prev_rows v \<noteq> rows
                 then framebuffer_present_text_grid fb (back_buffer v) cols rows r
                 else framebuffer_present_text_grid_dirty fb (back_buffer v) (prev_buffer v) cols rows r)
        in (v\<lparr>prev_valid := True, prev_cols := cols, prev_rows := rows\<rparr>, copy_cells (prev_buffer v) (back_buffer v) r)
      else (v, copy_cells (front_buffer v) (back_buffer v) r))"

end
