(* ===== verification/Selftest.thy ===== *)
theory Selftest
  imports Launchd Exoimg
begin

unbundle bit_operations_syntax

text \<open>
  The self test that the kernel runs at every boot, \<^verbatim>\<open>kernel/backend_test.c\<close>. The arrays whose bytes the tested code
  reads or writes have addresses the compiler chooses, the fields of \<open>test_arrays\<close>; results that are only compared
  are values. A test returns 0, or -1 at the first expectation that is not met.
\<close>

section \<open>Expectations\<close>

record test_arrays =
  t_img :: addr
  t_image :: addr
  t_fat_payload :: addr
  t_fat_out :: addr
  t_vfs_payload :: addr
  t_vfs_buf :: addr
  t_bad :: addr
  t_magic :: addr
  t_elf :: addr
  t_text :: addr
  t_proc_out :: addr

type_synonym 'a call = "system \<Rightarrow> ('a \<times> system) outcome"

definition test_log :: "string \<Rightarrow> system \<Rightarrow> system outcome" where
  "test_log msg = run_console (console_puts (Some msg))"

definition expect :: "bool \<Rightarrow> string \<Rightarrow> int call" where
  "expect condition name s =
     bind_outcome (test_log (if condition then ''[backend-test] PASS '' else ''[backend-test] FAIL '') s) (\<lambda>s.
     bind_outcome (test_log name s) (\<lambda>s.
     bind_outcome (test_log [CHR 0x0A] s) (\<lambda>s. Ret (if condition then 0 else - 1, s))))"

text \<open>A call whose result the rest of a test uses, an expectation about a call, and the operators of C on conditions.\<close>

definition call :: "'a call \<Rightarrow> ('a \<Rightarrow> 'b call) \<Rightarrow> 'b call" where
  "call f rest s = bind_outcome (f s) (\<lambda>(x, s). rest x s)"

definition check :: "string \<Rightarrow> bool call \<Rightarrow> int call \<Rightarrow> int call" where
  "check name c rest = call c (\<lambda>b. call (expect b name) (\<lambda>e. if e \<noteq> 0 then (\<lambda>s. Ret (- 1, s)) else rest))"

definition gives :: "'a call \<Rightarrow> ('a \<Rightarrow> bool) \<Rightarrow> bool call" where
  "gives f P = call f (\<lambda>x s. Ret (P x, s))"

definition and_also :: "bool call \<Rightarrow> bool call \<Rightarrow> bool call" where
  "and_also a b = call a (\<lambda>x. if x then b else (\<lambda>s. Ret (False, s)))"

definition sees :: "(system \<Rightarrow> bool) \<Rightarrow> bool call" where
  "sees P s = Ret (P s, s)"

definition change :: "(system \<Rightarrow> system) \<Rightarrow> int call" where
  "change f s = Ret (0, f s)"

definition passed :: "int call" where
  "passed s = Ret (0, s)"

text \<open>Calls on the components that always return.\<close>

definition pure_kernel :: "(kernel \<Rightarrow> 'a \<times> kernel) \<Rightarrow> 'a call" where
  "pure_kernel f = call_kernel (\<lambda>k. Ret (f k))"

definition pure_vfs :: "(vfs_state \<Rightarrow> 'a \<times> vfs_state) \<Rightarrow> 'a call" where
  "pure_vfs f = pure_kernel (\<lambda>k. let (x, v) = f (kvfs k) in (x, k\<lparr>kvfs := v\<rparr>))"

definition pure_fs :: "(fs_state \<Rightarrow> 'a \<times> fs_state) \<Rightarrow> 'a call" where
  "pure_fs f = call_fs (\<lambda>fs r. let (x, fs) = f fs in Ret (x, fs, r))"

definition call_ctx :: "(memctx_state \<Rightarrow> mem_state \<Rightarrow> ('a \<times> memctx_state \<times> mem_state) outcome) \<Rightarrow> 'a call" where
  "call_ctx f = call_kernel (\<lambda>k. bind_outcome (f (kctx k) (kmem k)) (\<lambda>(x, c, m). Ret (x, k\<lparr>kctx := c, kmem := m\<rparr>)))"

definition call_mem :: "(mem_state \<Rightarrow> ('a \<times> mem_state) outcome) \<Rightarrow> 'a call" where
  "call_mem f = call_kernel (\<lambda>k. bind_outcome (f (kmem k)) (\<lambda>(x, m). Ret (x, k\<lparr>kmem := m\<rparr>)))"

definition poke :: "(ram \<Rightarrow> ram) \<Rightarrow> int call" where
  "poke f = change (upd_sys_ram f)"

definition set_boot :: "(boot_state \<Rightarrow> boot_state) \<Rightarrow> int call" where
  "set_boot f = change (\<lambda>(w, k). (w\<lparr>s_con := (s_con w)\<lparr>cboot := f (cboot (s_con w))\<rparr>\<rparr>, k))"

definition sees_boot :: "(boot_state \<Rightarrow> bool) \<Rightarrow> bool call" where
  "sees_boot P = sees (\<lambda>s. P (cboot (s_con (fst s))))"

definition c_string :: "string \<Rightarrow> u8 list" where
  "c_string s = map of_char s @ [0]"

section \<open>Boot options, images and the FAT32 volume\<close>

definition test_boot_modes_and_exoimg :: "test_arrays \<Rightarrow> int call" where
  "test_boot_modes_and_exoimg t =
     (let img = t_img t in
      call (set_boot (\<lambda>b. bootmode_parse_cmdline (Some ''white nologs bootprogress'') (bootmode_init b))) (\<lambda>_.
      check ''boot_flags_white_nologs'' (sees_boot (\<lambda>b. bootmode_theme b = BOOT_THEME_WHITE \<and> \<not> bootmode_logs_visible b)) (
      check ''boot_progress_flag'' (sees_boot bootmode_progress_visible) (
      call (set_boot (\<lambda>b. bootmode_set_theme BOOT_THEME_DARK (bootmode_set_progress_visible False (bootmode_set_logs_visible True b)))) (\<lambda>_.
      check ''display_state_transition''
        (sees_boot (\<lambda>b. bootmode_theme b = BOOT_THEME_DARK \<and> bootmode_logs_visible b \<and> \<not> bootmode_progress_visible b)) (
      call (poke (\<lambda>r. wr32 (img + 20) 16 (wr32 (img + 16) EXOIMG_FORMAT_RGBA8888 (wr32 (img + 12) 2 (wr32 (img + 8) 2
        (put_bytes img (c_string ''EXOIMG1'') (memset img 0 40 r))))))) (\<lambda>_.
      check ''exoimg_valid_header''
        (sees (\<lambda>s. case exoimg_validate img 40 (sys_ram s) of (e, Some h) \<Rightarrow> e = 0 \<and> img_width h = 2 \<and> img_height h = 2 | _ \<Rightarrow> False)) (
      call (poke (\<lambda>r. r(img := of_char (CHR ''B'')))) (\<lambda>_.
      check ''exoimg_reject_bad_magic'' (sees (\<lambda>s. fst (exoimg_validate img 40 (sys_ram s)) \<noteq> 0)) (
      call (poke (\<lambda>r. wr32 (img + 20) 12 (r(img := of_char (CHR ''E''))))) (\<lambda>_.
      check ''exoimg_reject_bad_size'' (sees (\<lambda>s. fst (exoimg_validate img 40 (sys_ram s)) \<noteq> 0)) passed)))))))))))"

definition make_test_fat32 :: "addr \<Rightarrow> u64 \<Rightarrow> ram \<Rightarrow> ram" where
  "make_test_fat32 img bytes r =
     (let r = memset img 0 bytes r;
          r = put_bytes img ([0xEB, 0x58, 0x90] @ map of_char ''EXOFAT32'') r;
          r = wr16 (img + 11) 512 r;
          r = r(img + 13 := 1);
          r = wr16 (img + 14) 1 r;
          r = r(img + 16 := 1, img + 21 := 0xF8);
          r = wr32 (img + 32) (ucast (bytes div 512)) r;
          r = wr32 (img + 36) 1 r;
          r = wr32 (img + 44) 2 r;
          r = put_bytes (img + 82) (map of_char ''FAT32'') r;
          r = r(img + 510 := 0x55, img + 511 := 0xAA);
          r = wr32 (img + 512) 0x0FFFFFF8 r;
          r = wr32 (img + 516) 0x0FFFFFFF r
      in wr32 (img + 520) 0x0FFFFFFF r)"

definition mount_fs :: "addr \<Rightarrow> u64 \<Rightarrow> int call" where
  "mount_fs p n s =
     (let (w, k) = s; fs = fs_mount p n ((s_fs w)\<lparr>fs_out := []\<rparr>) (sys_ram s)
      in bind_outcome (run_console (run_con (fs_out fs)) (w\<lparr>s_fs := fs\<rparr>, k)) (\<lambda>s. Ret (0, s)))"

definition test_fat32_fs :: "test_arrays \<Rightarrow> int call" where
  "test_fat32_fs t =
     (let payload = t_fat_payload t; out = t_fat_out t in
      call (poke (\<lambda>r. make_test_fat32 (t_image t) (16 * 512) (put_bytes payload (c_string ''fat32-ok'') r))) (\<lambda>_.
      call (mount_fs (t_image t) (16 * 512)) (\<lambda>_.
      check ''fat32_mount'' (sees (\<lambda>s. fs_is_fat32 (s_fs (fst s)))) (
      call (call_fs (fs_open (Some ''/BOOT.TXT'') (0x10 OR 0x03 OR 0x20))) (\<lambda>fd.
      check ''fat32_open_create'' (sees (\<lambda>_. 0 \<le> fd)) (
      check ''fat32_write'' (gives (call_fs (fs_write_fd fd payload 9)) (\<lambda>n. n = 9)) (
      check ''fat32_lseek'' (gives (pure_fs (fs_lseek_fd fd 0 0)) (\<lambda>n. n = 0)) (
      call (poke (memset out 0 24)) (\<lambda>_.
      check ''fat32_read'' (gives (call_fs (fs_read_fd fd out 9)) (\<lambda>n. n = 9)) (
      check ''fat32_read_data'' (sees (\<lambda>s. memcmp (sys_ram s) out payload 9 = 0)) (
      check ''fat32_file_size'' (sees (\<lambda>s. fs_file_size fd (s_fs (fst s)) = 9)) (
      check ''fat32_close'' (gives (pure_fs (fs_close fd)) (\<lambda>n. n = 0)) passed))))))))))))"

section \<open>The file tree\<close>

definition VFS_SEEK_SET :: int where "VFS_SEEK_SET = 0"

definition stat_is :: "string \<Rightarrow> (vfs_stat_t \<Rightarrow> bool) \<Rightarrow> bool call" where
  "stat_is path P = sees (\<lambda>s. case vfs_stat (Some path) 1 (kvfs (snd s)) of (e, Some st) \<Rightarrow> e = 0 \<and> P st | _ \<Rightarrow> False)"

definition test_vfs_tree :: "int call" where
  "test_vfs_tree =
     check ''vfs_rename'' (gives (pure_vfs (vfs_rename (Some ''/sys/backend.txt'') (Some ''/sys/renamed.txt''))) (\<lambda>e. e = 0)) (
     check ''vfs_stat'' (stat_is ''/sys/renamed.txt'' (\<lambda>st. stat_type st = VFS_TYPE_FILE)) (
     call (call_vfs (vfs_open (Some ''/sys'') VFS_O_RDONLY)) (\<lambda>dirfd.
     check ''vfs_open_dir'' (sees (\<lambda>_. 0 \<le> dirfd)) (
     call (pure_vfs (\<lambda>v. let (n, es, v) = vfs_getdents dirfd 1 4 v in ((n, es), v))) (\<lambda>(dent_count, ents).
     check ''vfs_getdents'' (sees (\<lambda>_. dent_count = 1 \<and> map d_name (take 1 ents) = [''renamed.txt''])) (
     call (pure_vfs (vfs_close dirfd)) (\<lambda>_.
     check ''vfs_chdir'' (gives (pure_vfs (vfs_chdir (Some ''/sys''))) (\<lambda>e. e = 0)) (
     call (\<lambda>s. bind_outcome (of_option (vfs_getcwd 1 32 (kvfs (snd s)))) (\<lambda>x. Ret (x, s))) (\<lambda>cwd.
     check ''vfs_getcwd'' (sees (\<lambda>_. cwd = (0, Some ''/sys''))) (
     check ''vfs_chdir_root'' (gives (pure_vfs (vfs_chdir (Some ''/''))) (\<lambda>e. e = 0)) (
     check ''vfs_unlink'' (gives (call_vfs (vfs_unlink (Some ''/sys/renamed.txt''))) (\<lambda>e. e = 0)) passed)))))))))))"

definition test_vfs :: "test_arrays \<Rightarrow> int call" where
  "test_vfs t =
     (let payload = t_vfs_payload t; buf = t_vfs_buf t in
      check ''vfs_init'' (gives (pure_vfs vfs_init) (\<lambda>e. e = 0)) (
      check ''vfs_mkdir'' (gives (pure_vfs (vfs_mkdir (Some ''/sys''))) (\<lambda>e. e = 0)) (
      call (call_vfs (vfs_open (Some ''/sys/backend.txt'') (VFS_O_CREAT OR VFS_O_RDWR OR VFS_O_TRUNC))) (\<lambda>fd.
      check ''vfs_open_create'' (sees (\<lambda>_. 0 \<le> fd)) (
      call (poke (put_bytes payload (c_string ''backend-ok''))) (\<lambda>_.
      check ''vfs_write'' (gives (call_vfs (vfs_write fd payload 11)) (\<lambda>n. n = 11)) (
      check ''vfs_lseek'' (gives (pure_vfs (vfs_lseek fd 0 VFS_SEEK_SET)) (\<lambda>n. n = 0)) (
      call (poke (memset buf 0 32)) (\<lambda>_.
      check ''vfs_read'' (gives (call_vfs (\<lambda>v m. Ret (vfs_read fd buf 11 v m))) (\<lambda>n. n = 11)) (
      check ''vfs_read_data'' (sees (\<lambda>s. memcmp (sys_ram s) buf payload 11 = 0)) (
      check ''vfs_fstat'' (sees (\<lambda>s. case vfs_fstat fd 1 (kvfs (snd s)) of
          (e, Some st) \<Rightarrow> e = 0 \<and> stat_type st = VFS_TYPE_FILE \<and> stat_size st = 11 | _ \<Rightarrow> False)) (
      check ''vfs_close'' (gives (pure_vfs (vfs_close fd)) (\<lambda>e. e = 0)) test_vfs_tree))))))))))))"

definition test_embedded_initramfs_install :: "test_arrays \<Rightarrow> embedded \<Rightarrow> int call" where
  "test_embedded_initramfs_install t files =
     (let exists = (\<lambda>path. stat_is path (\<lambda>st. stat_type st = VFS_TYPE_FILE \<and> 0 < stat_size st)) in
      check ''initramfs_vfs_ready'' (gives (pure_vfs vfs_init) (\<lambda>e. e = 0)) (
      call (poke (put_bytes (t_bad t) (c_string ''x''))) (\<lambda>_.
      check ''initramfs_reject_bad_write'' (gives (install_initramfs_file None (t_bad t) 2) (\<lambda>e. e \<noteq> 0)) (
      check ''initramfs_install_all_files'' (gives (install_embedded_initramfs files) (\<lambda>e. e = 0)) (
      check ''initramfs_launchd_exists'' (exists ''/launchd.elf'') (
      check ''initramfs_launchd_cfg_exists'' (exists ''/launchd.cfg'') (
      check ''initramfs_shelld_exists'' (exists ''/shelld.elf'') (
      call (call_vfs (vfs_open (Some ''/launchd.elf'') VFS_O_RDONLY)) (\<lambda>fd.
      call (poke (memset (t_magic t) 0 4)) (\<lambda>_.
      call (if 0 \<le> fd then call_vfs (\<lambda>v m. Ret (vfs_read fd (t_magic t) 4 v m)) else (\<lambda>s. Ret (- 1, s))) (\<lambda>got.
      call (if 0 \<le> fd then pure_vfs (vfs_close fd) else passed) (\<lambda>_.
      check ''initramfs_launchd_keeps_elf_magic''
        (sees (\<lambda>s. got = 4 \<and> map (\<lambda>i. sys_ram s (t_magic t + of_nat i)) [0..<4] = 0x7F # map of_char ''ELF'')) passed))))))))))))"

section \<open>Memory\<close>

definition test_heap_growth :: "int call" where
  "test_heap_growth =
     (let mem_info = (\<lambda>s. bind_outcome (of_option (mem_get_info (kmem (snd s)))) (\<lambda>i. Ret (i, s))) in
      call mem_info (\<lambda>before.
      call (call_mem (mem_alloc (info_heap_committed before + 4096))) (\<lambda>big.
      call mem_info (\<lambda>after_grow.
      check ''heap_grows_past_committed'' (sees (\<lambda>_. big \<noteq> 0 \<and> info_grow_count before < info_grow_count after_grow \<and>
          info_heap_committed before < info_heap_committed after_grow)) (
      call (call_mem (\<lambda>m. bind_outcome (mem_free big (info_heap_committed before + 4096) m) (\<lambda>m. Ret (0 :: int, m)))) (\<lambda>_.
      call (call_mem (mem_alloc (info_heap_max after_grow + 4096))) (\<lambda>too_big.
      call mem_info (\<lambda>after_fail.
      check ''heap_max_returns_null'' (sees (\<lambda>_. too_big = 0 \<and> info_alloc_fail_count after_grow < info_alloc_fail_count after_fail)) passed))))))))"

definition test_memctx :: "int call" where
  "test_memctx =
     (let stats_are = (\<lambda>ctx P. sees (\<lambda>s. case memctx_stats ctx 1 (kctx (snd s)) of (e, Some st) \<Rightarrow> e = 0 \<and> P st | _ \<Rightarrow> False)) in
      call (pure_kernel (\<lambda>k. let (x, c) = memctx_create 100 256 (kctx k) in (x, k\<lparr>kctx := c\<rparr>))) (\<lambda>ctx.
      check ''memctx_create'' (sees (\<lambda>_. 0 < ctx)) (
      call (call_ctx (memctx_alloc ctx 64)) (\<lambda>a.
      call (call_ctx (memctx_alloc ctx 128)) (\<lambda>b.
      check ''memctx_alloc'' (sees (\<lambda>_. a \<noteq> 0 \<and> b \<noteq> 0)) (
      check ''memctx_stats'' (stats_are ctx (\<lambda>st. st_used st = 192 \<and> st_peak st = 192 \<and> st_allocations st = 2)) (
      check ''memctx_quota'' (gives (call_ctx (memctx_alloc ctx 128)) (\<lambda>p. p = 0)) (
      check ''memctx_free'' (gives (call_ctx (memctx_free ctx a)) (\<lambda>e. e = 0)) (
      check ''memctx_stats_after_free'' (stats_are ctx (\<lambda>st. st_used st = 128 \<and> st_allocations st = 1)) (
      check ''memctx_destroy'' (gives (call_ctx (memctx_destroy ctx)) (\<lambda>e. e = 0)) passed))))))))))"

section \<open>Programs and processes\<close>

definition make_test_elf :: "addr \<Rightarrow> u64 \<Rightarrow> u16 \<Rightarrow> u32 \<Rightarrow> u64 \<Rightarrow> ram \<Rightarrow> ram" where
  "make_test_elf img bytes machine ph_type memsz r =
     (let ph = img + of_nat sizeof_elf_header;
          r = memset img 0 bytes r;
          r = wr32 img ELF_MAGIC r;
          r = r(img + 4 := ELF_CLASS_64, img + 5 := ELF_DATA_LSB, img + 6 := of_nat ELF_VERSION_CURRENT);
          r = wr16 (img + 16) ELF_TYPE_EXEC r;
          r = wr16 (img + 18) machine r;
          r = wr32 (img + 20) (of_nat ELF_VERSION_CURRENT) r;
          r = wr64 (img + 24) 0x400100 r;
          r = wr64 (img + 32) (of_nat sizeof_elf_header) r;
          r = wr16 (img + 52) (of_nat sizeof_elf_header) r;
          r = wr16 (img + 54) (of_nat sizeof_elf_phdr) r;
          r = wr16 (img + 56) 1 r;
          r = wr32 ph ph_type r;
          r = wr32 (ph + 4) (ELF_PF_R OR ELF_PF_X) r;
          r = wr64 (ph + 8) 0x100 r;
          r = wr64 (ph + 16) 0x400100 r;
          r = wr64 (ph + 32) 4 r;
          r = wr64 (ph + 40) memsz r;
          r = wr64 (ph + 48) 0x1000 r
      in put_bytes (img + 0x100) [0xC3, 0x90, 0x90, 0x90] r)"

definition wait_for :: "int \<Rightarrow> int \<Rightarrow> int \<Rightarrow> (int \<times> int) call" where
  "wait_for par pid before = call_kernel (\<lambda>k.
     bind_outcome (proc_wait par pid 1 k) (\<lambda>(e, status, k). Ret ((e, case status of None \<Rightarrow> before | Some v \<Rightarrow> v), k)))"

definition info_is :: "int \<Rightarrow> (proc_info_t \<Rightarrow> bool) \<Rightarrow> bool call" where
  "info_is pid P = sees (\<lambda>s. case proc_info pid 1 (snd s) of (e, Some i) \<Rightarrow> e = 0 \<and> P i | _ \<Rightarrow> False)"

definition test_elf_loader :: "test_arrays \<Rightarrow> int call" where
  "test_elf_loader t =
     (let img = t_elf t; validates = (\<lambda>P. sees (\<lambda>s. P (elf_validate img 512 (sys_ram s)))) in
      call (pure_kernel (\<lambda>k. proc_create (Some ''elf-test'') 0 (proc_init k))) (\<lambda>pid.
      check ''launchd_pid_is_1'' (sees (\<lambda>_. pid = 1)) (
      call (poke (make_test_elf img 512 ELF_MACHINE_X86_64 ELF_PT_LOAD 16)) (\<lambda>_.
      check ''elf_load_valid_launchd'' (validates (\<lambda>e. e = 0)) (
      call (call_kernel (\<lambda>k. bind_outcome (elf_load_process_image pid img 512 1 k) (\<lambda>(e, im, k). Ret ((e, im), k)))) (\<lambda>(e, loaded).
      check ''launchd_entry_comes_from_elf'' (sees (\<lambda>_. e = 0)) (
      check ''elf_zeroes_bss'' (sees (\<lambda>s. case loaded of None \<Rightarrow> False | Some im \<Rightarrow> sys_ram s (im_load_base im + 4) = 0 \<and> sys_ram s (im_load_base im + 15) = 0)) (
      check ''launchd_is_not_kernel_fake_path'' (and_also (gives (call_kernel (proc_attach_image pid (Some ''/launchd.elf'') loaded)) (\<lambda>e. e = 0))
          (info_is pid (\<lambda>i. Some (entry_point i) = map_option im_entry loaded))) (
      call (poke (\<lambda>r. r(img := 0))) (\<lambda>_.
      check ''elf_reject_bad_magic'' (validates (\<lambda>e. e \<noteq> 0)) (
      call (poke (make_test_elf img 512 3 ELF_PT_LOAD 16)) (\<lambda>_.
      check ''elf_reject_bad_machine'' (validates (\<lambda>e. e \<noteq> 0)) (
      call (poke (make_test_elf img 512 ELF_MACHINE_X86_64 ELF_PT_LOAD 2)) (\<lambda>_.
      check ''elf_reject_bad_program_header'' (validates (\<lambda>e. e \<noteq> 0)) passed))))))))))))))"

definition test_process_model_cleanup :: "int call" where
  "test_process_model_cleanup =
     (call (pure_kernel (\<lambda>k. proc_create (Some ''launchd'') 0 (proc_init k))) (\<lambda>launchd.
      call (pure_kernel (proc_create (Some ''shelld'') launchd)) (\<lambda>shelld.
      call (pure_kernel (proc_create (Some ''helper'') launchd)) (\<lambda>helper.
      check ''launchd_spawns_all_configured_daemons'' (sees (\<lambda>_. launchd = 1 \<and> shelld = 2 \<and> helper = 3)) (
      check ''shelld_parent_is_launchd'' (info_is shelld (\<lambda>i. pi_parent_pid i = launchd)) (
      check ''shelld_runs_as_pid2_current'' (and_also (gives (pure_kernel (proc_set_current shelld)) (\<lambda>e. e = 0))
          (sees (\<lambda>s. proc_current_pid (snd s) = 2 \<and> proc_current_valid (snd s)))) (
      check ''shelld_current_parent_is_pid1'' (\<lambda>s. info_is (proc_current_pid (snd s)) (\<lambda>i. pi_parent_pid i = 1) s) (
      check ''kill_pid1_protected'' (and_also (gives (call_kernel (proc_kill 1 (- 1))) (\<lambda>e. e = PROC_ERR_PROTECTED))
          (info_is 1 (\<lambda>i. pi_state i \<noteq> PROC_STATE_EXITED))) (
      check ''kill_normal_child'' (and_also (gives (call_kernel (proc_kill helper (- 1))) (\<lambda>e. e = 0))
          (info_is helper (\<lambda>i. pi_state i = PROC_STATE_EXITED))) (
      check ''kill_rejects_already_exited'' (gives (call_kernel (proc_kill helper (- 1))) (\<lambda>e. e = PROC_ERR_INVALID_STATE)) (
      call (pure_kernel (proc_create (Some ''orphan-me'') shelld)) (\<lambda>grandchild.
      check ''kill_current_shelld_clears_context'' (and_also (sees (\<lambda>_. grandchild = 4)) (and_also (gives (call_kernel (proc_kill shelld (- 1))) (\<lambda>e. e = 0))
          (sees (\<lambda>s. proc_current_pid (snd s) = 0 \<and> \<not> proc_current_valid (snd s))))) (
      check ''orphan_reparent_to_pid1'' (info_is grandchild (\<lambda>i. pi_parent_pid i = 1)) (
      check ''pid1_reaps_zombie'' (gives (wait_for launchd shelld (- 1)) (\<lambda>(pid, status). pid = shelld \<and> status = - 1)) passed))))))))))))))"

definition test_proc :: "test_arrays \<Rightarrow> int call" where
  "test_proc t =
     (let text = t_text t; out = t_proc_out t in
      call (pure_kernel (proc_create (Some ''tester-parent'') 0)) (\<lambda>parent.
      check ''proc_create_parent'' (sees (\<lambda>_. 0 < parent)) (
      check ''proc_set_current'' (and_also (gives (pure_kernel (proc_set_current parent)) (\<lambda>e. e = 0)) (sees (\<lambda>s. proc_current_pid (snd s) = parent))) (
      call (pure_kernel (proc_create (Some ''tester-child'') parent)) (\<lambda>child.
      check ''proc_create_child'' (sees (\<lambda>_. 0 < child)) (
      call (call_kernel (proc_alloc child 96)) (\<lambda>block.
      check ''proc_memory'' (and_also (sees (\<lambda>_. block \<noteq> 0)) (gives (call_kernel (proc_free child block)) (\<lambda>e. e = 0))) (
      call (call_kernel (proc_open child (Some ''/procfile.txt'') (VFS_O_CREAT OR VFS_O_RDWR OR VFS_O_TRUNC))) (\<lambda>fd.
      check ''proc_open'' (sees (\<lambda>_. 0 \<le> fd)) (
      call (poke (put_bytes text (c_string ''proc-ok''))) (\<lambda>_.
      check ''proc_write'' (gives (call_kernel (proc_write child fd text 8)) (\<lambda>n. n = 8)) (
      call (pure_kernel (proc_lseek child fd 0 VFS_SEEK_SET)) (\<lambda>_.
      call (poke (memset out 0 16)) (\<lambda>_.
      check ''proc_read'' (and_also (gives (pure_kernel (proc_read child fd out 8)) (\<lambda>n. n = 8)) (sees (\<lambda>s. memcmp (sys_ram s) out text 8 = 0))) (
      check ''proc_close'' (gives (pure_kernel (proc_close child fd)) (\<lambda>e. e = 0)) (
      check ''proc_info'' (info_is child (\<lambda>i. pi_parent_pid i = parent)) (
      check ''proc_exit'' (gives (call_kernel (proc_exit child 7)) (\<lambda>e. e = 0)) (
      check ''proc_wait'' (gives (wait_for parent child 0) (\<lambda>(pid, status). pid = child \<and> status = 7)) passed))))))))))))))))))"

section \<open>The whole test\<close>

text \<open>The tests run one after the other, whatever their results; steps between them change the state only.\<close>

fun count_failures :: "int call list \<Rightarrow> int \<Rightarrow> int call" where
  "count_failures [] failures s = Ret (failures, s)"
| "count_failures (t # ts) failures s = bind_outcome (t s) (\<lambda>(e, s). count_failures ts (failures + (if e = 0 then 0 else 1)) s)"

definition backend_selftest_run :: "test_arrays \<Rightarrow> embedded \<Rightarrow> int call" where
  "backend_selftest_run t files s =
     bind_outcome (test_log (''[backend-test] starting backend driver tests'' @ [CHR 0x0A]) s) (\<lambda>s.
       let saved = cboot (s_con (fst s));
           restore = (\<lambda>b. bootmode_set_theme (bootmode_theme saved) (bootmode_set_progress_visible (bootmode_progress_visible saved)
             (bootmode_set_logs_visible (bootmode_logs_visible saved) b)));
           init = change (\<lambda>(w, k). (w, proc_init k))
       in bind_outcome (count_failures
            [test_boot_modes_and_exoimg t, set_boot restore, test_fat32_fs t, test_vfs t, test_embedded_initramfs_install t files, init,
             test_elf_loader t, test_process_model_cleanup, init, test_memctx, test_heap_growth, test_proc t] 0 s) (\<lambda>(failures, s).
            if failures = 0 then bind_outcome (test_log (''[backend-test] ALL BACKEND TESTS PASSED'' @ [CHR 0x0A]) s) (\<lambda>s. Ret (0, s))
            else bind_outcome (test_log (''[backend-test] BACKEND TESTS FAILED'' @ [CHR 0x0A]) s) (\<lambda>s. Ret (- 1, s))))"

end
