(* ===== verification/Boot.thy ===== *)
theory Boot
  imports Idt Mpy_Loader Bootlogo Vga_Draw Selftest
begin

unbundle bit_operations_syntax

text \<open>
  The boot sequence of \<open>kernel_main\<close> in \<^verbatim>\<open>kernel/main.c\<close>, in the configuration of \<^verbatim>\<open>config.h\<close> (no run directory):
  \<open>boot_early\<close> goes from the entry to the boot picture, then comes the self test, and \<open>boot_late\<close> goes from
  the process table to the halt. The static variables of \<^verbatim>\<open>main.c\<close> and the states of the components are the
  fields of \<open>booting\<close>; \<open>debug_mode\<close>, one variable in C, is kept in the console and in the heap and set in
  both. The addresses the linker chooses, the page tables and interrupt entries of the assembly files, the
  embedded data and the MicroPython runtime are the environment.
\<close>

section \<open>State\<close>

record boot_opts =
  userland_mode :: bool
  mp_vga_output :: bool
  vga_console_enabled :: bool

record booting =
  b_sys :: system
  b_idt :: idt_state
  b_vga :: vga_state
  b_logo :: bootlogo
  b_opts :: boot_opts
  b_panic :: panic_info
  g_mbi :: addr

record boot_env =
  e_sys :: sys_env
  e_embedded :: embedded
  e_test :: test_arrays
  e_logo :: addr
  e_logo_len :: u32
  e_map_span :: "u64 \<Rightarrow> u64 \<Rightarrow> ram \<Rightarrow> ram"
  e_stubs :: "nat \<Rightarrow> addr"
  e_idt :: addr
  e_idt_init :: addr
  e_rsp :: u64
  e_copy_buffer :: addr
  e_mp_init :: "system \<Rightarrow> system outcome"
  e_mp_deinit :: "system \<Rightarrow> system outcome"

definition MULTIBOOT_BOOTLOADER_MAGIC :: u32 where "MULTIBOOT_BOOTLOADER_MAGIC = 0x2BADB002"
definition EXOCORE_KERNEL_HEAP_SIZE :: u64 where "EXOCORE_KERNEL_HEAP_SIZE = 512 * 1024"
definition EXOCORE_VERSION :: string where "EXOCORE_VERSION = ''0T0025F''"
definition BUILD_MODEL :: string where "BUILD_MODEL = ''UNKNOWN''"

text \<open>Steps one after the other, steps that depend on a condition, and calls on the components.\<close>

type_synonym boot_step = "booting \<Rightarrow> booting outcome"

fun steps :: "boot_step list \<Rightarrow> boot_step" where
  "steps [] b = Ret b"
| "steps (f # fs) b = bind_outcome (f b) (steps fs)"

definition only_if :: "(booting \<Rightarrow> bool) \<Rightarrow> boot_step list \<Rightarrow> boot_step" where
  "only_if P fs b = (if P b then steps fs b else Ret b)"

definition on_con :: "(console \<Rightarrow> console option) \<Rightarrow> boot_step" where
  "on_con f b = bind_outcome (run_console f (b_sys b)) (\<lambda>s. Ret (b\<lparr>b_sys := s\<rparr>))"

definition upd_con :: "(console \<Rightarrow> console) \<Rightarrow> boot_step" where
  "upd_con f = on_con (\<lambda>c. Some (f c))"

definition con_of :: "booting \<Rightarrow> console" where
  "con_of b = s_con (fst (b_sys b))"

definition debugging :: "booting \<Rightarrow> bool" where
  "debugging b = console.debug_mode (con_of b)"

definition dbg :: "(console \<Rightarrow> console option) \<Rightarrow> boot_step" where
  "dbg f = only_if debugging [on_con f]"

definition with_newline :: "string \<Rightarrow> string" where
  "with_newline s = s @ [CHR 0x0A]"

definition boot_info :: "addr \<Rightarrow> booting \<Rightarrow> multiboot_info_t" where
  "boot_info mbi b = multiboot_info (sys_ram (b_sys b)) mbi"

section \<open>The command line\<close>

definition set_debug :: "booting \<Rightarrow> booting" where
  "set_debug b = (let (w, k) = b_sys b in
     b\<lparr>b_sys := (w\<lparr>s_con := (s_con w)\<lparr>debug_mode := True\<rparr>\<rparr>, k\<lparr>kmem := (kmem k)\<lparr>mem_state.debug_mode := True\<rparr>\<rparr>)\<rparr>)"

fun option_loop :: "string \<Rightarrow> booting \<Rightarrow> booting" where
  "option_loop [] b = b"
| "option_loop (ch # cs) b =
     (let p = ch # cs;
          b = (if \<not> debugging b \<and> take 5 p = ''debug'' then set_debug b else b);
          b = (if take 8 p = ''userland'' then b\<lparr>b_opts := (b_opts b)\<lparr>userland_mode := True\<rparr>\<rparr> else b);
          b = (if take 7 p = ''nompvga'' then b\<lparr>b_opts := (b_opts b)\<lparr>mp_vga_output := False\<rparr>\<rparr> else b);
          b = (if take 8 p = ''novgacon'' then b\<lparr>b_opts := (b_opts b)\<lparr>vga_console_enabled := False\<rparr>\<rparr> else b)
      in option_loop cs b)"

definition parse_cmdline :: "string option \<Rightarrow> boot_step" where
  "parse_cmdline cmd b =
     (case cmd of
        None \<Rightarrow> Ret b
      | Some s \<Rightarrow> bind_outcome (upd_con (\<lambda>c. c\<lparr>cboot := bootmode_parse_cmdline cmd (cboot c)\<rparr>) b) (\<lambda>b. Ret (option_loop s b)))"

section \<open>Consoles\<close>

definition configure_framebuffer :: "boot_env \<Rightarrow> addr \<Rightarrow> boot_step" where
  "configure_framebuffer env mbi b =
     (let i = boot_info mbi b; info = (\<lambda>c. multiboot_info (cram c) mbi);
          span = ucast (mb_fb_pitch i) * ucast (mb_fb_height i) :: u64
      in steps
        [only_if (\<lambda>_. span \<noteq> 0) [upd_con (upd_cram (e_map_span env (mb_fb_addr i) span))],
         upd_con (\<lambda>c. let i = info c; f = (\<lambda>n. mb_fb_fields i ! n) in
           c\<lparr>cfb := framebuffer_enable True (framebuffer_configure (mb_fb_addr i) (mb_fb_pitch i) (mb_fb_width i) (mb_fb_height i)
           (mb_fb_bpp i) (mb_fb_type i) (f 0) (f 1) (f 2) (f 3) (f 4) (f 5) (f 6) (f 7) (cfb c))\<rparr>),
         dbg (serial_write ''[debug] framebuffer config width=''), dbg (\<lambda>c. serial_udec (mb_fb_width (info c)) c),
         dbg (serial_write '' height=''), dbg (\<lambda>c. serial_udec (mb_fb_height (info c)) c),
         dbg (serial_write '' pitch=''), dbg (\<lambda>c. serial_udec (mb_fb_pitch (info c)) c),
         dbg (serial_write '' bpp=''), dbg (\<lambda>c. serial_udec (ucast (mb_fb_bpp (info c))) c),
         dbg (serial_write '' type=''), dbg (\<lambda>c. serial_udec (ucast (mb_fb_type (info c))) c),
         dbg (serial_write '' enabled=''),
         dbg (\<lambda>c. serial_udec (if framebuffer_enabled (cfb c) then 1 else 0) c),
         on_con (\<lambda>c. serial_write (with_newline (if framebuffer_enabled (cfb c) then ''framebuffer enabled''
           else ''framebuffer unavailable (unsupported mode); using VGA console'')) c)] b)"

definition boot_display :: "bool \<Rightarrow> boot_step" where
  "boot_display framebuffer_ready = steps
     [only_if (\<lambda>b. \<not> framebuffer_ready \<and> \<not> vga_console_enabled (b_opts b))
        [on_con (serial_write (with_newline ''novgacon requested but framebuffer is inactive; enabling VGA fallback'')),
         \<lambda>b. Ret (b\<lparr>b_opts := (b_opts b)\<lparr>vga_console_enabled := True\<rparr>\<rparr>)],
      \<lambda>b. upd_con (console_set_vga_enabled (vga_console_enabled (b_opts b))) b,
      upd_con console_apply_boot_theme,
      only_if (\<lambda>_. framebuffer_ready)
        [upd_con (\<lambda>c. let v = (if bootmode_theme (cboot c) = BOOT_THEME_WHITE then 255 else 0)
           in upd_cram (framebuffer_clear_rgb (cfb c) v v v) c)],
      \<lambda>b. let (w, k) = b_sys b in
        bind_outcome (console_init ((s_con w)\<lparr>cmem := kmem k\<rparr>)) (\<lambda>c. Ret (b\<lparr>b_sys := (w\<lparr>s_con := c\<rparr>, k\<lparr>kmem := cmem c\<rparr>)\<rparr>)),
      on_con debuglog_print_timestamp, dbg (console_puts (Some (with_newline ''console_init done''))),
      \<lambda>b. let (w, k) = b_sys b in
        bind_outcome (vga_draw_init (cfb (s_con w)) (b_vga b) (kmem k)) (\<lambda>(v, m). Ret (b\<lparr>b_sys := (w, k\<lparr>kmem := m\<rparr>), b_vga := v\<rparr>))]"

definition boot_consoles :: "boot_env \<Rightarrow> u32 \<Rightarrow> addr \<Rightarrow> boot_step" where
  "boot_consoles env magic mbi b =
     bind_outcome (steps
       [upd_con (\<lambda>c. c\<lparr>cboot := bootmode_init (cboot c)\<rparr>), on_con debuglog_print_timestamp, dbg (console_puts (Some (with_newline ''kernel_main start''))),
        on_con serial_init, on_con debuglog_print_timestamp, dbg (console_puts (Some (with_newline ''serial_init done'')))] b) (\<lambda>b.
     if magic \<noteq> MULTIBOOT_BOOTLOADER_MAGIC then Panic ''Invalid multiboot magic''
     else if mbi = 0 then Panic ''Missing multiboot info''
     else bind_outcome
       (if mb_flags (boot_info mbi b) AND push_bit 2 1 \<noteq> 0
        then bind_outcome (string_at (sys_ram (b_sys b)) (ucast (mb_cmdline (boot_info mbi b)))) (\<lambda>cmd. parse_cmdline cmd b) else Ret b) (\<lambda>b.
     bind_outcome
       (if mb_flags (boot_info mbi b) AND push_bit 12 1 \<noteq> 0
        then bind_outcome (configure_framebuffer env mbi b) (\<lambda>b. Ret (framebuffer_enabled (cfb (con_of b)), b))
        else bind_outcome (dbg (serial_write (with_newline ''[debug] framebuffer info missing or unavailable enabled=0'')) b) (\<lambda>b. Ret (False, b))) (\<lambda>(ready, b).
     bind_outcome (boot_display ready b) (\<lambda>b.
       steps [on_con debuglog_print_timestamp, dbg (console_puts (Some (with_newline ''GRUB handed control to kernel'')))] (b\<lparr>g_mbi := mbi\<rparr>)))))"

section \<open>Memory and interrupts\<close>

text \<open>The letters of the four bytes of a register, in memory order.\<close>

definition reg_chars :: "u32 \<Rightarrow> string" where
  "reg_chars v = map (\<lambda>i. char_of (unat (ucast (drop_bit (8 * i) v) :: u8))) [0..<4]"

definition cpu_vendor :: "hw \<Rightarrow> string" where
  "cpu_vendor h = (let (a, b, c, d) = io_cpuid 0 h in takeWhile (\<lambda>ch. ch \<noteq> CHR 0x00) (reg_chars b @ reg_chars d @ reg_chars c))"

definition start_heap :: "boot_env \<Rightarrow> boot_step" where
  "start_heap env b = Ret (b\<lparr>b_sys := upd_kmem (b_sys b) (mem_init (k_end (e_sys env)) EXOCORE_KERNEL_HEAP_SIZE (kmem (snd (b_sys b))))\<rparr>)"

definition start_interrupts :: "boot_env \<Rightarrow> boot_step" where
  "start_interrupts env b = Ret (b\<lparr>b_idt := syscall_init (e_sys env) (e_stubs env) (idt_init (e_stubs env) (e_idt env) (b_idt b))\<rparr>)"

definition start_log :: boot_step where
  "start_log b =
     (let (w, k) = b_sys b in
      bind_outcome (debuglog_init (s_fs w) ((s_con w)\<lparr>cmem := kmem k\<rparr>)) (\<lambda>(fs, c).
        Ret (b\<lparr>b_sys := (w\<lparr>s_con := c, s_fs := fs\<rparr>, k\<lparr>kmem := cmem c\<rparr>)\<rparr>)))"

definition debug_header :: "boot_env \<Rightarrow> addr \<Rightarrow> (console \<Rightarrow> console option) list" where
  "debug_header env mbi =
     [console_puts (Some ''stack_ptr=0x''), console_uhex (e_rsp env), console_putc (CHR 0x0A),
      console_puts (Some ''mem_lower=''), \<lambda>c. console_udec (mb_mem_lower (multiboot_info (cram c) mbi)) c,
      console_puts (Some '' mem_upper=''), \<lambda>c. console_udec (mb_mem_upper (multiboot_info (cram c) mbi)) c, console_putc (CHR 0x0A),
      console_puts (Some ''cpu_vendor=''), \<lambda>c. console_puts (Some (cpu_vendor (chw c))) c, console_putc (CHR 0x0A),
      console_puts (Some ''cpuid_feat edx=0x''), \<lambda>c. (let (a, b, x, d) = io_cpuid 1 (chw c) in console_uhex (ucast d) c),
      console_puts (Some '' ecx=0x''), \<lambda>c. (let (a, b, x, d) = io_cpuid 1 (chw c) in console_uhex (ucast x) c), console_putc (CHR 0x0A),
      console_puts (Some ''Initializing memory manager at 0x''), console_uhex (k_end (e_sys env)), console_puts (Some (with_newline []))]"

definition boot_memory :: "boot_env \<Rightarrow> boot_step" where
  "boot_memory env b =
     (if debugging b then steps
        ([on_con debuglog_print_timestamp] @ map on_con (debug_header env (g_mbi b)) @
         [on_con debuglog_print_timestamp, start_heap env, on_con (debuglog_memdump (k_end (e_sys env)) 64),
          on_con (console_puts (Some ''heap_end=0x'')), on_con (console_uhex (k_end (e_sys env) + EXOCORE_KERNEL_HEAP_MAX_SIZE)), on_con (console_putc (CHR 0x0A)),
          start_interrupts env, on_con debuglog_print_timestamp, on_con (console_puts (Some (with_newline ''IDT initialized''))),
          on_con (debuglog_memdump (e_idt_init env) 64), start_log, on_con debuglog_print_timestamp,
          on_con (console_puts (Some (with_newline ''Debug log ready''))), on_con (\<lambda>c. debuglog_memdump (debuglog_buffer c) 64 c)]) b
      else steps [start_heap env, start_interrupts env, start_log] b)"

section \<open>The boot picture\<close>

definition draw_progress :: "u32 \<Rightarrow> boot_step" where
  "draw_progress percent = only_if (\<lambda>b. bootmode_progress_visible (cboot (con_of b)))
     [\<lambda>b. let (l, r) = bootlogo_draw_progress (cfb (con_of b)) percent (b_logo b) (sys_ram (b_sys b))
          in Ret (b\<lparr>b_sys := upd_sys_ram (\<lambda>_. r) (b_sys b), b_logo := l\<rparr>)]"

text \<open>Installing the picture; the result tells whether it is ready.\<close>

definition install_logo :: "boot_env \<Rightarrow> booting \<Rightarrow> (bool \<times> booting) outcome" where
  "install_logo env b =
     (let (e, v) = vfs_init (kvfs (snd (b_sys b)));
          b = b\<lparr>b_sys := (fst (b_sys b), (snd (b_sys b))\<lparr>kvfs := v\<rparr>)\<rparr>
      in if e \<noteq> 0 then Ret (False, b)
      else bind_outcome (call_vfs (bootlogo_install_to_vfs (e_logo env) (e_logo_len env)) (b_sys b)) (\<lambda>(e, s).
        bind_outcome (on_con (serial_write (with_newline (if e = 0 then ''bootlogo: installed embedded assets/logo.exoimg to /boot/logo.exoimg''
            else ''bootlogo: install failed; continuing without logo''))) (b\<lparr>b_sys := s\<rparr>)) (\<lambda>b. Ret (e = 0, b))))"

definition show_logo :: boot_step where
  "show_logo b =
     (let (w, k) = b_sys b in
      bind_outcome (bootlogo_draw_from_vfs (cfb (s_con w)) (b_logo b) (kvfs k) (kmem k)) (\<lambda>(e, l, v, m).
        let b = b\<lparr>b_sys := (w, k\<lparr>kvfs := v, kmem := m\<rparr>), b_logo := l\<rparr> in
        if e = 0 then steps
          [draw_progress 12, upd_con console_hold_display_until_input,
           on_con (serial_write (with_newline ''bootlogo: displayed /boot/logo.exoimg via VFS; holding display until input''))] b
        else on_con (serial_write (with_newline ''bootlogo: draw failed; continuing without visible logo'')) b))"

definition boot_picture :: "boot_env \<Rightarrow> boot_step" where
  "boot_picture env b =
     bind_outcome (only_if (\<lambda>b. debugging b \<and> userland_mode (b_opts b)) [on_con (serial_write (with_newline ''Userland mode enabled''))] b) (\<lambda>b.
     bind_outcome (install_logo env b) (\<lambda>(bootlogo_ready, b).
       steps
         [on_con (console_puts (Some (with_newline ''ExoCore booted''))), on_con (console_puts (Some (with_newline (''Version: '' @ EXOCORE_VERSION)))),
          dbg (console_puts (Some (with_newline ''Debug mode enabled''))), dbg (console_puts (Some (with_newline (''Build: '' @ BUILD_MODEL)))),
          only_if (\<lambda>_. bootlogo_ready) [show_logo], draw_progress 38] b))"

definition boot_early :: "boot_env \<Rightarrow> u32 \<Rightarrow> addr \<Rightarrow> boot_step" where
  "boot_early env magic mbi = steps [boot_consoles env magic mbi, boot_memory env, boot_picture env]"

section \<open>The init program\<close>

text \<open>Whether \<^verbatim>\<open>strstr\<close> finds the second string in the first.\<close>

definition contains :: "string \<Rightarrow> string \<Rightarrow> bool" where
  "contains s t \<longleftrightarrow> list_ex (\<lambda>i. take (length t) (drop i s) = t) [0..<Suc (length s)]"

datatype init_kind = Init_script | Init_elf

definition init_kind_of :: "string \<Rightarrow> init_kind option" where
  "init_kind_of name =
     (if contains name ''init/kernel/init.py'' then Some Init_script
      else if contains name ''init/kernel/init.mpy'' then Some Init_script
      else if contains name ''init/kernel/init.elf'' then Some Init_elf else None)"

fun find_init :: "ram \<Rightarrow> addr \<Rightarrow> nat list \<Rightarrow> (init_kind \<times> addr \<times> u32 \<times> string) option outcome" where
  "find_init r mods [] = Ret None"
| "find_init r mods (i # is) =
     (let m = multiboot_module r mods i in
      bind_outcome (string_at r (ucast (mod_string m))) (\<lambda>name.
        case Option.bind name init_kind_of of
          None \<Rightarrow> find_init r mods is
        | Some k \<Rightarrow> Ret (Some (k, ucast (mod_start m), mod_end m - mod_start m, the name))))"

text \<open>
  Loading the segments at the module address. The headers are read from the copy of the file at this address in every
  round, as the code does, after the earlier segments were copied over it. Offsets and sizes have 32 bits. The name
  of the running program, which the code sets during the call for the panic screen, is only shown with its last value.
\<close>

fun first_load :: "ram \<Rightarrow> addr \<Rightarrow> nat list \<Rightarrow> u32" where
  "first_load r ph [] = 0"
| "first_load r ph (p # ps) = (if p_type (elf_phdr r ph p) = ELF_PT_LOAD then ucast (p_vaddr (elf_phdr r ph p)) else first_load r ph ps)"

function load_segments :: "addr \<Rightarrow> addr \<Rightarrow> u32 \<Rightarrow> nat \<Rightarrow> u32 \<Rightarrow> ram \<Rightarrow> u32 \<times> ram" where
  "load_segments src ph first_vaddr p max_size r =
     (if p < unat (e_phnum (elf_header r MODULE_BASE_ADDR)) then
        let h = elf_phdr r ph p in
        if p_type h \<noteq> ELF_PT_LOAD then load_segments src ph first_vaddr (p + 1) max_size r
        else
          let off = ucast (p_vaddr h - ucast first_vaddr) :: u32;
              r = memcpy (MODULE_BASE_ADDR + ucast off) (src + p_offset h) (p_filesz h) r;
              h = elf_phdr r ph p;
              r = (if p_filesz h < p_memsz h
                   then memset (MODULE_BASE_ADDR + ucast off + p_filesz h) 0 (p_memsz h - p_filesz h) r else r);
              h = elf_phdr r ph p;
              max_size = (if ucast max_size < ucast off + p_memsz h then off + ucast (p_memsz h) else max_size)
          in load_segments src ph first_vaddr (p + 1) max_size r
      else (max_size, r))"
  by pat_completeness auto
termination
proof (relation "measure (\<lambda>(src, ph, first_vaddr, p, max_size, r). 65536 - p)", goal_cases)
  case (2 src ph first_vaddr p max_size r h)
  have "p < 65536" by (rule less_trans [OF 2(1) unat_lt_2p16])
  then show ?case by simp
next
  case (3 src ph first_vaddr p max_size r)
  have "p < 65536" by (rule less_trans [OF 3(1) unat_lt_2p16])
  then show ?case by simp
qed simp

declare load_segments.simps [simp del]

text \<open>The image in memory and its entry point.\<close>

definition load_init :: "addr \<Rightarrow> u32 \<Rightarrow> ram \<Rightarrow> addr \<times> ram" where
  "load_init src sz r =
     (let r = memcpy MODULE_BASE_ADDR src (ucast sz) r;
          eh = elf_header r MODULE_BASE_ADDR;
          ph = MODULE_BASE_ADDR + e_phoff eh;
          first_vaddr = first_load r ph [0..<unat (e_phnum eh)];
          (max_size, r) = load_segments src ph first_vaddr 0 0 r;
          r = (if sz < max_size then memset (MODULE_BASE_ADDR + ucast sz) 0 (ucast (max_size - sz)) r else r)
      in (MODULE_BASE_ADDR + (e_entry (elf_header r MODULE_BASE_ADDR) - ucast first_vaddr), r))"

definition run_init :: "boot_env \<Rightarrow> init_kind \<times> addr \<times> u32 \<times> string \<Rightarrow> boot_step" where
  "run_init env i b =
     (let (kind, src, sz, name) = i in
      case kind of
        Init_elf \<Rightarrow>
          let (entry, r) = load_init src sz (sys_ram (b_sys b)); s = upd_sys_ram (\<lambda>_. r) (b_sys b) in
          bind_outcome (mem_alloc 4096 (kmem (snd s))) (\<lambda>(ustack, m).
            if ustack = 0 then Panic ''no user stack''
            else bind_outcome (dbg (console_puts (Some (with_newline ''run init as elf''))) (b\<lparr>b_sys := upd_kmem s m\<rparr>)) (\<lambda>b.
              bind_outcome (user_code (e_sys env) entry (ustack + 4096) (b_sys b)) (\<lambda>s.
                Ret (b\<lparr>b_sys := s, b_panic := (b_panic b)\<lparr>current_user_app := False\<rparr>\<rparr>))))
      | Init_script \<Rightarrow>
          bind_outcome (e_mp_init env (b_sys b)) (\<lambda>s.
            bind_outcome (dbg (console_puts (Some (with_newline ''run init as init''))) (b\<lparr>b_sys := s\<rparr>)) (\<lambda>b.
              bind_outcome (mp_runtime_exec (e_sys env) src (ucast sz) (Some name) (b_sys b)) (\<lambda>s.
                bind_outcome (e_mp_deinit env s) (\<lambda>s.
                  Ret (b\<lparr>b_sys := s, b_panic := (b_panic b)\<lparr>current_program := ''kernel'', current_user_app := False\<rparr>\<rparr>))))))"

section \<open>To the halt\<close>

definition boot_selftest :: "boot_env \<Rightarrow> boot_step" where
  "boot_selftest env b =
     bind_outcome (backend_selftest_run (e_test env) (e_embedded env) (b_sys b)) (\<lambda>(e, s).
       if e \<noteq> 0 then Panic ''Backend self-test failed'' else Ret (b\<lparr>b_sys := s\<rparr>))"

definition boot_userland :: "boot_env \<Rightarrow> boot_step" where
  "boot_userland env b =
     bind_outcome (steps
       [\<lambda>b. Ret (b\<lparr>b_sys := (fst (b_sys b), proc_init (snd (b_sys b)))\<rparr>), draw_progress 64, draw_progress 100] b) (\<lambda>b.
     bind_outcome (launchd_boot (e_sys env) (e_embedded env) (e_copy_buffer env) (g_mbi b) (b_sys b)) (\<lambda>(e, s).
       only_if (\<lambda>_. e = 0) [on_con (console_puts (Some (with_newline ''launchd: boot sequence complete'')))] (b\<lparr>b_sys := s\<rparr>)))"

definition boot_init :: "boot_env \<Rightarrow> boot_step" where
  "boot_init env b =
     bind_outcome (steps
       [dbg (console_puts (Some ''mods_count='')), dbg (\<lambda>c. console_udec (mb_mods_count (multiboot_info (cram c) (g_mbi b))) c), dbg (console_putc (CHR 0x0A))] b) (\<lambda>b.
      if mb_mods_count (boot_info (g_mbi b) b) = 0 then Panic ''No modules found''
      else bind_outcome (draw_progress 100 b) (\<lambda>b.
        let i = boot_info (g_mbi b) b in
        bind_outcome (find_init (sys_ram (b_sys b)) (ucast (mb_mods_addr i)) [0..<unat (mb_mods_count i)]) (\<lambda>found.
          case found of
            None \<Rightarrow> bind_outcome (on_con (console_puts (Some (with_newline ''init not found!''))) b) (\<lambda>_. Panic ''init not found'')
          | Some x \<Rightarrow> if fst (snd x) = 0 then bind_outcome (on_con (console_puts (Some (with_newline ''init not found!''))) b) (\<lambda>_. Panic ''init not found'')
              else run_init env x b)))"

text \<open>The last report; the processor is halted in the resulting state.\<close>

definition boot_done :: boot_step where
  "boot_done = steps
     [on_con (console_puts (Some (with_newline ''All done, halting''))), on_con (console_puts (Some ''final_heap_free='')),
      on_con (\<lambda>c. Option.bind (mem_heap_free (cmem c)) (\<lambda>n. console_udec (ucast n) c)), on_con (console_putc (CHR 0x0A)),
      dbg (serial_write (with_newline ''All done, halting'')),
      \<lambda>b. upd_con (debuglog_save_file (s_fs (fst (b_sys b)))) b, \<lambda>b. upd_con (debuglog_flush (s_fs (fst (b_sys b)))) b]"

definition boot_late :: "boot_env \<Rightarrow> boot_step" where
  "boot_late env = steps [boot_userland env, boot_init env, boot_done]"

definition kernel_main :: "boot_env \<Rightarrow> u32 \<Rightarrow> addr \<Rightarrow> boot_step" where
  "kernel_main env magic mbi = steps [boot_early env magic mbi, boot_selftest env, boot_late env]"

text \<open>
  The helper that stores a module through the MicroPython runtime; the name and the statement as in \<^verbatim>\<open>mpy_loader.c\<close>, the
  source is in RAM and the buffer has other spare bytes.
\<close>

definition mp_store_module :: "sys_env \<Rightarrow> string \<Rightarrow> addr \<Rightarrow> u32 \<Rightarrow> system \<Rightarrow> system outcome" where
  "mp_store_module env name src sz s =
     (let text = map (\<lambda>i. char_of (unat (sys_ram s (src + of_nat i)))) [0..<unat sz];
          total = of_nat (length name) * 2 + ucast sz + of_nat (esc_len text) + 96;
          stmt = module_stmt name text
      in bind_outcome (mem_alloc total (kmem (snd s))) (\<lambda>(buf, m).
           let s = upd_kmem s m in
           if buf = 0 then Ret s
           else bind_outcome (mp_runtime_exec env buf (of_nat (length stmt)) (Some name) (upd_sys_ram (put_bytes buf (map of_char stmt @ [0])) s)) (\<lambda>s.
             bind_outcome (mem_free buf total (kmem (snd s))) (\<lambda>m. Ret (upd_kmem s m)))))"

end
