(* ===== verification/Console_Props.thy ===== *)
theory Console_Props
  imports Console
begin

unbundle bit_operations_syntax

text \<open>
  What the console promises. The scroll-back buffer is a ring of 512 lines; as long as it is well formed, it is
  the list of the last lines of the text, and a character changes this list as on a terminal. The serial line
  receives every character, and an operation returns whenever the line is ready again and again.
\<close>

section \<open>The buffer\<close>

definition slot :: "console \<Rightarrow> nat \<Rightarrow> nat" where
  "slot c i = (unat (chead c) + i) mod 512"

definition console_ok :: "console \<Rightarrow> bool" where
  "console_ok c \<longleftrightarrow> length (cbuf c) = 512 \<and> (\<forall>l<512. length (cbuf c ! l) = 160) \<and>
     length (line_len c) = 512 \<and> (\<forall>l<512. unat (line_len c ! l) \<le> 160) \<and>
     unat (chead c) < 512 \<and> 1 \<le> unat (ccount c) \<and> unat (ccount c) \<le> 512 \<and>
     unat (cur_line c) = slot c (unat (ccount c) - 1) \<and> unat (cur_col c) \<le> 160 \<and>
     unat (cur_col c) \<le> unat (line_len c ! unat (cur_line c)) \<and> unat (cview c) < unat (ccount c) \<and>
     0 \<le> pending_pos c \<and> pending_len c \<le> int (length (pending_input c))"

lemma console_okD:
  assumes "console_ok c"
  shows "length (cbuf c) = 512" "\<And>l. l < 512 \<Longrightarrow> length (cbuf c ! l) = 160" "length (line_len c) = 512"
    "\<And>l. l < 512 \<Longrightarrow> unat (line_len c ! l) \<le> 160" "unat (chead c) < 512" "1 \<le> unat (ccount c)" "unat (ccount c) \<le> 512"
    "unat (cur_line c) = slot c (unat (ccount c) - 1)" "unat (cur_col c) \<le> 160"
    "unat (cur_col c) \<le> unat (line_len c ! unat (cur_line c))" "unat (cview c) < unat (ccount c)"
    "0 \<le> pending_pos c" "pending_len c \<le> int (length (pending_input c))" "unat (cur_line c) < 512"
  using assms by (auto simp: console_ok_def slot_def)

lemma console_okI:
  assumes "length (cbuf c) = 512" and "\<And>l. l < 512 \<Longrightarrow> length (cbuf c ! l) = 160" and "length (line_len c) = 512"
    and "\<And>l. l < 512 \<Longrightarrow> unat (line_len c ! l) \<le> 160" and "unat (chead c) < 512" and "1 \<le> unat (ccount c)" and "unat (ccount c) \<le> 512"
    and "unat (cur_line c) = slot c (unat (ccount c) - 1)" and "unat (cur_col c) \<le> 160"
    and "unat (cur_col c) \<le> unat (line_len c ! unat (cur_line c))" and "unat (cview c) < unat (ccount c)"
    and "0 \<le> pending_pos c" and "pending_len c \<le> int (length (pending_input c))"
  shows "console_ok c"
  using assms by (simp add: console_ok_def)

lemma visible_cols_bounds: "1 \<le> unat (visible_cols c)" "unat (visible_cols c) \<le> 160"
proof -
  have "unat (visible_cols c) \<noteq> 0" by (auto simp: visible_cols_def Let_def MAX_COLS_def unat_eq_0)
  then show "1 \<le> unat (visible_cols c)" by simp
  show "unat (visible_cols c) \<le> 160" by (auto simp: visible_cols_def Let_def MAX_COLS_def word_less_nat_alt not_less)
qed

lemma visible_cols_cong: "cfb c' = cfb c \<Longrightarrow> visible_cols c' = visible_cols c"
  by (simp only: visible_cols_def)

text \<open>Counters that stay below 512, and columns in a byte.\<close>

lemma unat_ucast_byte: "unat (x :: u32) < 256 \<Longrightarrow> unat (ucast x :: u8) = unat x"
  by (simp add: unsigned_ucast_eq take_bit_nat_eq_self)

lemma unat_inc32: "unat a < 4294967295 \<Longrightarrow> unat (a + 1 :: u32) = unat a + 1"
  by (simp add: unat_plus_if')

lemma unat_next: "unat a < 512 \<Longrightarrow> unat ((a + 1) mod of_nat BUF_LINES :: u32) = (unat a + 1) mod 512"
  by (simp add: BUF_LINES_def unat_mod_distrib unat_inc32)

lemma slot_le: "i \<le> j \<Longrightarrow> j < i + 512 \<Longrightarrow> slot c j = slot c i \<longleftrightarrow> i = j"
  using mod_eq_dvd_iff_nat [of "unat (chead c) + i" "unat (chead c) + j" 512] nat_dvd_not_less [of "j - i" 512]
  by (cases "i < j") (auto simp: slot_def)

lemma slot_inj: "i < 512 \<Longrightarrow> j < 512 \<Longrightarrow> slot c i = slot c j \<longleftrightarrow> i = j"
  using slot_le [of i j c] slot_le [of j i c] by (cases "i \<le> j") auto

lemma slot_lt [simp]: "slot c i < 512"
  by (simp add: slot_def)

text \<open>The line at a place of the ring, and the text: the lines from the oldest to the current one.\<close>

definition line :: "console \<Rightarrow> nat \<Rightarrow> u16 list" where
  "line c l = take (unat (line_len c ! l)) (cbuf c ! l)"

definition con_lines :: "console \<Rightarrow> u16 list list" where
  "con_lines c = map (\<lambda>i. line c (slot c i)) [0..<unat (ccount c)]"

section \<open>Updates of the buffer\<close>

lemma fold_set_cell:
  "l < length (cbuf c) \<Longrightarrow>
   fold (\<lambda>i c. set_cell l i (pack c ch) c) is c = c\<lparr>cbuf := (cbuf c)[l := fold (\<lambda>i r. r[i := pack c ch]) is (cbuf c ! l)]\<rparr>"
  by (induction "is" arbitrary: c) (simp_all add: set_cell_def pack_def)

lemma fold_upd_length [simp]: "length (fold (\<lambda>i r. r[i := x]) is r) = length r"
  by (induction "is" arbitrary: r) simp_all

lemma take_fold_upd: "\<forall>i\<in>set is. k \<le> i \<Longrightarrow> take k (fold (\<lambda>i r. r[i := x]) is r) = take k r"
  by (induction "is" arbitrary: r) simp_all

text \<open>The columns of the current line that stay, and the parts of the state a new line does not touch.\<close>

definition kept_cols :: "console \<Rightarrow> nat" where
  "kept_cols c = min (unat (visible_cols c)) (unat (line_len c ! unat (cur_line c)))"

lemma newline_eq:
  assumes "console_ok c"
  defines "l \<equiv> unat (cur_line c)"
  shows "\<exists>row w full. length row = 160 \<and> take (kept_cols c) row = take (kept_cols c) (cbuf c ! l) \<and> unat w = kept_cols c \<and> full = (unat (ccount c) = 512) \<and>
    newline c = c\<lparr>cbuf := (cbuf c)[l := row, (l + 1) mod 512 := replicate 160 (pack c (CHR '' ''))],
      line_len := (line_len c)[l := w, (l + 1) mod 512 := 0], cur_col := 0, cur_line := (cur_line c + 1) mod 512,
      ccount := (if full then ccount c else ccount c + 1), chead := (if full then (chead c + 1) mod 512 else chead c),
      cview := (if full \<and> 0 < cview c then cview c - 1 else cview c)\<rparr>"
proof -
  note ok = console_okD [OF assms(1)]
  let ?cols = "visible_cols c"
  define cf where "cf = (if ?cols < ucast (line_len c ! l) then ?cols else ucast (line_len c ! l))"
  have cf: "unat cf = kept_cols c" by (auto simp: cf_def kept_cols_def l_def word_less_nat_alt)
  then have w: "unat (ucast cf :: u8) = kept_cols c"
    using visible_cols_bounds(2) [of c] by (subst unat_ucast_byte) (simp_all add: kept_cols_def)
  let ?row = "fold (\<lambda>i r. r[i := pack c (CHR '' '')]) [unat cf..<unat ?cols] (cbuf c ! l)"
  have "take (kept_cols c) ?row = take (kept_cols c) (cbuf c ! l)" by (rule take_fold_upd) (simp add: cf)
  moreover have "length ?row = 160" using ok(2) [OF ok(14)] by (simp add: l_def)
  moreover have "newline c = c\<lparr>cbuf := (cbuf c)[l := ?row, (l + 1) mod 512 := replicate 160 (pack c (CHR '' ''))],
      line_len := (line_len c)[l := ucast cf, (l + 1) mod 512 := 0], cur_col := 0, cur_line := (cur_line c + 1) mod 512,
      ccount := (if unat (ccount c) = 512 then ccount c else ccount c + 1), chead := (if unat (ccount c) = 512 then (chead c + 1) mod 512 else chead c),
      cview := (if unat (ccount c) = 512 \<and> 0 < cview c then cview c - 1 else cview c)\<rparr>"
  proof -
    have l: "l < length (cbuf c)" using ok(1,14) by (simp add: l_def)
    have n: "unat ((cur_line c + 1) mod of_nat BUF_LINES) = (l + 1) mod 512" using unat_next [OF ok(14)] by (simp add: l_def)
    have f: "ccount c < of_nat BUF_LINES \<longleftrightarrow> \<not> unat (ccount c) = 512" using ok(7) by (auto simp: BUF_LINES_def word_less_nat_alt)
    let ?c1 = "c\<lparr>cbuf := (cbuf c)[l := ?row]\<rparr>"
    have e: "fold (\<lambda>i c. set_cell l i (pack c (CHR '' '')) c) [unat cf..<unat ?cols] c = ?c1" by (rule fold_set_cell [OF l])
    have "newline c = (let c = ?c1;
          c = c\<lparr>line_len := (line_len c)[l := ucast cf], cur_col := 0, cur_line := (cur_line c + 1) mod of_nat BUF_LINES\<rparr>;
          c = (if ccount c < of_nat BUF_LINES then c\<lparr>ccount := ccount c + 1\<rparr>
               else let c = c\<lparr>chead := (chead c + 1) mod of_nat BUF_LINES\<rparr>
                    in if 0 < cview c then c\<lparr>cview := cview c - 1\<rparr> else c)
      in clear_line (unat (cur_line c)) c)"
      by (simp only: newline_def Let_def l_def [symmetric] cf_def [symmetric] e)
    also have "\<dots> = clear_line ((l + 1) mod 512) (c\<lparr>cbuf := (cbuf c)[l := ?row], line_len := (line_len c)[l := ucast cf], cur_col := 0,
      cur_line := (cur_line c + 1) mod of_nat BUF_LINES, ccount := (if unat (ccount c) = 512 then ccount c else ccount c + 1),
      chead := (if unat (ccount c) = 512 then (chead c + 1) mod of_nat BUF_LINES else chead c),
      cview := (if unat (ccount c) = 512 \<and> 0 < cview c then cview c - 1 else cview c)\<rparr>)"
      unfolding Let_def by (cases "unat (ccount c) = 512"; cases "0 < cview c") (simp_all add: f n)
    finally show ?thesis by (simp add: clear_line_def pack_def MAX_COLS_def BUF_LINES_def)
  qed
  ultimately show ?thesis using w by blast
qed

section \<open>The text\<close>

text \<open>The abstract terminal: its lines, at most 512 of them, and the column of the current line. Characters are cells.\<close>

type_synonym term_text = "u16 list list \<times> nat"

definition keep_last :: "nat \<Rightarrow> 'a list \<Rightarrow> 'a list" where
  "keep_last n xs = drop (length xs - n) xs"

lemma keep_last_nth: "i < n \<Longrightarrow> i < length xs \<Longrightarrow> keep_last n xs ! i = xs ! (length xs - n + i)"
  by (simp add: keep_last_def)

definition on_last :: "('a list \<Rightarrow> 'a list) \<Rightarrow> 'a list list \<Rightarrow> 'a list list" where
  "on_last f ls = butlast ls @ [f (last ls)]"

definition t_newline :: "nat \<Rightarrow> term_text \<Rightarrow> term_text" where
  "t_newline cols t = (keep_last 512 (on_last (take cols) (fst t) @ [[]]), 0)"

definition t_put :: "nat \<Rightarrow> u16 \<Rightarrow> term_text \<Rightarrow> term_text" where
  "t_put cols cell t =
     (let (ls, col) = (if cols \<le> snd t then t_newline cols t else t);
          t = (on_last (\<lambda>l. take col l @ [cell] @ drop (col + 1) l) ls, col + 1)
      in if cols \<le> col + 1 then t_newline cols t else t)"

definition t_erase :: "term_text \<Rightarrow> term_text" where
  "t_erase t = (if snd t = 0 then t else (on_last (take (snd t - 1)) (fst t), snd t - 1))"

definition con_text :: "console \<Rightarrow> term_text" where
  "con_text c = (con_lines c, unat (cur_col c))"

lemma con_text_sel [simp]: "fst (con_text c) = con_lines c" "snd (con_text c) = unat (cur_col c)"
  by (simp_all add: con_text_def)

lemma con_lines_length [simp]: "length (con_lines c) = unat (ccount c)"
  by (simp add: con_lines_def)

lemma con_lines_nth: "i < unat (ccount c) \<Longrightarrow> con_lines c ! i = line c (slot c i)"
  by (simp add: con_lines_def)

lemma on_last_nth:
  "ls \<noteq> [] \<Longrightarrow> i < length ls \<Longrightarrow> on_last f ls ! i = (if i = length ls - 1 then f (ls ! i) else ls ! i)"
  by (auto simp: on_last_def nth_append nth_butlast last_conv_nth)

lemma on_last_length [simp]: "ls \<noteq> [] \<Longrightarrow> length (on_last f ls) = length ls"
  by (simp add: on_last_def)

lemma con_lines_on_last:
  assumes "1 \<le> unat (ccount c)" and "unat (ccount c') = unat (ccount c)" and "\<And>i. slot c' i = slot c i"
    and "\<And>i. i < unat (ccount c) - 1 \<Longrightarrow> line c' (slot c i) = line c (slot c i)"
    and "line c' (slot c (unat (ccount c) - 1)) = f (line c (slot c (unat (ccount c) - 1)))"
  shows "con_lines c' = on_last f (con_lines c)"
proof (rule nth_equalityI)
  have ne: "con_lines c \<noteq> []" using assms(1) con_lines_length [of c] by (metis One_nat_def list.size(3) not_one_le_zero)
  then show "length (con_lines c') = length (on_last f (con_lines c))" using assms(2) by simp
  fix i assume "i < length (con_lines c')"
  then have i: "i < unat (ccount c)" using assms(2) by simp
  then show "con_lines c' ! i = on_last f (con_lines c) ! i"
    using ne assms(2-5) by (auto simp: on_last_nth con_lines_nth)
qed

lemma newline_col [simp]: "console_ok c \<Longrightarrow> cur_col (newline c) = 0"
  using newline_eq [of c] by auto

lemma newline_text:
  assumes "console_ok c"
  shows "con_text (newline c) = t_newline (unat (visible_cols c)) (con_text c)"
proof -
  note ok = console_okD [OF assms]
  let ?l = "unat (cur_line c)" and ?N = "unat (ccount c)" and ?cols = "unat (visible_cols c)"
  from newline_eq [OF assms] obtain row w where row: "length row = 160" "take (kept_cols c) row = take (kept_cols c) (cbuf c ! ?l)" "unat w = kept_cols c"
    and eq: "newline c = c\<lparr>cbuf := (cbuf c)[?l := row, (?l + 1) mod 512 := replicate 160 (pack c (CHR '' ''))],
      line_len := (line_len c)[?l := w, (?l + 1) mod 512 := 0], cur_col := 0, cur_line := (cur_line c + 1) mod 512,
      ccount := (if ?N = 512 then ccount c else ccount c + 1), chead := (if ?N = 512 then (chead c + 1) mod 512 else chead c),
      cview := (if ?N = 512 \<and> 0 < cview c then cview c - 1 else cview c)\<rparr>" by blast
  have next_l: "(?l + 1) mod 512 = slot c ?N" using ok(6) by (simp add: ok(8) slot_def mod_simps)
  have at: "line (newline c) (slot c i) = (if i = ?N then [] else if i = ?N - 1 then take ?cols (line c (slot c i)) else line c (slot c i))"
    if "i \<le> ?N" "i = 0 \<longrightarrow> ?N < 512" for i
  proof -
    have d: "slot c ?N \<noteq> slot c i" if "i \<noteq> ?N"
    proof -
      have "?N < i + 512" using \<open>i = 0 \<longrightarrow> ?N < 512\<close> ok(7) by (cases "i = 0") auto
      with \<open>i \<le> ?N\<close> that show ?thesis by (simp add: slot_le)
    qed
    have m: "line (newline c) (slot c i) = take (unat ((line_len c)[?l := w, slot c ?N := 0] ! slot c i))
        ((cbuf c)[?l := row, slot c ?N := replicate 160 (pack c (CHR '' ''))] ! slot c i)"
      by (simp only: line_def eq next_l) simp
    consider "i = ?N" | "i \<noteq> ?N" "i = ?N - 1" | "i \<noteq> ?N" "i \<noteq> ?N - 1" by blast
    then show ?thesis
    proof cases
      case 1
      then show ?thesis using m ok(3) by simp
    next
      case 2
      then have "slot c i = ?l" using ok(8) by simp
      then show ?thesis using 2 m d ok(1,3,14) row(2,3) by (simp add: line_def kept_cols_def)
    next
      case 3
      then have "slot c i \<noteq> ?l" using ok(6,7,8) that(1) by (simp add: slot_inj)
      then show ?thesis using 3 m d by (simp add: line_def)
    qed
  qed
  have N': "unat (ccount (newline c)) = (if ?N = 512 then 512 else ?N + 1)" using ok(7) by (simp add: eq unat_inc32)
  have slot': "slot (newline c) i = (if ?N = 512 then slot c (i + 1) else slot c i)" for i
    using ok(5) unat_next [of "chead c"] by (simp add: eq slot_def BUF_LINES_def mod_simps add.commute)
  have ne: "con_lines c \<noteq> []" using ok(6) con_lines_length [of c] by (metis One_nat_def list.size(3) not_one_le_zero)
  let ?xs = "on_last (take ?cols) (con_lines c) @ [[]]"
  have x: "?xs ! i = line (newline c) (slot c i)" if "i \<le> ?N" "i = 0 \<longrightarrow> ?N < 512" for i
    using that ne by (auto simp: at nth_append on_last_nth con_lines_nth)
  have "con_lines (newline c) = keep_last 512 ?xs"
  proof (rule nth_equalityI)
    show "length (con_lines (newline c)) = length (keep_last 512 ?xs)" using ne ok(7) by (simp add: N' keep_last_def)
    fix i assume "i < length (con_lines (newline c))"
    then have i: "i < (if ?N = 512 then 512 else ?N + 1)" by (simp add: N')
    show "con_lines (newline c) ! i = keep_last 512 ?xs ! i"
    proof (cases "?N = 512")
      case True
      have "keep_last 512 ?xs ! i = ?xs ! (1 + i)" using True i ne by (subst keep_last_nth) simp_all
      also have "\<dots> = line (newline c) (slot c (1 + i))" using True i by (intro x) simp_all
      finally show ?thesis using True i by (simp add: con_lines_nth N' slot')
    next
      case False
      then show ?thesis using i ne ok(7) x [of i] by (simp add: con_lines_nth N' keep_last_def slot')
    qed
  qed
  then show ?thesis using assms by (simp add: con_text_def t_newline_def)
qed

lemma newline_ok:
  assumes "console_ok c"
  shows "console_ok (newline c)"
proof -
  note ok = console_okD [OF assms]
  let ?l = "unat (cur_line c)" and ?N = "unat (ccount c)"
  from newline_eq [OF assms] obtain row w where row: "length row = 160" "unat w = kept_cols c"
    and eq: "newline c = c\<lparr>cbuf := (cbuf c)[?l := row, (?l + 1) mod 512 := replicate 160 (pack c (CHR '' ''))],
      line_len := (line_len c)[?l := w, (?l + 1) mod 512 := 0], cur_col := 0, cur_line := (cur_line c + 1) mod 512,
      ccount := (if ?N = 512 then ccount c else ccount c + 1), chead := (if ?N = 512 then (chead c + 1) mod 512 else chead c),
      cview := (if ?N = 512 \<and> 0 < cview c then cview c - 1 else cview c)\<rparr>" by blast
  have w: "unat w \<le> 160" using row(2) visible_cols_bounds(2) [of c] by (simp add: kept_cols_def)
  have cl: "unat (cur_line (newline c)) = (?l + 1) mod 512" using unat_next [OF ok(14)] by (simp add: eq BUF_LINES_def)
  have N': "unat (ccount (newline c)) = (if ?N = 512 then 512 else ?N + 1)" using ok(7) by (simp add: eq unat_inc32)
  have hd': "unat (chead (newline c)) = (if ?N = 512 then (unat (chead c) + 1) mod 512 else unat (chead c))"
    using unat_next [OF ok(5)] by (simp add: eq BUF_LINES_def)
  have "unat (cview c - 1) < unat (ccount c)" if "0 < cview c" using ok(11) that by (simp add: unat_minus_one)
  then have view: "unat (cview (newline c)) < unat (ccount (newline c))" using ok(11) N' by (simp add: eq split: if_splits)
  have cur: "unat (cur_line (newline c)) = slot (newline c) (unat (ccount (newline c)) - 1)"
    unfolding cl N' slot_def hd' using ok(5-8) by (simp add: slot_def mod_simps)
  show ?thesis
  proof (rule console_okI)
    show "length (cbuf (newline c)) = 512" "length (line_len (newline c)) = 512" using ok(1,3) by (simp_all add: eq)
    show "length (cbuf (newline c) ! l) = 160" if "l < 512" for l using that ok(1,2,14) row(1) by (auto simp: eq nth_list_update)
    show "unat (line_len (newline c) ! l) \<le> 160" if "l < 512" for l using that ok(3,4,14) w by (auto simp: eq nth_list_update)
    show "unat (chead (newline c)) < 512" using ok(5) by (simp add: hd')
    show "1 \<le> unat (ccount (newline c))" "unat (ccount (newline c)) \<le> 512" using ok(6,7) by (simp_all add: N')
    show "0 \<le> pending_pos (newline c)" "pending_len (newline c) \<le> int (length (pending_input (newline c)))" using ok(12,13) by (simp_all add: eq)
  qed (use cur view assms in simp_all)
qed

text \<open>Writing a cell into the current line.\<close>

definition put_cell :: "u16 \<Rightarrow> console \<Rightarrow> console" where
  "put_cell cell c =
     (let l = unat (cur_line c);
          c = set_cell l (unat (cur_col c)) cell c;
          c = c\<lparr>cur_col := cur_col c + 1\<rparr>
      in if ucast (line_len c ! l) < cur_col c then c\<lparr>line_len := (line_len c)[l := ucast (cur_col c)]\<rparr> else c)"

lemma put_char_eq:
  "put_char ch c =
     (let c = (if visible_cols c \<le> cur_col c then newline c else c); c = put_cell (pack c ch) c
      in if visible_cols c \<le> cur_col c then newline c else c)"
  unfolding put_char_def put_cell_def Let_def by simp

lemma upd_line:
  assumes "col \<le> n" and "col < length r"
  shows "take (max n (col + 1)) (r[col := x]) = take col (take n r) @ [x] @ drop (col + 1) (take n r)"
  using assms by (cases "col = n") (simp_all add: upd_conv_take_nth_drop drop_take take_Cons' Suc_diff_Suc max_def min_def)

lemma put_cell_shape:
  assumes "console_ok c" and "unat (cur_col c) < 160"
  defines "l \<equiv> unat (cur_line c)" and "col \<equiv> unat (cur_col c)"
  shows "\<exists>n w. unat n = max (unat (line_len c ! l)) (col + 1) \<and> unat w = col + 1 \<and>
    put_cell cell c = c\<lparr>cbuf := (cbuf c)[l := (cbuf c ! l)[col := cell]], line_len := (line_len c)[l := n], cur_col := w\<rparr>"
proof -
  note ok = console_okD [OF assms(1)]
  have w: "unat (cur_col c + 1) = col + 1" using assms(2) by (simp add: col_def unat_inc32)
  show ?thesis
  proof (cases "ucast (line_len c ! l) < cur_col c + 1")
    case True
    then have "unat (line_len c ! l) < col + 1" using w by (simp add: word_less_nat_alt)
    moreover have "unat (ucast (cur_col c + 1) :: u8) = col + 1" using w assms(2) by (subst unat_ucast_byte) (simp_all add: col_def)
    ultimately show ?thesis using True w
      by (intro exI [of _ "ucast (cur_col c + 1)"] exI [of _ "cur_col c + 1"]) (simp add: put_cell_def Let_def set_cell_def l_def [symmetric] col_def [symmetric])
  next
    case False
    then have "col + 1 \<le> unat (line_len c ! l)" using w by (simp add: word_less_nat_alt)
    then show ?thesis using False w ok(3)
      by (intro exI [of _ "line_len c ! l"] exI [of _ "cur_col c + 1"]) (simp add: put_cell_def Let_def set_cell_def l_def [symmetric] col_def [symmetric])
  qed
qed

text \<open>A change of the current line and the column alone.\<close>

lemma line_update:
  assumes ok: "console_ok c" and "length row = 160" and "unat n \<le> 160" and "unat w \<le> unat n"
  defines "c' \<equiv> c\<lparr>cbuf := (cbuf c)[unat (cur_line c) := row], line_len := (line_len c)[unat (cur_line c) := n], cur_col := w\<rparr>"
  shows "console_ok c'" and "take (unat n) row = f (line c (unat (cur_line c))) \<Longrightarrow> con_text c' = (on_last f (con_lines c), unat w)"
proof -
  note ok = console_okD [OF ok]
  show "console_ok c'"
  proof (rule console_okI)
    show "length (cbuf c' ! l) = 160" if "l < 512" for l using that ok(1,2,14) assms(2) by (auto simp: c'_def nth_list_update)
    show "unat (line_len c' ! l) \<le> 160" if "l < 512" for l using that ok(3,4,14) assms(3) by (auto simp: c'_def nth_list_update)
    show "unat (cur_line c') = slot c' (unat (ccount c') - 1)" using ok(8) by (simp add: c'_def slot_def)
  qed (use ok assms(3,4) in \<open>simp_all add: c'_def\<close>)
  assume t: "take (unat n) row = f (line c (unat (cur_line c)))"
  have "con_lines c' = on_last f (con_lines c)"
  proof (rule con_lines_on_last)
    show "line c' (slot c i) = line c (slot c i)" if "i < unat (ccount c) - 1" for i
    proof -
      have "slot c i \<noteq> unat (cur_line c)" using that ok(6,7,8) by (simp add: slot_inj)
      then show ?thesis by (simp add: c'_def line_def)
    qed
    show "line c' (slot c (unat (ccount c) - 1)) = f (line c (slot c (unat (ccount c) - 1)))"
      unfolding ok(8) [symmetric] using t ok(1,3,14) by (simp add: c'_def line_def)
  qed (use ok(6) in \<open>simp_all add: c'_def slot_def\<close>)
  then show "con_text c' = (on_last f (con_lines c), unat w)" by (simp add: con_text_def) (simp add: c'_def)
qed

lemma put_cell_ok:
  assumes "console_ok c" and "unat (cur_col c) < 160"
  shows "console_ok (put_cell cell c)"
    and "con_text (put_cell cell c) = (on_last (\<lambda>l. take (unat (cur_col c)) l @ [cell] @ drop (unat (cur_col c) + 1) l) (con_lines c), unat (cur_col c) + 1)"
proof -
  note ok = console_okD [OF assms(1)]
  let ?l = "unat (cur_line c)" and ?col = "unat (cur_col c)"
  from put_cell_shape [OF assms] obtain n w where n: "unat n = max (unat (line_len c ! ?l)) (?col + 1)" and w: "unat w = ?col + 1"
    and eq: "put_cell cell c = c\<lparr>cbuf := (cbuf c)[?l := (cbuf c ! ?l)[?col := cell]], line_len := (line_len c)[?l := n], cur_col := w\<rparr>" by blast
  have b: "length ((cbuf c ! ?l)[?col := cell]) = 160" "unat n \<le> 160" "unat w \<le> unat n"
    using ok(2) [OF ok(14)] ok(4) [OF ok(14)] n w assms(2) by simp_all
  show "console_ok (put_cell cell c)" unfolding eq by (rule line_update [OF assms(1) b])
  have "take (unat n) ((cbuf c ! ?l)[?col := cell]) = take ?col (line c ?l) @ [cell] @ drop (?col + 1) (line c ?l)"
    unfolding n line_def using ok(2) [OF ok(14)] ok(10) assms(2) by (intro upd_line) simp_all
  from line_update(2) [OF assms(1) b, where f = "\<lambda>l. take ?col l @ [cell] @ drop (?col + 1) l", OF this]
  show "con_text (put_cell cell c) = (on_last (\<lambda>l. take ?col l @ [cell] @ drop (?col + 1) l) (con_lines c), ?col + 1)"
    unfolding eq w .
qed

lemma erase_ok:
  assumes "console_ok c"
  shows "console_ok (erase_prev_char c)" and "con_text (erase_prev_char c) = t_erase (con_text c)"
proof -
  note ok = console_okD [OF assms]
  let ?l = "unat (cur_line c)" and ?col = "unat (cur_col c)"
  have "console_ok (erase_prev_char c) \<and> con_text (erase_prev_char c) = t_erase (con_text c)"
  proof (cases "cur_col c = 0")
    case True
    then show ?thesis using assms by (simp add: erase_prev_char_def t_erase_def con_text_def)
  next
    case False
    then have w: "unat (cur_col c - 1) = ?col - 1" "0 < ?col" by (simp_all add: unat_minus_one unat_gt_0)
    have lt: "cur_col c - 1 < ucast (line_len c ! ?l)" using w ok(10) by (simp add: word_less_nat_alt)
    have n: "unat (ucast (cur_col c - 1) :: u8) = ?col - 1" using w ok(9) by (subst unat_ucast_byte) simp_all
    let ?row = "(cbuf c ! ?l)[?col - 1 := pack c (CHR '' '')]"
    have eq: "erase_prev_char c = c\<lparr>cbuf := (cbuf c)[?l := ?row], line_len := (line_len c)[?l := ucast (cur_col c - 1)], cur_col := cur_col c - 1\<rparr>"
      using False lt w(1) by (simp add: erase_prev_char_def Let_def set_cell_def)
    have b: "length ?row = 160" "unat (ucast (cur_col c - 1) :: u8) \<le> 160" "unat (cur_col c - 1) \<le> unat (ucast (cur_col c - 1) :: u8)"
      using ok(2) [OF ok(14)] ok(9) w n by simp_all
    have "take (unat (ucast (cur_col c - 1) :: u8)) ?row = take (?col - 1) (line c ?l)"
    proof -
      have "min (?col - 1) (unat (line_len c ! ?l)) = ?col - 1" using ok(10) by linarith
      then show ?thesis unfolding n line_def by (simp only: take_take take_update_cancel order.refl)
    qed
    from line_update(2) [OF assms b, where f = "take (?col - 1)", OF this] line_update(1) [OF assms b] w
    show ?thesis unfolding eq [symmetric] by (simp add: t_erase_def con_text_def)
  qed
  then show "console_ok (erase_prev_char c)" and "con_text (erase_prev_char c) = t_erase (con_text c)" by simp_all
qed

lemma newline_frame:
  "visible_cols (newline c) = visible_cols c" "cattr (newline c) = cattr c" "chw (newline c) = chw c" "cfb (newline c) = cfb c"
  "log_buf (newline c) = log_buf c" "log_pos (newline c) = log_pos c" "log_size (newline c) = log_size c"
proof -
  have f: "cfb (fold (\<lambda>i c. set_cell l i (pack c (CHR '' '')) c) is c) = cfb c \<and> cattr (fold (\<lambda>i c. set_cell l i (pack c (CHR '' '')) c) is c) = cattr c \<and>
      chw (fold (\<lambda>i c. set_cell l i (pack c (CHR '' '')) c) is c) = chw c \<and> log_buf (fold (\<lambda>i c. set_cell l i (pack c (CHR '' '')) c) is c) = log_buf c \<and>
      log_pos (fold (\<lambda>i c. set_cell l i (pack c (CHR '' '')) c) is c) = log_pos c \<and> log_size (fold (\<lambda>i c. set_cell l i (pack c (CHR '' '')) c) is c) = log_size c" for l "is" and c :: console
    by (induction "is" arbitrary: c) (simp_all add: set_cell_def)
  show "cfb (newline c) = cfb c" "cattr (newline c) = cattr c" "chw (newline c) = chw c" "log_buf (newline c) = log_buf c"
    "log_pos (newline c) = log_pos c" "log_size (newline c) = log_size c"
    by (simp_all add: newline_def Let_def clear_line_def f)
  then show "visible_cols (newline c) = visible_cols c" by (intro visible_cols_cong)
qed

lemma put_cell_frame:
  "visible_cols (put_cell cell c) = visible_cols c" "cattr (put_cell cell c) = cattr c" "chw (put_cell cell c) = chw c"
  "log_buf (put_cell cell c) = log_buf c" "log_pos (put_cell cell c) = log_pos c" "log_size (put_cell cell c) = log_size c"
  by (auto intro!: visible_cols_cong simp: put_cell_def Let_def set_cell_def)

lemma put_char_frame:
  "visible_cols (put_char ch c) = visible_cols c" "cattr (put_char ch c) = cattr c" "chw (put_char ch c) = chw c"
  "log_buf (put_char ch c) = log_buf c" "log_pos (put_char ch c) = log_pos c" "log_size (put_char ch c) = log_size c"
  by (simp_all add: put_char_eq Let_def put_cell_frame newline_frame)

lemma erase_frame:
  "visible_cols (erase_prev_char c) = visible_cols c" "cattr (erase_prev_char c) = cattr c" "chw (erase_prev_char c) = chw c"
  "log_buf (erase_prev_char c) = log_buf c" "log_pos (erase_prev_char c) = log_pos c" "log_size (erase_prev_char c) = log_size c"
  by (auto intro!: visible_cols_cong simp: erase_prev_char_def Let_def set_cell_def)

lemma put_char_ok:
  assumes "console_ok c"
  shows "console_ok (put_char ch c)" and "con_text (put_char ch c) = t_put (unat (visible_cols c)) (pack c ch) (con_text c)"
proof -
  let ?cols = "unat (visible_cols c)"
  define c1 where "c1 = (if visible_cols c \<le> cur_col c then newline c else c)"
  define c2 where "c2 = put_cell (pack c1 ch) c1"
  note v = visible_cols_bounds [of c]
  have ok1: "console_ok c1" using assms by (simp add: newline_ok c1_def)
  have t1: "con_text c1 = (if ?cols \<le> snd (con_text c) then t_newline ?cols (con_text c) else con_text c)"
    using assms by (simp add: newline_text word_le_nat_alt c1_def)
  have col1: "unat (cur_col c1) < ?cols" using assms v by (auto simp: word_le_nat_alt c1_def)
  have p: "pack c1 ch = pack c ch" by (simp add: pack_def newline_frame c1_def)
  have v2: "visible_cols c2 = visible_cols c" by (simp add: put_cell_frame newline_frame c2_def c1_def)
  have lt: "unat (cur_col c1) < 160" using col1 v by linarith
  note c2 = put_cell_ok [OF ok1 lt, of "pack c1 ch", folded c2_def]
  have eq: "put_char ch c = (if visible_cols c \<le> cur_col c2 then newline c2 else c2)"
    unfolding put_char_eq Let_def c1_def [symmetric] c2_def [symmetric] v2 ..
  show "console_ok (put_char ch c)" unfolding eq using c2(1) by (simp add: newline_ok)
  have n2: "con_text (newline c2) = t_newline ?cols (con_text c2)" using newline_text [OF c2(1)] by (simp only: v2)
  have "con_text (put_char ch c) = (if ?cols \<le> snd (con_text c2) then t_newline ?cols (con_text c2) else con_text c2)"
    unfolding eq by (simp add: word_le_nat_alt n2)
  also have "\<dots> = t_put ?cols (pack c ch) (con_text c)"
    unfolding t_put_def t1 [symmetric] c2(2) p by (simp add: con_text_def split_beta Let_def)
  finally show "con_text (put_char ch c) = t_put ?cols (pack c ch) (con_text c)" .
qed

end
