(* ===== verification/Console_Ops.thy ===== *)
theory Console_Ops
  imports Console_Props Mem_Props
begin

unbundle bit_operations_syntax

text \<open>
  The operations of the console, as one interface: an invariant that implies the well-formedness of the buffer and
  that is kept by the steps a single character consists of is kept by every operation. It is
  used for the buffer itself, for the bounds of the debug log and for a serial line that stays ready.
\<close>

section \<open>Invariants of the console\<close>

text \<open>The part of the state an invariant may speak about. Everything else may change at any time.\<close>

definition con_view :: "console \<Rightarrow> (u16 list list \<times> u8 list \<times> u32 \<times> u32 \<times> u32 \<times> u32 \<times> u32) \<times> (string \<times> int \<times> int) \<times> (addr \<times> u64 \<times> u64) \<times> (nat \<Rightarrow> u16 \<Rightarrow> u32)" where
  "con_view c = ((cbuf c, line_len c, chead c, ccount c, cur_line c, cur_col c, cview c), (pending_input c, pending_len c, pending_pos c),
     (log_buf c, log_pos c, log_size c), port_in (chw c))"

lemma upd_cram_sel [simp]: "cbuf (upd_cram f c) = cbuf c" "line_len (upd_cram f c) = line_len c" "chead (upd_cram f c) = chead c"
  "ccount (upd_cram f c) = ccount c" "cur_line (upd_cram f c) = cur_line c" "cur_col (upd_cram f c) = cur_col c" "cview (upd_cram f c) = cview c"
  "pending_input (upd_cram f c) = pending_input c" "pending_len (upd_cram f c) = pending_len c" "pending_pos (upd_cram f c) = pending_pos c"
  "log_buf (upd_cram f c) = log_buf c" "log_pos (upd_cram f c) = log_pos c" "log_size (upd_cram f c) = log_size c" "chw (upd_cram f c) = chw c"
  "cfb (upd_cram f c) = cfb c" "cattr (upd_cram f c) = cattr c" "cboot (upd_cram f c) = cboot c" "vga_enabled (upd_cram f c) = vga_enabled c"
  by (simp_all add: upd_cram_def)

lemma draw_screen_view [simp]: "con_view (draw_screen c) = con_view c"
  by (simp add: draw_screen_def con_view_def Let_def)

lemma wait_port_frame:
  assumes "wait_port port P h = Some h'"
  shows "port_in h' = port_in h \<and> outputs h' = outputs h"
proof -
  have "port_in h' = port_in (snd ((port, P), h)) \<and> outputs h' = outputs (snd ((port, P), h))"
    by (rule wait_port.raw_induct [where Pa = "\<lambda>x h'. port_in h' = port_in (snd x) \<and> outputs h' = outputs (snd x)", OF _ assms])
      (auto simp: io_inb_def Let_def split: if_splits)
  then show ?thesis by simp
qed

lemma serial_raw_putc_frame: "serial_raw_putc ch c = Some c' \<Longrightarrow> \<exists>h. c' = c\<lparr>chw := h\<rparr> \<and> port_in h = port_in (chw c)"
  by (auto simp: serial_raw_putc_def bind_eq_Some_conv io_outb_def dest!: wait_port_frame)

locale console_keeps =
  fixes I :: "console \<Rightarrow> bool"
  assumes wf: "I c \<Longrightarrow> console_ok c"
    and cong: "I c \<Longrightarrow> con_view c' = con_view c \<Longrightarrow> I c'"
    and newline: "I c \<Longrightarrow> I (newline c)"
    and put_char: "I c \<Longrightarrow> I (put_char ch c)"
    and erase: "I c \<Longrightarrow> I (erase_prev_char c)"
    and home: "I c \<Longrightarrow> I (c\<lparr>cur_col := 0\<rparr>)"
    and log: "I c \<Longrightarrow> I (debuglog_char ch c)"
    and view: "I c \<Longrightarrow> unat v < unat (ccount c) \<Longrightarrow> I (c\<lparr>cview := v\<rparr>)"
    and pending: "I c \<Longrightarrow> 0 \<le> pos \<Longrightarrow> len \<le> int (length inp) \<Longrightarrow> I (c\<lparr>pending_input := inp, pending_len := len, pending_pos := pos\<rparr>)"
    and reset: "I c \<Longrightarrow> I (reset_lines c)"
begin

lemma serial_raw_putc_keeps: "I c \<Longrightarrow> serial_raw_putc ch c = Some c' \<Longrightarrow> I c'"
  by (drule serial_raw_putc_frame) (auto intro: cong simp: con_view_def)

lemma draw_keeps: "I c \<Longrightarrow> I (draw_screen c)"
  by (rule cong) simp_all

lemma tail_keeps:
  assumes "I c"
  shows "I (tail_view c)"
proof -
  note ok = console_okD [OF wf [OF assms]]
  have "unat (visible_rows c) \<noteq> 0" by (auto simp: visible_rows_def Let_def BUF_LINES_def unat_eq_0)
  then have "unat (if visible_rows c < ccount c then ccount c - visible_rows c else 0) < unat (ccount c)"
    using ok(6) by (auto simp: unat_sub word_less_nat_alt word_le_nat_alt)
  then show ?thesis unfolding tail_view_def Let_def by (rule view [OF assms])
qed

lemma emit_keeps:
  assumes "I c" and "console_emit_char ch c = Some c'"
  shows "I c'"
proof -
  obtain c1 where c1: "serial_raw_putc ch c = Some c1" using assms(2) by (auto simp: console_emit_char_def Let_def bind_eq_Some_conv)
  let ?c2 = "if ch = CHR 0x0A then newline c1 else if ch = CHR 0x0D then c1\<lparr>cur_col := 0\<rparr> else if ch = CHR 0x08 then erase_prev_char c1 else put_char ch c1"
  have "I c1" using assms(1) c1 by (rule serial_raw_putc_keeps)
  then have "I ?c2" by (simp add: newline home erase put_char)
  then have "I (debuglog_char ch ?c2)" by (rule log)
  then show ?thesis using assms(2) c1 by (auto simp: console_emit_char_def Let_def draw_keeps tail_keeps)
qed

lemma emits_keeps: "I c \<Longrightarrow> emit_chars s c = Some c' \<Longrightarrow> I c'"
  by (induction s arbitrary: c) (auto simp: bind_eq_Some_conv dest: emit_keeps)

lemma putc_keeps: "I c \<Longrightarrow> console_putc ch c = Some c' \<Longrightarrow> I c'"
  by (auto simp: console_putc_def console_flush_def intro: draw_keeps emit_keeps)

lemma write_keeps: "I c \<Longrightarrow> console_write s c = Some c' \<Longrightarrow> I c'"
  by (auto simp: console_write_def console_flush_def intro: draw_keeps emits_keeps split: option.splits if_splits)

lemma puts_keeps: "I c \<Longrightarrow> console_puts s c = Some c' \<Longrightarrow> I c'"
  by (auto simp: console_puts_def intro: write_keeps split: option.splits)

lemma serial_putc_keeps: "I c \<Longrightarrow> serial_putc ch c = Some c' \<Longrightarrow> I c'"
  by (auto simp: serial_putc_def bind_eq_Some_conv intro: log serial_raw_putc_keeps)

lemma serial_write_keeps: "I c \<Longrightarrow> serial_write s c = Some c' \<Longrightarrow> I c'"
  by (induction s arbitrary: c) (auto simp: bind_eq_Some_conv dest: serial_putc_keeps)

lemma backspace_keeps: "I c \<Longrightarrow> I (console_backspace c)"
  by (simp add: console_backspace_def Let_def draw_keeps tail_keeps erase)

lemma hold_keeps: "I c \<Longrightarrow> I (c\<lparr>display_hold := b\<rparr>)"
  by (erule cong) (simp add: con_view_def)

lemma clear_keeps: "I c \<Longrightarrow> I (console_clear c)"
  by (simp add: console_clear_def draw_keeps reset hold_keeps)

lemma release_keeps: "I c \<Longrightarrow> I (console_release_display_hold c)"
  by (simp add: console_release_display_hold_def draw_keeps hold_keeps)

lemma scroll_keeps:
  assumes "I c"
  shows "I (console_scroll_up c)" and "I (console_scroll_down c)"
proof -
  note ok = console_okD [OF wf [OF assms]]
  have "unat (cview c - 1) < unat (ccount c)" if "0 < cview c" using that ok(11) by (simp add: unat_minus_one)
  then show "I (console_scroll_up c)" using assms by (simp add: console_scroll_up_def draw_keeps view)
  have "unat (visible_rows c) \<noteq> 0" by (auto simp: visible_rows_def Let_def BUF_LINES_def unat_eq_0)
  moreover have "unat (visible_rows c) \<le> 512" by (auto simp: visible_rows_def Let_def BUF_LINES_def word_less_nat_alt not_less)
  ultimately have "unat (cview c + 1) < unat (ccount c)" if "cview c + visible_rows c < ccount c"
    using that ok(7,11) by (simp add: word_less_nat_alt unat_plus_if')
  then show "I (console_scroll_down c)" using assms by (simp add: console_scroll_down_def draw_keeps view)
qed

lemma hw_keeps: "I c \<Longrightarrow> port_in h = port_in (chw c) \<Longrightarrow> I (c\<lparr>chw := h\<rparr>)"
  by (erule cong) (simp add: con_view_def)

lemma raw_write_keeps: "I c \<Longrightarrow> serial_raw_write s c = Some c' \<Longrightarrow> I c'"
  by (induction s arbitrary: c) (auto simp: bind_eq_Some_conv dest: serial_raw_putc_keeps)

lemma puts_both_keeps: "I c \<Longrightarrow> puts_both s c = Some c' \<Longrightarrow> I c'"
  by (auto simp: puts_both_def bind_eq_Some_conv intro: raw_write_keeps puts_keeps)

lemma uhex_both_keeps: "I c \<Longrightarrow> uhex_both v c = Some c' \<Longrightarrow> I c'"
  by (auto simp: uhex_both_def bind_eq_Some_conv console_uhex_def serial_raw_uhex_def intro: raw_write_keeps puts_keeps)

lemma timestamp_keeps:
  assumes "I c" and "debuglog_print_timestamp c = Some c'"
  shows "I c'"
proof (cases "debug_mode c")
  case True
  have "I (c\<lparr>chw := snd (io_rdtsc (chw c))\<rparr>)" by (rule hw_keeps [OF assms(1)]) (simp add: io_rdtsc_def)
  with True assms(2) show ?thesis
    by (auto simp: debuglog_print_timestamp_def split_beta Let_def bind_eq_Some_conv) (meson puts_both_keeps uhex_both_keeps)
qed (use assms in \<open>simp add: debuglog_print_timestamp_def\<close>)

lemma read_ready_keeps: "I c \<Longrightarrow> I (snd (serial_read_ready c))"
  by (simp add: serial_read_ready_def io_inb_def hw_keeps)

lemma serial_getc_keeps: "I c \<Longrightarrow> serial_getc c = Some (ch, c') \<Longrightarrow> I c'"
  by (auto simp: serial_getc_def bind_eq_Some_conv io_inb_def hw_keeps dest!: wait_port_frame)

lemma scancode_keeps:
  assumes "I c"
  shows "I (snd (scancode_to_ascii sc c))"
proof -
  have flags: "I (c\<lparr>kbd_extended := a\<rparr>)" "I (c\<lparr>kbd_extended := a, kbd_shift := b\<rparr>)" for a b
    using assms by (auto elim!: cong simp: con_view_def)
  then have "I (snd (queue_escape_sequence ch (c\<lparr>kbd_extended := a\<rparr>)))" for a ch
    using pending [OF flags(1) [of a], of 1 3 "[CHR 0x1B, CHR ''['', ch]"] by (simp add: queue_escape_sequence_def)
  then show ?thesis using flags by (auto simp: scancode_to_ascii_def Let_def split: option.splits prod.splits)
qed

lemma getc_keeps:
  assumes "console_getc c = Some (ch, c')" and "I c"
  shows "I c'"
proof -
  have "I c \<longrightarrow> I (snd (ch, c'))"
  proof (rule console_getc.raw_induct [where P = "\<lambda>c r. I c \<longrightarrow> I (snd r)", OF _ assms(1)], goal_cases)
    case (1 g c r)
    have start: "I (c\<lparr>pending_len := 0, pending_pos := 0\<rparr>)" if "I c"
      using pending [OF that, of 0 0 "pending_input c"] by simp
    have ps2: "port_in (snd (ps2_try_read_scancode h)) = port_in h" for h
      by (simp add: ps2_try_read_scancode_def io_inb_def Let_def)
    show ?case
    proof
      assume "I c"
      show "I (snd r)"
      proof (cases "pending_pos c < pending_len c")
        case True
        let ?c = "console_release_display_hold c"
        have "I ?c" using \<open>I c\<close> by (rule release_keeps)
        with console_okD(12,13) [OF wf [OF this]] pending [OF this, of "pending_pos ?c + 1" "pending_len ?c" "pending_input ?c"]
        have "I (?c\<lparr>pending_pos := pending_pos ?c + 1\<rparr>)" by simp
        with 1(2) True show ?thesis by (auto simp: Let_def)
      next
        case False
        obtain ready c1 where c1: "serial_read_ready (c\<lparr>pending_len := 0, pending_pos := 0\<rparr>) = (ready, c1)" by fastforce
        with read_ready_keeps [OF start [OF \<open>I c\<close>]] have "I c1" by simp
        let ?in = "if ready then map_option (\<lambda>(ch, c). let ch = (if ch = 0x0D then 0x0A else ch) in (if 0 \<le> ch then Some ch else None, c)) (serial_getc c1)
          else Some (None, c1)"
        let ?k = "\<lambda>got c. case got of
              Some ch \<Rightarrow> Some (char_of (nat ch), console_release_display_hold c)
            | None \<Rightarrow>
                let (sc, h) = ps2_try_read_scancode (chw c); c = c\<lparr>chw := h\<rparr> in
                case sc of
                  None \<Rightarrow> g c
                | Some v \<Rightarrow>
                    let (translated, c) = scancode_to_ascii v c in
                    if translated \<noteq> CHR 0x00 then Some (translated, console_release_display_hold c) else g c"
        from 1(2) False c1 have "Option.bind ?in (\<lambda>(got, c). ?k got c) = Some r" unfolding Let_def by simp
        then obtain got c2 where got: "?in = Some (got, c2)" and rest: "?k got c2 = Some r" unfolding bind_eq_Some_conv by fast
        have "I c2" using got \<open>I c1\<close> by (auto simp: Let_def split: if_splits intro: serial_getc_keeps)
        obtain sc h where sc: "ps2_try_read_scancode (chw c2) = (sc, h)" by fastforce
        have c3: "I (c2\<lparr>chw := h\<rparr>)" using hw_keeps [OF \<open>I c2\<close>] ps2 [of "chw c2"] sc by simp
        show ?thesis
        proof (cases got)
          case None
          with rest sc 1(1) c3 scancode_keeps [OF c3] show ?thesis
            by (auto simp: split_beta Let_def release_keeps split: option.splits if_splits)
        qed (use rest \<open>I c2\<close> in \<open>auto intro: release_keeps\<close>)
      qed
    qed
  qed
  with assms(2) show ?thesis by simp
qed

end

section \<open>Instances\<close>

text \<open>The sizes the arrays have in C.\<close>

definition console_shape :: "console \<Rightarrow> bool" where
  "console_shape c \<longleftrightarrow> length (cbuf c) = 512 \<and> length (line_len c) = 512 \<and> 0 \<le> pending_pos c \<and> pending_len c \<le> int (length (pending_input c))"

lemma fold_clear_line:
  "fold clear_line [0..<n] c = c\<lparr>cbuf := fold (\<lambda>l b. b[l := replicate MAX_COLS (pack c (CHR '' ''))]) [0..<n] (cbuf c),
     line_len := fold (\<lambda>l b. b[l := 0]) [0..<n] (line_len c)\<rparr>"
  by (induction n) (simp_all add: clear_line_def pack_def)

lemma fold_upd_nth: "i < length xs \<Longrightarrow> fold (\<lambda>l b. b[l := x]) [0..<n] xs ! i = (if i < n then x else xs ! i)"
  by (induction n) (auto simp: nth_list_update less_Suc_eq)

lemma reset_lines_ok:
  assumes "console_shape c"
  shows "console_ok (reset_lines c)"
proof (rule console_okI)
  show "length (cbuf (reset_lines c) ! l) = 160" "unat (line_len (reset_lines c) ! l) \<le> 160" if "l < 512" for l
    using that assms by (simp_all add: reset_lines_def fold_clear_line fold_upd_nth BUF_LINES_def MAX_COLS_def console_shape_def)
qed (use assms in \<open>simp_all add: reset_lines_def fold_clear_line BUF_LINES_def console_shape_def slot_def\<close>)

lemma reset_lines_frame: "log_buf (reset_lines c) = log_buf c" "log_pos (reset_lines c) = log_pos c" "log_size (reset_lines c) = log_size c"
  "chw (reset_lines c) = chw c"
  by (simp_all add: reset_lines_def fold_clear_line)

lemma debuglog_frame: "chw (debuglog_char ch c) = chw c"
  by (simp add: debuglog_char_def)

lemma slot_same [simp]: "slot (c\<lparr>cur_col := x\<rparr>) = slot c" "slot (c\<lparr>cview := v\<rparr>) = slot c" "slot (c\<lparr>log_pos := p\<rparr>) = slot c" "slot (upd_cram f c) = slot c"
  "slot (c\<lparr>pending_input := inp, pending_len := len, pending_pos := pos\<rparr>) = slot c"
  by (simp_all add: slot_def fun_eq_iff)

lemma console_ok_cong:
  assumes "console_ok c" and "con_view c' = con_view c"
  shows "console_ok c'"
proof -
  have "slot c' = slot c" using assms(2) by (simp add: slot_def con_view_def fun_eq_iff)
  with assms show ?thesis by (auto simp: console_ok_def con_view_def)
qed

lemma console_ok_log: "console_ok c \<Longrightarrow> console_ok (debuglog_char ch c)"
  by (auto simp: debuglog_char_def console_ok_def)

interpretation text_buffer: console_keeps console_ok
proof
  fix c :: console
  assume ok: "console_ok c"
  show "console_ok (c\<lparr>cur_col := 0\<rparr>)" "console_ok (debuglog_char ch c)" for ch using ok console_ok_log by (auto simp: console_ok_def)
  show "console_ok (c\<lparr>cview := v\<rparr>)" if "unat v < unat (ccount c)" for v using ok that by (auto simp: console_ok_def)
  show "console_ok (c\<lparr>pending_input := inp, pending_len := len, pending_pos := pos\<rparr>)" if "0 \<le> pos" "len \<le> int (length inp)" for inp len pos
    using ok that by (auto simp: console_ok_def)
  show "console_ok (reset_lines c)" by (rule reset_lines_ok) (use ok in \<open>simp add: console_ok_def console_shape_def\<close>)
qed (auto intro: console_ok_cong newline_ok put_char_ok(1) erase_ok(1))

text \<open>The log never grows beyond its buffer.\<close>

definition log_ok :: "console \<Rightarrow> bool" where
  "log_ok c \<longleftrightarrow> console_ok c \<and> log_pos c \<le> log_size c"

lemma log_pos_inc: "p < (n :: u64) \<Longrightarrow> p + 1 \<le> n"
  by (metis add.commute inc_le)

interpretation log_buffer: console_keeps log_ok
proof
  fix c :: console
  assume ok: "log_ok c"
  show "log_ok (debuglog_char ch c)" for ch
  proof -
    have "log_pos (debuglog_char ch c) \<le> log_size (debuglog_char ch c)"
      using ok by (auto simp: debuglog_char_def log_ok_def not_le log_pos_inc)
    then show ?thesis using ok text_buffer.log by (simp add: log_ok_def)
  qed
  show "log_ok c'" if "con_view c' = con_view c" for c' using ok that console_ok_cong [of c c'] by (simp add: log_ok_def con_view_def)
qed (auto simp: log_ok_def newline_frame put_char_frame erase_frame reset_lines_frame
  text_buffer.newline text_buffer.put_char text_buffer.erase text_buffer.home text_buffer.view text_buffer.pending text_buffer.reset)

text \<open>A serial line that is ready for another character again and again.\<close>

definition serial_live :: "console \<Rightarrow> bool" where
  "serial_live c \<longleftrightarrow> console_ok c \<and> (\<forall>n. \<exists>m\<ge>n. (ucast (port_in (chw c) m (COM1 + 5)) :: u8) AND 0x20 \<noteq> 0)"

interpretation serial_line: console_keeps serial_live
proof
  fix c :: console
  assume ok: "serial_live c"
  show "serial_live c'" if "con_view c' = con_view c" for c' using ok that console_ok_cong [of c c'] by (simp add: serial_live_def con_view_def)
qed (auto simp: serial_live_def newline_frame put_char_frame erase_frame reset_lines_frame debuglog_frame
  text_buffer.newline text_buffer.put_char text_buffer.erase text_buffer.home text_buffer.log text_buffer.view text_buffer.pending text_buffer.reset)

section \<open>Properties\<close>

text \<open>One operation on the console. The other components may change everything that is not part of the view at any time.\<close>

inductive con_step :: "console \<Rightarrow> console \<Rightarrow> bool" where
  step_putc: "console_putc ch c = Some c' \<Longrightarrow> con_step c c'"
| step_write: "console_write s c = Some c' \<Longrightarrow> con_step c c'"
| step_puts: "console_puts s c = Some c' \<Longrightarrow> con_step c c'"
| step_udec: "console_udec v c = Some c' \<Longrightarrow> con_step c c'"
| step_uhex: "console_uhex x c = Some c' \<Longrightarrow> con_step c c'"
| step_getc: "console_getc c = Some (ch, c') \<Longrightarrow> con_step c c'"
| step_backspace: "con_step c (console_backspace c)"
| step_clear: "con_step c (console_clear c)"
| step_up: "con_step c (console_scroll_up c)"
| step_down: "con_step c (console_scroll_down c)"
| step_attr: "con_step c (console_set_attr fg bg c)"
| step_vga: "con_step c (console_set_vga_enabled en c)"
| step_logs: "con_step c (console_set_logs_visible en c)"
| step_theme: "con_step c (console_apply_boot_theme c)"
| step_hold: "con_step c (console_hold_display_until_input c)"
| step_release: "con_step c (console_release_display_hold c)"
| step_serial: "serial_write t c = Some c' \<Longrightarrow> con_step c c'"
| step_stamp: "debuglog_print_timestamp c = Some c' \<Longrightarrow> con_step c c'"
| step_other: "con_view c' = con_view c \<Longrightarrow> con_step c c'"

context console_keeps
begin

lemma step_keeps: "con_step c c' \<Longrightarrow> I c \<Longrightarrow> I c'"
proof (induction rule: con_step.induct)
  case (step_logs c en)
  then have "I (c\<lparr>cboot := bootmode_set_logs_visible en (cboot c)\<rparr>)" by (auto elim!: cong simp: con_view_def)
  then show ?case by (cases en) (simp_all add: console_set_logs_visible_def Let_def draw_keeps)
next
  case (step_hold c)
  then show ?case by (simp add: console_hold_display_until_input_def hold_keeps)
next
  case (step_attr c fg bg)
  then show ?case by (auto elim!: cong simp: console_set_attr_def con_view_def)
next
  case (step_vga c en)
  then show ?case by (auto elim!: cong simp: console_set_vga_enabled_def con_view_def)
next
  case (step_theme c)
  then show ?case by (auto elim!: cong simp: console_apply_boot_theme_def con_view_def)
qed (auto simp: console_udec_def console_uhex_def scroll_keeps backspace_keeps clear_keeps release_keeps
    intro: putc_keeps write_keeps puts_keeps getc_keeps serial_write_keeps timestamp_keeps cong)

lemma steps_keep: "con_step\<^sup>*\<^sup>* c c' \<Longrightarrow> I c \<Longrightarrow> I c'"
  by (induction rule: rtranclp_induct) (auto intro: step_keeps)

end

lemma console_init_ok:
  assumes "console_shape c" and "console_init c = Ret c'"
  shows "console_ok c'"
proof -
  let ?c = "console_apply_boot_theme c"
  obtain c1 where shape: "console_shape c1"
    and run: "Option.bind (debuglog_print_timestamp (draw_screen (reset_lines c1))) (console_puts (Some (''console_init complete'' @ [CHR 0x0A]))) = Some c'"
  proof (cases "framebuffer_enabled (cfb ?c)")
    case True
    with assms that [of ?c] show ?thesis
      by (simp add: console_init_def Let_def console_shape_def console_apply_boot_theme_def)
  next
    case False
    with assms(2) obtain p m where "mem_vram_lock (Some ''console'') (cmem ?c) = Ret (p, m)"
      by (auto simp: console_init_def Let_def bind_outcome_Ret_iff)
    with False assms that [of "?c\<lparr>cmem := m, video := mem_vram_base m\<rparr>"] show ?thesis
      by (simp add: console_init_def Let_def console_shape_def console_apply_boot_theme_def)
  qed
  have "console_ok (draw_screen (reset_lines c1))" using reset_lines_ok [OF shape] by (rule text_buffer.draw_keeps)
  with run show ?thesis
    by (auto simp: bind_eq_Some_conv intro: text_buffer.timestamp_keeps text_buffer.puts_keeps)
qed

text \<open>What one character does: it goes to the serial line, and the text changes as on the abstract terminal.\<close>

definition t_char :: "nat \<Rightarrow> u16 \<Rightarrow> char \<Rightarrow> term_text \<Rightarrow> term_text" where
  "t_char cols cell ch t =
     (if ch = CHR 0x0A then t_newline cols t else if ch = CHR 0x0D then (fst t, 0) else if ch = CHR 0x08 then t_erase t else t_put cols cell t)"

definition con_frame :: "console \<Rightarrow> hw \<times> fb_state \<times> u8" where
  "con_frame c = (chw c, cfb c, cattr c)"

lemma con_text_cong:
  assumes "cbuf c' = cbuf c" and "line_len c' = line_len c" and "chead c' = chead c" and "ccount c' = ccount c" and "cur_col c' = cur_col c"
  shows "con_text c' = con_text c"
  using assms by (simp add: con_text_def con_lines_def line_def slot_def)

lemma step_frames [simp]:
  "con_frame (newline c) = con_frame c" "con_frame (put_char ch c) = con_frame c" "con_frame (erase_prev_char c) = con_frame c"
  "con_frame (debuglog_char ch c) = con_frame c" "con_frame (tail_view c) = con_frame c" "con_frame (draw_screen c) = con_frame c"
  "con_frame (c\<lparr>cur_col := 0\<rparr>) = con_frame c"
proof -
  show p: "con_frame (newline c) = con_frame c" for c by (simp add: con_frame_def newline_frame)
  have q: "con_frame (put_cell cell c) = con_frame c" for cell c by (simp add: con_frame_def put_cell_def Let_def set_cell_def)
  show "con_frame (put_char ch c) = con_frame c" by (simp add: put_char_eq Let_def p q)
qed (simp_all add: con_frame_def erase_prev_char_def set_cell_def debuglog_char_def tail_view_def draw_screen_def Let_def)

lemma step_texts [simp]:
  "con_text (debuglog_char ch c) = con_text c" "con_text (tail_view c) = con_text c" "con_text (draw_screen c) = con_text c"
  by (rule con_text_cong; simp add: debuglog_char_def tail_view_def draw_screen_def Let_def)+

lemma serial_raw_putc_outputs:
  assumes "serial_raw_putc ch c = Some c'"
  shows "con_text c' = con_text c" and "outputs (chw c') = outputs (chw c) @ [Outb COM1 (of_char ch)]"
    and "cfb c' = cfb c" and "cattr c' = cattr c"
  using assms by (auto simp: serial_raw_putc_def bind_eq_Some_conv io_outb_def dest!: wait_port_frame intro: con_text_cong)

lemma emit_shows:
  assumes "console_ok c" and "console_emit_char ch c = Some c'"
  shows "con_text c' = t_char (unat (visible_cols c)) (pack c ch) ch (con_text c)" and "cfb c' = cfb c" and "cattr c' = cattr c"
    and "outputs (chw c') = outputs (chw c) @ [Outb COM1 (of_char ch)]"
proof -
  obtain c1 where c1: "serial_raw_putc ch c = Some c1" using assms(2) by (auto simp: console_emit_char_def Let_def bind_eq_Some_conv)
  note f1 = serial_raw_putc_outputs [OF c1] and ok1 = text_buffer.serial_raw_putc_keeps [OF assms(1) c1]
  define c2 where "c2 = (if ch = CHR 0x0A then newline c1 else if ch = CHR 0x0D then c1\<lparr>cur_col := 0\<rparr> else if ch = CHR 0x08 then erase_prev_char c1 else put_char ch c1)"
  have v: "visible_cols c1 = visible_cols c" "pack c1 ch = pack c ch" using f1 by (auto intro: visible_cols_cong simp: pack_def)
  have home: "con_text (c1\<lparr>cur_col := 0\<rparr>) = (fst (con_text c1), 0)" by (simp add: con_text_def con_lines_def line_def slot_def)
  have "con_text c2 = t_char (unat (visible_cols c)) (pack c ch) ch (con_text c)"
    using newline_text [OF ok1] erase_ok(2) [OF ok1] put_char_ok(2) [OF ok1] home by (simp add: c2_def t_char_def v f1(1))
  moreover have "con_frame c2 = con_frame c1" by (simp add: c2_def)
  moreover have "console_emit_char ch c = Some (let d = debuglog_char ch c2; d = (if follow_tail c \<and> console_display_enabled d then tail_view d else d)
      in if \<not> follow_tail c then draw_screen d else d)"
    unfolding console_emit_char_def c1 Let_def c2_def by simp
  then have "con_text c' = con_text c2 \<and> con_frame c' = con_frame c2" using assms(2) by (simp add: Let_def)
  ultimately show "con_text c' = t_char (unat (visible_cols c)) (pack c ch) ch (con_text c)" and "cfb c' = cfb c" and "cattr c' = cattr c"
    and "outputs (chw c') = outputs (chw c) @ [Outb COM1 (of_char ch)]"
    using f1 by (simp_all add: con_frame_def)
qed

lemma emits_show:
  assumes "console_ok c" and "emit_chars s c = Some c'"
  shows "con_text c' = fold (\<lambda>ch. t_char (unat (visible_cols c)) (pack c ch) ch) s (con_text c) \<and>
    outputs (chw c') = outputs (chw c) @ map (\<lambda>ch. Outb COM1 (of_char ch)) s"
  using assms
proof (induction s arbitrary: c)
  case (Cons ch s)
  then obtain c1 where c1: "console_emit_char ch c = Some c1" "emit_chars s c1 = Some c'" by (auto simp: bind_eq_Some_conv)
  note e = emit_shows [OF Cons.prems(1) c1(1)]
  have "visible_cols c1 = visible_cols c" "pack c1 = pack c" using e by (auto intro: visible_cols_cong simp: pack_def)
  with Cons.IH [OF text_buffer.emit_keeps [OF Cons.prems(1) c1(1)] c1(2)] e show ?case by simp
qed simp

lemma puts_show:
  assumes "console_ok c" and "console_puts (Some s) c = Some c'"
  shows "con_text c' = fold (\<lambda>ch. t_char (unat (visible_cols c)) (pack c ch) ch) s (con_text c)"
    and "outputs (chw c') = outputs (chw c) @ map (\<lambda>ch. Outb COM1 (of_char ch)) s"
proof -
  have d: "chw (draw_screen x) = chw x" for x by (simp add: draw_screen_def Let_def)
  show "con_text c' = fold (\<lambda>ch. t_char (unat (visible_cols c)) (pack c ch) ch) s (con_text c)"
    and "outputs (chw c') = outputs (chw c) @ map (\<lambda>ch. Outb COM1 (of_char ch)) s"
    using assms emits_show [OF assms(1)] by (auto simp: console_puts_def console_write_def console_flush_def d split: if_splits)
qed

text \<open>With a serial line that keeps getting ready, the operations return.\<close>

lemma serial_raw_putc_returns:
  assumes "serial_live c"
  shows "\<exists>c'. serial_raw_putc ch c = Some c'"
proof -
  obtain n where "inputs (chw c) \<le> n" "(ucast (port_in (chw c) n (COM1 + 5)) :: u8) AND 0x20 \<noteq> 0"
    using assms by (auto simp: serial_live_def)
  from wait_port_returns [OF this(1), of "\<lambda>v. v AND 0x20 \<noteq> 0" "COM1 + 5", OF this(2)] show ?thesis
    by (auto simp: serial_raw_putc_def)
qed

lemma emits_return: "serial_live c \<Longrightarrow> \<exists>c'. emit_chars s c = Some c'"
proof (induction s arbitrary: c)
  case (Cons ch s)
  obtain c1 where "serial_raw_putc ch c = Some c1" using serial_raw_putc_returns [OF Cons.prems] by blast
  then obtain c2 where c2: "console_emit_char ch c = Some c2" by (simp add: console_emit_char_def Let_def)
  with Cons.IH [OF serial_line.emit_keeps [OF Cons.prems c2]] show ?case by simp
qed simp

lemma puts_return: "serial_live c \<Longrightarrow> \<exists>c'. console_puts (Some s) c = Some c'"
  using emits_return [of c s] by (auto simp: console_puts_def console_write_def)

text \<open>C31: After the console is initialised, every sequence of operations of the console and the serial line, with arbitrary changes
  of the other components in between, leaves the scroll-back buffer well formed: 512 lines of 160 cells, line lengths, columns and
  the view inside their bounds, the current line the last of the ring.\<close>

theorem console_reachable_ok:
  assumes "console_shape c" and "console_init c = Ret c1" and "con_step\<^sup>*\<^sup>* c1 c2"
  shows "console_ok c2"
  using text_buffer.steps_keep [OF assms(3)] console_init_ok [OF assms(1,2)] by blast


text \<open>A console for the witnesses: the display switched off, the serial line ready, the arrays zero.\<close>

definition demo_hw :: hw where
  "demo_hw = \<lparr>port_in = (\<lambda>_ _. 0x20), clock = (\<lambda>_. 0), cpuid = (\<lambda>_. (0, 0, 0, 0)), inputs = 0, clocks = 0, outputs = []\<rparr>"

definition demo_fb :: fb_state where
  "demo_fb = \<lparr>fb_base = 0xE0000000, fb_width = 320, fb_height = 200, fb_pitch = 1280, fb_bpp = 32, bytes_per_pixel = 4, red_position = 16, red_size = 8,
     green_position = 8, green_size = 8, blue_position = 0, blue_size = 8, reserved_position = 24, reserved_size = 0, palette = replicate 16 0,
     logical_width = 320, logical_height = 200, rotate_90_cw = False, fb_available = True, fb_enabled = True\<rparr>"

definition demo_console :: console where
  "demo_console = \<lparr>chw = demo_hw, cboot = \<lparr>logs_visible = False, progress_visible = False, theme = 0\<rparr>, cfb = demo_fb, cmem = boot_heap,
     debug_mode = False, log_buf = 0, log_pos = 0, log_size = 0, log_start = 0, video = 0xB8000, cattr = 7, vga_enabled = True,
     cbuf = replicate BUF_LINES (replicate MAX_COLS 0), line_len = replicate BUF_LINES 0, chead = 0, ccount = 1, cur_line = 0, cur_col = 0, cview = 0,
     display_hold = False, kbd_shift = False, kbd_extended = False, pending_input = [], pending_len = 0, pending_pos = 0\<rparr>"

lemma demo_console_live: "serial_live demo_console"
proof -
  have "length (cbuf demo_console ! l) = 160" "unat (line_len demo_console ! l) = 0" if "l < 512" for l
    using that by (simp_all add: demo_console_def BUF_LINES_def MAX_COLS_def)
  moreover have "length (cbuf demo_console) = 512" "length (line_len demo_console) = 512"
    by (simp_all add: demo_console_def BUF_LINES_def)
  ultimately have "console_ok demo_console"
    by (intro console_okI) (simp_all add: demo_console_def slot_def)
  then show ?thesis by (auto simp: serial_live_def demo_console_def demo_hw_def)
qed

theorem console_reachable_ok_witness:
  "\<exists>c1. console_init demo_console = Ret c1 \<and> console_ok (console_scroll_down (console_clear c1))"
proof -
  let ?c = "draw_screen (reset_lines (console_apply_boot_theme demo_console))"
  have "serial_live (console_apply_boot_theme demo_console)" by (rule serial_line.cong [OF demo_console_live]) (simp add: con_view_def console_apply_boot_theme_def)
  then have "serial_live ?c" by (intro serial_line.draw_keeps serial_line.reset)
  from puts_return [OF this] obtain c1 where c1: "console_puts (Some (''console_init complete'' @ [CHR 0x0A])) ?c = Some c1" by blast
  have keep: "console.debug_mode (draw_screen x) = console.debug_mode x" "console.debug_mode (reset_lines x) = console.debug_mode x"
    "console.debug_mode (console_apply_boot_theme x) = console.debug_mode x" "cfb (console_apply_boot_theme x) = cfb x" for x
    by (simp_all add: draw_screen_def upd_cram_def reset_lines_def fold_clear_line console_apply_boot_theme_def Let_def)
  have "\<not> console.debug_mode ?c" unfolding keep by (simp add: demo_console_def)
  then have "debuglog_print_timestamp ?c = Some ?c" by (simp only: debuglog_print_timestamp_def if_True simp_thms)
  moreover have "framebuffer_enabled (cfb (console_apply_boot_theme demo_console))" unfolding keep by (simp add: framebuffer_enabled_def demo_console_def demo_fb_def)
  ultimately have init: "console_init demo_console = Ret c1"
    unfolding console_init_def Let_def using c1 by (simp only: bind.bind_lunit if_False simp_thms bind_outcome_simps of_option_simps)
  have "con_step\<^sup>*\<^sup>* c1 (console_scroll_down (console_clear c1))" by (rule rtranclp.rtrancl_into_rtrancl [OF r_into_rtranclp [where r = con_step, OF step_clear] step_down])
  from console_reachable_ok [OF _ init this] have "console_ok (console_scroll_down (console_clear c1))"
    by (simp add: console_shape_def demo_console_def BUF_LINES_def)
  with init show ?thesis by blast
qed

text \<open>C32: If the serial line gets ready again and again, printing a string returns, the line still gets ready, and exactly the characters of
  the string were sent over the line, in order.\<close>

theorem console_puts_returns:
  assumes "serial_live c"
  shows "\<exists>c'. console_puts (Some s) c = Some c' \<and> serial_live c' \<and> outputs (chw c') = outputs (chw c) @ map (\<lambda>ch. Outb COM1 (of_char ch)) s"
proof -
  obtain c' where c': "console_puts (Some s) c = Some c'" using puts_return [OF assms] by blast
  with serial_line.puts_keeps [OF assms c'] puts_show(2) [OF serial_line.wf [OF assms] c'] show ?thesis by blast
qed

theorem console_puts_returns_witness:
  "\<exists>c'. console_puts (Some ''ok'') demo_console = Some c' \<and> outputs (chw c') = [Outb COM1 0x6F, Outb COM1 0x6B]"
  using console_puts_returns [OF demo_console_live, of "''ok''"] by (auto simp: demo_console_def demo_hw_def)

text \<open>C33: The ring of the scroll-back buffer behaves as a terminal with the last 512 lines of the text: printing a string changes the lines
  and the column as the abstract terminal does, character by character, with newline, carriage return, backspace and the
  wrap at the last visible column.\<close>

theorem console_puts_text:
  assumes "console_ok c" and "console_puts (Some s) c = Some c'"
  shows "con_text c' = fold (\<lambda>ch. t_char (unat (visible_cols c)) (pack c ch) ch) s (con_text c)"
  by (rule puts_show(1) [OF assms])

theorem console_puts_text_witness:
  "\<exists>c'. console_puts (Some ''a'') demo_console = Some c' \<and> con_text c' = ([[0x0761]], 1)"
proof -
  obtain c' where c': "console_puts (Some ''a'') demo_console = Some c'" using puts_return [OF demo_console_live] by blast
  have "con_text demo_console = ([[]], 0)" by (simp add: con_text_def con_lines_def line_def slot_def demo_console_def BUF_LINES_def)
  moreover have "unat (visible_cols demo_console) = 40"
    by (simp add: visible_cols_def demo_console_def demo_fb_def framebuffer_enabled_def framebuffer_width_def MAX_COLS_def)
  moreover have "pack demo_console (CHR ''a'') = 0x0761" by (simp add: pack_def demo_console_def)
  ultimately have "con_text c' = ([[0x0761]], 1)"
    using console_puts_text [OF serial_line.wf [OF demo_console_live] c'] by (simp add: t_char_def t_put_def on_last_def)
  with c' show ?thesis by blast
qed

section \<open>Dumping the log\<close>

text \<open>A character on the console is a character of the log, as long as the log has room.\<close>

lemma putc_log:
  assumes "console_putc ch c = Some c'"
  shows "log_buf c' = log_buf c" and "log_size c' = log_size c"
    and "log_pos c' = (if log_buf c = 0 \<or> log_size c \<le> log_pos c then log_pos c else log_pos c + 1)"
proof -
  obtain c1 where c1: "serial_raw_putc ch c = Some c1" using assms by (auto simp: console_putc_def console_emit_char_def Let_def bind_eq_Some_conv)
  then obtain h where h: "c1 = c\<lparr>chw := h\<rparr>" using serial_raw_putc_frame by blast
  define c2 where "c2 = (if ch = CHR 0x0A then newline c1 else if ch = CHR 0x0D then c1\<lparr>cur_col := 0\<rparr> else if ch = CHR 0x08 then erase_prev_char c1 else put_char ch c1)"
  have "console_emit_char ch c = Some (let d = debuglog_char ch c2; d = (if follow_tail c \<and> console_display_enabled d then tail_view d else d)
      in if \<not> follow_tail c then draw_screen d else d)"
    unfolding console_emit_char_def c1 Let_def c2_def by simp
  then have c': "c' = draw_screen (let d = debuglog_char ch c2; d = (if follow_tail c \<and> console_display_enabled d then tail_view d else d)
      in if \<not> follow_tail c then draw_screen d else d)" using assms by (simp add: console_putc_def console_flush_def)
  have l2: "log_buf c2 = log_buf c" "log_pos c2 = log_pos c" "log_size c2 = log_size c"
    by (simp_all add: c2_def h newline_frame erase_frame put_char_frame)
  have d: "log_buf (draw_screen x) = log_buf x" "log_pos (draw_screen x) = log_pos x" "log_size (draw_screen x) = log_size x"
    "log_buf (tail_view x) = log_buf x" "log_pos (tail_view x) = log_pos x" "log_size (tail_view x) = log_size x" for x
    by (simp_all add: draw_screen_def tail_view_def Let_def)
  show "log_buf c' = log_buf c" "log_size c' = log_size c"
    "log_pos c' = (if log_buf c = 0 \<or> log_size c \<le> log_pos c then log_pos c else log_pos c + 1)"
    unfolding c' by (simp_all add: d Let_def debuglog_char_def l2)
qed

lemma putc_return:
  assumes "serial_live c"
  shows "\<exists>c'. console_putc ch c = Some c'"
proof -
  obtain c1 where "serial_raw_putc ch c = Some c1" using serial_raw_putc_returns [OF assms] by blast
  then show ?thesis by (simp add: console_putc_def console_emit_char_def Let_def)
qed

lemma unat_inc_below:
  assumes "unat (a :: u64) < unat (b :: u64)"
  shows "unat (a + 1) = unat a + 1"
proof -
  have "unat a + unat (1 :: u64) < 18446744073709551616" using assms unat_lt_2p64 [of b] by (simp only: unat_1)
  then show ?thesis by (simp add: unat_add64)
qed

text \<open>One round of the dump: the log is full already, or it has grown by the character that was read.\<close>

lemma dump_round:
  assumes "serial_live c" and "log_buf c \<noteq> 0" and "log_pos c \<le> log_size c" and "i < log_pos c"
  shows "\<exists>c'. dump_loop i c = dump_loop (i + 1) c' \<and> serial_live c' \<and> log_buf c' = log_buf c \<and> log_size c' = log_size c \<and>
    unat (log_pos c') = min (unat (log_size c)) (unat (log_pos c) + 1)"
proof -
  obtain c1 where c1: "console_putc (log_char_at i c) c = Some c1" using putc_return [OF assms(1)] by blast
  have live: "serial_live c1" by (rule serial_line.putc_keeps [OF assms(1) c1])
  obtain c2 where c2: "serial_raw_putc (log_char_at i c1) c1 = Some c2" using serial_raw_putc_returns [OF live] by blast
  obtain h where h: "c2 = c1\<lparr>chw := h\<rparr>" using serial_raw_putc_frame [OF c2] by blast
  have "dump_loop i c = dump_loop (i + 1) c2" by (subst dump_loop.simps) (simp add: assms(4) c1 c2)
  moreover have "unat (log_pos c2) = min (unat (log_size c)) (unat (log_pos c) + 1)"
  proof (cases "log_size c \<le> log_pos c")
    case True
    with assms(3) have "log_pos c = log_size c" by simp
    then show ?thesis using putc_log(3) [OF c1] by (simp add: h)
  next
    case False
    then have "unat (log_pos c) < unat (log_size c)" by (simp add: word_le_nat_alt)
    moreover from this have "unat (log_pos c + 1) = unat (log_pos c) + 1" by (rule unat_inc_below)
    ultimately show ?thesis using False assms(2) putc_log(3) [OF c1] by (simp add: h)
  qed
  moreover have "serial_live c2" by (rule serial_line.serial_raw_putc_keeps [OF live c2])
  ultimately show ?thesis using putc_log(1,2) [OF c1] h by auto
qed

lemma dump_loop_fills:
  assumes "serial_live c" and "log_buf c \<noteq> 0" and "log_pos c \<le> log_size c" and "i < log_pos c"
  shows "\<exists>c'. dump_loop i c = Some c' \<and> log_pos c' = log_size c \<and> serial_live c'"
  using assms
proof (induction "unat (log_size c) - unat i" arbitrary: i c rule: less_induct)
  case less
  from dump_round [OF less.prems] obtain c' where c': "dump_loop i c = dump_loop (i + 1) c'" "serial_live c'" "log_buf c' = log_buf c"
    "log_size c' = log_size c" and pos: "unat (log_pos c') = min (unat (log_size c)) (unat (log_pos c) + 1)" by blast
  have lt: "unat i < unat (log_pos c)" "unat (log_pos c) \<le> unat (log_size c)" using less.prems(3,4) by (simp_all add: word_le_nat_alt word_less_nat_alt)
  then have i: "unat (i + 1) = unat i + 1" by (intro unat_inc_below [of i "log_pos c"])
  show ?case
  proof (cases "i + 1 < log_pos c'")
    case True
    have "unat (log_size c') - unat (i + 1) < unat (log_size c) - unat i" using lt i c'(4) by simp
    moreover have "log_pos c' \<le> log_size c'" using pos c'(4) by (simp add: word_le_nat_alt)
    ultimately show ?thesis using less.hyps [of c' "i + 1"] True c' less.prems(2) by simp
  next
    case False
    then have "unat (log_pos c') \<le> unat i + 1" using i by (simp add: word_less_nat_alt)
    then have "unat (log_pos c') = unat (log_size c)" using pos lt by simp
    then have "log_pos c' = log_size c" by (simp add: word_unat_eq_iff)
    moreover have "dump_loop (i + 1) c' = Some c'" using False by (subst dump_loop.simps) simp
    ultimately show ?thesis using c' by simp
  qed
qed

text \<open>C34: Dumping a log that is not empty on the console returns when the serial line keeps getting ready, but the dump itself is logged:
  the loop reads what it writes and ends only when the log is full.\<close>

theorem debuglog_dump_fills:
  assumes "serial_live c" and "console.debug_mode c" and "log_buf c \<noteq> 0" and "0 < log_pos c" and "log_pos c \<le> log_size c"
  shows "\<exists>c'. debuglog_dump_console c = Some c' \<and> log_pos c' = log_size c"
  using dump_loop_fills [of c 0] assms by (auto simp: debuglog_dump_console_def)

theorem debuglog_dump_fills_witness:
  "\<exists>c'. debuglog_dump_console (demo_console\<lparr>debug_mode := True, log_buf := 0x300000, log_pos := 2, log_size := 64\<rparr>) = Some c' \<and> log_pos c' = 64"
proof -
  let ?c = "demo_console\<lparr>debug_mode := True, log_buf := 0x300000, log_pos := 2, log_size := 64\<rparr>"
  have "console_ok ?c" using serial_line.wf [OF demo_console_live] by (auto simp: console_ok_def slot_def)
  then have "serial_live ?c" using demo_console_live by (simp add: serial_live_def)
  from debuglog_dump_fills [OF this] show ?thesis by simp
qed

end
