(* ===== verification/Console_Frame.thy ===== *)
theory Console_Frame
  imports Console_Ops
begin

unbundle bit_operations_syntax

text \<open>
  The console prints, logs and draws all the time, before and after the heap is initialised: it writes to RAM, but
  it leaves the heap alone, and it returns as long as the serial line keeps getting ready.
\<close>

section \<open>The console leaves the heap alone\<close>

named_theorems heap_kept \<open>operations of the console that change only RAM\<close>

definition heap_view :: "console \<Rightarrow> mem_state \<times> addr" where
  "heap_view c = ((cmem c)\<lparr>mem_ram := (\<lambda>_. 0)\<rparr>, log_buf c)"

definition ram_only :: "(console \<Rightarrow> console option) \<Rightarrow> bool" where
  "ram_only f \<longleftrightarrow> (\<forall>c c'. f c = Some c' \<longrightarrow> heap_view c' = heap_view c)"

lemma ram_onlyD: "ram_only f \<Longrightarrow> f c = Some c' \<Longrightarrow> heap_view c' = heap_view c"
  by (simp add: ram_only_def)

lemma ram_only_bind [heap_kept]: "ram_only f \<Longrightarrow> (\<And>x. ram_only (g x)) \<Longrightarrow> ram_only (\<lambda>c. Option.bind (f c) (g (h c)))"
  unfolding ram_only_def bind_eq_Some_conv by metis

lemma ram_only_Some [heap_kept]: "(\<And>c. heap_view (f c) = heap_view c) \<Longrightarrow> ram_only (\<lambda>c. Some (f c))"
  by (auto simp: ram_only_def)

lemma upd_cram_heap [simp]: "heap_view (upd_cram f c) = heap_view c"
  by (simp add: heap_view_def upd_cram_def)

lemma fold_cells_heap: "heap_view (fold (\<lambda>i c. set_cell l i (pack c ch) c) is c) = heap_view c"
  by (induction "is" arbitrary: c) (simp_all add: heap_view_def set_cell_def)

lemma newline_heap [simp]: "heap_view (newline c) = heap_view c"
proof -
  have f: "cmem (fold (\<lambda>i c. set_cell l i (pack c ch) c) is c) = cmem c \<and> log_buf (fold (\<lambda>i c. set_cell l i (pack c ch) c) is c) = log_buf c" for l "is" ch c
    by (induction "is" arbitrary: c) (simp_all add: set_cell_def)
  show ?thesis unfolding newline_def Let_def by (simp add: heap_view_def clear_line_def f)
qed

lemma put_char_heap [simp]: "heap_view (put_char ch c) = heap_view c"
proof -
  let ?c1 = "if visible_cols c \<le> cur_col c then newline c else c"
  let ?c2 = "set_cell (unat (cur_line ?c1)) (unat (cur_col ?c1)) (pack ?c1 ch) ?c1"
  let ?c3 = "?c2\<lparr>cur_col := cur_col ?c2 + 1\<rparr>"
  have "heap_view (if P then ?c3\<lparr>line_len := n\<rparr> else ?c3) = heap_view ?c1" for P n by (simp add: heap_view_def set_cell_def)
  moreover have "heap_view ?c1 = heap_view c" by simp
  ultimately show ?thesis unfolding put_char_def Let_def by simp
qed

lemma char_heap [simp]: "heap_view (erase_prev_char c) = heap_view c" "heap_view (c\<lparr>cur_col := n\<rparr>) = heap_view c"
  "heap_view (c\<lparr>log_pos := p\<rparr>) = heap_view c" "heap_view (tail_view c) = heap_view c" "heap_view (c\<lparr>chw := h\<rparr>) = heap_view c"
  by (simp_all add: erase_prev_char_def tail_view_def set_cell_def heap_view_def Let_def)

lemma draw_screen_heap [simp]: "heap_view (draw_screen c) = heap_view c"
  by (simp add: draw_screen_def Let_def)

lemma debuglog_char_heap [simp]: "heap_view (debuglog_char ch c) = heap_view c"
  by (simp add: debuglog_char_def)

lemma raw_putc_heap [heap_kept]: "ram_only (serial_raw_putc ch)"
  by (auto simp: ram_only_def serial_raw_putc_def bind_eq_Some_conv)

lemma emit_heap [heap_kept]: "ram_only (console_emit_char ch)"
  unfolding ram_only_def
proof (intro allI impI)
  fix c c' assume e: "console_emit_char ch c = Some c'"
  then obtain c1 where c1: "serial_raw_putc ch c = Some c1" by (cases "serial_raw_putc ch c") (simp_all add: console_emit_char_def)
  have g: "heap_view (if b then draw_screen (if P then tail_view y else y) else (if P then tail_view y else y)) = heap_view y" for b P y by simp
  let ?c2 = "if ch = CHR 0x0A then newline c1 else if ch = CHR 0x0D then c1\<lparr>cur_col := 0\<rparr> else if ch = CHR 0x08 then erase_prev_char c1 else put_char ch c1"
  have "heap_view c' = heap_view (debuglog_char ch ?c2)"
    using e [symmetric] by (simp only: console_emit_char_def Let_def c1 bind.bind_lunit option.inject g)
  also have "\<dots> = heap_view c1" by simp
  also have "\<dots> = heap_view c" by (rule ram_onlyD [OF raw_putc_heap c1])
  finally show "heap_view c' = heap_view c" .
qed

lemma emits_heap [heap_kept]: "ram_only (emit_chars s)"
proof (induction s)
  case (Cons ch s)
  then show ?case using emit_heap by (auto simp: ram_only_def bind_eq_Some_conv)
qed (simp add: ram_only_def)

lemma putc_heap [heap_kept]: "ram_only (console_putc ch)"
  using emit_heap [of ch] by (auto simp: ram_only_def console_putc_def console_flush_def)

lemma write_heap [heap_kept]: "ram_only (console_write s)"
  using emits_heap by (auto simp: ram_only_def console_write_def console_flush_def split: option.splits if_splits)

lemma puts_heap [heap_kept]: "ram_only (console_puts s)"
  using write_heap by (auto simp: ram_only_def console_puts_def split: option.splits)

lemma number_heap [heap_kept]: "ram_only (console_udec v)" "ram_only (console_uhex x)"
  by (simp_all add: console_udec_def console_uhex_def puts_heap)

lemma raw_write_heap [heap_kept]: "ram_only (serial_raw_write s)"
proof (induction s)
  case (Cons ch s)
  then show ?case using raw_putc_heap [of ch] by (auto simp: ram_only_def bind_eq_Some_conv)
qed (simp add: ram_only_def)

lemma serial_write_heap [heap_kept]: "ram_only (serial_write s)"
proof (induction s)
  case (Cons ch s)
  then show ?case using raw_putc_heap [of ch] by (fastforce simp: ram_only_def serial_putc_def bind_eq_Some_conv)
qed (simp add: ram_only_def)

lemma both_heap [heap_kept]: "ram_only (put_both ch)" "ram_only (puts_both s)" "ram_only (uhex_both x)"
  unfolding put_both_def puts_both_def uhex_both_def serial_raw_uhex_def by (intro heap_kept)+

lemma hexdump_heap [heap_kept]: "ram_only (debuglog_hexdump p n)"
proof -
  have "ram_only (hexdump_loop p is)" for p "is"
  proof (induction "is")
    case (Cons i "is")
    then show ?case using both_heap(1) by (fastforce simp: ram_only_def bind_eq_Some_conv Let_def split: if_splits)
  qed (simp add: ram_only_def)
  then show ?thesis using both_heap(1) by (fastforce simp: ram_only_def debuglog_hexdump_def bind_eq_Some_conv split: if_splits)
qed

lemma memdump_heap [heap_kept]: "ram_only (debuglog_memdump p n)"
proof -
  have "heap_view c' = heap_view c" if "memdump_loop p n i c = Some c'" for i c c'
  proof (rule memdump_loop.raw_induct [where P = "\<lambda>p n i c c'. heap_view c' = heap_view c", OF _ that], goal_cases)
    case (1 g p n i c c')
    then show ?case using both_heap(2,3) hexdump_heap by (fastforce simp: ram_only_def bind_eq_Some_conv split: if_splits)
  qed
  then show ?thesis by (auto simp: ram_only_def debuglog_memdump_def split: if_splits)
qed

lemma timestamp_heap [heap_kept]: "ram_only debuglog_print_timestamp"
  by (auto simp: ram_only_def debuglog_print_timestamp_def Let_def split_beta bind_eq_Some_conv split: if_splits
      dest!: ram_onlyD [OF both_heap(2)] ram_onlyD [OF both_heap(3)])

lemma run_con_heap [heap_kept]: "ram_only (run_con ks)"
proof (induction ks)
  case (Cons k ks)
  then show ?case using puts_heap putc_heap number_heap by (cases k) (auto simp: ram_only_def bind_eq_Some_conv)
qed (simp add: ram_only_def)

section \<open>The console returns\<close>

named_theorems con_live \<open>operations of the console that return on a serial line that gets ready\<close>

text \<open>A call returned, and the serial line still gets ready.\<close>

definition alive :: "console option \<Rightarrow> bool" where
  "alive x \<longleftrightarrow> (\<exists>c. x = Some c \<and> serial_live c)"

lemma aliveI: "\<exists>c'. f c = Some c' \<Longrightarrow> (\<And>c'. f c = Some c' \<Longrightarrow> serial_live c') \<Longrightarrow> alive (f c)"
  by (auto simp: alive_def)

lemma alive_Some [con_live]: "serial_live c \<Longrightarrow> alive (Some c)"
  by (simp add: alive_def)

lemma alive_bind [con_live]: "alive x \<Longrightarrow> (\<And>c. serial_live c \<Longrightarrow> alive (g c)) \<Longrightarrow> alive (Option.bind x g)"
  by (auto simp: alive_def)

lemma alive_if [con_live]: "(P \<Longrightarrow> alive x) \<Longrightarrow> (\<not> P \<Longrightarrow> alive y) \<Longrightarrow> alive (if P then x else y)"
  by simp

lemma puts_live [con_live]: "serial_live c \<Longrightarrow> alive (console_puts s c)"
proof (rule aliveI)
  show "\<exists>c'. console_puts s c = Some c'" if "serial_live c"
    using puts_return [OF that] by (cases s) (simp_all add: console_puts_def)
qed (rule serial_line.puts_keeps)

lemma putc_live [con_live]: "serial_live c \<Longrightarrow> alive (console_putc ch c)"
  by (rule aliveI) (auto dest: putc_return intro: serial_line.putc_keeps)

lemma number_live [con_live]: "serial_live c \<Longrightarrow> alive (console_udec v c)" "serial_live c \<Longrightarrow> alive (console_uhex x c)"
  by (simp_all add: console_udec_def console_uhex_def puts_live)

lemma raw_putc_live [con_live]: "serial_live c \<Longrightarrow> alive (serial_raw_putc ch c)"
  by (rule aliveI) (auto dest: serial_raw_putc_returns intro: serial_line.serial_raw_putc_keeps)

lemma raw_write_live [con_live]: "serial_live c \<Longrightarrow> alive (serial_raw_write s c)"
  by (induction s arbitrary: c) (auto intro!: con_live)

lemma serial_write_live [con_live]: "serial_live c \<Longrightarrow> alive (serial_write s c)"
proof (induction s arbitrary: c)
  case (Cons ch s)
  obtain c1 where "serial_raw_putc ch c = Some c1" using raw_putc_live [OF Cons.prems] by (auto simp: alive_def)
  then have "serial_putc ch c = Some (debuglog_char ch c1)" by (simp add: serial_putc_def)
  then have "alive (serial_putc ch c)" using serial_line.serial_putc_keeps [OF Cons.prems] by (auto simp: alive_def)
  then show ?case using Cons.IH by (auto intro!: con_live)
qed (simp add: con_live)

lemma both_live [con_live]: "serial_live c \<Longrightarrow> alive (put_both ch c)" "serial_live c \<Longrightarrow> alive (puts_both s c)" "serial_live c \<Longrightarrow> alive (uhex_both x c)"
  by (auto simp: put_both_def puts_both_def uhex_both_def serial_raw_uhex_def intro!: con_live)

lemma hexdump_live [con_live]: "serial_live c \<Longrightarrow> alive (debuglog_hexdump p n c)"
proof -
  have "serial_live c \<Longrightarrow> alive (hexdump_loop p is c)" for "is" c
    by (induction "is" arbitrary: c) (auto simp: Let_def intro!: con_live)
  then show "serial_live c \<Longrightarrow> alive (debuglog_hexdump p n c)"
    unfolding debuglog_hexdump_def by (intro con_live)
qed

lemma timestamp_live [con_live]: "serial_live c \<Longrightarrow> alive (debuglog_print_timestamp c)"
  unfolding debuglog_print_timestamp_def Let_def split_beta
  by (intro con_live serial_line.hw_keeps) (simp_all add: io_rdtsc_def)

lemma run_con_live [con_live]: "serial_live c \<Longrightarrow> alive (run_con ks c)"
proof (induction ks arbitrary: c)
  case (Cons k ks)
  then show ?case by (cases k) (auto intro!: con_live)
qed (simp add: con_live)

text \<open>A dump of a number of bytes that leaves room for the last step of the counter.\<close>

lemma memdump_live:
  assumes "serial_live c" and "unat n < 2 ^ 63"
  shows "alive (debuglog_memdump p n c)"
proof -
  have "serial_live c \<Longrightarrow> unat i \<le> unat n + 15 \<Longrightarrow> alive (memdump_loop p n i c)" for i c
  proof (induction "unat n + 15 - unat i" arbitrary: i c rule: less_induct)
    case less
    show ?case
    proof (cases "i < n")
      case True
      have "unat i + 16 < 18446744073709551616" using True assms(2) by (simp add: word_less_nat_alt)
      then have "unat (i + 16) = unat i + 16" by (simp add: unat_add64)
      then have "serial_live c \<Longrightarrow> alive (memdump_loop p n (i + 16) c)" for c
        using True by (intro less.hyps) (simp_all add: word_less_nat_alt)
      then show ?thesis using True less.prems by (subst memdump_loop.simps) (auto intro!: con_live)
    qed (use less.prems in \<open>subst memdump_loop.simps, simp add: con_live\<close>)
  qed
  then show ?thesis using assms(1) by (simp add: debuglog_memdump_def con_live)
qed

end
