(* ===== verification/Syscall_Props.thy ===== *)
theory Syscall_Props
  imports Syscall Console_Ops Proc_Props
begin

unbundle bit_operations_syntax

text \<open>
  The system calls that are refused: an unknown number, a call without a running process, a pointer the
  process may not use. They return -1 and leave the kernel as it was.
\<close>

section \<open>The memory a call works on\<close>

text \<open>The ranges of user memory among the arguments of a call. A path is checked at its first byte.\<close>

fun user_ranges :: "sysno \<Rightarrow> u64 \<Rightarrow> u64 \<Rightarrow> u64 \<Rightarrow> (addr \<times> u64) list" where
  "user_ranges SYS_WRITE a b c = [(a, b)]"
| "user_ranges SYS_MEM_FREE a b c = [(a, b)]"
| "user_ranges SYS_DMESG_READ a b c = [(a, b)]"
| "user_ranges SYS_VFS_GETCWD a b c = [(a, b)]"
| "user_ranges SYS_READ a b c = [(b, c)]"
| "user_ranges SYS_WRITE_FD a b c = [(b, c)]"
| "user_ranges SYS_FS_READ a b c = [(b, c)]"
| "user_ranges SYS_FS_WRITE a b c = [(b, c)]"
| "user_ranges SYS_FS_READ_FD a b c = [(b, c)]"
| "user_ranges SYS_FS_WRITE_FD a b c = [(b, c)]"
| "user_ranges SYS_VFS_READ a b c = [(b, c)]"
| "user_ranges SYS_VFS_WRITE a b c = [(b, c)]"
| "user_ranges SYS_PROC_INFO a b c = [(b, sizeof_proc_info)]"
| "user_ranges SYS_PROC_LIST a b c = [(a, b * sizeof_proc_info)]"
| "user_ranges SYS_PROC_WAIT a b c = (if b = 0 then [] else [(b, 4)])"
| "user_ranges SYS_MEM_INFO a b c = [(a, sizeof_mem_info)]"
| "user_ranges SYS_FB_INFO a b c = [(a, sizeof_fb_info)]"
| "user_ranges SYS_VFS_FSTAT a b c = [(b, sizeof_vfs_stat)]"
| "user_ranges SYS_VFS_STAT a b c = [(a, 1), (b, sizeof_vfs_stat)]"
| "user_ranges SYS_VFS_GETDENTS a b c = [(b, c * sizeof_vfs_dirent)]"
| "user_ranges SYS_VFS_RENAME a b c = [(a, 1), (b, 1)]"
| "user_ranges n a b c =
     (if n \<in> {SYS_PROC_SPAWN, SYS_EXECVE, SYS_PROC_SPAWN_EX, SYS_FS_OPEN, SYS_VFS_OPEN, SYS_VFS_MKDIR, SYS_VFS_UNLINK, SYS_VFS_RMDIR, SYS_VFS_ACCESS,
        SYS_VFS_CHDIR, SYS_MPY_EXEC_FILE} then [(a, 1)] else [])"

definition refused :: "sys_env \<Rightarrow> u64 \<Rightarrow> u64 \<Rightarrow> u64 \<Rightarrow> u64 \<Rightarrow> system \<Rightarrow> bool" where
  "refused env num a1 a2 a3 s \<longleftrightarrow>
     (case sysno_of num of
        None \<Rightarrow> True
      | Some n \<Rightarrow> current_required (Some n) \<and> \<not> proc_current_valid (snd s) \<or>
          list_ex (\<lambda>(p, len). \<not> user_ptr_valid env p len (snd s)) (user_ranges n a1 a2 a3))"

lemma list_ex_if: "list_ex P (if b then [] else xs) \<longleftrightarrow> \<not> b \<and> list_ex P xs"
  by simp

text \<open>C39: A system call with an unknown number, one that needs a running process when there is none, and one with an argument that points to
  memory the process may not use, in any of its pointer arguments, returns -1 and changes nothing: no call acts before all its pointers are checked.\<close>

theorem syscall_refused:
  assumes "refused env num a1 a2 a3 s"
  shows "syscall_dispatch env num a1 a2 a3 s = Ret (- 1, No_out, s)"
proof (cases "sysno_of num")
  case (Some n)
  note defs = syscall_dispatch_def refused_def with_buffer_def with_path_def sys_write_fd_def sys_read_def sys_spawn_def sys_dmesg_read_def
    sys_fb_info_def sys_mpy_exec_file_def ret_int_def Let_def list_ex_if
  show ?thesis using assms Some by (cases n) (auto simp: defs)
qed (simp add: syscall_dispatch_def ret_int_def Let_def)

section \<open>A system\<close>

text \<open>A machine in which process 1 runs and has called \<open>SYS_GETPID\<close>, with its registers at 0x8000.\<close>

definition demo_system :: system where
  "demo_system =
     (\<lparr>s_con = demo_console, s_fs = \<lparr>fs_data = 0, fs_size = 0, fs_mode = FS_MODE_NONE, fat = no_fat, fs_files = [], fs_out = []\<rparr>\<rparr>,
      upd_ram (\<lambda>_. (\<lambda>_. 0)(0x8000 := 14)) (boot_kernel\<lparr>procs := [no_proc\<lparr>info := no_info\<lparr>pi_pid := 1, pi_state := PROC_STATE_RUNNING\<rparr>, p_used := True\<rparr>],
        current_pid := 1\<rparr>))"

definition demo_env :: sys_env where
  "demo_env = \<lparr>k_end = 0x200000, user_code = \<lambda>_ _ s. Ret s, mp_runtime_exec = \<lambda>_ _ _ s. Ret s\<rparr>"

lemma demo_valid: "proc_current_valid (snd demo_system)" "current_pid (snd demo_system) = 1"
  by (simp_all add: demo_system_def proc_current_valid_def find_proc_def upd_ram_def no_proc_def)

lemma demo_getpid: "syscall_dispatch demo_env 14 a1 a2 a3 demo_system = Ret (1, No_out, demo_system)"
  using demo_valid by (simp add: syscall_dispatch_def sysno_of_def sysno_list_def Let_def ret_int_def proc_current_pid_def)

theorem syscall_refused_witness:
  "syscall_dispatch demo_env 99 1 2 3 demo_system = Ret (- 1, No_out, demo_system) \<and>
   syscall_dispatch demo_env 0 0x1000 16 0 demo_system = Ret (- 1, No_out, demo_system) \<and>
   syscall_dispatch demo_env 0 0xFFFFFFFFFFFFFFF0 32 0 demo_system = Ret (- 1, No_out, demo_system)"
proof (intro conjI)
  show "syscall_dispatch demo_env 99 1 2 3 demo_system = Ret (- 1, No_out, demo_system)"
    by (rule syscall_refused) (simp add: refused_def sysno_of_def sysno_list_def)
  show "syscall_dispatch demo_env 0 0x1000 16 0 demo_system = Ret (- 1, No_out, demo_system)"
    by (rule syscall_refused) (simp add: refused_def sysno_of_def sysno_list_def user_ptr_valid_def demo_env_def demo_system_def proc_info_def
        find_proc_def proc_current_pid_def upd_ram_def no_info_def no_proc_def Let_def)
  show "syscall_dispatch demo_env 0 0xFFFFFFFFFFFFFFF0 32 0 demo_system = Ret (- 1, No_out, demo_system)"
    by (rule syscall_refused) (simp add: refused_def sysno_of_def sysno_list_def user_ptr_valid_def)
qed

end
