(* ===== verification/Idt_Props.thy ===== *)
theory Idt_Props
  imports Idt Syscall_Props
begin

unbundle bit_operations_syntax

text \<open>
  Interrupts and system calls together: the table that the kernel sets up, what an interrupt with the number
  of the system calls does, and the system calls that are refused.
\<close>

section \<open>The interrupt table\<close>

text \<open>The address the processor reads from an entry of the table.\<close>

definition gate_target :: "idt_entry_t \<Rightarrow> u64" where
  "gate_target e = ucast (offset_low e) OR push_bit 16 (ucast (offset_mid e)) OR push_bit 32 (ucast (offset_high e))"

definition gate_for :: "u64 \<Rightarrow> u16 \<Rightarrow> u8 \<Rightarrow> u8 \<Rightarrow> idt_entry_t \<Rightarrow> bool" where
  "gate_for target sel flags st e \<longleftrightarrow> gate_target e = target \<and> selector e = sel \<and> type_attr e = flags \<and> ist e = st"

lemma target_split:
  "ucast (ucast (target AND 0xFFFF) :: u16) OR push_bit 16 (ucast (ucast (drop_bit 16 target AND 0xFFFF) :: u16)) OR
     push_bit 32 (ucast (ucast (drop_bit 32 target AND 0xFFFFFFFF) :: u32)) = (target :: u64)" (is "?l = _")
proof (rule bit_word_eqI)
  have m: "(0xFFFF :: u64) = mask 16" "(0xFFFFFFFF :: u64) = mask 32" by (simp_all add: mask_eq_exp_minus_1)
  fix n assume "n < LENGTH(64)"
  then consider "n < 16" | "16 \<le> n" "n < 32" | "32 \<le> n" "n < 64" by force
  then show "bit ?l n = bit target n" unfolding m by cases (auto simp: bit_simps)
qed

lemma set_gate_for:
  "unat num < length (idt t) \<Longrightarrow> gate_for target sel flags st (idt (idt_set_gate num target sel flags st t) ! unat num)"
  by (simp add: gate_for_def gate_target_def idt_set_gate_def target_split)

lemma set_gate_other: "i \<noteq> unat num \<Longrightarrow> idt (idt_set_gate num target sel flags st t) ! i = idt t ! i"
  by (simp add: idt_set_gate_def)

lemma set_gate_frame [simp]:
  "length (idt (idt_set_gate num target sel flags st t)) = length (idt t)" "handlers (idt_set_gate num target sel flags st t) = handlers t"
  by (simp_all add: idt_set_gate_def)

lemma init_loop:
  fixes isr :: "nat \<Rightarrow> addr"
  assumes "n \<le> 256" and "length (idt t) = 256" and "length (handlers t) = 256"
  defines "t' \<equiv> fold (\<lambda>i t. let st = (if i = 8 then 1 else 0); t = idt_set_gate (of_nat i) (isr i) 0x08 0x8E st t
    in t\<lparr>handlers := (handlers t)[i := None]\<rparr>) [0..<n] t"
  shows "length (idt t') = 256 \<and> length (handlers t') = 256 \<and>
    (\<forall>i<n. gate_for (isr i) 0x08 0x8E (if i = 8 then 1 else 0) (idt t' ! i) \<and> handlers t' ! i = None)"
  using assms(1) unfolding t'_def
proof (induction n)
  case (Suc n)
  let ?f = "\<lambda>i t. let st = (if i = 8 then 1 else 0); t = idt_set_gate (of_nat i) (isr i) 0x08 0x8E st t in t\<lparr>handlers := (handlers t)[i := None]\<rparr>"
  let ?t = "fold ?f [0..<n] t"
  from Suc have ih: "length (idt ?t) = 256" "length (handlers ?t) = 256"
    "\<And>i. i < n \<Longrightarrow> gate_for (isr i) 0x08 0x8E (if i = 8 then 1 else 0) (idt ?t ! i) \<and> handlers ?t ! i = None" by simp_all
  have n: "unat (of_nat n :: u8) = n" using Suc.prems by (simp add: unat_of_nat take_bit_nat_eq_self)
  have st: "fold ?f [0..<Suc n] t = ?f n ?t" by simp
  show ?case unfolding st
    using ih Suc.prems set_gate_for [of "of_nat n" ?t "isr n" "0x08" "0x8E" "if n = 8 then 1 else 0"] set_gate_other [of _ "of_nat n" "isr n" "0x08" "0x8E" _ ?t]
    by (auto simp: Let_def n less_Suc_eq nth_list_update)
qed (simp add: assms)

lemma rd64_wr64: "rd64 (wr64 p v r) p = v"
proof -
  have o: "x \<notin> region (p + 4) 4" if "x \<in> region p 4" for x
  proof -
    have "x - p < 4 \<Longrightarrow> \<not> (x - p) - 4 < 4" by (auto simp: word_less_nat_alt unat_sub_if' [of "x - p" 4])
    with that show ?thesis by (simp add: region_def diff_diff_eq)
  qed
  have "rd32 (wr64 p v r) p = rd32 (wr32 p (ucast v) r) p"
    unfolding wr64_def by (rule rd32_cong) (use o in \<open>simp add: wr32_other\<close>)
  moreover have "rd32 (wr64 p v r) (p + 4) = ucast (drop_bit 32 v)" by (simp add: wr64_def)
  ultimately have "rd64 (wr64 p v r) p = ucast (ucast v :: u32) OR push_bit 32 (ucast (ucast (drop_bit 32 v) :: u32))" by (simp add: rd64_def)
  also have "\<dots> = v" (is "?l = _")
  proof (rule bit_word_eqI)
    fix n assume "n < LENGTH(64)"
    then consider "n < 32" | "32 \<le> n" "n < 64" by force
    then show "bit ?l n = bit v n" by cases (auto simp: bit_simps)
  qed
  finally show ?thesis .
qed

text \<open>C38: After \<open>idt_init\<close> and \<open>syscall_init\<close> each of the 256 entries of the table leads to its entry code in the kernel's code segment, only the entry 0x80 may
  be used by user code, only the double fault has a stack of its own, and only 0x80 has a handler. An interrupt 0x80 then runs the
  dispatcher on the saved registers, and the program is resumed in the state the dispatcher left, with the result in its saved \<^verbatim>\<open>rax\<close> and no other byte of memory changed.\<close>

theorem syscall_interrupt:
  assumes "length (idt t) = 256" and "length (handlers t) = 256" and "m_idt m = syscall_init env isr (idt_init isr addr0 t)"
    and "syscall_dispatch env (saved_reg rsp 0 (m_sys m)) (saved_reg rsp 6 (m_sys m)) (saved_reg rsp 5 (m_sys m)) (saved_reg rsp 3 (m_sys m)) (m_sys m) =
      Ret (v, out, s)"
  shows "(\<forall>i<256. gate_for (isr i) 0x08 (if i = 0x80 then 0xEE else 0x8E) (if i = 8 then 1 else 0) (idt (m_idt m) ! i) \<and>
      (handlers (m_idt m) ! i \<noteq> None \<longleftrightarrow> i = 0x80)) \<and> idtr (m_idt m) = (4095, addr0) \<and>
    (\<exists>s'. idt_handle_interrupt regs 0x80 err rsp m = Ret (Resumed (m\<lparr>m_sys := s'\<rparr>)) \<and> s' = upd_sys_ram (wr64 rsp v) s \<and>
      fst s' = fst s \<and> saved_reg rsp 0 s' = v)"
proof -
  let ?t = "idt_init isr addr0 t"
  have i: "length (idt ?t) = 256" "length (handlers ?t) = 256" "idtr ?t = (4095, addr0)"
    "\<And>i. i < 256 \<Longrightarrow> gate_for (isr i) 0x08 0x8E (if i = 8 then 1 else 0) (idt ?t ! i)" "\<And>i. i < 256 \<Longrightarrow> handlers ?t ! i = None"
    using init_loop [OF order.refl assms(1,2), of isr] by (simp_all add: idt_init_def)
  have "gate_for (isr i) 0x08 (if i = 0x80 then 0xEE else 0x8E) (if i = 8 then 1 else 0) (idt (m_idt m) ! i) \<and>
      (handlers (m_idt m) ! i \<noteq> None \<longleftrightarrow> i = 0x80)" if "i < 256" for i
    using i(1,2) i(4,5) [OF that] set_gate_for [of "0x80" ?t "isr 0x80" "0x08" "0xEE" 0] set_gate_other [of i "0x80" "isr 0x80" "0x08" "0xEE" 0 ?t]
    by (auto simp: assms(3) syscall_init_def register_irq_handler_def idt_set_user_gate_def)
  moreover have "idtr (m_idt m) = (4095, addr0)"
    using i(3) by (simp add: assms(3) syscall_init_def register_irq_handler_def idt_set_user_gate_def idt_set_gate_def)
  moreover have "handlers (m_idt m) ! unat (0x80 :: u32) = Some (syscall_handler env)"
    using i(2) by (simp add: assms(3) syscall_init_def register_irq_handler_def idt_set_user_gate_def)
  then have "idt_handle_interrupt regs 0x80 err rsp m = Ret (Resumed (m\<lparr>m_sys := upd_sys_ram (wr64 rsp v) s\<rparr>))"
    using assms(4) by (simp add: idt_handle_interrupt_def syscall_handler_def syscall_irq_handler_def)
  moreover have "saved_reg rsp 0 (upd_sys_ram (wr64 rsp v) s) = v"
    by (simp add: saved_reg_def sys_ram_def upd_sys_ram_def rd64_wr64)
  moreover have "fst (upd_sys_ram (wr64 rsp v) s) = fst s" by (simp add: upd_sys_ram_def)
  ultimately show ?thesis by blast
qed

text \<open>A machine with the demonstration system of the system calls.\<close>

definition demo_table :: idt_state where
  "demo_table = \<lparr>idt = replicate 256 \<lparr>offset_low = 0, selector = 0, ist = 0, type_attr = 0, offset_mid = 0, offset_high = 0, idt_zero = 0\<rparr>,
     handlers = replicate 256 None, idtr = (0, 0)\<rparr>"

definition demo_machine :: machine where
  "demo_machine = \<lparr>m_sys = demo_system, m_idt = syscall_init demo_env (\<lambda>i. 0x100000 + of_nat (16 * i)) (idt_init (\<lambda>i. 0x100000 + of_nat (16 * i)) 0x5000 demo_table),
     m_panic = \<lparr>mp_info = \<lparr>has_data = False, mp_type = [], mp_message = [], mp_file = [], mp_function_name = [], mp_line = 0\<rparr>,
       panic_error_code = [], current_program = [], current_user_app = False\<rparr>\<rparr>"

definition demo_regs :: cpu_regs where
  "demo_regs = \<lparr>r_rax = 14, r_rbx = 0, r_rcx = 0, r_rdx = 0, r_rsi = 0, r_rdi = 0, r_rbp = 0, r_rsp = 0x8000, r_rflags = 0, r_cr2 = 0\<rparr>"

theorem syscall_interrupt_witness:
  "gate_target (idt (m_idt demo_machine) ! 0x80) = 0x100800 \<and> type_attr (idt (m_idt demo_machine) ! 14) = 0x8E \<and>
    (\<exists>s'. idt_handle_interrupt demo_regs 0x80 0 0x8000 demo_machine = Ret (Resumed (demo_machine\<lparr>m_sys := s'\<rparr>)) \<and> saved_reg 0x8000 0 s' = 1)"
proof -
  have s: "m_sys demo_machine = demo_system" by (simp add: demo_machine_def)
  have "saved_reg 0x8000 0 demo_system = 14"
    by (simp add: saved_reg_def demo_system_def sys_ram_def rd64_def rd32_def)
  then have d: "syscall_dispatch demo_env (saved_reg 0x8000 0 (m_sys demo_machine)) (saved_reg 0x8000 6 (m_sys demo_machine))
      (saved_reg 0x8000 5 (m_sys demo_machine)) (saved_reg 0x8000 3 (m_sys demo_machine)) (m_sys demo_machine) = Ret (1, No_out, demo_system)"
    by (simp only: s demo_getpid)
  have t: "length (idt demo_table) = 256" "length (handlers demo_table) = 256" by (simp_all add: demo_table_def)
  have m: "m_idt demo_machine = syscall_init demo_env (\<lambda>i. 0x100000 + of_nat (16 * i)) (idt_init (\<lambda>i. 0x100000 + of_nat (16 * i)) 0x5000 demo_table)"
    by (simp add: demo_machine_def)
  from syscall_interrupt [OF t m d, of demo_regs 0] show ?thesis by (auto simp: gate_for_def)
qed

end
