(* ===== verification/Vga_Props.thy ===== *)
theory Vga_Props
  imports Vga_Draw
begin

unbundle bit_operations_syntax

text \<open>
  The line drawing of \<^verbatim>\<open>kernel/vga_draw.c\<close> ends, touches nothing but the back buffer, and sets the cells of
  both end points. With \<open>a\<close> and \<open>b\<close> the numbers of steps taken in the two directions, the error term is
  \<open>(b + 1) * dx - (a + 1) * dy\<close>; it stays in a range in which the longer direction is taken in every
  round, and which leaves only the end point when that direction is used up.
\<close>

section \<open>Cells of the back buffer\<close>

definition on_screen :: "int \<Rightarrow> int \<Rightarrow> bool" where
  "on_screen x y \<longleftrightarrow> 0 \<le> x \<and> x < int VGA_DRAW_COLS \<and> 0 \<le> y \<and> y < int VGA_DRAW_ROWS"

definition cell_index :: "int \<Rightarrow> int \<Rightarrow> nat" where
  "cell_index x y = nat (y * int VGA_DRAW_COLS + x)"

lemma cell_index_bound: "on_screen x y \<Longrightarrow> cell_index x y < 2000"
  by (auto simp: on_screen_def cell_index_def VGA_DRAW_COLS_def VGA_DRAW_ROWS_def)

lemma back_cell_index: "on_screen x y \<Longrightarrow> back_cell v x y = back_buffer v + of_nat (2 * cell_index x y)"
proof -
  assume s: "on_screen x y"
  let ?k = "y * int VGA_DRAW_COLS + x"
  have k: "0 \<le> ?k" "?k < 2000" using s by (auto simp: on_screen_def VGA_DRAW_COLS_def VGA_DRAW_ROWS_def)
  have "(word_of_int y * of_nat VGA_DRAW_COLS + word_of_int x :: u32) = word_of_int ?k" by simp
  also have "\<dots> = of_nat (cell_index x y)" using k(1) by (simp add: cell_index_def)
  finally have "ucast (word_of_int y * of_nat VGA_DRAW_COLS + word_of_int x :: u32) = (of_nat (cell_index x y) :: addr)"
    using cell_index_bound [OF s] by (simp add: unsigned_of_nat take_bit_nat_eq_self)
  then show ?thesis by (simp add: back_cell_def)
qed

lemma cell_index_inj:
  assumes "on_screen x y" and "on_screen x' y'" and "cell_index x y = cell_index x' y'"
  shows "x = x' \<and> y = y'"
proof -
  have "y * 80 + x = y' * 80 + x'"
    using assms by (auto simp: on_screen_def cell_index_def VGA_DRAW_COLS_def VGA_DRAW_ROWS_def)
  moreover have "0 \<le> x" "x < 80" "0 \<le> x'" "x' < 80" using assms(1,2) by (simp_all add: on_screen_def VGA_DRAW_COLS_def)
  ultimately show ?thesis by presburger
qed

lemma of_nat_cell_eq:
  assumes "n < 4096" and "m < 4096" and "(of_nat n :: u64) = of_nat m"
  shows "n = m"
proof -
  have "unat (of_nat n :: u64) = unat (of_nat m :: u64)" by (simp only: assms(3))
  then show ?thesis using assms(1,2) by (simp only: unat_of_nat64)
qed

lemma cell_bytes_disjoint:
  assumes "i < 2000" and "j < 2000" and "i \<noteq> j"
  shows "region (p + of_nat (2 * i)) 2 \<inter> region (p + of_nat (2 * j)) 2 = {}"
proof (rule ccontr)
  assume "region (p + of_nat (2 * i)) 2 \<inter> region (p + of_nat (2 * j)) 2 \<noteq> {}"
  then obtain c d where c: "c < 2" "d < 2" "p + of_nat (2 * i) + of_nat c = p + of_nat (2 * j) + of_nat d"
    by (auto simp: in_region_iff)
  then have "(of_nat (2 * i + c) :: u64) = of_nat (2 * j + d)" by (simp add: add.assoc)
  then have "2 * i + c = 2 * j + d" using assms c(1,2) by (intro of_nat_cell_eq) linarith+
  with c assms(3) show False by presburger
qed

lemma rd16_wr16_cell:
  assumes "on_screen x y" and "on_screen x' y'"
  shows "rd16 (wr16 (back_cell v x y) c r) (back_cell v x' y') = (if x = x' \<and> y = y' then c else rd16 r (back_cell v x' y'))"
proof (cases "x = x' \<and> y = y'")
  case True
  then show ?thesis by simp
next
  case False
  with cell_index_inj [OF assms] have "cell_index x y \<noteq> cell_index x' y'" by auto
  from cell_bytes_disjoint [OF cell_index_bound [OF assms(1)] cell_index_bound [OF assms(2)] this, of "back_buffer v"]
  have "rd16 (wr16 (back_cell v x y) c r) (back_cell v x' y') = rd16 r (back_cell v x' y')"
    unfolding back_cell_index [OF assms(1)] back_cell_index [OF assms(2)] by (intro rd16_cong wr16_other) blast
  with False show ?thesis by auto
qed

lemma wr16_cell_outside:
  assumes "on_screen x y" and "p \<notin> region (back_buffer v) 4000"
  shows "wr16 (back_cell v x y) c r p = r p"
proof (rule wr16_other)
  show "p \<notin> region (back_cell v x y) 2"
  proof
    assume "p \<in> region (back_cell v x y) 2"
    then obtain d where "d < 2" "p = back_buffer v + of_nat (2 * cell_index x y + d)"
      by (auto simp: in_region_iff back_cell_index [OF assms(1)] add.assoc)
    moreover from this(1) cell_index_bound [OF assms(1)] have "2 * cell_index x y + d < 4000" by simp
    ultimately show False using assms(2) by (auto simp: in_region_iff)
  qed
qed

section \<open>The loop\<close>

text \<open>Drawing one point, and what a run of the loop keeps: bytes outside the buffer, and a cell that is set.\<close>

definition put_point :: "vga_state \<Rightarrow> u16 \<Rightarrow> int \<Rightarrow> int \<Rightarrow> ram \<Rightarrow> ram" where
  "put_point v cell x y r = (if on_screen x y then wr16 (back_cell v x y) cell r else r)"

definition keeps :: "vga_state \<Rightarrow> u16 \<Rightarrow> ram \<Rightarrow> ram \<Rightarrow> bool" where
  "keeps v cell r r' \<longleftrightarrow> (\<forall>p. p \<notin> region (back_buffer v) 4000 \<longrightarrow> r' p = r p) \<and>
     (\<forall>x y. on_screen x y \<longrightarrow> rd16 r (back_cell v x y) = cell \<longrightarrow> rd16 r' (back_cell v x y) = cell)"

lemma keeps_trans: "keeps v cell r r' \<Longrightarrow> keeps v cell r' r'' \<Longrightarrow> keeps v cell r r''"
  by (simp add: keeps_def)

lemma put_point_keeps: "keeps v cell r (put_point v cell x y r)"
  by (auto simp: keeps_def put_point_def wr16_cell_outside rd16_wr16_cell)

lemma put_point_sets: "on_screen x y \<Longrightarrow> rd16 (put_point v cell x y r) (back_cell v x y) = cell"
  by (simp add: put_point_def)

lemma i32_id: "- 2147483648 \<le> x \<Longrightarrow> x < 2147483648 \<Longrightarrow> i32 x = x"
  unfolding i32_def by (rule signed_take_bit_int_eq_self) simp_all

text \<open>While the operands are small enough, the sums of a round are exact.\<close>

definition small_round :: "int \<Rightarrow> int \<Rightarrow> int \<Rightarrow> int \<Rightarrow> int \<Rightarrow> int \<Rightarrow> int \<Rightarrow> bool" where
  "small_round dx sx dy sy x y err \<longleftrightarrow> 0 \<le> dx \<and> dx \<le> 536870912 \<and> 0 \<le> dy \<and> dy \<le> 536870912 \<and> \<bar>err\<bar> \<le> 1073741823 \<and>
     \<bar>sx\<bar> = 1 \<and> \<bar>sy\<bar> = 1 \<and> \<bar>x\<bar> < 2147483647 \<and> \<bar>y\<bar> < 2147483647"

lemma line_loop_unfold:
  assumes "small_round dx sx dy sy x0 y0 err"
  shows "line_loop v cell x1 y1 dx sx dy sy x0 y0 err r =
     (if x0 = x1 \<and> y0 = y1 then Some (put_point v cell x0 y0 r)
      else line_loop v cell x1 y1 dx sx dy sy (if - dy < err * 2 then x0 + sx else x0) (if err * 2 < dx then y0 + sy else y0)
        (err - (if - dy < err * 2 then dy else 0) + (if err * 2 < dx then dx else 0)) (put_point v cell x0 y0 r))"
proof -
  have "i32 (err * 2) = err * 2" "i32 (- dy) = - dy" "i32 (err - dy) = err - dy" "i32 (err + dx) = err + dx" "i32 (err - dy + dx) = err - dy + dx"
    "i32 (x0 + sx) = x0 + sx" "i32 (y0 + sy) = y0 + sy" using assms unfolding small_round_def by (intro i32_id; linarith)+
  then show ?thesis by (subst line_loop.simps) (auto simp: put_point_def on_screen_def Let_def)
qed

definition draws :: "vga_state \<Rightarrow> u16 \<Rightarrow> int \<Rightarrow> int \<Rightarrow> ram \<Rightarrow> ram option \<Rightarrow> bool" where
  "draws v cell x y r res \<longleftrightarrow>
     (\<exists>r'. res = Some r' \<and> keeps v cell r r' \<and> (on_screen x y \<longrightarrow> rd16 r' (back_cell v x y) = cell))"

lemma draws_point: "draws v cell x y r (Some (put_point v cell x y r))"
  by (simp add: draws_def put_point_keeps put_point_sets)

lemma draws_step: "draws v cell x y (put_point v cell x0 y0 r) res \<Longrightarrow> draws v cell x y r res"
  using keeps_trans [OF put_point_keeps] by (fastforce simp: draws_def)

text \<open>The end: with the longer direction used up, the bounds of the error leave no step in the other.\<close>

lemma steps_used_up:
  fixes d b dx dy :: int
  assumes "0 < dx" and "0 \<le> dy" and lo: "- dy < 2 * ((b + 1) * dx - (dx + 1) * dy)" and hi: "2 * ((b + 1) * dx - (dx + 1) * dy) < 3 * dx - 2 * dy"
  shows "b = dy"
proof -
  have "2 * dx * dy < 2 * dx * (b + 1)" using lo assms(2) by (simp add: algebra_simps)
  then have "dy < b + 1" using assms(1) by simp
  have "dx * (2 * (b + 1)) < dx * (3 + 2 * dy)" using hi by (simp add: algebra_simps)
  then have "2 * (b + 1) < 3 + 2 * dy" using assms(1) by (simp only: mult_less_cancel_left_pos)
  with \<open>dy < b + 1\<close> show ?thesis by presburger
qed

text \<open>The rounds of a line with end points within 2^28 cells of the origin, after at most as many steps as the longer direction has.\<close>

lemma small_roundI:
  assumes "0 \<le> dx" and "dx \<le> 536870912" and "0 \<le> dy" and "dy \<le> 536870912" and "\<bar>sx\<bar> = 1" and "\<bar>sy\<bar> = 1"
    and "\<bar>x1\<bar> \<le> 268435456" and "\<bar>y1\<bar> \<le> 268435456" and "0 \<le> a" and "a \<le> 536870912" and "0 \<le> b" and "b \<le> 536870912" and "\<bar>err\<bar> \<le> 1073741823"
  shows "small_round dx sx dy sy (x1 - sx * (dx - a)) (y1 - sy * (dy - b)) err"
proof -
  have "sx = 1 \<or> sx = - 1" "sy = 1 \<or> sy = - 1" using assms(5,6) by linarith+
  then show ?thesis using assms by (auto simp: small_round_def)
qed

text \<open>The longer direction is horizontal.\<close>

lemma line_wide:
  assumes d: "0 < dx" "0 \<le> dy" "dy \<le> dx" "dx \<le> 536870912" and sx: "\<bar>sx\<bar> = 1" "\<bar>sy\<bar> = 1"
    and end1: "\<bar>x1\<bar> \<le> 268435456" "\<bar>y1\<bar> \<le> 268435456" and a: "0 \<le> b" "b \<le> a" "a \<le> dx"
    and e: "err = (b + 1) * dx - (a + 1) * dy" "- dy < 2 * err" "2 * err < 3 * dx - 2 * dy" "dx = dy \<longrightarrow> err = 0"
  shows "draws v cell x1 y1 r (line_loop v cell x1 y1 dx sx dy sy (x1 - sx * (dx - a)) (y1 - sy * (dy - b)) err r)"
  using a e
proof (induction "nat (dx - a)" arbitrary: a b err r)
  case 0
  then have "a = dx" by simp
  with 0 d have "b = dy" by (intro steps_used_up [of dx dy b]) simp_all
  moreover have sr: "small_round dx sx dy sy (x1 - sx * (dx - a)) (y1 - sy * (dy - b)) err"
    using d 0 by (intro small_roundI sx end1) auto
  ultimately show ?case unfolding line_loop_unfold [OF sr] using \<open>a = dx\<close> by (simp add: draws_point)
next
  case (Suc n)
  let ?x = "x1 - sx * (dx - a)" and ?y = "y1 - sy * (dy - b)" and ?r = "put_point v cell (x1 - sx * (dx - a)) (y1 - sy * (dy - b)) r"
  let ?b = "if err * 2 < dx then b + 1 else b" and ?e = "err - dy + (if err * 2 < dx then dx else 0)"
  have lt: "a < dx" "n = nat (dx - (a + 1))" using Suc.hyps(2) by simp_all
  have sr: "small_round dx sx dy sy ?x ?y err" using d Suc.prems by (intro small_roundI sx end1) auto
  have "?x \<noteq> x1" using lt(1) sx by auto
  moreover have "- dy < err * 2" using Suc.prems(5) by simp
  moreover have "?x + sx = x1 - sx * (dx - (a + 1))" by (simp add: algebra_simps)
  moreover have "(if err * 2 < dx then ?y + sy else ?y) = y1 - sy * (dy - ?b)" by (simp add: algebra_simps)
  ultimately have "line_loop v cell x1 y1 dx sx dy sy ?x ?y err r =
      line_loop v cell x1 y1 dx sx dy sy (x1 - sx * (dx - (a + 1))) (y1 - sy * (dy - ?b)) ?e ?r"
    unfolding line_loop_unfold [OF sr] by (simp only: if_True if_False simp_thms)
  moreover have "draws v cell x1 y1 ?r (line_loop v cell x1 y1 dx sx dy sy (x1 - sx * (dx - (a + 1))) (y1 - sy * (dy - ?b)) ?e ?r)"
  proof (rule Suc.hyps(1) [OF lt(2)])
    show "a + 1 \<le> dx" "0 \<le> ?b" "?b \<le> a + 1" using lt(1) Suc.prems(1,2) by simp_all
    show "?e = (?b + 1) * dx - (a + 1 + 1) * dy" using Suc.prems(4) by (simp add: algebra_simps)
    show "- dy < 2 * ?e" "2 * ?e < 3 * dx - 2 * dy" "dx = dy \<longrightarrow> ?e = 0" using Suc.prems(5-7) d by auto
  qed
  ultimately show ?case by (simp only: draws_step)
qed

text \<open>The longer direction is vertical; the same with the directions and the sign of the error exchanged.\<close>

lemma line_tall:
  assumes d: "0 \<le> dx" "dx < dy" "dy \<le> 536870912" and sy: "\<bar>sx\<bar> = 1" "\<bar>sy\<bar> = 1"
    and end1: "\<bar>x1\<bar> \<le> 268435456" "\<bar>y1\<bar> \<le> 268435456" and b: "0 \<le> a" "a \<le> b" "b \<le> dy"
    and e: "err = (b + 1) * dx - (a + 1) * dy" "2 * err < dx" "2 * dx - 3 * dy < 2 * err"
  shows "draws v cell x1 y1 r (line_loop v cell x1 y1 dx sx dy sy (x1 - sx * (dx - a)) (y1 - sy * (dy - b)) err r)"
  using b e
proof (induction "nat (dy - b)" arbitrary: a b err r)
  case 0
  then have "b = dy" by simp
  with 0 d have "a = dx" by (intro steps_used_up [of dy dx a]) (simp_all add: algebra_simps)
  moreover have sr: "small_round dx sx dy sy (x1 - sx * (dx - a)) (y1 - sy * (dy - b)) err"
    using d 0 by (intro small_roundI sy end1) auto
  ultimately show ?case unfolding line_loop_unfold [OF sr] using \<open>b = dy\<close> by (simp add: draws_point)
next
  case (Suc n)
  let ?x = "x1 - sx * (dx - a)" and ?y = "y1 - sy * (dy - b)" and ?r = "put_point v cell (x1 - sx * (dx - a)) (y1 - sy * (dy - b)) r"
  let ?a = "if - dy < err * 2 then a + 1 else a" and ?e = "err - (if - dy < err * 2 then dy else 0) + dx"
  have lt: "b < dy" "n = nat (dy - (b + 1))" using Suc.hyps(2) by simp_all
  have sr: "small_round dx sx dy sy ?x ?y err" using d Suc.prems by (intro small_roundI sy end1) auto
  have "?y \<noteq> y1" using lt(1) sy by auto
  moreover have "err * 2 < dx" using Suc.prems(5) by simp
  moreover have "?y + sy = y1 - sy * (dy - (b + 1))" by (simp add: algebra_simps)
  moreover have "(if - dy < err * 2 then ?x + sx else ?x) = x1 - sx * (dx - ?a)" by (simp add: algebra_simps)
  ultimately have "line_loop v cell x1 y1 dx sx dy sy ?x ?y err r =
      line_loop v cell x1 y1 dx sx dy sy (x1 - sx * (dx - ?a)) (y1 - sy * (dy - (b + 1))) ?e ?r"
    unfolding line_loop_unfold [OF sr] by (simp only: if_True if_False simp_thms)
  moreover have "draws v cell x1 y1 ?r (line_loop v cell x1 y1 dx sx dy sy (x1 - sx * (dx - ?a)) (y1 - sy * (dy - (b + 1))) ?e ?r)"
  proof (rule Suc.hyps(1) [OF lt(2)])
    show "b + 1 \<le> dy" "0 \<le> ?a" "?a \<le> b + 1" using lt(1) Suc.prems(1,2) by simp_all
    show "?e = (b + 1 + 1) * dx - (?a + 1) * dy" using Suc.prems(4) by (simp add: algebra_simps)
    show "2 * ?e < dx" "2 * dx - 3 * dy < 2 * ?e" using Suc.prems(5,6) d by auto
  qed
  ultimately show ?case by (simp only: draws_step)
qed

lemma line_loop_first: "line_loop v cell x1 y1 dx sx dy sy x0 y0 err r = line_loop v cell x1 y1 dx sx dy sy x0 y0 err (put_point v cell x0 y0 r)"
proof -
  have "put_point v cell x0 y0 (put_point v cell x0 y0 r) = put_point v cell x0 y0 r"
    by (auto simp: put_point_def wr16_def fun_eq_iff)
  then show ?thesis
    by (subst (1 2) line_loop.simps) (simp only: put_point_def on_screen_def Let_def)
qed

lemma line_loop_draws:
  assumes "dx = \<bar>x1 - x0\<bar>" and "dy = \<bar>y1 - y0\<bar>"
    and "x0 = x1 - sx * dx" and "y0 = y1 - sy * dy" and s: "\<bar>sx\<bar> = 1" "\<bar>sy\<bar> = 1"
    and near: "\<bar>x0\<bar> \<le> 268435456" "\<bar>y0\<bar> \<le> 268435456" "\<bar>x1\<bar> \<le> 268435456" "\<bar>y1\<bar> \<le> 268435456"
  shows "draws v cell x1 y1 r (line_loop v cell x1 y1 dx sx dy sy x0 y0 (dx - dy) r)"
proof -
  have d: "0 \<le> dx" "0 \<le> dy" "dx \<le> 536870912" "dy \<le> 536870912" using assms(1,2) near by auto
  have start: "x0 = x1 - sx * (dx - 0)" "y0 = y1 - sy * (dy - 0)" using assms(3,4) by simp_all
  consider "dx = 0" "dy = 0" | "0 < dx" "dy \<le> dx" | "dx < dy" using d by linarith
  then show ?thesis
  proof cases
    case 1
    then have sr: "small_round dx sx dy sy x0 y0 (dx - dy)" using near s by (auto simp: small_round_def)
    show ?thesis unfolding line_loop_unfold [OF sr] using 1 assms(3,4) by (simp add: draws_point)
  next
    case 2
    then show ?thesis unfolding start using d by (intro line_wide s near) auto
  next
    case 3
    then show ?thesis unfolding start using d by (intro line_tall s near) auto
  qed
qed

text \<open>C28: Drawing a line between end points within 2^28 cells of the origin, whether they are on the screen or not, ends;
  within this bound no sum or product of the loop leaves the range of \<open>int32_t\<close>. It changes no byte outside the back buffer, and
  the cells of both end points, where they are on the screen, hold the character and the attribute afterwards.\<close>

theorem vga_draw_line_ends:
  assumes "vga_active v" and near: "\<bar>x0\<bar> \<le> 2 ^ 28" "\<bar>y0\<bar> \<le> 2 ^ 28" "\<bar>x1\<bar> \<le> 2 ^ 28" "\<bar>y1\<bar> \<le> 2 ^ 28"
  shows "\<exists>r'. vga_draw_line v x0 y0 x1 y1 ch attr r = Some r' \<and>
    (\<forall>p. p \<notin> region (back_buffer v) 4000 \<longrightarrow> r' p = r p) \<and>
    (\<forall>(x, y)\<in>{(x0, y0), (x1, y1)}. on_screen x y \<longrightarrow> rd16 r' (back_cell v x y) = pack_cell ch attr)"
proof -
  let ?cell = "pack_cell ch attr" and ?r = "put_point v (pack_cell ch attr) x0 y0 r"
  let ?dx = "\<bar>x1 - x0\<bar>" and ?dy = "\<bar>y1 - y0\<bar>" and ?sx = "if x0 < x1 then 1 else - 1 :: int" and ?sy = "if y0 < y1 then 1 else - 1 :: int"
  have abs: "(if x0 < x1 then i32 (x1 - x0) else i32 (x0 - x1)) = ?dx" "(if y0 < y1 then i32 (y1 - y0) else i32 (y0 - y1)) = ?dy"
    "i32 (?dx - ?dy) = ?dx - ?dy" using near by (auto simp: i32_id)
  have "vga_draw_line v x0 y0 x1 y1 ch attr r = line_loop v ?cell x1 y1 ?dx ?sx ?dy ?sy x0 y0 (?dx - ?dy) r"
    using assms(1) unfolding vga_draw_line_def Let_def abs by simp
  also have "\<dots> = line_loop v ?cell x1 y1 ?dx ?sx ?dy ?sy x0 y0 (?dx - ?dy) ?r" by (rule line_loop_first)
  finally have eq: "vga_draw_line v x0 y0 x1 y1 ch attr r = line_loop v ?cell x1 y1 ?dx ?sx ?dy ?sy x0 y0 (?dx - ?dy) ?r" .
  have "draws v ?cell x1 y1 ?r (line_loop v ?cell x1 y1 ?dx ?sx ?dy ?sy x0 y0 (?dx - ?dy) ?r)"
    by (rule line_loop_draws) (use near in auto)
  then obtain r' where r': "vga_draw_line v x0 y0 x1 y1 ch attr r = Some r'" "keeps v ?cell ?r r'"
    "on_screen x1 y1 \<longrightarrow> rd16 r' (back_cell v x1 y1) = ?cell" unfolding eq draws_def by blast
  have "rd16 r' (back_cell v x0 y0) = ?cell" if "on_screen x0 y0"
    using r'(2) put_point_sets [OF that, of v ?cell r] that by (auto simp: keeps_def)
  moreover have "r' p = r p" if "p \<notin> region (back_buffer v) 4000" for p
    using keeps_trans [OF put_point_keeps r'(2)] that by (simp add: keeps_def)
  ultimately show ?thesis using r'(1,3) by auto
qed

definition demo_vga :: vga_state where
  "demo_vga = \<lparr>back_buffer = 0x1000, prev_buffer = 0x2000, vga_active = True, initialised = True, prev_valid = False,
     prev_cols = 0, prev_rows = 0, front_buffer = 0xB8000\<rparr>"

theorem vga_draw_line_ends_witness:
  "\<exists>r'. vga_draw_line demo_vga 3 2 10 90 (CHR ''x'') 7 (\<lambda>_. 0) = Some r' \<and> r' 0x9000 = 0 \<and>
     rd16 r' (back_cell demo_vga 3 2) = pack_cell (CHR ''x'') 7"
proof -
  have "vga_active demo_vga" by (simp add: demo_vga_def)
  from vga_draw_line_ends [OF this, of 3 2 10 90 "CHR ''x''" 7 "\<lambda>_. 0"] obtain r' where
    "vga_draw_line demo_vga 3 2 10 90 (CHR ''x'') 7 (\<lambda>_. 0) = Some r'" "\<forall>p. p \<notin> region 0x1000 4000 \<longrightarrow> r' p = 0"
    "on_screen 3 2 \<longrightarrow> rd16 r' (back_cell demo_vga 3 2) = pack_cell (CHR ''x'') 7" by (auto simp: demo_vga_def)
  moreover have "0x9000 \<notin> region (0x1000 :: addr) 4000" by (simp add: region_def)
  ultimately show ?thesis by (auto simp: on_screen_def VGA_DRAW_COLS_def VGA_DRAW_ROWS_def)
qed

end
