(* ===== verification/Boot_Props.thy ===== *)
theory Boot_Props
  imports Boot Console_Frame Mem_Apps Idt_Props Vga_Props
begin

unbundle bit_operations_syntax

text \<open>
  What the boot sequence establishes: with the memory stage behind it, the kernel heap represents an allocator whose only
  live pointer is the buffer of the log, and the interrupt table is set up for the system calls.
\<close>

section \<open>Sequences of boot steps\<close>

lemma steps_append: "steps (fs @ gs) = (\<lambda>b. bind_outcome (steps fs b) (steps gs))"
  by (induction fs) (auto simp: bind_outcome_assoc)

text \<open>The heap of the machine up to the contents of RAM, the log buffer, and the interrupt table.\<close>

definition boot_view :: "booting \<Rightarrow> mem_state \<times> addr \<times> idt_state" where
  "boot_view b = ((kmem (snd (b_sys b)))\<lparr>mem_ram := (\<lambda>_. 0)\<rparr>, log_buf (con_of b), b_idt b)"

text \<open>A step that returns on a live serial line and changes none of these.\<close>

definition quiet :: "boot_step \<Rightarrow> bool" where
  "quiet f \<longleftrightarrow> (\<forall>b. serial_live (con_of b) \<longrightarrow> (\<exists>b'. f b = Ret b' \<and> serial_live (con_of b') \<and> boot_view b' = boot_view b))"

lemma quiet_con:
  assumes "ram_only f" and "\<And>c. serial_live c \<Longrightarrow> alive (f c)"
  shows "quiet (on_con f)"
  unfolding quiet_def
proof (intro allI impI)
  fix b assume b: "serial_live (con_of b)"
  let ?c = "(con_of b)\<lparr>cmem := kmem (snd (b_sys b))\<rparr>"
  have "serial_live ?c" using b by (rule serial_line.cong) (simp add: con_view_def)
  with assms(2) obtain c' where c': "f ?c = Some c'" "serial_live c'" by (auto simp: alive_def)
  have "heap_view c' = heap_view ?c" by (rule ram_onlyD [OF assms(1) c'(1)])
  then show "\<exists>b'. on_con f b = Ret b' \<and> serial_live (con_of b') \<and> boot_view b' = boot_view b"
    using c' by (simp add: on_con_def run_console_def on_console_def con_of_def split_beta boot_view_def heap_view_def)
qed

lemma quiet_steps: "list_all quiet fs \<Longrightarrow> quiet (steps fs)"
  by (induction fs) (fastforce simp: quiet_def)+

lemma list_all_con: "(\<And>f. f \<in> set fs \<Longrightarrow> quiet (on_con f)) \<Longrightarrow> list_all quiet (map on_con fs)"
  by (simp add: list_all_iff)

section \<open>The memory stage\<close>

lemma mem_init_rep:
  assumes "swap_space s \<noteq> 0" and "unat (swap_space s) + 65536 \<le> unat hs" and "0 < unat n"
    and "unat hs + unat n < 2 ^ 63" and "unat hs + 8 * 1024 * 1024 < 2 ^ 63"
  shows "mem_rep (mem_init hs n s) Map.empty"
  unfolding mem_rep_def using mem_init_inv [OF assms] by (intro exI [of _ "{}"] exI [of _ "[]"]) (simp add: live_map_def fun_eq_iff)

lemma start_log_ok:
  assumes live: "serial_live (con_of b)" and rep: "mem_rep (fst (boot_view b)) Map.empty"
  shows "\<exists>b' L. start_log b = Ret b' \<and> serial_live (con_of b') \<and> b_idt b' = b_idt b \<and> mem_rep (fst (boot_view b')) L \<and>
    dom L \<subseteq> {log_buf (con_of b')} \<and> vram_locks (fst (boot_view b')) = vram_locks (fst (boot_view b))"
proof -
  obtain w k where wk: "b_sys b = (w, k)" by fastforce
  have "unat (64 * 1024 :: u64) \<le> 2 ^ 62" "mem_rep (kmem k) Map.empty" using rep by (simp_all add: boot_view_def wk mem_rep_set_ram)
  from kheap.alloc_law [OF this(2,1)] obtain p m where a: "mem_alloc (64 * 1024) (kmem k) = Ret (p, m)"
    and r: "if p = 0 then mem_rep m Map.empty else \<exists>n. 64 * 1024 \<le> n \<and> Map.empty p = (None :: u64 option) \<and> mem_rep m [p \<mapsto> n]" by blast
  obtain L where L: "mem_rep m L" "dom L \<subseteq> {p}"
  proof (cases "p = 0")
    case False
    then obtain n where "mem_rep m [p \<mapsto> n]" using r by auto
    then show ?thesis by (rule that) simp
  qed (use r that [of Map.empty] in simp)
  define c0 where "c0 = (s_con w)\<lparr>cmem := kmem k\<rparr>\<lparr>log_size := 64 * 1024\<rparr>"
  define c1 where "c1 = c0\<lparr>cmem := m, log_buf := p\<rparr>"
  define c where "c = (if log_buf c1 = 0 then c1\<lparr>log_size := 0\<rparr> else c1)\<lparr>log_pos := 0\<rparr>"
  define fs where "fs = fs_mount (log_buf c) (log_size c) ((s_fs w)\<lparr>fs_out := []\<rparr>) (cram c)"
  have f: "cbuf c = cbuf (s_con w)" "line_len c = line_len (s_con w)" "chead c = chead (s_con w)" "ccount c = ccount (s_con w)" "cur_line c = cur_line (s_con w)"
    "cur_col c = cur_col (s_con w)" "cview c = cview (s_con w)" "pending_input c = pending_input (s_con w)" "pending_len c = pending_len (s_con w)"
    "pending_pos c = pending_pos (s_con w)" "chw c = chw (s_con w)" "slot c = slot (s_con w)"
    by (simp_all add: c_def c1_def c0_def slot_def fun_eq_iff)
  have "serial_live c" using live unfolding serial_live_def console_ok_def f con_of_def wk fst_conv .
  then obtain c' where c': "run_con (fs_out fs) c = Some c'" "serial_live c'" using run_con_live by (auto simp: alive_def)
  have "heap_view c' = heap_view c" by (rule ram_onlyD [OF run_con_heap c'(1)])
  then have h: "(cmem c')\<lparr>mem_ram := (\<lambda>_. 0)\<rparr> = m\<lparr>mem_ram := (\<lambda>_. 0)\<rparr>" "log_buf c' = p" by (simp_all add: heap_view_def c_def c1_def c0_def)
  define c2 where "c2 = c'\<lparr>log_start := fst (io_rdtsc (chw c')), chw := snd (io_rdtsc (chw c'))\<rparr>"
  define b' where "b' = b\<lparr>b_sys := (w\<lparr>s_con := c2, s_fs := fs\<rparr>, k\<lparr>kmem := cmem c2\<rparr>)\<rparr>"
  have "mem_alloc (log_size c0) (cmem c0) = Ret (p, m)" using a by (simp add: c0_def)
  then have "debuglog_init (s_fs w) ((s_con w)\<lparr>cmem := kmem k\<rparr>) = Ret (fs, c2)"
    unfolding debuglog_init_def Let_def c0_def [symmetric]
    by (simp only: bind_outcome_simps prod.case fst_conv snd_conv c1_def [symmetric] c_def [symmetric] fs_def [symmetric] c'(1) of_option_simps split_beta c2_def)
  then have "start_log b = Ret b'" by (simp add: start_log_def wk b'_def)
  moreover have "serial_live (con_of b')"
    using c'(2) by (simp add: b'_def con_of_def c2_def) (erule serial_line.cong, simp add: con_view_def io_rdtsc_def)
  moreover have "b_idt b' = b_idt b" "fst (boot_view b') = m\<lparr>mem_ram := (\<lambda>_. 0)\<rparr>" "log_buf (con_of b') = p"
    using h by (simp_all add: b'_def boot_view_def con_of_def c2_def)
  moreover have "vram_locks m = vram_locks (kmem k)" by (rule mem_alloc_apps(2) [OF a])
  ultimately show ?thesis using L by (intro exI [of _ b'] exI [of _ L]) (simp add: mem_rep_set_ram boot_view_def wk)
qed

lemma quiet_then:
  assumes "quiet f" and "serial_live (con_of b)"
  obtains b' where "f b = Ret b'" and "serial_live (con_of b')" and "boot_view b' = boot_view b"
  using assms unfolding quiet_def by blast

text \<open>The stage with quiet steps between its three initialisations.\<close>

lemma memory_stage:
  assumes quiet: "list_all quiet fs1" "list_all quiet fs2" "list_all quiet fs3" "list_all quiet fs4"
    and live: "serial_live (con_of b)" and swap: "swap_space (kmem (snd (b_sys b))) \<noteq> 0"
    "unat (swap_space (kmem (snd (b_sys b)))) + 65536 \<le> unat (k_end (e_sys env))" and top: "unat (k_end (e_sys env)) + 8 * 1024 * 1024 < 2 ^ 63"
  shows "\<exists>b'. steps (fs1 @ [start_heap env] @ fs2 @ [start_interrupts env] @ fs3 @ [start_log] @ fs4) b = Ret b' \<and> serial_live (con_of b') \<and>
    b_idt b' = syscall_init (e_sys env) (e_stubs env) (idt_init (e_stubs env) (e_idt env) (b_idt b)) \<and>
    (\<exists>L. mem_rep (kmem (snd (b_sys b'))) L \<and> dom L \<subseteq> {log_buf (con_of b')}) \<and>
    vram_locks (kmem (snd (b_sys b'))) = replicate 4 \<lparr>owner = None, locks = 0\<rparr>"
proof -
  note q = quiet [THEN quiet_steps]
  obtain b1 where b1: "steps fs1 b = Ret b1" "serial_live (con_of b1)" "boot_view b1 = boot_view b" by (rule quiet_then [OF q(1) live])
  define b2 where "b2 = b1\<lparr>b_sys := upd_kmem (b_sys b1) (mem_init (k_end (e_sys env)) EXOCORE_KERNEL_HEAP_SIZE (kmem (snd (b_sys b1))))\<rparr>"
  have "swap_space (kmem (snd (b_sys b1))) = swap_space (kmem (snd (b_sys b)))"
    using arg_cong [OF b1(3), of "\<lambda>v. swap_space (fst v)"] by (simp add: boot_view_def)
  then have "mem_rep (kmem (snd (b_sys b2))) Map.empty"
    using mem_init_rep [of "kmem (snd (b_sys b1))" "k_end (e_sys env)" EXOCORE_KERNEL_HEAP_SIZE] swap top
    by (simp add: b2_def upd_kmem_def EXOCORE_KERNEL_HEAP_SIZE_def)
  then have rep: "mem_rep (fst (boot_view b2)) Map.empty" by (simp add: boot_view_def mem_rep_set_ram)
  have locks: "vram_locks (fst (boot_view b2)) = replicate 4 \<lparr>owner = None, locks = 0\<rparr>"
    by (simp add: b2_def boot_view_def upd_kmem_def mem_init_def Let_def mem_vram_init_def)
  have "serial_live (con_of b2)" using b1(2) by (simp add: b2_def con_of_def upd_kmem_def)
  then obtain b3 where b3: "steps fs2 b2 = Ret b3" "serial_live (con_of b3)" "boot_view b3 = boot_view b2" by (rule quiet_then [OF q(2)])
  define b4 where "b4 = b3\<lparr>b_idt := syscall_init (e_sys env) (e_stubs env) (idt_init (e_stubs env) (e_idt env) (b_idt b3))\<rparr>"
  have "serial_live (con_of b4)" using b3(2) by (simp add: b4_def con_of_def)
  then obtain b5 where b5: "steps fs3 b4 = Ret b5" "serial_live (con_of b5)" "boot_view b5 = boot_view b4" by (rule quiet_then [OF q(3)])
  have "fst (boot_view b5) = fst (boot_view b2)" using b3(3) b5(3) by (simp add: b4_def boot_view_def)
  with start_log_ok [OF b5(2)] rep locks obtain b6 L where b6: "start_log b5 = Ret b6" "serial_live (con_of b6)" "b_idt b6 = b_idt b5"
    "mem_rep (fst (boot_view b6)) L" "dom L \<subseteq> {log_buf (con_of b6)}" "vram_locks (fst (boot_view b6)) = replicate 4 \<lparr>owner = None, locks = 0\<rparr>" by auto
  obtain b' where b': "steps fs4 b6 = Ret b'" "serial_live (con_of b')" "boot_view b' = boot_view b6" by (rule quiet_then [OF q(4) b6(2)])
  have "b_idt b3 = b_idt b" "b_idt b' = b_idt b4" "log_buf (con_of b') = log_buf (con_of b6)"
    using b1(3) b3(3) b5(3) b6(3) b'(3) by (simp_all add: boot_view_def b2_def)
  moreover have "mem_rep (kmem (snd (b_sys b'))) L" using b6(4) b'(3) by (metis boot_view_def fst_conv mem_rep_set_ram)
  moreover have "vram_locks (kmem (snd (b_sys b'))) = replicate 4 \<lparr>owner = None, locks = 0\<rparr>"
    using b6(6) unfolding b'(3) [symmetric] by (simp add: boot_view_def)
  moreover have "steps (fs1 @ [start_heap env] @ fs2 @ [start_interrupts env] @ fs3 @ [start_log] @ fs4) b = Ret b'"
    using b1(1) b3(1) b5(1) b6(1) b'(1) by (simp add: steps_append start_heap_def start_interrupts_def b2_def [symmetric] b4_def [symmetric])
  ultimately show ?thesis using b6(5) b'(2) by (auto simp: b4_def)
qed

lemma quiet_prints:
  "quiet (on_con debuglog_print_timestamp)" "quiet (on_con (console_puts s))" "quiet (on_con (console_putc ch))"
  "quiet (on_con (console_udec n))" "quiet (on_con (console_uhex x))"
  by (rule quiet_con; rule heap_kept con_live; assumption?)+

lemma quiet_asks:
  "quiet (on_con (\<lambda>c. console_puts (f c) c))" "quiet (on_con (\<lambda>c. console_udec (n c) c))" "quiet (on_con (\<lambda>c. console_uhex (g c) c))"
  by (rule quiet_con; auto simp: ram_only_def dest: ram_onlyD [OF puts_heap] ram_onlyD [OF number_heap(1)] ram_onlyD [OF number_heap(2)] intro: con_live)+

lemma quiet_dumps: "quiet (on_con (\<lambda>c. debuglog_memdump (f c) 64 c))"
  by (rule quiet_con) (auto simp: ram_only_def dest: ram_onlyD [OF memdump_heap] intro: memdump_live)

lemma quiet_header: "list_all quiet (map on_con (debug_header env i))"
  by (simp add: debug_header_def quiet_prints quiet_asks split_beta)

text \<open>The memory stage is three initialisations with reports between them, which are made in debug mode only.\<close>

lemma boot_memory_stages:
  obtains fs1 fs2 fs3 fs4 where "list_all quiet fs1" and "list_all quiet fs2" and "list_all quiet fs3" and "list_all quiet fs4"
    and "boot_memory env b = steps (fs1 @ [start_heap env] @ fs2 @ [start_interrupts env] @ fs3 @ [start_log] @ fs4) b"
proof (cases "debugging b")
  case True
  show ?thesis
    by (rule that [of "[on_con debuglog_print_timestamp] @ map on_con (debug_header env (g_mbi b)) @ [on_con debuglog_print_timestamp]"
          "[on_con (debuglog_memdump (k_end (e_sys env)) 64), on_con (console_puts (Some ''heap_end=0x'')),
            on_con (console_uhex (k_end (e_sys env) + EXOCORE_KERNEL_HEAP_MAX_SIZE)), on_con (console_putc (CHR 0x0A))]"
          "[on_con debuglog_print_timestamp, on_con (console_puts (Some (with_newline ''IDT initialized''))), on_con (debuglog_memdump (e_idt_init env) 64)]"
          "[on_con debuglog_print_timestamp, on_con (console_puts (Some (with_newline ''Debug log ready''))), on_con (\<lambda>c. debuglog_memdump (debuglog_buffer c) 64 c)]"])
      (simp_all add: quiet_prints quiet_dumps quiet_header boot_memory_def True)
next
  case False
  show ?thesis by (rule that [of "[]" "[]" "[]" "[]"]) (simp_all add: boot_memory_def False)
qed

lemma fresh_locks: "vram_locks s = replicate 4 \<lparr>owner = None, locks = 0\<rparr> \<Longrightarrow> vram_held tag s = 0"
  by (simp add: vram_held_def find_vram_slot_def split: option.split)

section \<open>What the entry refuses\<close>

lemma quiet_dbg: "quiet (on_con f) \<Longrightarrow> quiet (dbg f)"
  by (fastforce simp: quiet_def dbg_def only_if_def)

lemma quiet_boot_options: "quiet (upd_con (\<lambda>c. c\<lparr>cboot := f (cboot c)\<rparr>))"
  unfolding upd_con_def
  by (rule quiet_con) (auto simp: heap_view_def con_view_def intro!: heap_kept alive_Some elim!: serial_line.cong)

lemma quiet_serial_init: "quiet (on_con serial_init)"
proof (rule quiet_con)
  have h: "port_in (fold (\<lambda>(port, v). io_outb port v) hs x) = port_in x" for hs x
    by (induction hs arbitrary: x) (auto simp: io_outb_def)
  show "ram_only serial_init"
    unfolding ram_only_def
  proof (intro allI impI)
    fix c c' assume "serial_init c = Some c'"
    then obtain x c1 where c1: "debuglog_print_timestamp (c\<lparr>chw := x\<rparr>) = Some c1" "serial_write (''serial_init complete'' @ [CHR 0x0A]) c1 = Some c'"
      unfolding serial_init_def Let_def bind_eq_Some_conv by blast
    show "heap_view c' = heap_view c" using ram_onlyD [OF timestamp_heap c1(1)] ram_onlyD [OF serial_write_heap c1(2)] by simp
  qed
  show "alive (serial_init c)" if "serial_live c" for c
    unfolding serial_init_def Let_def by (intro con_live serial_line.hw_keeps that h)
qed

text \<open>
  Without the number of the boot loader or without its information the kernel stops before it touches the heap,
  whatever it prints.
\<close>

lemma kernel_main_refuses:
  assumes "serial_live (con_of b)"
  shows "magic \<noteq> MULTIBOOT_BOOTLOADER_MAGIC \<Longrightarrow> kernel_main env magic mbi b = Panic ''Invalid multiboot magic''"
    and "kernel_main env MULTIBOOT_BOOTLOADER_MAGIC 0 b = Panic ''Missing multiboot info''"
proof -
  let ?fs = "[upd_con (\<lambda>c. c\<lparr>cboot := bootmode_init (cboot c)\<rparr>), on_con debuglog_print_timestamp, dbg (console_puts (Some (with_newline ''kernel_main start''))),
    on_con serial_init, on_con debuglog_print_timestamp, dbg (console_puts (Some (with_newline ''serial_init done'')))]"
  have "list_all quiet ?fs" by (simp add: quiet_boot_options quiet_prints quiet_serial_init quiet_dbg)
  then obtain b' where b': "steps ?fs b = Ret b'" using assms by (rule quiet_then [OF quiet_steps])
  have "boot_consoles env magic mbi b = Panic ''Invalid multiboot magic''" if "magic \<noteq> MULTIBOOT_BOOTLOADER_MAGIC"
    unfolding boot_consoles_def b' using that by (simp only: bind_outcome_simps simp_thms if_True)
  then show "magic \<noteq> MULTIBOOT_BOOTLOADER_MAGIC \<Longrightarrow> kernel_main env magic mbi b = Panic ''Invalid multiboot magic''"
    by (simp add: kernel_main_def boot_early_def)
  have "boot_consoles env MULTIBOOT_BOOTLOADER_MAGIC 0 b = Panic ''Missing multiboot info''"
    unfolding boot_consoles_def b' by (simp only: bind_outcome_simps simp_thms if_True if_False)
  then show "kernel_main env MULTIBOOT_BOOTLOADER_MAGIC 0 b = Panic ''Missing multiboot info''"
    by (simp add: kernel_main_def boot_early_def)
qed

section \<open>What the memory stage leaves\<close>

text \<open>C30: the memory stage of the boot returns, in debug mode or not, whatever it prints on the way, as long as the serial
  line keeps getting ready. The heap is then valid with no live pointer but the buffer of the log, the
  interrupt table is the one the initialisations of the interrupts and of the system calls leave, and no
  one holds a lock of the video memory, also those who took one before.\<close>

theorem boot_memory_ready:
  assumes "serial_live (con_of b)" and "swap_space (kmem (snd (b_sys b))) \<noteq> 0"
    and "unat (swap_space (kmem (snd (b_sys b)))) + 65536 \<le> unat (k_end (e_sys env))" and "unat (k_end (e_sys env)) + 8 * 1024 * 1024 < 2 ^ 63"
  shows "\<exists>b'. boot_memory env b = Ret b' \<and> serial_live (con_of b') \<and>
    b_idt b' = syscall_init (e_sys env) (e_stubs env) (idt_init (e_stubs env) (e_idt env) (b_idt b)) \<and>
    (\<exists>L. mem_rep (kmem (snd (b_sys b'))) L \<and> dom L \<subseteq> {log_buf (con_of b')}) \<and>
    (\<forall>tag. vram_held tag (kmem (snd (b_sys b'))) = 0)"
proof -
  obtain fs1 fs2 fs3 fs4 where fs: "list_all quiet fs1" "list_all quiet fs2" "list_all quiet fs3" "list_all quiet fs4"
    and m: "boot_memory env b = steps (fs1 @ [start_heap env] @ fs2 @ [start_interrupts env] @ fs3 @ [start_log] @ fs4) b"
    by (rule boot_memory_stages)
  show ?thesis unfolding m using memory_stage [OF fs assms] fresh_locks by metis
qed

definition demo_booting :: booting where
  "demo_booting = \<lparr>b_sys = (fst demo_system\<lparr>s_con := demo_console\<lparr>debug_mode := True\<rparr>\<rparr>,
       snd demo_system\<lparr>kmem := boot_heap\<lparr>vram_locks := [\<lparr>owner = Some ''console'', locks = 1\<rparr>]\<rparr>\<rparr>), b_idt = demo_table, b_vga = demo_vga,
     b_logo = \<lparr>logo_x = 0, logo_y = 0, logo_w = 0, logo_h = 0, last_progress_percent = 0, logo_position_valid = False\<rparr>,
     b_opts = \<lparr>userland_mode = False, mp_vga_output = True, vga_console_enabled = True\<rparr>,
     b_panic = \<lparr>mp_info = \<lparr>has_data = False, mp_type = [], mp_message = [], mp_file = [], mp_function_name = [], mp_line = 0\<rparr>, panic_error_code = [],
       current_program = ''kernel'', current_user_app = False\<rparr>, g_mbi = 0x10000\<rparr>"

definition demo_boot_env :: boot_env where
  "demo_boot_env = \<lparr>e_sys = demo_env, e_embedded = \<lparr>embedded_launchd_elf = 0, embedded_launchd_elf_len = 0, embedded_launchd_cfg = 0,
       embedded_launchd_cfg_len = 0, embedded_shelld_elf = 0, embedded_shelld_elf_len = 0\<rparr>,
     e_test = \<lparr>t_img = 0x81000, t_image = 0x180000, t_fat_payload = 0x82000, t_fat_out = 0x82100, t_vfs_payload = 0x82000, t_vfs_buf = 0x82100, t_bad = 0x82000,
       t_magic = 0x82100, t_elf = 0x82000, t_text = 0x82000, t_proc_out = 0x82100\<rparr>, e_logo = 0, e_logo_len = 0, e_map_span = \<lambda>_ _ r. r,
     e_stubs = \<lambda>i. 0x100000 + of_nat (16 * i), e_idt = 0x5000, e_idt_init = 0x6000, e_rsp = 0x90000, e_copy_buffer = 0x7000, e_mp_init = Ret, e_mp_deinit = Ret\<rparr>"

theorem boot_memory_ready_witness:
  "\<exists>b'. boot_memory demo_boot_env demo_booting = Ret b' \<and> vram_held ''console'' (kmem (snd (b_sys demo_booting))) = 1 \<and>
     vram_held ''console'' (kmem (snd (b_sys b'))) = 0 \<and> (\<exists>L. mem_rep (kmem (snd (b_sys b'))) L \<and> dom L \<subseteq> {log_buf (con_of b')})"
proof -
  have "serial_live (con_of demo_booting)"
    using demo_console_live by (rule serial_line.cong) (simp add: con_of_def demo_booting_def con_view_def)
  moreover have "swap_space (kmem (snd (b_sys demo_booting))) \<noteq> 0"
    "unat (swap_space (kmem (snd (b_sys demo_booting)))) + 65536 \<le> unat (k_end (e_sys demo_boot_env))" "unat (k_end (e_sys demo_boot_env)) + 8 * 1024 * 1024 < 2 ^ 63"
    by (simp_all add: demo_booting_def demo_boot_env_def demo_env_def boot_heap_def boot_mem_def mem_init_def mem_vram_init_def Let_def)
  moreover have "vram_held ''console'' (kmem (snd (b_sys demo_booting))) = 1"
    by (simp add: demo_booting_def vram_held_def find_vram_slot_def)
  ultimately show ?thesis using boot_memory_ready by blast
qed

end
