(* ===== verification/Module_Getc.thy ===== *)
theory Module_Getc
  imports Console
begin

unbundle bit_operations_syntax

text \<open>
  The keyboard input that is linked into loadable modules, \<^verbatim>\<open>linkdep/console_getc.c\<close>: a variant of the input of
  the kernel console without the shift key, which asks the keyboard before the serial line, and without
  a display to release. Its static variables are the keyboard fields of the console record. With it,
  the example library of \<^verbatim>\<open>linkdep/example_lib.c\<close>.
\<close>

definition module_scancodes :: "(u8 \<times> char) list" where
  "module_scancodes =
    [(0x02, CHR ''1''), (0x03, CHR ''2''), (0x04, CHR ''3''), (0x05, CHR ''4''), (0x06, CHR ''5''), (0x07, CHR ''6''), (0x08, CHR ''7''),
     (0x09, CHR ''8''), (0x0A, CHR ''9''), (0x0B, CHR ''0''), (0x10, CHR ''q''), (0x11, CHR ''w''), (0x12, CHR ''e''), (0x13, CHR ''r''),
     (0x14, CHR ''t''), (0x15, CHR ''y''), (0x16, CHR ''u''), (0x17, CHR ''i''), (0x18, CHR ''o''), (0x19, CHR ''p''), (0x1E, CHR ''a''),
     (0x1F, CHR ''s''), (0x20, CHR ''d''), (0x21, CHR ''f''), (0x22, CHR ''g''), (0x23, CHR ''h''), (0x24, CHR ''j''), (0x25, CHR ''k''),
     (0x26, CHR ''l''), (0x2C, CHR ''z''), (0x2D, CHR ''x''), (0x2E, CHR ''c''), (0x2F, CHR ''v''), (0x30, CHR ''b''), (0x31, CHR ''n''),
     (0x32, CHR ''m''), (0x39, CHR '' ''), (0x1C, CHR 0x0A), (0x0E, CHR 0x08)]"

definition module_queue_escape :: "char \<Rightarrow> console \<Rightarrow> char \<times> console" where
  "module_queue_escape final c =
     (CHR 0x1B, c\<lparr>pending_input := [CHR 0x1B, CHR ''['', final], pending_len := 3, pending_pos := 1\<rparr>)"

definition module_scancode_to_ascii :: "u8 \<Rightarrow> console \<Rightarrow> char \<times> console" where
  "module_scancode_to_ascii sc c =
     (if sc = 0xE0 then (CHR 0x00, c\<lparr>kbd_extended := True\<rparr>)
      else
        let ext = kbd_extended c; c = c\<lparr>kbd_extended := False\<rparr> in
        if sc AND 0x80 \<noteq> 0 then (CHR 0x00, c)
        else case map_of module_scancodes sc of
          Some ch \<Rightarrow> (ch, c)
        | None \<Rightarrow>
            if sc = 0x48 then (if ext then module_queue_escape (CHR ''A'') c else (CHR 0x00, c))
            else if sc = 0x50 then (if ext then module_queue_escape (CHR ''B'') c else (CHR 0x00, c))
            else if sc = 0x4B then (if ext then module_queue_escape (CHR ''D'') c else (CHR 0x00, c))
            else if sc = 0x4D then (if ext then module_queue_escape (CHR ''C'') c else (CHR 0x00, c))
            else (CHR 0x00, c))"

text \<open>A character of the serial line, after it reported one: 0 to 255, a carriage return read as a newline.\<close>

definition module_serial :: "console \<Rightarrow> (char option \<times> console) option" where
  "module_serial c =
     (let (ready, c) = serial_read_ready c in
      if ready then map_option (\<lambda>(ch, c). let ch = (if ch = 0x0D then 0x0A else ch) in (if 0 \<le> ch then Some (char_of (nat ch)) else None, c)) (serial_getc c)
      else Some (None, c))"

partial_function (option) module_getc :: "console \<Rightarrow> (char \<times> console) option" where
  "module_getc c =
     (if pending_pos c < pending_len c then Some (pending_input c ! nat (pending_pos c), c\<lparr>pending_pos := pending_pos c + 1\<rparr>)
      else
        let c = c\<lparr>pending_len := 0, pending_pos := 0\<rparr>;
            (sc, h) = ps2kbd_try_read_scancode (chw c);
            c = c\<lparr>chw := h\<rparr>;
            (translated, c) = (case sc of None \<Rightarrow> (CHR 0x00, c) | Some v \<Rightarrow> module_scancode_to_ascii v c)
        in if translated \<noteq> CHR 0x00 then Some (translated, c)
           else Option.bind (module_serial c) (\<lambda>(got, c).
             case got of Some ch \<Rightarrow> Some (ch, c) | None \<Rightarrow> module_getc c))"

definition example_compute :: "u32 \<Rightarrow> u32 \<Rightarrow> console \<Rightarrow> (u32 \<times> console) option" where
  "example_compute x y c =
     Option.bind (console_puts (Some (''[lib] Computing sum...'' @ [CHR 0x0A])) c) (\<lambda>c.
       let res = x + y in
       Option.bind (console_puts (Some ''[lib] Result: '') c) (\<lambda>c.
         Option.bind (console_udec res c) (\<lambda>c.
           Option.bind (console_puts (Some [CHR 0x0A]) c) (\<lambda>c. Some (res, c)))))"

end
