(* ===== verification/Script.thy ===== *)
theory Script
  imports Console "HOL-Library.Signed_Division"
begin

text \<open>
  The stack language of \<^verbatim>\<open>kernel/script.c\<close>. The text is cut into words of at most 31 characters; each
  word is carried out on a stack of at most 32 numbers. The stack is a list with the top first, the word
  under construction is the list of its characters. A NUL character ends the word as it ends a C string.
\<close>

definition SCRIPT_STACK :: nat where "SCRIPT_STACK = 32"
definition SCRIPT_TOKEN :: nat where "SCRIPT_TOKEN = 31"

definition is_digit :: "char \<Rightarrow> bool" where
  "is_digit ch \<longleftrightarrow> 48 \<le> (of_char ch :: nat) \<and> (of_char ch :: nat) \<le> 57"

fun to_int_loop :: "string \<Rightarrow> int \<Rightarrow> int" where
  "to_int_loop [] v = v"
| "to_int_loop (ch # cs) v = (if is_digit ch then to_int_loop cs (v * 10 + (of_char ch - 48)) else v)"

definition to_int :: "string \<Rightarrow> int" where
  "to_int s = (case s of
     [] \<Rightarrow> 0
   | ch # cs \<Rightarrow> if ch = CHR ''-'' then - to_int_loop cs 0 else to_int_loop s 0)"

text \<open>A number, possibly with a sign.\<close>

definition is_number :: "string \<Rightarrow> bool" where
  "is_number tok = (case tok of
     [] \<Rightarrow> False
   | ch # cs \<Rightarrow> is_digit ch \<or> ch = CHR ''-'' \<and> cs \<noteq> [] \<and> is_digit (hd cs))"

text \<open>The operators that replace the two topmost numbers; with fewer than two they do nothing.\<close>

definition script_binary :: "(int \<Rightarrow> int \<Rightarrow> int) \<Rightarrow> int list \<Rightarrow> int list" where
  "script_binary f stk = (case stk of b # a # rest \<Rightarrow> f a b # rest | _ \<Rightarrow> stk)"

text \<open>One word: whether it ends the script, the stack and the console after it.\<close>

definition run_token :: "string \<Rightarrow> int list \<Rightarrow> console \<Rightarrow> (bool \<times> int list \<times> console) option" where
  "run_token tok stk c =
     (if is_number tok then Some (False, if length stk < SCRIPT_STACK then to_int tok # stk else stk, c)
      else if tok = ''+'' then Some (False, script_binary (+) stk, c)
      else if tok = ''-'' then Some (False, script_binary (-) stk, c)
      else if tok = ''*'' then Some (False, script_binary (*) stk, c)
      else if tok = ''/'' then Some (False, if stk \<noteq> [] \<and> hd stk \<noteq> 0 then script_binary (sdiv) stk else stk, c)
      else if tok = ''print'' then (case stk of
          [] \<Rightarrow> Some (False, stk, c)
        | a # rest \<Rightarrow> Option.bind (console_udec (word_of_int a) c) (\<lambda>c. Option.bind (console_putc (CHR 0x0A) c) (\<lambda>c. Some (False, rest, c))))
      else if tok = ''char'' then (case stk of
          [] \<Rightarrow> Some (False, stk, c)
        | a # rest \<Rightarrow> Option.bind (console_putc (char_of (nat (a mod 256))) c) (\<lambda>c. Some (False, rest, c)))
      else if tok = ''dup'' then Some (False, case stk of [] \<Rightarrow> [] | a # rest \<Rightarrow> if length stk < SCRIPT_STACK then a # stk else stk, c)
      else if tok = ''drop'' then Some (False, case stk of [] \<Rightarrow> [] | a # rest \<Rightarrow> rest, c)
      else if tok = ''swap'' then Some (False, case stk of b # a # rest \<Rightarrow> a # b # rest | _ \<Rightarrow> stk, c)
      else if tok = ''exit'' then Some (True, stk, c)
      else Some (False, stk, c))"

definition is_blank :: "char \<Rightarrow> bool" where
  "is_blank ch \<longleftrightarrow> ch = CHR '' '' \<or> ch = CHR 0x0A \<or> ch = CHR 0x09"

definition c_string :: "string \<Rightarrow> string" where
  "c_string = takeWhile (\<lambda>ch. ch \<noteq> CHR 0x00)"

text \<open>The loop; the position after the last character counts as a blank.\<close>

fun script_loop :: "string \<Rightarrow> string \<Rightarrow> int list \<Rightarrow> console \<Rightarrow> console option" where
  "script_loop [] tok stk c = (if tok = [] then Some c else map_option (\<lambda>(stop, stk, c). c) (run_token (c_string tok) stk c))"
| "script_loop (ch # cs) tok stk c =
     (if is_blank ch then
        if tok = [] then script_loop cs tok stk c
        else Option.bind (run_token (c_string tok) stk c) (\<lambda>(stop, stk, c). if stop then Some c else script_loop cs [] stk c)
      else script_loop cs (if length tok < SCRIPT_TOKEN then tok @ [ch] else tok) stk c)"

definition run_script :: "string \<Rightarrow> console \<Rightarrow> console option" where
  "run_script code c = script_loop code [] [] c"

end
