(* ===== verification/Fatfs.thy ===== *)
theory Fatfs
  imports Hardware
begin

unbundle bit_operations_syntax

text \<open>
  The sector driver of \<^verbatim>\<open>kernel/fatfs.c\<close> on the disk. The first sector of the volume is the static
  variable \<open>fat_start_lba\<close>, passed and returned as a number; the local buffer of a sector is at the address
  \<open>sector\<close> of the stack. A disk that is never ready makes an operation None.
\<close>

definition fat_mark_at :: "ram \<Rightarrow> addr \<Rightarrow> nat \<Rightarrow> bool" where
  "fat_mark_at r sector i \<longleftrightarrow> r (sector + of_nat i) = of_char CHR ''F'' \<and> r (sector + of_nat (i + 1)) = of_char CHR ''A'' \<and>
     r (sector + of_nat (i + 2)) = of_char CHR ''T''"

definition fat_mount :: "u32 \<Rightarrow> addr \<Rightarrow> hw \<Rightarrow> ram \<Rightarrow> (int \<times> u32 \<times> hw \<times> ram) option" where
  "fat_mount lba_start sector h r =
     Option.bind (ata_pio_read lba_start sector 1 h r) (\<lambda>(e, h, r).
       Some (if e \<noteq> 0 then - 1
             else if r (sector + 510) \<noteq> 0x55 \<or> r (sector + 511) \<noteq> 0xAA then - 1
             else if list_ex (fat_mark_at r sector) [54..<62] then 0
             else - 1, lba_start, h, r))"

definition fat_read :: "u32 \<Rightarrow> u32 \<Rightarrow> addr \<Rightarrow> u64 \<Rightarrow> hw \<Rightarrow> ram \<Rightarrow> (int \<times> hw \<times> ram) option" where
  "fat_read fat_start_lba lba buffer count h r = ata_pio_read (fat_start_lba + lba) buffer count h r"

definition fat_write :: "u32 \<Rightarrow> u32 \<Rightarrow> addr \<Rightarrow> u64 \<Rightarrow> hw \<Rightarrow> ram \<Rightarrow> (int \<times> hw) option" where
  "fat_write fat_start_lba lba buffer count h r = ata_pio_write (fat_start_lba + lba) buffer count r h"

fun scan_loop :: "u32 \<Rightarrow> addr \<Rightarrow> nat list \<Rightarrow> int \<Rightarrow> hw \<Rightarrow> ram \<Rightarrow> (int \<times> hw \<times> ram) option" where
  "scan_loop fat_start_lba sector [] bad h r = Some (bad, h, r)"
| "scan_loop fat_start_lba sector (i # is) bad h r =
     Option.bind (ata_pio_read (fat_start_lba + of_nat i) sector 1 h r) (\<lambda>(e, h, r).
       scan_loop fat_start_lba sector is (if e \<noteq> 0 then bad + 1 else bad) h r)"

definition fat_scan_bad_sectors :: "u32 \<Rightarrow> addr \<Rightarrow> hw \<Rightarrow> ram \<Rightarrow> (int \<times> hw \<times> ram) option" where
  "fat_scan_bad_sectors fat_start_lba sector h r = scan_loop fat_start_lba sector [0..<16] 0 h r"

text \<open>The driver never reports an error, so that no sector is ever found bad.\<close>

lemma ata_pio_read_0: "ata_pio_read lba buf n h r = Some (e, h', r') \<Longrightarrow> e = 0"
  by (auto simp: ata_pio_read_def)

lemma scan_loop_0: "scan_loop l sector is bad h r = Some (n, h', r') \<Longrightarrow> n = bad"
  by (induction "is" arbitrary: bad h r) (auto simp: bind_eq_Some_conv dest!: ata_pio_read_0 split: if_splits)

end
