(* ===== verification/Confined.thy ===== *)
theory Confined
  imports Bytes
begin

unbundle bit_operations_syntax

text \<open>
  Changes of RAM that stay inside a set of addresses: the relation the safety properties of the file system and
  of the framebuffer are stated with, and the writers of the kernel as instances of it.
\<close>

section \<open>Confined changes\<close>

definition confined :: "addr set \<Rightarrow> ram \<Rightarrow> ram \<Rightarrow> bool" where
  "confined A r r' \<longleftrightarrow> (\<forall>p. p \<notin> A \<longrightarrow> r' p = r p)"

lemma confined_refl [simp]: "confined A r r"
  by (simp add: confined_def)

lemma confined_trans: "confined A r r' \<Longrightarrow> confined A r' r'' \<Longrightarrow> confined A r r''"
  by (simp add: confined_def)

lemma confined_mono: "confined A r r' \<Longrightarrow> A \<subseteq> B \<Longrightarrow> confined B r r'"
  by (auto simp: confined_def)

lemma region_sub:
  assumes "unat off + unat len \<le> unat sz"
  shows "region (p + off) len \<subseteq> region p sz"
proof
  fix x assume "x \<in> region (p + off) len"
  then obtain d where d: "d < unat len" "x = p + off + of_nat d" by (auto simp: in_region_iff)
  have "x = p + of_nat (unat off + d)" using d(2) by simp
  moreover have "unat off + d < unat sz" using d(1) assms by linarith
  ultimately show "x \<in> region p sz" unfolding in_region_iff by blast
qed

lemma wr32_confined: "region p 4 \<subseteq> A \<Longrightarrow> confined A r (wr32 p v r)"
  by (auto simp: confined_def intro: wr32_other)

lemma wr16_confined: "region p 2 \<subseteq> A \<Longrightarrow> confined A r (wr16 p v r)"
  by (auto simp: confined_def intro: wr16_other)

lemma memcpy_confined: "region d n \<subseteq> A \<Longrightarrow> confined A r (memcpy d s n r)"
  by (auto simp: confined_def intro!: memcpy_outside)

lemma memset_confined: "region d n \<subseteq> A \<Longrightarrow> confined A r (memset d v n r)"
  by (auto simp: confined_def memset_apply)

lemma upd_confined: "p \<in> A \<Longrightarrow> confined A r (r(p := v))"
  by (auto simp: confined_def)

lemma fold_confined: "(\<And>x r. x \<in> set xs \<Longrightarrow> confined A r (f x r)) \<Longrightarrow> confined A r (fold f xs r)"
  by (induction xs arbitrary: r) (auto intro: confined_trans)

section \<open>Confined systems\<close>

text \<open>
  A component whose steps keep an invariant and the area it owns, and change RAM only in this area: then every
  sequence of its steps does. The clients are the FAT32 file system and the framebuffer.
\<close>

locale confined_system =
  fixes step :: "'s \<Rightarrow> 's \<Rightarrow> bool" and ok :: "'s \<Rightarrow> bool" and area :: "'s \<Rightarrow> addr set" and mem_of :: "'s \<Rightarrow> ram"
  assumes step_ok: "step x y \<Longrightarrow> ok x \<Longrightarrow> ok y"
    and step_area: "step x y \<Longrightarrow> ok x \<Longrightarrow> area y = area x"
    and step_confined: "step x y \<Longrightarrow> ok x \<Longrightarrow> confined (area x) (mem_of x) (mem_of y)"
begin

lemma steps_keep: "step\<^sup>*\<^sup>* x y \<Longrightarrow> ok x \<Longrightarrow> ok y \<and> area y = area x"
  by (induction rule: rtranclp_induct) (auto simp: step_ok step_area)

lemma steps_confined:
  assumes "step\<^sup>*\<^sup>* x y" and "ok x"
  shows "confined (area x) (mem_of x) (mem_of y)"
  using assms
proof (induction rule: rtranclp_induct)
  case (step y z)
  from steps_keep [OF step.hyps(1) step.prems] have "ok y" "area y = area x" by simp_all
  with step_confined [OF step.hyps(2)] step.IH [OF step.prems] show ?case by (auto intro: confined_trans)
qed simp

end

end
