(* ===== verification/Framebuffer_Props.thy ===== *)
theory Framebuffer_Props
  imports Framebuffer Confined
begin

unbundle bit_operations_syntax

text \<open>
  Drawing on the framebuffer changes nothing but the framebuffer. The mode the boot loader reports has to be sane: a
  line is long enough for its pixels, and the size of the buffer fits in 32 bits, in which the code computes
  the offsets of the pixels.
\<close>

definition fb_mem :: "fb_state \<Rightarrow> addr set" where
  "fb_mem fb = region (fb_base fb) (ucast (fb_pitch fb) * ucast (fb_height fb))"

definition fb_mode_ok :: "fb_state \<Rightarrow> bool" where
  "fb_mode_ok fb \<longleftrightarrow> unat (fb_width fb) * unat (bytes_per_pixel fb) \<le> unat (fb_pitch fb) \<and> unat (fb_pitch fb) * unat (fb_height fb) < 2 ^ 32"

lemma unat_mult32: "unat a * unat b < 4294967296 \<Longrightarrow> unat (a * b :: u32) = unat a * unat b"
  by (simp add: unat_word_ariths)

lemma unat_mult64: "unat a * unat b < 18446744073709551616 \<Longrightarrow> unat (a * b :: u64) = unat a * unat b"
  by (simp add: unat_word_ariths)

lemma pixel_offset_bound:
  fixes px py w h pitch b :: nat
  assumes "px < w" and "py < h" and "w * b \<le> pitch"
  shows "py * pitch + px * b + b \<le> pitch * h"
proof -
  have "px * b + b \<le> w * b" using assms(1) by (metis Suc_leI add.commute mult_Suc mult_le_mono1)
  moreover have "py * pitch + pitch \<le> h * pitch" using assms(2) by (metis Suc_leI add.commute mult_Suc mult_le_mono1)
  ultimately show ?thesis using assms(3) by (simp add: mult.commute)
qed

lemma pixel_addr_sub:
  assumes "fb_mode_ok fb" and "pixel_addr fb x y = Some a"
  shows "region a (ucast (bytes_per_pixel fb)) \<subseteq> fb_mem fb"
proof -
  let ?b = "unat (bytes_per_pixel fb)" and ?p = "unat (fb_pitch fb)" and ?h = "unat (fb_height fb)"
  obtain px py where pos: "px < fb_width fb" "py < fb_height fb"
    and a: "a = fb_base fb + ucast (py * fb_pitch fb) + ucast (px * ucast (bytes_per_pixel fb))"
    using assms(2) by (cases "rotate_90_cw fb") (auto simp: pixel_addr_def Let_def not_le split: if_splits)
  have bound: "unat py * ?p + unat px * ?b + ?b \<le> ?p * ?h"
    using pos assms(1) by (intro pixel_offset_bound [of _ "unat (fb_width fb)"]) (simp_all add: word_less_nat_alt fb_mode_ok_def)
  have lt: "?p * ?h < 4294967296" using assms(1) by (simp add: fb_mode_ok_def)
  have m: "unat (py * fb_pitch fb) = unat py * ?p" "unat (px * ucast (bytes_per_pixel fb)) = unat px * ?b"
    using bound lt by (simp_all add: unat_mult32)
  have "unat (ucast (fb_pitch fb) * ucast (fb_height fb) :: u64) = ?p * ?h" using lt by (subst unat_mult64) simp_all
  moreover have "unat (ucast (py * fb_pitch fb) + ucast (px * ucast (bytes_per_pixel fb)) :: u64) = unat py * ?p + unat px * ?b"
    using bound lt by (subst unat_add64) (simp_all add: m)
  ultimately have "region (fb_base fb + (ucast (py * fb_pitch fb) + ucast (px * ucast (bytes_per_pixel fb)))) (ucast (bytes_per_pixel fb)) \<subseteq> fb_mem fb"
    unfolding fb_mem_def using bound by (intro region_sub) simp
  then show ?thesis unfolding a by (simp add: add.assoc)
qed

lemma write_pixel_confined:
  assumes "fb_mode_ok fb"
  shows "confined (fb_mem fb) m (write_pixel fb x y color m)"
proof (cases "pixel_addr fb x y")
  case (Some a)
  have "a + of_nat i \<in> fb_mem fb" if "i < unat (bytes_per_pixel fb)" for i
  proof -
    have "a + of_nat i \<in> region a (ucast (bytes_per_pixel fb))" using that by (auto simp: in_region_iff)
    then show ?thesis using pixel_addr_sub [OF assms Some] by blast
  qed
  with Some show ?thesis by (auto simp: write_pixel_def intro!: fold_confined upd_confined)
qed (simp add: write_pixel_def)

lemma blend_pixel_confined: "fb_mode_ok fb \<Longrightarrow> confined (fb_mem fb) m (blend_pixel fb x y p m)"
  by (simp add: blend_pixel_def Let_def write_pixel_confined)

lemma copy_pixel_confined: "fb_mode_ok fb \<Longrightarrow> confined (fb_mem fb) m (copy_pixel fb x y p m)"
  by (simp add: copy_pixel_def write_pixel_confined)

lemma present_cell_confined: "fb_mode_ok fb \<Longrightarrow> confined (fb_mem fb) m (present_cell fb scale ox oy row col cell m)"
  unfolding present_cell_def Let_def by (intro fold_confined write_pixel_confined)

lemma draw_cell_confined: "fb_mode_ok fb \<Longrightarrow> confined (fb_mem fb) m (framebuffer_draw_cell fb col row cell m)"
  unfolding framebuffer_draw_cell_def Let_def
  by (cases "fb_enabled fb") (simp_all only: if_True if_False simp_thms confined_refl, intro confined_trans [OF fold_confined fold_confined] fold_confined write_pixel_confined)

lemma blit_confined:
  assumes "fb_mode_ok fb"
  shows "confined (fb_mem fb) m (snd (framebuffer_blit_rgba8888 fb x y w h p stride m))"
    and "confined (fb_mem fb) m (snd (framebuffer_blit_rgb24 fb x y w h p stride m))"
    and "confined (fb_mem fb) m (snd (framebuffer_blit_rgb24_scaled fb x y w h p sw sh stride m))"
  by (auto simp: framebuffer_blit_rgba8888_def framebuffer_blit_rgb24_def framebuffer_blit_rgb24_scaled_def Let_def
      intro!: fold_confined blend_pixel_confined copy_pixel_confined assms)

lemma present_confined:
  assumes "fb_mode_ok fb"
  shows "confined (fb_mem fb) m (framebuffer_present_text_grid fb cells cols rows m)"
    and "confined (fb_mem fb) m (framebuffer_present_text_grid_dirty fb cells old cols rows m)"
  by (auto simp: framebuffer_present_text_grid_def framebuffer_present_text_grid_dirty_def Let_def split_beta
      intro!: fold_confined present_cell_confined assms)

lemma pixels_confined:
  assumes "fb_mode_ok fb"
  shows "confined (fb_mem fb) m (snd (framebuffer_draw_pixel_rgb fb x y cr cg cb m))" and "confined (fb_mem fb) m (framebuffer_clear_rgb fb cr cg cb m)"
  by (auto simp: framebuffer_draw_pixel_rgb_def framebuffer_clear_rgb_def Let_def intro!: fold_confined write_pixel_confined [OF assms])

section \<open>Sequences of drawing operations\<close>

inductive fb_step :: "fb_state \<times> ram \<Rightarrow> fb_state \<times> ram \<Rightarrow> bool" where
  step_pixel: "fb_step (fb, m) (fb, snd (framebuffer_draw_pixel_rgb fb x y cr cg cb m))"
| step_clear: "fb_step (fb, m) (fb, framebuffer_clear_rgb fb cr cg cb m)"
| step_rgba: "fb_step (fb, m) (fb, snd (framebuffer_blit_rgba8888 fb x y w h p stride m))"
| step_rgb24: "fb_step (fb, m) (fb, snd (framebuffer_blit_rgb24 fb x y w h p stride m))"
| step_scaled: "fb_step (fb, m) (fb, snd (framebuffer_blit_rgb24_scaled fb x y w h p sw sh stride m))"
| step_cell: "fb_step (fb, m) (fb, framebuffer_draw_cell fb col row cell m)"
| step_grid: "fb_step (fb, m) (fb, framebuffer_present_text_grid fb cells cols rows m)"
| step_dirty: "fb_step (fb, m) (fb, framebuffer_present_text_grid_dirty fb cells old cols rows m)"
| step_enable: "fb_step (fb, m) (framebuffer_enable en fb, m)"

lemma fb_step_ok:
  assumes "fb_step x y" and "fb_mode_ok (fst x)"
  shows "fb_mode_ok (fst y) \<and> fb_mem (fst y) = fb_mem (fst x) \<and> confined (fb_mem (fst x)) (snd x) (snd y)"
  using assms
proof cases
  case (step_enable fb m en)
  with assms(2) show ?thesis by (simp add: fb_mode_ok_def fb_mem_def framebuffer_enable_def)
qed (use assms(2) in \<open>simp_all add: pixels_confined blit_confined draw_cell_confined present_confined\<close>)

interpretation screen: confined_system fb_step "\<lambda>x. fb_mode_ok (fst x)" "\<lambda>x. fb_mem (fst x)" snd
  by unfold_locales (use fb_step_ok in blast)+

text \<open>C36: With a sane mode, every sequence of drawing operations of the framebuffer, for arbitrary coordinates, sizes, strides and images, changes only bytes
  of the framebuffer, the \<open>pitch * height\<close> bytes from its base.\<close>

theorem framebuffer_confined:
  assumes "fb_mode_ok fb" and "fb_step\<^sup>*\<^sup>* (fb, m) (fb', m')"
  shows "confined (fb_mem fb) m m'"
  using screen.steps_confined [OF assms(2)] assms(1) by simp

definition demo_mode :: fb_state where
  "demo_mode = \<lparr>fb_base = 0xE0000000, fb_width = 320, fb_height = 200, fb_pitch = 1280, fb_bpp = 32, bytes_per_pixel = 4, red_position = 16, red_size = 8,
     green_position = 8, green_size = 8, blue_position = 0, blue_size = 8, reserved_position = 24, reserved_size = 0, palette = replicate 16 0,
     logical_width = 320, logical_height = 200, rotate_90_cw = False, fb_available = True, fb_enabled = True\<rparr>"

theorem framebuffer_confined_witness:
  "framebuffer_draw_cell demo_mode 39 19 0x0741 (framebuffer_clear_rgb demo_mode 255 255 255 (\<lambda>_. 0)) 0x1000 = 0"
proof -
  have ok: "fb_mode_ok demo_mode" by (simp add: fb_mode_ok_def demo_mode_def)
  have "0x1000 \<notin> fb_mem demo_mode" by (simp add: fb_mem_def demo_mode_def region_def)
  moreover have "fb_step\<^sup>*\<^sup>* (demo_mode, \<lambda>_. 0) (demo_mode, framebuffer_draw_cell demo_mode 39 19 0x0741 (framebuffer_clear_rgb demo_mode 255 255 255 (\<lambda>_. 0)))"
    by (rule rtranclp.rtrancl_into_rtrancl [OF r_into_rtranclp [where r = fb_step, OF step_clear] step_cell])
  ultimately show ?thesis using framebuffer_confined [OF ok] by (auto simp: confined_def)
qed

end
