(* ===== verification/Image_Props.thy ===== *)
theory Image_Props
  imports Exoimg Framebuffer_Props
begin

unbundle bit_operations_syntax

text \<open>
  Drawing an image file that was accepted depends on no byte outside the file and the framebuffer: the header is
  checked well enough for the loops of the framebuffer, whose offsets have 32 bits.
\<close>

section \<open>Agreement of memories\<close>

definition agree :: "addr set \<Rightarrow> ram \<Rightarrow> ram \<Rightarrow> bool" where
  "agree A r r' \<longleftrightarrow> (\<forall>p\<in>A. r p = r' p)"

lemma agree_upd: "agree A r r' \<Longrightarrow> agree A (r(p := v)) (r'(p := v))"
  by (simp add: agree_def)

lemma agree_fold: "(\<And>x r r'. x \<in> set xs \<Longrightarrow> agree A r r' \<Longrightarrow> agree A (f x r) (f x r')) \<Longrightarrow> agree A r r' \<Longrightarrow> agree A (fold f xs r) (fold f xs r')"
  by (induction xs arbitrary: r r') auto

lemma write_pixel_agree: "agree A r r' \<Longrightarrow> agree A (write_pixel fb x y color r) (write_pixel fb x y color r')"
  by (auto simp: write_pixel_def split: option.splits intro!: agree_fold agree_upd)

lemma read_pixel_agree:
  assumes "fb_mode_ok fb" and "agree A r r'" and "fb_mem fb \<subseteq> A"
  shows "read_pixel fb x y r = read_pixel fb x y r'"
proof (cases "pixel_addr fb x y")
  case (Some a)
  have "r (a + of_nat i) = r' (a + of_nat i)" if "i < unat (bytes_per_pixel fb)" for i
  proof -
    have "a + of_nat i \<in> region a (ucast (bytes_per_pixel fb))" using that by (auto simp: in_region_iff)
    with pixel_addr_sub [OF assms(1) Some] assms(2,3) show ?thesis by (auto simp: agree_def)
  qed
  with Some show ?thesis by (auto simp: read_pixel_def intro!: fold_cong)
qed (simp add: read_pixel_def)

lemma blend_pixel_agree:
  assumes "fb_mode_ok fb" and "fb_mem fb \<subseteq> A" and "region p 4 \<subseteq> A" and "agree A r r'"
  shows "agree A (blend_pixel fb x y p r) (blend_pixel fb x y p r')"
proof -
  have "r (p + d) = r' (p + d)" if "d \<in> {0, 1, 2, 3}" for d
  proof -
    have "p + d \<in> region p 4" using that by (auto simp: region_def)
    with assms(3,4) show ?thesis by (auto simp: agree_def)
  qed
  from this [of 0] this [of 1] this [of 2] this [of 3]
  show ?thesis using read_pixel_agree [OF assms(1,4,2)] assms(4) write_pixel_agree [OF assms(4)] by (simp add: blend_pixel_def Let_def)
qed

section \<open>Accepted images\<close>

lemma exoimg_validate_bounds:
  assumes "exoimg_validate data sz r = (e, Some h)"
  shows "e = 0" and "unat (img_width h) \<le> 4096" and "0 < unat (img_width h)" and "unat (img_height h) \<le> 4096"
    and "24 + 4 * unat (img_width h) * unat (img_height h) \<le> unat sz"
proof -
  let ?w = "unat (img_width h)" and ?h = "unat (img_height h)"
  let ?x = "ucast (img_width h) * ucast (img_height h) * 4 :: u64"
  from assms have c: "e = 0" "img_width h \<noteq> 0" "img_width h \<le> 4096" "img_height h \<le> 4096"
    "\<not> 0x2000000 < ?x" "img_data_size h = ucast ?x" "\<not> sz < 24 + ucast (img_data_size h)"
    by (auto simp: exoimg_validate_def Let_def exoimg_consts not_less split: if_splits)
  show "e = 0" by (rule c(1))
  show w: "?w \<le> 4096" and hh: "?h \<le> 4096" using c(3,4) by (simp_all add: word_le_nat_alt)
  show "0 < ?w" using c(2) by (simp add: unat_gt_0)
  have "?w * ?h \<le> 4096 * 4096" using w hh by (rule mult_le_mono)
  then have b: "?w * ?h * 4 \<le> 67108864" by linarith
  have e: "unat (ucast (img_width h) :: u64) = ?w" "unat (ucast (img_height h) :: u64) = ?h" "unat (4 :: u64) = 4" by simp_all
  have "?w * ?h < 18446744073709551616" "?w * ?h * 4 < 18446744073709551616" using b by linarith+
  with unat_mult64 [of "ucast (img_width h)" "ucast (img_height h)"] unat_mult64 [of "ucast (img_width h) * ucast (img_height h)" 4]
  have x: "unat ?x = ?w * ?h * 4" by (simp only: e)
  from b have "unat ?x < 2 ^ LENGTH(32)" unfolding x by simp
  then have "unat (ucast ?x :: u32) = unat ?x" by (simp only: unsigned_ucast_eq take_bit_nat_eq_self)
  with x b have "unat (24 + ucast (img_data_size h) :: u64) = 24 + ?w * ?h * 4" unfolding c(6) by (subst unat_add64) simp_all
  with c(7) show "24 + 4 * ?w * ?h \<le> unat sz" by (simp add: word_less_nat_alt mult.commute mult.left_commute)
qed

lemma header_agree:
  assumes "agree (region data sz) r r'" and "24 \<le> unat sz"
  shows "exoimg_header r data = exoimg_header r' data"
proof -
  have r: "r (data + of_nat i) = r' (data + of_nat i)" if "i < 24" for i
  proof -
    have "i < unat sz" using that assms(2) by linarith
    then show ?thesis using assms(1) by (auto simp: agree_def in_region_iff)
  qed
  have "rd32 r (data + of_nat n) = rd32 r' (data + of_nat n)" if "n + 3 < 24" for n
    using r [of n] r [of "n + 1"] r [of "n + 2"] r [of "n + 3"] that by (simp add: rd32_def algebra_simps)
  from this [of 8] this [of 12] this [of 16] this [of 20] r show ?thesis by (simp add: exoimg_header_def)
qed

lemma image_pixel_sub:
  assumes "unat w \<le> 4096" and "unat h \<le> 4096" and "24 + 4 * unat w * unat h \<le> unat sz" and "row < unat h" and "col < unat w"
  shows "region (data + 24 + ucast (of_nat row * (w * 4) :: u32) + ucast (of_nat col * 4 :: u32)) 4 \<subseteq> region data sz"
proof -
  have w4: "unat (w * 4) = unat w * 4" using assms(1) by (subst unat_mult32) simp_all
  have r: "unat (of_nat row :: u32) = row" "unat (of_nat col :: u32) = col"
    using assms by (simp_all add: unat_of_nat take_bit_nat_eq_self)
  have "row * (unat w * 4) \<le> 4096 * (4096 * 4)" using assms by (intro mult_le_mono) simp_all
  then have m: "unat (of_nat row * (w * 4) :: u32) = row * (unat w * 4)" "unat (of_nat col * 4 :: u32) = col * 4"
    using assms by (simp_all add: unat_mult32 w4 r)
  have o: "row * (unat w * 4) + col * 4 + 4 \<le> unat w * 4 * unat h" using assms(4,5) by (intro pixel_offset_bound [of col "unat w"]) simp_all
  have sz: "24 + unat w * 4 * unat h \<le> unat sz" using assms(3) by (simp only: mult.commute [of 4])
  define p q :: u64 where "p = ucast (of_nat row * (w * 4) :: u32)" and "q = ucast (of_nat col * 4 :: u32)"
  have pq: "unat p = row * (unat w * 4)" "unat q = col * 4" unfolding p_def q_def using m by simp_all
  have "unat (24 :: u64) = 24" by simp
  then have "unat (24 :: u64) + unat p < 18446744073709551616" using o sz unat_lt_2p64 [of sz] unfolding pq by linarith
  from unat_add64 [OF this] have "unat (24 + p) = 24 + unat p" by simp
  moreover from this have "unat (24 + p) + unat q < 18446744073709551616" using o sz unat_lt_2p64 [of sz] unfolding pq by linarith
  ultimately have "unat (24 + p + q) + 4 \<le> unat sz" using unat_add64 [of "24 + p" q] o sz pq by linarith
  then have "region (data + (24 + p + q)) 4 \<subseteq> region data sz" by (intro region_sub) simp
  then show ?thesis by (simp add: p_def q_def add.assoc)
qed

text \<open>C40: Once an image file is accepted, drawing it anywhere on a framebuffer with a sane mode reads and depends on nothing but the bytes of the file and of
  the framebuffer: two memories that agree there give the same verdict on the file, and still agree there after the drawing.\<close>

theorem exoimg_blit_reads:
  assumes "exoimg_validate data sz r = (e, Some h)" and "fb_mode_ok fb" and "agree (region data sz \<union> fb_mem fb) r r'"
  shows "exoimg_validate data sz r' = (e, Some h) \<and>
    agree (region data sz \<union> fb_mem fb)
      (snd (framebuffer_blit_rgba8888 fb x y (img_width h) (img_height h) (data + sizeof_exoimg_header) (img_width h * 4) r))
      (snd (framebuffer_blit_rgba8888 fb x y (img_width h) (img_height h) (data + sizeof_exoimg_header) (img_width h * 4) r'))"
proof -
  let ?A = "region data sz \<union> fb_mem fb"
  note b = exoimg_validate_bounds [OF assms(1)]
  have "unat (img_width h * 4) = unat (img_width h) * 4" using b(2) by (subst unat_mult32) simp_all
  then have nz: "img_width h * 4 \<noteq> 0" using b(3) by (metis mult_is_0 neq0_conv unat_0 zero_neq_numeral)
  have px: "agree ?A (blend_pixel fb u v (data + 24 + ucast (of_nat row * (img_width h * 4)) + ucast (of_nat col * 4 :: u32)) m)
      (blend_pixel fb u v (data + 24 + ucast (of_nat row * (img_width h * 4)) + ucast (of_nat col * 4 :: u32)) m')"
    if "agree ?A m m'" "row < unat (img_height h)" "col < unat (img_width h)" for u v row col m m'
    using image_pixel_sub [OF b(2,4,5) that(2,3), of data] that(1) by (intro blend_pixel_agree assms(2)) auto
  have lt: "a < c \<Longrightarrow> n < unat a \<Longrightarrow> n < unat c" for n and a c :: u32 by (simp add: word_less_nat_alt)
  have "agree ?A (snd (framebuffer_blit_rgba8888 fb x y (img_width h) (img_height h) (data + 24) (img_width h * 4) r))
      (snd (framebuffer_blit_rgba8888 fb x y (img_width h) (img_height h) (data + 24) (img_width h * 4) r'))"
    unfolding framebuffer_blit_rgba8888_def Let_def using nz assms(3)
    by (auto intro!: agree_fold px intro: lt)
  moreover have "exoimg_header r data = exoimg_header r' data"
    using header_agree [of data sz r r'] assms(3) b(5) by (simp add: agree_def)
  then have "exoimg_validate data sz r' = exoimg_validate data sz r" by (simp add: exoimg_validate_def)
  ultimately show ?thesis using assms(1) by (simp add: sizeof_exoimg_header_def)
qed

text \<open>An image of one pixel.\<close>

definition demo_image :: ram where
  "demo_image = (\<lambda>p. case map_of (zip [0..<28] (exoimg_magic @ [1, 0, 0, 0, 1, 0, 0, 0, 1, 0, 0, 0, 4, 0, 0, 0, 10, 20, 30, 255])) (unat (p - 0x1000)) of
     None \<Rightarrow> 0 | Some b \<Rightarrow> b)"

definition demo_header :: exoimg_header_t where
  "demo_header = \<lparr>img_magic = exoimg_magic, img_width = 1, img_height = 1, img_format = 1, img_data_size = 4\<rparr>"

theorem exoimg_blit_reads_witness:
  "exoimg_validate 0x1000 28 (demo_image(0x5000 := 7)) = (0, Some demo_header) \<and>
    snd (framebuffer_blit_rgba8888 demo_mode 5 5 1 1 (0x1000 + sizeof_exoimg_header) 4 (demo_image(0x5000 := 7))) 0xE0000000 =
    snd (framebuffer_blit_rgba8888 demo_mode 5 5 1 1 (0x1000 + sizeof_exoimg_header) 4 demo_image) 0xE0000000"
proof -
  have v: "exoimg_validate 0x1000 28 demo_image = (0, Some demo_header)"
    by (simp add: exoimg_validate_def exoimg_header_def exoimg_consts demo_header_def demo_image_def exoimg_magic_def rd32_def upt_conv_Cons Let_def)
  have ok: "fb_mode_ok demo_mode" by (simp add: fb_mode_ok_def demo_mode_def)
  have "0x5000 \<notin> region 0x1000 28 \<union> fb_mem demo_mode" by (simp add: fb_mem_def demo_mode_def region_def)
  then have a: "agree (region 0x1000 28 \<union> fb_mem demo_mode) demo_image (demo_image(0x5000 := 7))" by (auto simp: agree_def)
  have "0xE0000000 \<in> fb_mem demo_mode" by (simp add: fb_mem_def demo_mode_def region_def)
  with exoimg_blit_reads [OF v ok a, of 5 5] show ?thesis by (simp add: agree_def demo_header_def)
qed

end
