(* ===== verification/Fs_Props.thy ===== *)
theory Fs_Props
  imports Fs Confined
begin

unbundle bit_operations_syntax

text \<open>
  The operations of the FAT32 file system change no byte of RAM outside the volume, apart from the buffer a
  caller gives to a read. Every access is guarded by \<open>range_ok\<close>; the accesses to directory entries are
  not, and rely on the offset in the table of open files, which is that of an entry inside the
  volume. This offset has 32 bits: the statement is for volumes of at most 4 GiB.
\<close>

section \<open>Cluster chains\<close>

definition volume :: "fs_state \<Rightarrow> addr set" where
  "volume s = region (fs_data s) (fs_size s)"

lemma range_ok_sub: "range_ok s off len \<Longrightarrow> region (fs_data s + off) len \<subseteq> volume s"
  unfolding volume_def by (rule region_sub) (auto simp: range_ok_def word_le_nat_alt unat_sub)

lemma fat_set_loop_confined: "confined (volume s) r (snd (fat_set_loop s c v is r))"
proof (induction "is" arbitrary: r)
  case (Cons i "is")
  show ?case
  proof (cases "range_ok s (fat_entry_offset s c (of_nat i)) 4")
    case True
    from confined_trans [OF wr32_confined [OF range_ok_sub [OF True]] Cons.IH] True show ?thesis by (simp add: Let_def)
  qed (simp add: Let_def)
qed simp

lemma fat_set_confined: "confined (volume s) r (snd (fat_set s c v r))"
  by (simp add: fat_set_def fat_set_loop_confined)

lemma alloc_loop_confined: "confined (volume s) r (snd (alloc_loop s is r))"
proof (induction "is" arbitrary: r)
  case (Cons i "is")
  have "confined (volume s) r (memset (fs_data s + off) 0 (cluster_size s) (snd (fat_set s c v r)))" if "range_ok s off (cluster_size s)" for off c v
    by (rule confined_trans [OF fat_set_confined memset_confined [OF range_ok_sub [OF that]]])
  then show ?case using Cons.IH fat_set_confined by (simp add: Let_def split_beta)
qed simp

lemma alloc_cluster_confined: "confined (volume s) r (snd (alloc_cluster s r))"
  by (simp add: alloc_cluster_def alloc_loop_confined)

lemma chain_loop_confined: "confined (volume s) r (snd (chain_loop s grow n cur r))"
proof (induction n arbitrary: cur r)
  case (Suc n)
  have a: "confined (volume s) r (snd (fat_set s c v (snd (alloc_cluster s r))))" for c v r
    by (rule confined_trans [OF alloc_cluster_confined fat_set_confined])
  have b: "confined (volume s) r (snd (chain_loop s g n x (snd (fat_set s c v (snd (alloc_cluster s r))))))" if "g = grow" for c v r g x
    unfolding that by (rule confined_trans [OF a Suc.IH])
  show ?case using Suc.IH alloc_cluster_confined a b
    by (auto simp: Let_def split_beta)
qed simp

lemma chain_cluster_confined: "confined (volume s) r (snd (chain_cluster s first idx grow r))"
  by (simp add: chain_cluster_def chain_loop_confined)

lemma free_chain_confined:
  assumes "free_chain s cur r = Some r'"
  shows "confined (volume s) r r'"
proof (rule free_chain.raw_induct [where P = "\<lambda>s cur r r'. confined (volume s) r r'", OF _ assms], goal_cases)
  case (1 g s cur r r')
  then show ?case using fat_set_confined [of s r cur 0]
    by (auto simp: Let_def split: if_splits intro: confined_trans)
qed

section \<open>Directory entries\<close>

definition entry_ok :: "fs_state \<Rightarrow> u32 \<Rightarrow> bool" where
  "entry_ok s off \<longleftrightarrow> unat off + 32 \<le> unat (fs_size s)"

lemma entry_sub:
  assumes "entry_ok s off" and "unat d + unat n \<le> 32"
  shows "region (fs_data s + ucast off + d) n \<subseteq> volume s"
proof -
  have "unat (ucast off :: u64) = unat off" by simp
  then have "unat (ucast off :: u64) + unat d < 18446744073709551616" using assms(2) unat_lt_2p32 [of off] by linarith
  then have "unat (ucast off + d :: u64) = unat off + unat d" by (simp add: unat_add64)
  then have "region (fs_data s + (ucast off + d)) n \<subseteq> volume s"
    unfolding volume_def using assms by (intro region_sub) (simp add: entry_ok_def)
  then show ?thesis by (simp add: add.assoc)
qed

lemma scan_offset:
  fixes off :: u64
  assumes "unat off + 32 * n \<le> unat (fs_size s)" and "unat (fs_size s) \<le> 4294967296" and "i < n"
  shows "entry_ok s (ucast (off + of_nat (32 * i) :: u64))"
proof -
  have "unat (off + of_nat (32 * i)) = unat off + 32 * i"
  proof -
    have "unat (of_nat (32 * i) :: u64) = 32 * i" by (rule unat_of_nat64) (use assms in simp)
    moreover from this have "unat off + unat (of_nat (32 * i) :: u64) < 18446744073709551616" using assms by linarith
    ultimately show ?thesis using unat_add64 [of off "of_nat (32 * i)"] by presburger
  qed
  moreover from this have "unat (ucast (off + of_nat (32 * i)) :: u32) = unat (off + of_nat (32 * i))"
    using assms by (simp add: unsigned_ucast_eq take_bit_nat_eq_self)
  ultimately show ?thesis using assms by (simp add: entry_ok_def)
qed

lemma scan_entries_ok:
  assumes "unat off + 32 * n \<le> unat (fs_size s)" and "unat (fs_size s) \<le> 4294967296" and "\<forall>i\<in>set is. i < n" and "f = 0 \<or> entry_ok s f"
  shows "case scan_entries s r name off is f of Found e \<Rightarrow> entry_ok s e | End_Of_Dir f \<Rightarrow> f = 0 \<or> entry_ok s f | Go_On f \<Rightarrow> f = 0 \<or> entry_ok s f"
  using assms(3,4)
proof (induction "is" arbitrary: f)
  case (Cons i "is")
  have "entry_ok s (ucast (off + of_nat (32 * i)))" using Cons.prems(1) by (intro scan_offset [OF assms(1,2)]) simp
  then show ?case using Cons by (auto simp: Let_def simp del: of_nat_mult)
qed simp

lemma find_dir_loop_ok:
  assumes "find_dir_loop s r name c f = Some res" and "unat (fs_size s) \<le> 4294967296" and "f = 0 \<or> entry_ok s f"
  shows "(\<forall>e. fst res = Some e \<longrightarrow> entry_ok s e) \<and> (snd res = 0 \<or> entry_ok s (snd res))"
proof -
  have "unat (fs_size s) \<le> 4294967296 \<longrightarrow> f = 0 \<or> entry_ok s f \<longrightarrow>
    (\<forall>e. fst res = Some e \<longrightarrow> entry_ok s e) \<and> (snd res = 0 \<or> entry_ok s (snd res))"
  proof (rule find_dir_loop.raw_induct [where P = "\<lambda>s r name c f res. unat (fs_size s) \<le> 4294967296 \<longrightarrow> f = 0 \<or> entry_ok s f \<longrightarrow>
      (\<forall>e. fst res = Some e \<longrightarrow> entry_ok s e) \<and> (snd res = 0 \<or> entry_ok s (snd res))", OF _ assms(1)], intro impI, goal_cases)
    case (1 g s r name c f res)
    let ?off = "cluster_offset s c" and ?n = "unat (cluster_size s) div 32"
    show ?case
    proof (cases "2 \<le> c \<and> c < total_clusters (fat s) + 2 \<and> range_ok s ?off (cluster_size s)")
      case True
      then have "unat ?off + 32 * ?n \<le> unat (fs_size s)" by (auto simp: range_ok_def word_le_nat_alt unat_sub)
      from scan_entries_ok [OF this 1(3) _ 1(4), of "[0..<?n]" r name] 1(1) [of s r name "fat_get s c r" _ res] True 1(2-4) show ?thesis
        by (cases "scan_entries s r name ?off [0..<?n] f") (simp_all add: Let_def split: if_splits, fastforce+)
    qed (use 1(2,4) in \<open>auto simp: Let_def split: if_splits\<close>)
  qed
  with assms(2,3) show ?thesis by blast
qed

section \<open>Open files\<close>

definition fs_ok :: "fs_state \<Rightarrow> bool" where
  "fs_ok s \<longleftrightarrow> unat (fs_size s) \<le> 4294967296 \<and> length (fs_files s) = FS_MAX_OPEN \<and> (\<forall>f\<in>set (fs_files s). of_used f \<longrightarrow> entry_ok s (dir_entry_offset f))"

text \<open>A state with the same volume.\<close>

definition same_vol :: "fs_state \<Rightarrow> fs_state \<Rightarrow> bool" where
  "same_vol s s' \<longleftrightarrow> fs_data s' = fs_data s \<and> fs_size s' = fs_size s"

lemma same_vol_volume: "same_vol s s' \<Longrightarrow> volume s' = volume s"
  by (simp add: same_vol_def volume_def)

lemma fs_mount_ok:
  assumes "unat sz \<le> 4294967296"
  shows "fs_ok (fs_mount p sz s r)" and "fs_data (fs_mount p sz s r) = p" and "fs_size (fs_mount p sz s r) = sz"
proof -
  have f: "fs_data (snd (fat32_parse s r)) = fs_data s" "fs_size (snd (fat32_parse s r)) = fs_size s" "fs_files (snd (fat32_parse s r)) = fs_files s" for s
    by (simp_all add: fat32_parse_def Let_def)
  show "fs_data (fs_mount p sz s r) = p" "fs_size (fs_mount p sz s r) = sz"
    by (simp_all add: fs_mount_def Let_def split_beta f)
  have "fs_files (fs_mount p sz s r) = replicate FS_MAX_OPEN no_file"
    by (simp add: fs_mount_def Let_def split_beta f)
  with \<open>fs_size (fs_mount p sz s r) = sz\<close> assms show "fs_ok (fs_mount p sz s r)"
    by (simp add: fs_ok_def no_file_def)
qed

lemma upd_file_ok:
  assumes "fs_ok s" and "\<And>f. dir_entry_offset (g f) = dir_entry_offset f" and "\<And>f. of_used (g f) \<longrightarrow> of_used f"
  shows "fs_ok (upd_file fd g s)" and "same_vol s (upd_file fd g s)"
proof -
  show "same_vol s (upd_file fd g s)" by (simp add: same_vol_def upd_file_def)
  have "entry_ok (upd_file fd g s) o' = entry_ok s o'" for o' by (simp add: entry_ok_def upd_file_def)
  moreover have "of_used f \<longrightarrow> entry_ok s (dir_entry_offset f)" if "f \<in> set ((fs_files s)[nat fd := g (fs_files s ! nat fd)])" for f
  proof (cases "nat fd < length (fs_files s)")
    case True
    let ?x = "fs_files s ! nat fd"
    have "f = g ?x \<or> f \<in> set (fs_files s)" using that by (auto dest!: set_update_subset_insert [THEN subsetD])
    moreover have "?x \<in> set (fs_files s)" using True by (rule nth_mem)
    ultimately show ?thesis using assms(1) assms(2,3) [of ?x] by (auto simp: fs_ok_def)
  qed (use that assms(1) in \<open>auto simp: fs_ok_def not_less list_update_beyond\<close>)
  ultimately show "fs_ok (upd_file fd g s)" using assms(1) by (auto simp: fs_ok_def) (simp_all add: upd_file_def)
qed

lemma file_slot_ok:
  assumes "fs_ok s" and "entry_ok s off"
  shows "fs_ok (snd (file_slot flags off s r))" and "same_vol s (snd (file_slot flags off s r))"
  using assms by (auto simp: file_slot_def fs_ok_def same_vol_def entry_ok_def Let_def split: option.splits dest!: set_update_subset_insert [THEN subsetD])

section \<open>Writing a directory entry\<close>

lemma put_bytes_confined: "(\<And>i. i < length bs \<Longrightarrow> p + of_nat i \<in> A) \<Longrightarrow> confined A r (put_bytes p bs r)"
proof (induction bs arbitrary: p r)
  case (Cons b bs)
  have "confined A (r(p := b)) (put_bytes (p + 1) bs (r(p := b)))"
    using Cons.prems [of "Suc _"] by (intro Cons.IH) (simp add: add.assoc)
  moreover have "confined A r (r(p := b))" using Cons.prems [of 0] by (intro upd_confined) simp
  ultimately show ?case using confined_trans by auto
qed simp

lemma short_name_loop_length: "short_name_loop cs n x e out = Some name \<Longrightarrow> length name = length out"
  by (induction cs n x e out arbitrary: name rule: short_name_loop.induct) (fastforce split: if_splits)+

lemma make_short_name_length: "make_short_name path = Some name \<Longrightarrow> length name = 11"
  by (auto simp: make_short_name_def Let_def split: option.splits if_splits dest: short_name_loop_length)

lemma entry_byte:
  assumes "entry_ok s off" and "i < 32"
  shows "fs_data s + ucast off + of_nat i \<in> volume s"
proof -
  have "fs_data s + ucast off + of_nat i \<in> region (fs_data s + ucast off + 0) 32"
    using assms(2) by (auto simp: in_region_iff)
  with entry_sub [OF assms(1), of 0 32] show ?thesis by auto
qed

lemma set_first_cluster_confined: "entry_ok s off \<Longrightarrow> confined (volume s) r (entry_set_first_cluster (fs_data s + ucast off) c r)"
  unfolding entry_set_first_cluster_def by (intro confined_trans [OF wr16_confined wr16_confined] entry_sub) simp_all

lemma set_size_confined: "entry_ok s off \<Longrightarrow> confined (volume s) r (wr32 (fs_data s + ucast off + 28) v r)"
  by (intro wr32_confined entry_sub) simp_all

lemma new_entry_confined:
  assumes "entry_ok s off" and "length name = 11"
  shows "confined (volume s) r (entry_set_first_cluster (fs_data s + ucast off) 0
    (wr32 (fs_data s + ucast off + 28) 0 ((put_bytes (fs_data s + ucast off) name (memset (fs_data s + ucast off) 0 32 r))(fs_data s + ucast off + 11 := v))))"
proof -
  let ?e = "fs_data s + ucast off"
  have m: "confined (volume s) r (memset ?e 0 32 r)"
    using entry_sub [OF assms(1), of 0 32] by (intro memset_confined) simp
  have p: "confined (volume s) r (put_bytes ?e name r)" for r
    using entry_byte [OF assms(1)] assms(2) by (intro put_bytes_confined) simp
  have u: "confined (volume s) r (r(?e + 11 := v))" for r
    using entry_byte [OF assms(1), of 11] by (intro upd_confined) simp
  show ?thesis
    by (rule confined_trans [OF confined_trans [OF confined_trans [OF confined_trans [OF m p] u] set_size_confined [OF assms(1)]]
          set_first_cluster_confined [OF assms(1)]])
qed

lemma truncate_confined:
  assumes "(let first = entry_first_cluster (fs_data s + ucast off) r in
    bind_outcome (if first \<noteq> 0 then of_option (free_chain s first r) else Ret r) (\<lambda>r.
      Ret (wr32 (fs_data s + ucast off + 28) 0 (entry_set_first_cluster (fs_data s + ucast off) 0 r)))) = Ret r'" and "entry_ok s off"
  shows "confined (volume s) r r'"
proof -
  let ?first = "entry_first_cluster (fs_data s + ucast off) r"
  from assms(1) obtain r1 where "(if ?first \<noteq> 0 then of_option (free_chain s ?first r) else Ret r) = Ret r1"
    and r': "r' = wr32 (fs_data s + ucast off + 28) 0 (entry_set_first_cluster (fs_data s + ucast off) 0 r1)"
    unfolding Let_def bind_outcome_Ret_iff by blast
  then have "confined (volume s) r r1" by (auto split: if_splits dest: free_chain_confined)
  then show ?thesis unfolding r'
    by (rule confined_trans [OF confined_trans [OF _ set_first_cluster_confined [OF assms(2)]] set_size_confined [OF assms(2)]])
qed

lemma fs_open_ok:
  assumes "fs_open path flags s r = Ret (fd, s', r')" and "fs_ok s"
  shows "fs_ok s' \<and> same_vol s s' \<and> confined (volume s) r r'"
proof (cases "fs_mode s = FS_MODE_FAT32 \<and> make_short_name path \<noteq> None")
  case True
  then obtain name where n: "make_short_name path = Some name" and m: "fs_mode s = FS_MODE_FAT32" by auto
  from assms(1) n m obtain found free where fe: "find_dir_entry s r name = Some (found, free)"
    by (auto simp: fs_open_def bind_outcome_Ret_iff)
  have ok: "(\<forall>e. found = Some e \<longrightarrow> entry_ok s e) \<and> (free = 0 \<or> entry_ok s free)"
    using find_dir_loop_ok [OF fe [unfolded find_dir_entry_def]] assms(2) by (simp add: fs_ok_def)
  show ?thesis
  proof (cases found)
    case None
    with assms(1) n m fe show ?thesis
      using file_slot_ok [OF assms(2)] new_entry_confined [OF _ make_short_name_length [OF n]] ok assms(2)
      by (auto simp: fs_open_def Let_def split_beta same_vol_def split: if_splits)
  next
    case (Some e)
    from Some ok have e: "entry_ok s e" by simp
    define t where "t = (let first = entry_first_cluster (fs_data s + ucast e) r in
      bind_outcome (if first \<noteq> 0 then of_option (free_chain s first r) else Ret r) (\<lambda>r.
        Ret (wr32 (fs_data s + ucast e + 28) 0 (entry_set_first_cluster (fs_data s + ucast e) 0 r))))"
    have "bind_outcome (if flags AND FS_O_TRUNC \<noteq> 0 then t else Ret r) (\<lambda>r. Ret (fst (file_slot flags e s r), snd (file_slot flags e s r), r)) = Ret (fd, s', r')"
      using assms(1) n m fe Some by (simp only: fs_open_def t_def Let_def split_beta) simp
    moreover have "t = Ret r' \<Longrightarrow> confined (volume s) r r'" unfolding t_def by (rule truncate_confined [OF _ e])
    ultimately have "confined (volume s) r r' \<and> s' = snd (file_slot flags e s r')"
      by (cases "flags AND FS_O_TRUNC = 0") (auto simp: bind_outcome_Ret_iff)
    with file_slot_ok [OF assms(2) e] show ?thesis by simp
  qed
qed (use assms in \<open>auto simp: fs_open_def same_vol_def split: option.splits if_splits\<close>)

section \<open>Reading and writing files\<close>

lemma loop_sub:
  assumes "cluster_size s \<noteq> 0" and "dn < len"
  shows "region (buf + dn) (next_chunk s (ucast ((ucast (pos :: u32) :: u64) mod cluster_size s)) (len - dn)) \<subseteq> region buf len"
proof (rule region_sub)
  have "unat (next_chunk s (ucast ((ucast pos :: u64) mod cluster_size s)) (len - dn)) \<le> unat (len - dn)"
    using assms by (intro next_chunk_bounds(2)) auto
  then show "unat dn + unat (next_chunk s (ucast ((ucast pos :: u64) mod cluster_size s)) (len - dn)) \<le> unat len"
    using assms(2) by (simp add: unat_sub word_less_nat_alt)
qed

lemma read_loop_ok:
  "read_loop fd buf len dn s r = Ret (d, s', r') \<Longrightarrow> fs_ok s \<Longrightarrow>
    fs_ok s' \<and> same_vol s s' \<and> confined (volume s \<union> region buf len) r r'"
proof (induction fd buf len dn s r rule: read_loop.induct)
  case (1 fd buf len dn s r)
  let ?f = "fs_files s ! nat fd"
  let ?pos = "ucast (ucast (of_pos ?f) mod cluster_size s) :: u32"
  let ?cc = "chain_cluster s (first_cluster ?f) (ucast (ucast (of_pos ?f) div cluster_size s)) False r"
  let ?chunk = "next_chunk s ?pos (len - dn)"
  let ?off = "cluster_offset s (fst ?cc) + ucast ?pos"
  let ?g = "\<lambda>f. f\<lparr>of_pos := of_pos f + ucast ?chunk\<rparr>"
  let ?r2 = "memcpy (buf + dn) (fs_data s + ?off) ?chunk (snd ?cc)"
  have c: "confined (volume s \<union> region buf len) r (snd ?cc)" by (rule confined_mono [OF chain_cluster_confined]) simp
  show ?case
  proof (cases "dn < len \<and> cluster_size s \<noteq> 0 \<and> fst ?cc \<noteq> 0 \<and> range_ok s ?off ?chunk")
    case True
    with 1(2) have rec: "read_loop fd buf len (dn + ?chunk) (upd_file fd ?g s) ?r2 = Ret (d, s', r')"
      by (simp add: read_loop.simps [of fd buf len dn s r] Let_def split_beta)
    have u: "fs_ok (upd_file fd ?g s)" "same_vol s (upd_file fd ?g s)" using upd_file_ok [OF 1(3), of ?g] by simp_all
    have "confined (volume s \<union> region buf len) (snd ?cc) ?r2"
      using True loop_sub [of s dn len buf] by (intro memcpy_confined) auto
    with c have "confined (volume s \<union> region buf len) r ?r2" by (rule confined_trans)
    moreover have "fs_ok s' \<and> same_vol (upd_file fd ?g s) s' \<and> confined (volume (upd_file fd ?g s) \<union> region buf len) ?r2 r'"
      using True by (intro 1(1) [OF _ refl refl _ refl refl refl prod.collapse _ refl refl _ rec u(1)]) simp_all
    ultimately show ?thesis using u(2) by (auto simp: same_vol_volume [OF u(2)] same_vol_def intro: confined_trans)
  next
    case False
    with 1(2,3) c show ?thesis
      by (auto simp: read_loop.simps [of fd buf len dn s r] Let_def split_beta same_vol_def split: if_splits)
  qed
qed

lemma write_loop_ok:
  "write_loop fd buf len dn s r = Ret (d, s', r') \<Longrightarrow> fs_ok s \<Longrightarrow>
    fs_ok s' \<and> same_vol s s' \<and> confined (volume s) r r' \<and> (fs_fd_ok s fd \<longrightarrow> fs_fd_ok s' fd)"
proof (induction fd buf len dn s r rule: write_loop.induct)
  case (1 fd buf len dn s r)
  let ?f = "fs_files s ! nat fd"
  let ?pos = "ucast (ucast (of_pos ?f) mod cluster_size s) :: u32"
  let ?cc = "chain_cluster s (first_cluster ?f) (ucast (ucast (of_pos ?f) div cluster_size s)) True r"
  let ?chunk = "next_chunk s ?pos (len - dn)"
  let ?off = "cluster_offset s (fst ?cc) + ucast ?pos"
  let ?g = "\<lambda>f. let pos = of_pos f + ucast ?chunk in f\<lparr>of_pos := pos, of_size := (if of_size f < pos then pos else of_size f)\<rparr>"
  let ?r2 = "memcpy (fs_data s + ?off) (buf + dn) ?chunk (snd ?cc)"
  have c: "confined (volume s) r (snd ?cc)" by (rule chain_cluster_confined)
  show ?case
  proof (cases "dn < len \<and> cluster_size s \<noteq> 0 \<and> fst ?cc \<noteq> 0 \<and> range_ok s ?off ?chunk")
    case True
    with 1(2) have rec: "write_loop fd buf len (dn + ?chunk) (upd_file fd ?g s) ?r2 = Ret (d, s', r')"
      by (simp add: write_loop.simps [of fd buf len dn s r] Let_def split_beta)
    have u: "fs_ok (upd_file fd ?g s)" "same_vol s (upd_file fd ?g s)" using upd_file_ok [OF 1(3), of ?g] by (simp_all add: Let_def)
    have fd: "fs_fd_ok s fd \<longrightarrow> fs_fd_ok (upd_file fd ?g s) fd" using 1(3) by (auto simp: fs_fd_ok_def upd_file_def fs_ok_def Let_def)
    have "confined (volume s) (snd ?cc) ?r2" using True by (intro memcpy_confined range_ok_sub) simp
    with c have "confined (volume s) r ?r2" by (rule confined_trans)
    moreover have "fs_ok s' \<and> same_vol (upd_file fd ?g s) s' \<and> confined (volume (upd_file fd ?g s)) ?r2 r' \<and> (fs_fd_ok (upd_file fd ?g s) fd \<longrightarrow> fs_fd_ok s' fd)"
      using True by (intro 1(1) [OF _ refl refl _ refl refl refl prod.collapse _ refl refl _ rec u(1)]) simp_all
    ultimately show ?thesis using u(2) fd by (auto simp: same_vol_volume [OF u(2)] same_vol_def intro: confined_trans)
  next
    case False
    with 1(2,3) c show ?thesis
      by (auto simp: write_loop.simps [of fd buf len dn s r] Let_def split_beta same_vol_def split: if_splits)
  qed
qed

lemma fs_read_fd_ok:
  assumes "fs_read_fd fd buf len s r = Ret (n, s', r')" and "fs_ok s"
  shows "fs_ok s' \<and> same_vol s s' \<and> confined (volume s \<union> region buf len) r r'"
proof -
  define f where "f = fs_files s ! nat fd"
  define l where "l = (if ucast (of_size f - of_pos f) < len then ucast (of_size f - of_pos f) else len)"
  have sub: "region buf l \<subseteq> region buf len" using region_sub [of 0 l len buf] by (simp add: l_def word_less_nat_alt)
  consider "s' = s" "r' = r" | d where "read_loop fd buf l 0 s r = Ret (d, s', r')"
    using assms(1) by (auto simp: fs_read_fd_def Let_def bind_outcome_Ret_iff f_def [symmetric] l_def [symmetric] split: if_splits)
  then show ?thesis
  proof cases
    case 2
    from read_loop_ok [OF this assms(2)] sub show ?thesis by (auto intro: confined_mono)
  qed (use assms(2) in \<open>simp add: same_vol_def\<close>)
qed

text \<open>The state from which the loop of a write starts: a file without a cluster gets one.\<close>

definition write_start :: "int \<Rightarrow> fs_state \<Rightarrow> ram \<Rightarrow> fs_state \<times> ram" where
  "write_start fd s r =
     (if first_cluster (fs_files s ! nat fd) = 0 then
        let (c, r) = alloc_cluster s r in (upd_file fd (\<lambda>f. f\<lparr>first_cluster := c\<rparr>) s, r)
      else (s, r))"

lemma write_start_ok:
  assumes "fs_ok s" and "fs_fd_ok s fd"
  shows "fs_ok (fst (write_start fd s r)) \<and> same_vol s (fst (write_start fd s r)) \<and>
    confined (volume s) r (snd (write_start fd s r)) \<and> fs_fd_ok (fst (write_start fd s r)) fd"
proof -
  have "fs_fd_ok (upd_file fd (\<lambda>f. f\<lparr>first_cluster := c\<rparr>) s) fd" for c
    using assms by (auto simp: fs_fd_ok_def upd_file_def fs_ok_def)
  moreover have "fs_ok (upd_file fd (\<lambda>f. f\<lparr>first_cluster := c\<rparr>) s)" "same_vol s (upd_file fd (\<lambda>f. f\<lparr>first_cluster := c\<rparr>) s)" for c
    using upd_file_ok [OF assms(1), of "\<lambda>f. f\<lparr>first_cluster := c\<rparr>"] by simp_all
  ultimately show ?thesis using assms alloc_cluster_confined by (simp add: write_start_def split_beta same_vol_def)
qed

lemma fs_write_fd_ok:
  assumes "fs_write_fd fd buf len s r = Ret (n, s', r')" and "fs_ok s"
  shows "fs_ok s' \<and> same_vol s s' \<and> confined (volume s) r r'"
proof (cases "fs_fd_ok s fd")
  case True
  define s1 r1 where "s1 = fst (write_start fd s r)" and "r1 = snd (write_start fd s r)"
  have ok: "fs_ok s1" "same_vol s s1" "confined (volume s) r r1" "fs_fd_ok s1 fd"
    using write_start_ok [OF assms(2) True] by (simp_all add: s1_def r1_def)
  let ?e = "\<lambda>s. fs_data s + ucast (dir_entry_offset (fs_files s ! nat fd))"
  consider "s' = s" "r' = r" | "s' = s1" "r' = r1"
    | d r2 where "write_loop fd buf len 0 s1 r1 = Ret (d, s', r2)"
        "r' = wr32 (?e s' + 28) (of_size (fs_files s' ! nat fd)) (entry_set_first_cluster (?e s') (first_cluster (fs_files s' ! nat fd)) r2)"
    using assms(1) unfolding fs_write_fd_def write_start_def [symmetric]
    by (auto simp: Let_def split_beta bind_outcome_Ret_iff s1_def [symmetric] r1_def [symmetric] split: if_splits)
  then show ?thesis
  proof cases
    case (3 d r2)
    from write_loop_ok [OF 3(1) ok(1)] ok have w: "fs_ok s'" "same_vol s1 s'" "confined (volume s1) r1 r2" "fs_fd_ok s' fd" by simp_all
    then have "fs_files s' ! nat fd \<in> set (fs_files s')" "of_used (fs_files s' ! nat fd)" by (auto simp: fs_fd_ok_def fs_ok_def)
    with w(1) have e: "entry_ok s' (dir_entry_offset (fs_files s' ! nat fd))" by (simp add: fs_ok_def)
    have v: "volume s1 = volume s" "volume s' = volume s" using same_vol_volume ok(2) w(2) by metis+
    have "confined (volume s') r2 r'" unfolding 3(2)
      by (rule confined_trans [OF set_first_cluster_confined [OF e] set_size_confined [OF e]])
    with ok(3) w(3) have "confined (volume s) r r'" unfolding v by (blast intro: confined_trans)
    with w ok show ?thesis by (simp add: same_vol_def)
  qed (use assms(2) ok in \<open>simp_all add: same_vol_def\<close>)
qed (use assms in \<open>auto simp: fs_write_fd_def same_vol_def\<close>)

section \<open>Sequences of operations\<close>

text \<open>
  A call of one of the operations, with \<open>A\<close> the buffers the callers hand to the reads. The raw write is one whose
  end does not wrap around the 64-bit offset; the clamp of its length is wrong otherwise.
\<close>

inductive fs_step :: "addr set \<Rightarrow> fs_state \<times> ram \<Rightarrow> fs_state \<times> ram \<Rightarrow> bool" for A where
  step_read: "region buf len \<subseteq> A \<Longrightarrow> fs_step A (s, r) (s, snd (fs_read off buf len s r))"
| step_write: "unat off + unat len < 2 ^ 64 \<Longrightarrow> fs_step A (s, r) (s, snd (fs_write off src len s r))"
| step_open: "fs_open path flags s r = Ret (fd, s', r') \<Longrightarrow> fs_step A (s, r) (s', r')"
| step_read_fd: "fs_read_fd fd buf len s r = Ret (n, s', r') \<Longrightarrow> region buf len \<subseteq> A \<Longrightarrow> fs_step A (s, r) (s', r')"
| step_write_fd: "fs_write_fd fd buf len s r = Ret (n, s', r') \<Longrightarrow> fs_step A (s, r) (s', r')"
| step_lseek: "fs_step A (s, r) (snd (fs_lseek_fd fd off whence s), r)"
| step_close: "fs_step A (s, r) (snd (fs_close fd s), r)"

lemma fs_lseek_ok: "fs_ok s \<Longrightarrow> fs_ok (snd (fs_lseek_fd fd off whence s)) \<and> same_vol s (snd (fs_lseek_fd fd off whence s))"
  using upd_file_ok [of s "\<lambda>f. f\<lparr>of_pos := _\<rparr>"] by (auto simp: fs_lseek_fd_def Let_def same_vol_def)

lemma fs_close_ok: "fs_ok s \<Longrightarrow> fs_ok (snd (fs_close fd s)) \<and> same_vol s (snd (fs_close fd s))"
proof -
  assume "fs_ok s"
  then have "fs_ok (upd_file fd (\<lambda>_. no_file) s)"
    by (auto simp: fs_ok_def upd_file_def entry_ok_def no_file_def dest!: set_update_subset_insert [THEN subsetD])
  with \<open>fs_ok s\<close> show ?thesis by (simp add: fs_close_def same_vol_def upd_file_def)
qed

lemma fs_read_confined: "region buf len \<subseteq> A \<Longrightarrow> confined A r (snd (fs_read off buf len s r))"
proof -
  assume a: "region buf len \<subseteq> A"
  have "fs_size s < off + len \<Longrightarrow> off \<le> fs_size s \<Longrightarrow> unat (fs_size s - off) \<le> unat len"
    by (auto simp: word_less_nat_alt word_le_nat_alt unat_sub unat_plus_if' split: if_splits)
  then have "fs_size s < off + len \<Longrightarrow> off \<le> fs_size s \<Longrightarrow> region buf (fs_size s - off) \<subseteq> A"
    using region_sub [of 0 "fs_size s - off" len buf] a by auto
  with a show ?thesis by (auto simp: fs_read_def Let_def range_ok_def intro!: memcpy_confined)
qed

lemma fs_write_confined:
  assumes "unat off + unat len < 2 ^ 64"
  shows "confined (volume s) r (snd (fs_write off src len s r))"
proof (cases "src = 0 \<or> \<not> range_ok s off 0")
  case False
  have "unat (off + len) = unat off + unat len" using assms by (simp add: unat_add64)
  then have "range_ok s off (if fs_size s < off + len then fs_size s - off else len)"
    using False by (auto simp: range_ok_def word_le_nat_alt word_less_nat_alt unat_sub)
  from memcpy_confined [OF range_ok_sub [OF this]] False show ?thesis by (simp add: fs_write_def Let_def)
qed (simp add: fs_write_def)

lemma fs_step_ok:
  assumes "fs_step A x y" and "fs_ok (fst x)"
  shows "fs_ok (fst y) \<and> same_vol (fst x) (fst y) \<and> confined (volume (fst x) \<union> A) (snd x) (snd y)"
  using assms
proof cases
  case (step_read_fd fd buf len s r n s' r')
  from fs_read_fd_ok [OF this(3)] assms(2) step_read_fd show ?thesis by (auto intro: confined_mono)
next
  case (step_read buf len s r off)
  with assms(2) fs_read_confined [of buf len "volume s \<union> A"] show ?thesis by (auto simp: same_vol_def)
next
  case (step_write off len s r src)
  with assms(2) fs_write_confined [of off len s r src] show ?thesis by (auto simp: same_vol_def intro: confined_mono)
qed (use fs_open_ok fs_write_fd_ok fs_lseek_ok fs_close_ok in \<open>fastforce intro: confined_mono\<close>)+

interpretation fat_volume: confined_system "fs_step A" "\<lambda>x. fs_ok (fst x)" "\<lambda>x. volume (fst x) \<union> A" snd for A
  by unfold_locales (use fs_step_ok same_vol_volume in blast)+

text \<open>C37: From the mount of a storage of at most 4 GiB on, every sequence of raw reads, of raw writes whose offset and
  length have a sum below 2^64, and of operations on files, whatever
  bytes the storage holds, changes only bytes of the storage and of the buffers given to the reads. In particular no
  forged cluster number, chain or directory of the volume makes the kernel write elsewhere.
  (A raw write whose sum wraps around is not cut to the volume.)\<close>

theorem fs_confined:
  assumes "unat sz \<le> 2 ^ 32" and "(fs_step A)\<^sup>*\<^sup>* (fs_mount p sz s r, r) (s', r')"
  shows "confined (region p sz \<union> A) r r'"
  using fat_volume.steps_confined [OF assms(2)] fs_mount_ok [of sz p s r] assms(1) by (simp add: volume_def)

text \<open>A FAT32 volume of eight sectors with an empty root directory in its first cluster.\<close>

definition demo_volume :: ram where
  "demo_volume = (\<lambda>p. case map_of [(12, 2), (13, 1), (14, 1), (16, 1), (32, 8), (36, 1), (44, 2),
     (82, 0x46), (83, 0x41), (84, 0x54), (85, 0x33), (86, 0x32), (510, 0x55), (511, 0xAA),
     (520, 0xFF), (521, 0xFF), (522, 0xFF), (523, 0x0F)] (p - 0x100000) of None \<Rightarrow> 0 | Some b \<Rightarrow> b)"

definition demo_fs :: fs_state where
  "demo_fs = fs_mount 0x100000 4096 \<lparr>fs_data = 0, fs_size = 0, fs_mode = FS_MODE_NONE, fat = no_fat, fs_files = [], fs_out = []\<rparr> demo_volume"

lemma demo_fs_fields:
  "fs_data demo_fs = 0x100000" "fs_size demo_fs = 4096" "fs_mode demo_fs = FS_MODE_FAT32" "fs_files demo_fs = replicate FS_MAX_OPEN no_file"
  "fat demo_fs = \<lparr>bytes_per_sector = 512, sectors_per_cluster = 1, reserved_sectors = 1, fat_count = 1, sectors_per_fat = 1,
     total_sectors = 8, root_cluster = 2, first_data_sector = 2, total_clusters = 6\<rparr>"
  by (simp_all add: demo_fs_def fs_mount_def fat32_parse_def demo_volume_def rd16_def rd32_def range_ok_def Let_def)

lemma demo_find: "find_dir_entry demo_fs demo_volume name = Some (None, 1024)"
proof -
  have "cluster_offset demo_fs 2 = 1024" "cluster_size demo_fs = 512"
    by (simp_all add: demo_fs_fields cluster_offset_def cluster_size_def Let_def)
  moreover have "scan_entries demo_fs demo_volume name 1024 [0..<16] 0 = End_Of_Dir 1024"
    by (simp add: upt_conv_Cons demo_fs_fields demo_volume_def)
  ultimately show ?thesis unfolding find_dir_entry_def
    by (subst find_dir_loop.simps) (simp add: demo_fs_fields range_ok_def)
qed

lemma demo_name: "make_short_name (Some ''A'') = Some [0x41, 32, 32, 32, 32, 32, 32, 32, 32, 32, 32]"
  by code_simp

lemma demo_open:
  "\<exists>s' r'. fs_open (Some ''A'') 0x13 demo_fs demo_volume = Ret (0, s', r') \<and> r' 0x100400 = 0x41"
proof -
  have "find_slot (\<lambda>f. \<not> of_used f) (fs_files demo_fs) = Some 0" by (simp add: demo_fs_fields no_file_def FS_MAX_OPEN_def)
  moreover have "(0x13 :: int) AND FS_O_CREAT \<noteq> 0" by (simp add: FS_O_CREAT_def)
  ultimately show ?thesis
    by (simp add: fs_open_def demo_fs_fields demo_name demo_find file_slot_def Let_def entry_set_first_cluster_def wr16_def wr32_def)
qed

theorem fs_confined_witness:
  "\<exists>s' r'. fs_open (Some ''A'') 0x13 demo_fs demo_volume = Ret (0, s', r') \<and> r' 0x100400 = 0x41 \<and> r' 0x2000 = 0"
proof -
  from demo_open obtain s' r' where o: "fs_open (Some ''A'') 0x13 demo_fs demo_volume = Ret (0, s', r')" "r' 0x100400 = 0x41" by blast
  have "(fs_step {})\<^sup>*\<^sup>* (demo_fs, demo_volume) (s', r')" using fs_step.step_open [OF o(1)] by blast
  from fs_confined [OF _ this [unfolded demo_fs_def]] have "confined (region 0x100000 4096 \<union> {}) demo_volume r'" by simp
  moreover have "0x2000 \<notin> region 0x100000 4096" by (simp add: region_def)
  moreover have "demo_volume 0x2000 = 0" by (simp add: demo_volume_def)
  ultimately have "r' 0x2000 = 0" by (simp add: confined_def)
  with o show ?thesis by blast
qed

end
