(* ===== verification/Spec2Isabelle.thy ===== *)
theory Spec2Isabelle
  imports Proc_Props Elf_Props Boot_Props Module_Getc Script Fatfs Image_Props Fs_Props
begin

text \<open>
  A verification development for the ExoCore kernel, a small x86-64 kernel in C. It is a model of the
  C files under \<^verbatim>\<open>src/kernel\<close> and \<^verbatim>\<open>src/linkdep\<close> as functions of HOL, with theorems about it. The properties stand
  in the theories of the components they are about; this theory collects them.

  \<^bold>\<open>The program.\<close> The boot code calls \<open>kernel_main\<close> (\<^verbatim>\<open>main.c\<close>), which brings up the consoles, the heap, the interrupt
  table, the log, the file tree and the process table, runs a self test, and starts the first user program. All
  memory comes from one heap (\<^verbatim>\<open>mem.c\<close>). The memory contexts (\<^verbatim>\<open>memctx.c\<close>) are accounts on it, the file tree
  (\<^verbatim>\<open>vfs.c\<close>) keeps file contents in its blocks, and the process table (\<^verbatim>\<open>proc.c\<close>) uses both: a process has a memory
  context and descriptors of open files. The ELF loader (\<^verbatim>\<open>elf.c\<close>) builds the image of a process in blocks of its
  context. System calls (\<^verbatim>\<open>syscall.c\<close>), reached through interrupt 0x80 (\<^verbatim>\<open>idt.c\<close>), dispatch to all of them. Everything
  reports on the console (\<^verbatim>\<open>console.c\<close>), which sends every character to the serial line (\<^verbatim>\<open>serial.c\<close>), to a
  scroll-back buffer on the VGA text screen or the framebuffer (\<^verbatim>\<open>framebuffer.c\<close>), and to the log (\<^verbatim>\<open>debuglog.c\<close>).

  \<^bold>\<open>Conventions.\<close> The theory \<open>Kernel_Prelude\<close> has them. Unsigned integers and pointers are words of their C width, so that
  sums wrap around as in C; \<open>int\<close> and \<open>long\<close> values are integers, and the coordinates of \<^verbatim>\<open>vga_draw.c\<close> are cut to 32 bits after every
  operation. RAM is a function from 64-bit addresses to bytes; structures that
  live in RAM are read and written byte by byte (\<open>Bytes\<close>). The static variables of a C file are the fields of one
  record, and a function of the file takes and returns this record. A call has an \<open>outcome\<close>: \<open>Ret\<close> with its result, \<open>Panic\<close> with
  the message of \<open>panic\<close>, or \<open>Diverge\<close>. A C string argument is the string it designates, \<open>None\<close> for a null pointer. A loop
  that need not end is a partial function, and not ending is its value \<open>None\<close>; there is no fuel anywhere, and where a loop
  ends under conditions, that it does is proved. A loop over a counter is a fold or a recursion over the list of
  its indices, which is the bound the code has. Output on the console from the heap and the FAT
  volume, which are below the console, is recorded as a list of calls.

  \<^bold>\<open>Utilities.\<close> \<open>Memutils\<close> models \<^verbatim>\<open>memutils.c\<close>: copying and filling get their effect on every byte, the string routines
  their meaning on the strings in memory (C11). \<open>Hardware\<close> models port access, disk and keyboard
  (\<^verbatim>\<open>linkdep/io.c\<close>, \<^verbatim>\<open>ata_pio.c\<close>, \<^verbatim>\<open>ps2kbd.c\<close>): what a device answers to the n-th access is a parameter, and the outputs are recorded.

  \<^bold>\<open>Heap.\<close> \<open>Mem\<close> models \<^verbatim>\<open>mem.c\<close>; the block headers are a store indexed by address, beside RAM, so a write to RAM cannot damage a
  header in the model as it can in C. \<open>Heap_Steps\<close> states where this is sound: no byte of a live block is a byte of a header, and
  the operations of contexts and files change the heap only by calls of the allocator and by writes inside live blocks, if the
  buffers they are told to fill lie in live blocks. The properties of reachable states (C16, C24) assume this of the buffers and conclude it
  of every change of the heap. \<open>Mem_List\<close> relates the
  pointer walks to lists, \<open>Mem_Tiling\<close> shows that the blocks tile the two arenas, \<open>Mem_Inv\<close>, \<open>Mem_Alloc\<close> and \<open>Mem_Free\<close> prove the
  invariant and the refinement to a map from live pointers to sizes. The locale \<open>allocator\<close> of \<open>Allocator\<close> is the contract for the
  clients, and \<open>Mem_Spec\<close> interprets it as \<open>kheap\<close> on \<open>mem_alloc\<close> and \<open>mem_free\<close>. The properties in \<open>Mem_Props\<close> and \<open>Mem_Apps\<close>
  are the refinements of allocation and release (C1, C2), the initial state (C3), the errors that are detected (C4, C5),
  when an allocation fails and which block it takes (C6, C7), the accounts (C8), saved blocks of applications (C9),
  the locks of the video memory (C10), and that the bound of 2^62 bytes on requests is needed (C12): beyond it, any live block can be handed out a second time.

  \<^bold>\<open>Contexts, files, processes.\<close> \<open>Memctx\<close> models \<^verbatim>\<open>memctx.c\<close> over any allocator (C13 to C15). \<open>Vfs\<close> models \<^verbatim>\<open>vfs.c\<close>; \<open>Vfs_Inv\<close> and
  \<open>Vfs_Data\<close> prove its invariant and what happens to file contents, \<open>Heap_Steps\<close> what files and contexts do to the heap; \<open>Vfs_Props\<close> has the reachable states, the round trips,
  termination, and three cases in which the code does not do what a caller expects (C16 to C23). \<open>Proc\<close> and \<open>Proc_Exec\<close> model
  \<^verbatim>\<open>proc.c\<close>; \<open>Proc_Inv\<close> ties the invariants of heap, contexts, files and table together, \<open>Proc_Steps\<close> proves that all operations
  keep them, \<open>Proc_Props\<close> has the reachable states, exit and wait, the protection of init, and shared descriptors
  (C24 to C27). The steps of C24 include attaching a loaded image, not loading one from a file or running it. \<open>Elf\<close> models \<^verbatim>\<open>elf.c\<close>, and \<open>Elf_Props\<close> characterises the accepted files without machine arithmetic (C29).

  \<^bold>\<open>Consoles and screens.\<close> \<open>Console\<close> models \<^verbatim>\<open>console.c\<close>, \<^verbatim>\<open>serial.c\<close> and \<^verbatim>\<open>debuglog.c\<close>, which call each other. The locale
  \<open>console_keeps\<close> of \<open>Console_Ops\<close> lifts an invariant from single characters to all operations; it is interpreted for the text
  buffer, the log and the serial line (C31 to C34). \<open>Console_Frame\<close> shows that the console leaves the heap alone. \<open>Framebuffer\<close>
  with \<open>Font\<close> models \<^verbatim>\<open>framebuffer.c\<close>, \<open>Vga_Draw\<close> models \<^verbatim>\<open>vga_draw.c\<close>, \<open>Exoimg\<close> and \<open>Bootlogo\<close> the image files and the boot picture,
  \<open>Panic_Screen\<close> models \<^verbatim>\<open>panic.c\<close>. The locale \<open>confined_system\<close> of \<open>Confined\<close> says that a system changes only its own
  part of RAM; it is interpreted for the framebuffer (C36) and for the FAT32 volume of \<open>Fs\<close>, which models \<^verbatim>\<open>fs.c\<close> (C37). C28 is
  the line drawing and C40 the reading of images.

  \<^bold>\<open>System calls, interrupts, boot.\<close> \<open>Syscall\<close> models \<^verbatim>\<open>syscall.c\<close> over the state \<open>system\<close> of all components, \<open>Idt\<close> models \<^verbatim>\<open>idt.c\<close>;
  an interrupt 0x80 is the dispatcher on the saved registers (C38), and calls with arguments that are
  not allowed change nothing (C39). \<open>Launchd\<close>, \<open>Mpy_Loader\<close>, \<open>Script\<close>, \<open>Fatfs\<close>, \<open>Module_Getc\<close> model \<^verbatim>\<open>launchd.c\<close>, \<^verbatim>\<open>mpy_loader.c\<close> with
  \<^verbatim>\<open>modexec.c\<close> (C35), \<^verbatim>\<open>script.c\<close>, \<^verbatim>\<open>fatfs.c\<close> and the input library of modules; \<open>Selftest\<close> models \<^verbatim>\<open>backend_test.c\<close>, and \<open>Boot\<close> models
  \<open>kernel_main\<close>, whose memory stage is shown to return with a valid heap (C30), and which stops without the information of the
  boot loader (\<open>kernel_main_refuses\<close>).

  \<^bold>\<open>Bounds.\<close> The hypotheses on sizes are those the code needs: the heap lies in the lower half of the address space,
  requests have at most 2^62 bytes, files end below 2^61, a FAT32 volume has at most 4 GiB because directory entries are remembered by
  32-bit offsets, a raw write to it has an offset and a length whose sum does not wrap around, a framebuffer has less than 4 GiB because
  pixel offsets have 32 bits, and the end points of a line have coordinates of at most 2^28 in absolute value, so that no 32-bit operation overflows.

  \<^bold>\<open>Parameters.\<close> The devices, the machine code of user programs, the MicroPython runtime, the addresses the linker and
  the compiler choose, the page table routine and the interrupt entries of the assembly files, and the data the build
  embeds. Theorems about calls into user code or the runtime hold for every such function.

  \<^bold>\<open>Not modelled.\<close> The assembly files and the linker script: they are machine code whose effect the parameters stand for. The glue
  \<^verbatim>\<open>micropython.c\<close> and the native modules under \<^verbatim>\<open>mpymod\<close>: they convert between objects of the vendored interpreter, which is not
  modelled, and arguments of modelled functions. The branches for hosted builds of \<^verbatim>\<open>debuglog.c\<close> and \<^verbatim>\<open>panic.c\<close>, and the branch of \<^verbatim>\<open>main.c\<close> for
  the run directory, which are not compiled into the kernel. User programs, tools and tests. The processor runs one
  call at a time: the kernel never enables hardware interrupts, so no interrupt during kernel code is modelled. The loss of bytes that overlap between RAM used by different components, such as a
  framebuffer placed over the heap by the boot loader, is visible in the model but excluded by no theorem.
\<close>

end
